(* ===== verification/Prelude.thy ===== *)
theory Prelude
  imports Main
begin

text \<open>
  The prelude of the development: the collections of rewrite rules the component theories
  extend, the type names they share, and generic lemmas on lists and options.

  Strings are Go strings, that is byte sequences: \<open>string\<close> is a list of \<open>char\<close>, and a \<open>char\<close>
  is one byte.  Message, batch and row ids are Go's \<open>int64\<close>, kept as \<open>int\<close>; the few sums that can
  leave the 64-bit range are wrapped by \<open>wrap64\<close>, written out below.  A time is a number of
  microseconds since the Unix epoch, the resolution at which the program reads its clock.
\<close>

named_theorems go_string \<open>computation rules of the modelled Go string functions\<close>
named_theorems act_simps \<open>computation rules of request actions\<close>
named_theorems row_simps \<open>effect of the table operations on the tables\<close>

type_synonym time = int

subsection \<open>64-bit signed arithmetic\<close>

definition wrap64 :: "int \<Rightarrow> int" where
  "wrap64 x = (x + 2 ^ 63) mod 2 ^ 64 - 2 ^ 63"

lemma wrap64_id: "- (2 ^ 63) \<le> x \<Longrightarrow> x < 2 ^ 63 \<Longrightarrow> wrap64 x = x"
  by (simp add: wrap64_def)

lemma wrap64_range: "- (2 ^ 63) \<le> wrap64 x \<and> wrap64 x < 2 ^ 63"
proof -
  have "0 \<le> (x + 2 ^ 63) mod 2 ^ 64" and "(x + 2 ^ 63) mod 2 ^ 64 < (2 ^ 64 :: int)"
    by (rule pos_mod_sign, simp) (rule pos_mod_bound, simp)
  then show ?thesis by (simp add: wrap64_def)
qed

subsection \<open>Lists and options\<close>

definition opt_list :: "'a option \<Rightarrow> 'a list" where
  "opt_list x = (case x of None \<Rightarrow> [] | Some a \<Rightarrow> [a])"

lemma set_opt_list [simp]: "set (opt_list x) = set_option x"
  by (cases x) (simp_all add: opt_list_def)

text \<open>The first element satisfying a predicate, as \<open>find\<close>, with the facts proofs need.\<close>

lemma find_Some_mem: "find P xs = Some x \<Longrightarrow> x \<in> set xs \<and> P x"
  by (induction xs) (auto split: if_splits)

lemma find_None_all: "find P xs = None \<longleftrightarrow> (\<forall>x \<in> set xs. \<not> P x)"
  by (induction xs) auto

lemma find_unique:
  assumes "x \<in> set xs" and "P x" and "\<And>y. y \<in> set xs \<Longrightarrow> P y \<Longrightarrow> y = x"
  shows "find P xs = Some x"
proof (cases "find P xs")
  case None
  with assms(1,2) show ?thesis by (auto simp: find_None_all)
next
  case (Some y)
  then have "y \<in> set xs" and "P y" by (auto dest: find_Some_mem)
  with assms(3) Some show ?thesis by simp
qed

text \<open>Updating the rows that satisfy a predicate: the model of an SQL \<open>UPDATE\<close>.\<close>

definition update_where :: "('a \<Rightarrow> bool) \<Rightarrow> ('a \<Rightarrow> 'a) \<Rightarrow> 'a list \<Rightarrow> 'a list" where
  "update_where P f xs = map (\<lambda>x. if P x then f x else x) xs"

definition delete_where :: "('a \<Rightarrow> bool) \<Rightarrow> 'a list \<Rightarrow> 'a list" where
  "delete_where P xs = filter (\<lambda>x. \<not> P x) xs"

lemma length_update_where [simp]: "length (update_where P f xs) = length xs"
  by (simp add: update_where_def)

lemma update_where_none: "(\<And>x. x \<in> set xs \<Longrightarrow> \<not> P x) \<Longrightarrow> update_where P f xs = xs"
  by (simp add: update_where_def map_idI)

lemma filter_update_where:
  assumes "\<And>x. Q (f x) = Q x"
  shows "filter Q (update_where P f xs) = update_where P f (filter Q xs)"
  by (induction xs) (simp_all add: update_where_def assms)

lemma map_update_where:
  assumes "\<And>x. g (f x) = g x"
  shows "map g (update_where P f xs) = map g xs"
  by (induction xs) (simp_all add: update_where_def assms)

lemma set_delete_where [simp]: "set (delete_where P xs) = {x \<in> set xs. \<not> P x}"
  by (simp add: delete_where_def)

lemma mem_update_where:
  "y \<in> set (update_where P f xs) \<longleftrightarrow> (\<exists>x \<in> set xs. y = (if P x then f x else x))"
  by (auto simp: update_where_def)

lemma distinct_map_filter: "distinct (map f xs) \<Longrightarrow> distinct (map f (filter P xs))"
  by (induction xs) auto

lemma distinct_map_key:
  "distinct (map f xs) \<Longrightarrow> x \<in> set xs \<Longrightarrow> y \<in> set xs \<Longrightarrow> f x = f y \<Longrightarrow> x = y"
  by (simp add: distinct_map inj_on_def)

lemma takeWhile_append_found: "c \<notin> set xs \<Longrightarrow> takeWhile (\<lambda>x. x \<noteq> c) (xs @ c # ys) = xs"
  by (induction xs) auto

lemma dropWhile_append_found: "c \<notin> set xs \<Longrightarrow> dropWhile (\<lambda>x. x \<noteq> c) (xs @ c # ys) = c # ys"
  by (induction xs) auto

lemma split_last_unique:
  assumes "c \<notin> set a" and "c \<notin> set b" and "p @ c # a = q @ c # b"
  shows "p = q \<and> a = b"
proof -
  have "rev a @ c # rev p = rev b @ c # rev q"
    using arg_cong[OF assms(3), of rev] by simp
  moreover have "takeWhile (\<lambda>x. x \<noteq> c) (rev a @ c # rev p) = rev a"
    and "takeWhile (\<lambda>x. x \<noteq> c) (rev b @ c # rev q) = rev b"
    using assms(1,2) by (simp_all add: takeWhile_append_found)
  ultimately have "rev a = rev b" by simp
  then have "a = b" by simp
  with assms(3) show ?thesis by simp
qed

lemma split_first_unique:
  assumes "c \<notin> set a" and "c \<notin> set b" and "a @ c # p = b @ c # q"
  shows "a = b \<and> p = q"
proof -
  have "takeWhile (\<lambda>x. x \<noteq> c) (a @ c # p) = a" and "takeWhile (\<lambda>x. x \<noteq> c) (b @ c # q) = b"
    using assms(1,2) by (simp_all add: takeWhile_append_found)
  with assms(3) have "a = b" by simp
  with assms(3) show ?thesis by simp
qed

end
