(* ===== verification/GoText.thy ===== *)
theory GoText
  imports GoStrings
begin

text \<open>
  Text forms of values, as the Go standard library writes and reads them: decimal integers
  (\<open>strconv.ParseInt\<close> with base 10 and 64 bits, \<open>strconv.Itoa\<close>), hexadecimal bytes
  (\<open>encoding/hex\<close>) and UTF-8 (\<open>unicode/utf8\<close>), with the round trips the components use.
\<close>

subsection \<open>Decimal integers\<close>

definition is_digit :: "char \<Rightarrow> bool" where
  "is_digit c \<longleftrightarrow> 48 \<le> byte c \<and> byte c \<le> 57"

definition digit_char :: "nat \<Rightarrow> char" where
  "digit_char d = char_of (48 + d)"

fun digits_val :: "nat \<Rightarrow> string \<Rightarrow> nat" where
  "digits_val acc [] = acc"
| "digits_val acc (c # s) = digits_val (10 * acc + (byte c - 48)) s"

fun nat_digits :: "nat \<Rightarrow> string" where
  "nat_digits n = (if n < 10 then [digit_char n] else nat_digits (n div 10) @ [digit_char (n mod 10)])"

declare nat_digits.simps [simp del]

definition Itoa :: "int \<Rightarrow> string" where
  "Itoa i = (if i < 0 then CHR ''-'' # nat_digits (nat (- i)) else nat_digits (nat i))"

text \<open>\<open>strconv.ParseInt(s, 10, 64)\<close>: an optional sign, then decimal digits, in range.\<close>

definition ParseInt :: "string \<Rightarrow> int option" where
  "ParseInt s =
     (let neg = (s \<noteq> [] \<and> hd s = CHR ''-'');
          ds = (if s \<noteq> [] \<and> (hd s = CHR ''-'' \<or> hd s = CHR ''+'') then tl s else s);
          v = (if neg then - int (digits_val 0 ds) else int (digits_val 0 ds))
      in if ds = [] \<or> \<not> list_all is_digit ds \<or> v < - (2 ^ 63) \<or> 2 ^ 63 \<le> v then None else Some v)"

lemma digits_val_append: "digits_val acc (s @ [c]) = 10 * digits_val acc s + (byte c - 48)"
  by (induction s arbitrary: acc) auto

lemma byte_digit_char: "d < 10 \<Longrightarrow> byte (digit_char d) = 48 + d"
  by (simp add: digit_char_def)

lemma digits_val_nat_digits: "digits_val 0 (nat_digits n) = n"
proof (induction n rule: nat_digits.induct)
  case (1 n)
  show ?case
  proof (cases "n < 10")
    case True
    then show ?thesis by (simp add: nat_digits.simps [of n] byte_digit_char)
  next
    case False
    with 1 show ?thesis
      by (simp add: nat_digits.simps [of n] digits_val_append byte_digit_char)
  qed
qed

lemma nat_digits_digits: "list_all is_digit (nat_digits n)"
proof (induction n rule: nat_digits.induct)
  case (1 n)
  have d: "is_digit (digit_char d)" if "d < 10" for d :: nat
    using that by (simp add: is_digit_def byte_digit_char)
  show ?case
  proof (cases "n < 10")
    case True
    then show ?thesis by (simp add: nat_digits.simps [of n] d)
  next
    case False
    with 1 show ?thesis by (simp add: nat_digits.simps [of n] d)
  qed
qed

lemma nat_digits_nonempty: "nat_digits n \<noteq> []"
  by (subst nat_digits.simps) simp

lemma is_digit_not_sign: "is_digit c \<Longrightarrow> c \<noteq> CHR ''-'' \<and> c \<noteq> CHR ''+''"
  by (auto simp: is_digit_def)

lemma nat_digits_hd: "hd (nat_digits n) \<noteq> CHR ''-'' \<and> hd (nat_digits n) \<noteq> CHR ''+''"
  using nat_digits_digits [of n] nat_digits_nonempty [of n] is_digit_not_sign
  by (cases "nat_digits n") auto

lemma ParseInt_Itoa: "- (2 ^ 63) \<le> i \<Longrightarrow> i < 2 ^ 63 \<Longrightarrow> ParseInt (Itoa i) = Some i"
  using nat_digits_hd [of "nat i"] nat_digits_nonempty nat_digits_digits
  by (auto simp: ParseInt_def Itoa_def digits_val_nat_digits Let_def)

lemma ParseInt_range: "ParseInt s = Some v \<Longrightarrow> - (2 ^ 63) \<le> v \<and> v < 2 ^ 63"
  by (auto simp: ParseInt_def Let_def split: if_splits)

lemma Itoa_no_comma: "CHR '','' \<notin> set (Itoa i)"
proof -
  have "CHR '','' \<notin> set (nat_digits n)" for n
    using nat_digits_digits [of n] by (auto simp: list_all_iff is_digit_def)
  then show ?thesis by (simp add: Itoa_def)
qed

subsection \<open>Hexadecimal\<close>

definition hex_digit :: "nat \<Rightarrow> char" where
  "hex_digit d = (if d < 10 then char_of (48 + d) else char_of (87 + d))"

definition hex_value :: "char \<Rightarrow> nat option" where
  "hex_value c = (let b = byte c in
     if 48 \<le> b \<and> b \<le> 57 then Some (b - 48)
     else if 97 \<le> b \<and> b \<le> 102 then Some (b - 87)
     else if 65 \<le> b \<and> b \<le> 70 then Some (b - 55) else None)"

fun hex_encode :: "string \<Rightarrow> string" where
  "hex_encode [] = []"
| "hex_encode (c # s) = hex_digit (byte c div 16) # hex_digit (byte c mod 16) # hex_encode s"

fun hex_decode :: "string \<Rightarrow> string option" where
  "hex_decode [] = Some []"
| "hex_decode [c] = None"
| "hex_decode (a # b # s) = (case (hex_value a, hex_value b, hex_decode s) of
     (Some x, Some y, Some r) \<Rightarrow> Some (char_of (16 * x + y) # r) | _ \<Rightarrow> None)"

lemma hex_value_digit: "d < 16 \<Longrightarrow> hex_value (hex_digit d) = Some d"
  by (auto simp: hex_value_def hex_digit_def Let_def)

lemma of_char_less_256: "byte c < 256"
  using of_char_mod_256 [of c] by (metis mod_less_divisor zero_less_numeral)

lemma hex_decode_encode: "hex_decode (hex_encode s) = Some s"
proof (induction s)
  case Nil
  show ?case by simp
next
  case (Cons c s)
  have "byte c div 16 < 16"
    using of_char_less_256 [of c] by (simp add: less_mult_imp_div_less)
  with Cons show ?case by (simp add: hex_value_digit)
qed

lemma length_hex_encode [simp]: "length (hex_encode s) = 2 * length s"
  by (induction s) auto

lemma hex_decode_length: "hex_decode s = Some b \<Longrightarrow> length s = 2 * length b"
  by (induction s arbitrary: b rule: hex_decode.induct) (auto split: option.splits)

lemma hex_encode_inj: "hex_encode a = hex_encode b \<Longrightarrow> a = b"
  using hex_decode_encode by (metis option.inject)

subsection \<open>UTF-8\<close>

text \<open>
  \<open>utf8_step\<close> takes one rune off the front of a byte list: the code point and the bytes left, or
  \<open>None\<close> where \<open>utf8.Valid\<close> fails.  Overlong forms, surrogates and values above
  \<open>0x10FFFF\<close> are invalid, as in Go.
\<close>

definition cont_byte :: "nat \<Rightarrow> bool" where
  "cont_byte b \<longleftrightarrow> 128 \<le> b \<and> b \<le> 191"

fun utf8_step :: "nat list \<Rightarrow> (nat \<times> nat list) option" where
  "utf8_step [] = None"
| "utf8_step (a # s) =
    (if a < 128 then Some (a, s)
     else if 194 \<le> a \<and> a \<le> 223 then
       (case s of b # r \<Rightarrow> if cont_byte b then Some (64 * (a - 192) + (b - 128), r) else None
        | _ \<Rightarrow> None)
     else if 224 \<le> a \<and> a \<le> 239 then
       (case s of b # c # r \<Rightarrow>
          if cont_byte b \<and> cont_byte c \<and> (a = 224 \<longrightarrow> 160 \<le> b) \<and> (a = 237 \<longrightarrow> b \<le> 159)
          then Some (4096 * (a - 224) + 64 * (b - 128) + (c - 128), r) else None
        | _ \<Rightarrow> None)
     else if 240 \<le> a \<and> a \<le> 244 then
       (case s of b # c # d # r \<Rightarrow>
          if cont_byte b \<and> cont_byte c \<and> cont_byte d \<and> (a = 240 \<longrightarrow> 144 \<le> b) \<and> (a = 244 \<longrightarrow> b \<le> 143)
          then Some (262144 * (a - 240) + 4096 * (b - 128) + 64 * (c - 128) + (d - 128), r) else None
        | _ \<Rightarrow> None)
     else None)"

lemma utf8_step_shorter: "utf8_step s = Some (r, t) \<Longrightarrow> length t < length s"
  by (cases s) (auto split: if_splits list.splits)

function utf8_decode :: "nat list \<Rightarrow> nat list option" where
  "utf8_decode s = (if s = [] then Some [] else
     (case utf8_step s of None \<Rightarrow> None
      | Some (r, t) \<Rightarrow> map_option ((#) r) (utf8_decode t)))"
  by pat_completeness auto
termination
  by (relation "measure length") (auto dest: utf8_step_shorter)

declare utf8_decode.simps [simp del]

definition bytes_of :: "string \<Rightarrow> nat list" where
  "bytes_of s = map of_char s"

definition utf8_runes :: "string \<Rightarrow> nat list option" where
  "utf8_runes s = utf8_decode (bytes_of s)"

definition utf8_valid :: "string \<Rightarrow> bool" where
  "utf8_valid s \<longleftrightarrow> utf8_runes s \<noteq> None"

lemma utf8_decode_Nil [simp]: "utf8_decode [] = Some []"
  by (subst utf8_decode.simps) simp

lemma utf8_valid_Nil [simp]: "utf8_valid []"
  by (simp add: utf8_valid_def utf8_runes_def bytes_of_def)

text \<open>An ASCII string decodes to its bytes.\<close>

lemma utf8_decode_ascii: "list_all (\<lambda>b. b < 128) s \<Longrightarrow> utf8_decode s = Some s"
proof (induction s)
  case Nil
  show ?case by simp
next
  case (Cons a s)
  then show ?case by (subst utf8_decode.simps) simp
qed

end
