(* ===== verification/ApiKey.thy ===== *)
theory ApiKey
  imports GoText
begin

text \<open>
  API keys and sub-account addresses: \<open>src/internal/apiauth/apikey.go\<close> and
  \<open>src/internal/apiauth/subaccount.go\<close>.

  An API key is \<open>fmsgk_<id>_<secret>\<close> with both parts in unpadded base64; a sub-account address is
  \<open>@user_agent@domain\<close>.  The random bytes, the SHA-256 digest, the Unicode letter table beyond
  ASCII and the CIDR parser are arguments.  The lemmas show that a generated key parses back to its
  parts, that only well-formed keys parse, and that a derived address determines its owner and agent.
\<close>

subsection \<open>Base64 without padding\<close>

definition b64_char :: "nat \<Rightarrow> char" where
  "b64_char n = (if n < 26 then char_of (65 + n) else if n < 52 then char_of (71 + n)
     else if n < 62 then char_of (n - 4) else if n = 62 then CHR ''+'' else CHR ''/'')"

fun RawStdEncode :: "string \<Rightarrow> string" where
  "RawStdEncode [] = []"
| "RawStdEncode [a] = (let x = byte a in [b64_char (x div 4), b64_char (x mod 4 * 16)])"
| "RawStdEncode [a, b] = (let x = byte a; y = byte b in
     [b64_char (x div 4), b64_char (x mod 4 * 16 + y div 16), b64_char (y mod 16 * 4)])"
| "RawStdEncode (a # b # c # s) = (let x = byte a; y = byte b; z = byte c in
     b64_char (x div 4) # b64_char (x mod 4 * 16 + y div 16) # b64_char (y mod 16 * 4 + z div 64)
       # b64_char (z mod 64) # RawStdEncode s)"

lemma b64_char_not_underscore: "n < 64 \<Longrightarrow> b64_char n \<noteq> CHR ''_''"
proof
  assume n: "n < 64" and eq: "b64_char n = CHR ''_''"
  from eq have "byte (b64_char n) = (95 :: nat)" by simp
  with n show False by (simp add: b64_char_def split: if_splits)
qed

lemma underscore_not_b64: "n < 64 \<Longrightarrow> CHR ''_'' \<noteq> b64_char n"
  using b64_char_not_underscore by metis

lemma sextets:
  "byte a div 4 < 64" "byte a mod 4 * 16 < 64" "byte a mod 4 * 16 + byte b div 16 < 64"
  "byte a mod 16 * 4 < 64" "byte a mod 16 * 4 + byte b div 64 < 64" "byte a mod 64 < (64 :: nat)"
proof -
  have d: "byte x div 4 < 64" "byte x div 16 < 16" "byte x div 64 < 4" for x :: char
    using of_char_less_256 [of x] by (simp_all add: less_mult_imp_div_less)
  have m: "n mod 4 < 4" "n mod 16 < 16" "n mod 64 < 64" for n :: nat by simp_all
  show "byte a div 4 < 64" "byte a mod 64 < (64 :: nat)" by (rule d, rule m)
  show "byte a mod 4 * 16 < 64" using m(1) [of "byte a"] by linarith
  show "byte a mod 4 * 16 + byte b div 16 < 64" using m(1) [of "byte a"] d(2) [of b] by linarith
  show "byte a mod 16 * 4 < 64" using m(2) [of "byte a"] by linarith
  show "byte a mod 16 * 4 + byte b div 64 < 64" using m(2) [of "byte a"] d(3) [of b] by linarith
qed

lemma RawStdEncode_no_underscore: "CHR ''_'' \<notin> set (RawStdEncode s)"
  by (induction s rule: RawStdEncode.induct)
    (simp_all add: Let_def underscore_not_b64 sextets)

lemma RawStdEncode_nonempty: "s \<noteq> [] \<Longrightarrow> RawStdEncode s \<noteq> []"
  by (cases s rule: RawStdEncode.cases) (simp_all add: Let_def)

subsection \<open>Keys\<close>

record api_key =
  ID :: string
  Secret :: string
  Value :: string

definition KeyPrefix :: string where "KeyPrefix = ''fmsgk''"

text \<open>A call of \<open>rand.Read\<close> for \<open>n\<close> bytes gives them, or fails.\<close>

definition randomURLToken :: "(nat \<Rightarrow> string option) \<Rightarrow> nat \<Rightarrow> string option" where
  "randomURLToken rand n = (case rand n of None \<Rightarrow> None | Some b \<Rightarrow> Some (RawStdEncode b))"

definition GenerateAPIKey :: "(nat \<Rightarrow> string option) \<Rightarrow> (nat \<Rightarrow> string option) \<Rightarrow> api_key option" where
  "GenerateAPIKey rand1 rand2 = (case randomURLToken rand1 12 of None \<Rightarrow> None
     | Some i \<Rightarrow> (case randomURLToken rand2 32 of None \<Rightarrow> None
        | Some s \<Rightarrow> Some \<lparr>ID = i, Secret = s, Value = KeyPrefix @ ''_'' @ i @ ''_'' @ s\<rparr>))"

definition ParseAPIKey :: "string \<Rightarrow> api_key option" where
  "ParseAPIKey value = (case Split CHR ''_'' value of
     [p, i, s] \<Rightarrow> if p \<noteq> KeyPrefix \<or> i = [] \<or> s = [] then None
                  else Some \<lparr>ID = i, Secret = s, Value = value\<rparr>
   | _ \<Rightarrow> None)"

definition HashAPIKey :: "(string \<Rightarrow> string) \<Rightarrow> string \<Rightarrow> string" where
  "HashAPIKey sha256 value = sha256 value"

definition APIKeyHashMatches :: "(string \<Rightarrow> string) \<Rightarrow> string \<Rightarrow> string \<Rightarrow> bool" where
  "APIKeyHashMatches sha256 value h \<longleftrightarrow> HashAPIKey sha256 value = h"

lemma Split_three:
  assumes "CHR ''_'' \<notin> set i" and "CHR ''_'' \<notin> set s"
  shows "Split CHR ''_'' (KeyPrefix @ CHR ''_'' # i @ CHR ''_'' # s) = [KeyPrefix, i, s]"
proof -
  have "CHR ''_'' \<notin> set KeyPrefix" by (simp add: KeyPrefix_def)
  with assms show ?thesis by (simp only: Split_append_sep Split_no_sep not_False_eq_True)
qed

lemma Split_eq_three:
  assumes "Split c v = [p, i, s]"
  shows "v = p @ c # i @ c # s \<and> c \<notin> set p \<and> c \<notin> set i \<and> c \<notin> set s"
proof -
  have no: "c \<notin> set p" "c \<notin> set i" "c \<notin> set s"
    using assms Split_parts_no_sep [of _ c v] by auto
  have step: "\<exists>a b. w = a @ c # b \<and> c \<notin> set a \<and> q = a \<and> Split c b = r # rs"
    if "Split c w = q # r # rs" for w q r rs
  proof -
    from that have "c \<in> set w" using Split_no_sep by fastforce
    then obtain a b where "w = a @ c # b" "c \<notin> set a" using split_list_first by metis
    with that show ?thesis by (simp add: Split_append_sep)
  qed
  from step [OF assms] obtain b where v: "v = p @ c # b" and b: "Split c b = [i, s]" by blast
  from step [OF b] obtain d where "b = i @ c # d" and d: "Split c d = [s]" by blast
  moreover have "d = s"
  proof (cases "c \<in> set d")
    case True
    then obtain x y where "d = x @ c # y" "c \<notin> set x" using split_list_first by metis
    with d show ?thesis by (simp add: Split_append_sep)
  next
    case False
    with d show ?thesis by (simp add: Split_no_sep)
  qed
  ultimately show ?thesis using v no by simp
qed

lemma generated_key_parses:
  assumes "GenerateAPIKey rand1 rand2 = Some k"
    and "\<And>b. rand1 12 = Some b \<Longrightarrow> b \<noteq> []" and "\<And>b. rand2 32 = Some b \<Longrightarrow> b \<noteq> []"
  shows "ParseAPIKey (Value k) = Some k"
proof -
  from assms obtain a b where "rand1 12 = Some a" "rand2 32 = Some b" "a \<noteq> []" "b \<noteq> []"
    and k: "k = \<lparr>ID = RawStdEncode a, Secret = RawStdEncode b,
      Value = KeyPrefix @ ''_'' @ RawStdEncode a @ ''_'' @ RawStdEncode b\<rparr>"
    by (auto simp: GenerateAPIKey_def randomURLToken_def split: option.splits)
  moreover have "Split CHR ''_'' (Value k) = [KeyPrefix, RawStdEncode a, RawStdEncode b]"
    unfolding k using RawStdEncode_no_underscore by (simp add: Split_three)
  ultimately show ?thesis by (simp add: ParseAPIKey_def RawStdEncode_nonempty)
qed

text \<open>A freshly generated API key parses back to exactly the id and secret it was generated with.\<close>

theorem ParseAPIKey_GenerateAPIKey:
  assumes "GenerateAPIKey rand1 rand2 = Some k"
    and "\<And>b. rand1 12 = Some b \<Longrightarrow> b \<noteq> []" and "\<And>b. rand2 32 = Some b \<Longrightarrow> b \<noteq> []"
  shows "ParseAPIKey (Value k) = Some k"
  using assms by (rule generated_key_parses)

theorem ParseAPIKey_GenerateAPIKey_witness:
  "\<exists>k. GenerateAPIKey (\<lambda>n. Some (replicate n CHR ''a'')) (\<lambda>n. Some (replicate n CHR ''b'')) = Some k
     \<and> ParseAPIKey (Value k) = Some k"
proof -
  obtain k where k: "GenerateAPIKey (\<lambda>n. Some (replicate n CHR ''a''))
      (\<lambda>n. Some (replicate n CHR ''b'')) = Some k"
    by (simp add: GenerateAPIKey_def randomURLToken_def)
  from ParseAPIKey_GenerateAPIKey [OF this] have "ParseAPIKey (Value k) = Some k" by simp
  with k show ?thesis by blast
qed

lemma ParseAPIKey_sound:
  assumes "ParseAPIKey v = Some k"
  shows "v = KeyPrefix @ ''_'' @ ID k @ ''_'' @ Secret k" "Value k = v"
    "ID k \<noteq> []" "Secret k \<noteq> []" "CHR ''_'' \<notin> set (ID k)" "CHR ''_'' \<notin> set (Secret k)"
proof -
  from assms obtain p i s where sp: "Split CHR ''_'' v = [p, i, s]"
    by (auto simp: ParseAPIKey_def split: list.splits)
  with assms have p: "p = KeyPrefix" "i \<noteq> []" "s \<noteq> []" and k: "k = \<lparr>ID = i, Secret = s, Value = v\<rparr>"
    by (auto simp: ParseAPIKey_def split: if_splits)
  from Split_eq_three [OF sp] p k
  show "v = KeyPrefix @ ''_'' @ ID k @ ''_'' @ Secret k" "Value k = v"
    "ID k \<noteq> []" "Secret k \<noteq> []" "CHR ''_'' \<notin> set (ID k)" "CHR ''_'' \<notin> set (Secret k)"
    by simp_all
qed

subsection \<open>Sub-account addresses\<close>

text \<open>The letters and digits of Unicode: ASCII written out, \<open>uni\<close> for code points from 128 on.\<close>

definition is_letter_or_digit :: "(nat \<Rightarrow> bool) \<Rightarrow> nat \<Rightarrow> bool" where
  "is_letter_or_digit uni r \<longleftrightarrow> (48 \<le> r \<and> r \<le> 57) \<or> (65 \<le> r \<and> r \<le> 90) \<or> (97 \<le> r \<and> r \<le> 122)
     \<or> (128 \<le> r \<and> uni r)"

text \<open>An invalid UTF-8 sequence yields \<open>U+FFFD\<close>, which is no letter, so it is an error as well.\<close>

definition ValidateAgent :: "(nat \<Rightarrow> bool) \<Rightarrow> string \<Rightarrow> bool" where
  "ValidateAgent uni agent =
     (if agent = [] \<or> 64 < length agent \<or> ContainsChar agent CHR ''_'' \<or> ContainsChar agent CHR ''@''
      then False
      else (case utf8_runes agent of None \<Rightarrow> False
        | Some rs \<Rightarrow> list_all (\<lambda>r. is_letter_or_digit uni r \<or> r = 45 \<or> r = 46) rs))"

definition DeriveSubAccountAddr :: "(nat \<Rightarrow> bool) \<Rightarrow> string \<Rightarrow> string \<Rightarrow> string option" where
  "DeriveSubAccountAddr uni ownerAddr agent =
     (if \<not> ValidateAgent uni agent then None
      else if \<not> HasPrefix ownerAddr ''@'' then None
      else (case SplitN2 (tl ownerAddr) CHR ''@'' of
         [user, domain] \<Rightarrow> if user = [] \<or> domain = [] then None
           else Some (''@'' @ user @ ''_'' @ agent @ ''@'' @ domain)
       | _ \<Rightarrow> None))"

definition ValidateCIDRs :: "(string \<Rightarrow> 'p option) \<Rightarrow> string list \<Rightarrow> bool" where
  "ValidateCIDRs parse_prefix cidrs \<longleftrightarrow>
     cidrs \<noteq> [] \<and> list_all (\<lambda>raw. parse_prefix (TrimSpace raw) \<noteq> None) cidrs"

lemma ValidateAgent_chars: "ValidateAgent uni agent \<Longrightarrow> CHR ''_'' \<notin> set agent \<and> CHR ''@'' \<notin> set agent \<and> agent \<noteq> []"
  by (auto simp: ValidateAgent_def ContainsChar_def split: if_splits)

lemma DeriveSubAccountAddr_Some:
  "DeriveSubAccountAddr uni o1 agent = Some a \<longleftrightarrow> ValidateAgent uni agent \<and>
     (\<exists>user domain. o1 = CHR ''@'' # user @ CHR ''@'' # domain \<and> CHR ''@'' \<notin> set user \<and>
        user \<noteq> [] \<and> domain \<noteq> [] \<and> a = CHR ''@'' # (user @ CHR ''_'' # agent) @ CHR ''@'' # domain)"
  (is "?l \<longleftrightarrow> ?r")
proof
  assume l: ?l
  then have v: "ValidateAgent uni agent" and "HasPrefix o1 ''@''"
    by (auto simp: DeriveSubAccountAddr_def split: if_splits)
  then obtain t where o1: "o1 = CHR ''@'' # t" by (auto simp: HasPrefix_iff)
  obtain u d f where cut: "Cut t CHR ''@'' = (u, d, f)" by (metis prod_cases3)
  with l o1 have f: "f" "u \<noteq> []" "d \<noteq> []" and a: "a = ''@'' @ u @ ''_'' @ agent @ ''@'' @ d"
    by (auto simp: DeriveSubAccountAddr_def SplitN2_def split: if_splits)
  from cut f(1) have "Cut t CHR ''@'' = (u, d, True)" by simp
  from Cut_found [OF this] f v o1 a show ?r by auto
next
  assume ?r
  then obtain user domain where "ValidateAgent uni agent" "o1 = CHR ''@'' # user @ CHR ''@'' # domain"
    "CHR ''@'' \<notin> set user" "user \<noteq> []" "domain \<noteq> []"
    "a = CHR ''@'' # (user @ CHR ''_'' # agent) @ CHR ''@'' # domain" by blast
  then show ?l by (simp add: DeriveSubAccountAddr_def SplitN2_def HasPrefix_def Cut_append_sep)
qed

text \<open>A derived sub-account address determines its owner and its agent: two owners, or two agents
  of one owner, never share a sub-account address.\<close>

theorem DeriveSubAccountAddr_inj:
  assumes "DeriveSubAccountAddr uni o1 a1 = Some s" and "DeriveSubAccountAddr uni o2 a2 = Some s"
  shows "o1 = o2 \<and> a1 = a2"
proof -
  from assms(1) obtain u1 d1 where 1: "ValidateAgent uni a1" "o1 = CHR ''@'' # u1 @ CHR ''@'' # d1"
    "CHR ''@'' \<notin> set u1" "s = CHR ''@'' # (u1 @ CHR ''_'' # a1) @ CHR ''@'' # d1"
    by (auto simp: DeriveSubAccountAddr_Some)
  from assms(2) obtain u2 d2 where 2: "ValidateAgent uni a2" "o2 = CHR ''@'' # u2 @ CHR ''@'' # d2"
    "CHR ''@'' \<notin> set u2" "s = CHR ''@'' # (u2 @ CHR ''_'' # a2) @ CHR ''@'' # d2"
    by (auto simp: DeriveSubAccountAddr_Some)
  have no: "CHR ''@'' \<notin> set (u1 @ CHR ''_'' # a1)" "CHR ''@'' \<notin> set (u2 @ CHR ''_'' # a2)"
    using 1 2 by (auto dest: ValidateAgent_chars)
  have "(u1 @ CHR ''_'' # a1) @ CHR ''@'' # d1 = (u2 @ CHR ''_'' # a2) @ CHR ''@'' # d2"
    using 1(4) 2(4) by simp
  from split_first_unique [OF no this] have "u1 @ CHR ''_'' # a1 = u2 @ CHR ''_'' # a2" "d1 = d2" by auto
  moreover have "CHR ''_'' \<notin> set a1" "CHR ''_'' \<notin> set a2" using 1(1) 2(1) ValidateAgent_chars by auto
  ultimately have "u1 = u2 \<and> a1 = a2" using split_last_unique by metis
  with \<open>d1 = d2\<close> 1(2) 2(2) show ?thesis by simp
qed

theorem DeriveSubAccountAddr_inj_witness:
  "''@al@ex.org'' = ''@al@ex.org'' \<and> ''bot'' = ''bot''"
proof (rule DeriveSubAccountAddr_inj)
  show "DeriveSubAccountAddr (\<lambda>_. False) ''@al@ex.org'' ''bot'' = Some ''@al_bot@ex.org''"
    "DeriveSubAccountAddr (\<lambda>_. False) ''@al@ex.org'' ''bot'' = Some ''@al_bot@ex.org''" by code_simp+
qed

end
