(* ===== verification/Address.thy ===== *)
theory Address
  imports GoText
begin

text \<open>
  Addresses and stored-file paths: the address helpers of \<open>src/internal/handlers/messages.go\<close> and
  \<open>src/internal/middleware/jwt.go\<close>, and the path containment check \<open>safeDataPath\<close>.

  An address is \<open>@user@domain\<close>, compared without regard to case; \<open>split_part\<close> and \<open>lower\<close> are
  the SQL functions the queries apply to address columns.  File paths are slash-separated; \<open>cwd\<close> is
  the working directory of the process.
\<close>

subsection \<open>Addresses\<close>

definition IsValidAddr :: "string \<Rightarrow> bool" where
  "IsValidAddr addr = (if length addr < 3 then False
     else if hd addr \<noteq> CHR ''@'' then False
     else ContainsChar (tl addr) CHR ''@'')"

definition parseAddr :: "string \<Rightarrow> string \<times> string" where
  "parseAddr addr = (if length addr < 3 then (addr, [])
     else (case CutLast (tl addr) CHR ''@'' of None \<Rightarrow> (tl addr, []) | Some ud \<Rightarrow> ud))"

definition addr_domain :: "string \<Rightarrow> string" where
  "addr_domain addr = snd (parseAddr addr)"

definition sameAddr :: "string \<Rightarrow> string \<Rightarrow> bool" where
  "sameAddr a b \<longleftrightarrow> EqualFold a b"

definition isRecipient :: "string list \<Rightarrow> string \<Rightarrow> bool" where
  "isRecipient to addr \<longleftrightarrow> list_ex (\<lambda>a. EqualFold a addr) to"

definition anyRecipient :: "string list \<Rightarrow> string list \<Rightarrow> bool" where
  "anyRecipient addrs to \<longleftrightarrow> list_ex (isRecipient to) addrs"

definition draftHidden :: "string list \<Rightarrow> string \<Rightarrow> time option \<Rightarrow> bool" where
  "draftHidden addrs from_addr timeSent \<longleftrightarrow> timeSent = None \<and> \<not> isRecipient addrs from_addr"

definition validateAddresses :: "string \<Rightarrow> string list \<Rightarrow> string option" where
  "validateAddresses from_addr to =
     (if \<not> IsValidAddr from_addr then Some (''invalid from address: '' @ from_addr)
      else (case find (\<lambda>a. \<not> IsValidAddr a) to of
        Some a \<Rightarrow> Some (''invalid to address: '' @ a) | None \<Rightarrow> None))"

fun first_duplicate :: "string set \<Rightarrow> string list \<Rightarrow> string option" where
  "first_duplicate seen [] = None"
| "first_duplicate seen (a # as) =
     (if ToLower a \<in> seen then Some a else first_duplicate (insert (ToLower a) seen) as)"

definition checkDistinctRecipients :: "string list \<Rightarrow> string list \<Rightarrow> string option" where
  "checkDistinctRecipients to addTo = (case first_duplicate {} to of
     Some a \<Rightarrow> Some (''duplicate recipient: '' @ a)
   | None \<Rightarrow> (case first_duplicate {} addTo of
       Some a \<Rightarrow> Some (''duplicate recipient: '' @ a) | None \<Rightarrow> None))"

text \<open>\<open>split_part(s, '@', n)\<close> of PostgreSQL, fields counted from 1.\<close>

definition split_part :: "string \<Rightarrow> char \<Rightarrow> nat \<Rightarrow> string" where
  "split_part s c n = (let ps = Split c s in if n \<le> length ps \<and> 0 < n then ps ! (n - 1) else [])"

lemma sameAddr_refl [simp]: "sameAddr a a"
  by (simp add: sameAddr_def)

lemma sameAddr_sym: "sameAddr a b = sameAddr b a"
  by (simp add: sameAddr_def EqualFold_sym)

lemma sameAddr_trans: "sameAddr a b \<Longrightarrow> sameAddr b c \<Longrightarrow> sameAddr a c"
  by (auto simp: sameAddr_def intro: EqualFold_trans)

lemma sameAddr_iff_lower: "sameAddr a b \<longleftrightarrow> ToLower a = ToLower b"
  by (simp add: sameAddr_def EqualFold_def)

lemma isRecipient_iff: "isRecipient to addr \<longleftrightarrow> (\<exists>a \<in> set to. sameAddr a addr)"
  by (simp add: isRecipient_def list_ex_iff sameAddr_def)

lemma isRecipient_lower: "isRecipient to addr \<longleftrightarrow> ToLower addr \<in> ToLower ` set to"
  by (auto simp: isRecipient_iff sameAddr_iff_lower) (metis imageI)

lemma draftHidden_own: "draftHidden [identity] from_addr t \<longleftrightarrow> t = None \<and> \<not> sameAddr from_addr identity"
  by (auto simp: draftHidden_def isRecipient_def sameAddr_def EqualFold_sym)

lemma draftHidden_cong:
  "sameAddr a b \<Longrightarrow> draftHidden [a] from_addr t = draftHidden [b] from_addr t"
  by (auto simp: draftHidden_own intro: sameAddr_trans) (metis sameAddr_sym sameAddr_trans)+

lemma validateAddresses_ok:
  "validateAddresses f to = None \<longleftrightarrow> IsValidAddr f \<and> list_all IsValidAddr to"
  by (auto simp: validateAddresses_def find_None_all list_all_iff split: option.splits
      dest: find_Some_mem)

lemma first_duplicate_None:
  "first_duplicate seen as = None \<longleftrightarrow> distinct (map ToLower as) \<and> ToLower ` set as \<inter> seen = {}"
  by (induction as arbitrary: seen) auto

lemma checkDistinctRecipients_ok:
  "checkDistinctRecipients to addTo = None \<longleftrightarrow>
     distinct (map ToLower to) \<and> distinct (map ToLower addTo)"
  by (auto simp: checkDistinctRecipients_def first_duplicate_None split: option.splits)
    (metis first_duplicate_None inf_bot_right option.distinct(1))+

lemma IsValidAddr_iff:
  "IsValidAddr a \<longleftrightarrow> 3 \<le> length a \<and> (\<exists>u d. a = CHR ''@'' # u @ CHR ''@'' # d)"
proof
  assume v: "IsValidAddr a"
  then have l: "3 \<le> length a" and h: "hd a = CHR ''@''" and m: "CHR ''@'' \<in> set (tl a)"
    by (auto simp: IsValidAddr_def ContainsChar_def split: if_splits)
  from m obtain u d where "tl a = u @ CHR ''@'' # d" using split_list by metis
  with l h have "a = CHR ''@'' # u @ CHR ''@'' # d" by (cases a) auto
  with l show "3 \<le> length a \<and> (\<exists>u d. a = CHR ''@'' # u @ CHR ''@'' # d)" by blast
next
  assume "3 \<le> length a \<and> (\<exists>u d. a = CHR ''@'' # u @ CHR ''@'' # d)"
  then show "IsValidAddr a" by (auto simp: IsValidAddr_def ContainsChar_def)
qed

lemma parseAddr_of_parts:
  "CHR ''@'' \<notin> set d \<Longrightarrow> u \<noteq> [] \<or> d \<noteq> [] \<Longrightarrow> parseAddr (CHR ''@'' # u @ CHR ''@'' # d) = (u, d)"
proof -
  assume d: "CHR ''@'' \<notin> set d" and "u \<noteq> [] \<or> d \<noteq> []"
  then have "\<not> length (CHR ''@'' # u @ CHR ''@'' # d) < 3" by (cases u; cases d) auto
  with CutLast_append [OF d, of u] show ?thesis by (simp only: parseAddr_def if_False list.sel option.case)
qed

text \<open>Parsing recovers the two parts: what is not the domain is the user.\<close>

lemma parseAddr_valid:
  assumes "IsValidAddr a"
  shows "a = CHR ''@'' # fst (parseAddr a) @ CHR ''@'' # snd (parseAddr a)
    \<and> CHR ''@'' \<notin> set (snd (parseAddr a))"
proof -
  from assms have l: "\<not> length a < 3" and h: "a \<noteq> []" "hd a = CHR ''@''"
    and m: "CHR ''@'' \<in> set (tl a)"
    by (auto simp: IsValidAddr_def ContainsChar_def split: if_splits)
  from m obtain u d where c: "CutLast (tl a) CHR ''@'' = Some (u, d)"
    using CutLast_None by (cases "CutLast (tl a) CHR ''@''") auto
  from CutLast_Some [OF c] have "tl a = u @ CHR ''@'' # d" "CHR ''@'' \<notin> set d" by auto
  with h l c show ?thesis by (cases a) (auto simp: parseAddr_def)
qed

subsection \<open>Paths\<close>

text \<open>\<open>filepath.Clean\<close> on the parts between slashes: \<open>stack\<close> holds the parts kept, last first.\<close>

fun clean_parts :: "bool \<Rightarrow> string list \<Rightarrow> string list \<Rightarrow> string list" where
  "clean_parts rooted stack [] = rev stack"
| "clean_parts rooted stack (p # ps) =
     (if p = [] \<or> p = ''.'' then clean_parts rooted stack ps
      else if p = ''..'' then
        (case stack of [] \<Rightarrow> clean_parts rooted (if rooted then [] else [''..'']) ps
         | s # ss \<Rightarrow> if s = ''..'' then clean_parts rooted (''..'' # stack) ps
                     else clean_parts rooted ss ps)
      else clean_parts rooted (p # stack) ps)"

text \<open>A cleaned absolute path is kept as its list of parts.\<close>

definition abs_parts :: "string \<Rightarrow> string \<Rightarrow> string list" where
  "abs_parts cwd p = clean_parts True [] (Split CHR ''/'' (if HasPrefix p ''/'' then p else cwd @ ''/'' @ p))"

definition path_text :: "string list \<Rightarrow> string" where
  "path_text ps = ''/'' @ Join ps ''/''"

fun common_prefix :: "string list \<Rightarrow> string list \<Rightarrow> nat" where
  "common_prefix (a # as) (b # bs) = (if a = b then Suc (common_prefix as bs) else 0)"
| "common_prefix _ _ = 0"

text \<open>\<open>filepath.Rel\<close> of two cleaned absolute paths, as parts; the text of the empty list is \<open>.\<close>.\<close>

definition rel_parts :: "string list \<Rightarrow> string list \<Rightarrow> string list" where
  "rel_parts base targ = (let n = common_prefix base targ in
     replicate (length base - n) ''..'' @ drop n targ)"

definition rel_text :: "string list \<Rightarrow> string" where
  "rel_text ps = (if ps = [] then ''.'' else Join ps ''/'')"

definition safeDataPath :: "string \<Rightarrow> string \<Rightarrow> string \<Rightarrow> string option" where
  "safeDataPath cwd dataPath dataDir = (if dataPath = [] \<or> dataDir = [] then None
     else (let cleanPath = abs_parts cwd dataPath; cleanDataDir = abs_parts cwd dataDir;
               relPath = rel_text (rel_parts cleanDataDir cleanPath)
           in if HasPrefix relPath ''..'' then None else Some (path_text cleanPath)))"

definition msgDataDir :: "string \<Rightarrow> string \<Rightarrow> int \<Rightarrow> string" where
  "msgDataDir dataDir fromAddr msgID = (case parseAddr fromAddr of (user, domain) \<Rightarrow>
     (if HasPrefix dataDir ''/'' then ''/'' else []) @ Join (clean_parts (HasPrefix dataDir ''/'') []
       (Split CHR ''/'' (Join [dataDir, domain, user, ''out'', Itoa msgID] ''/''))) ''/'')"

lemma clean_parts_rooted:
  assumes "''..'' \<notin> set stack" and "[] \<notin> set stack" and "''.'' \<notin> set stack"
  shows "''..'' \<notin> set (clean_parts True stack ps) \<and> [] \<notin> set (clean_parts True stack ps)
    \<and> ''.'' \<notin> set (clean_parts True stack ps)"
  using assms by (induction True stack ps rule: clean_parts.induct) (auto split: list.splits)

lemma abs_parts_clean: "''..'' \<notin> set (abs_parts cwd p)" "[] \<notin> set (abs_parts cwd p)"
  "''.'' \<notin> set (abs_parts cwd p)"
  using clean_parts_rooted [of "[]"] by (simp_all add: abs_parts_def)

lemma common_prefix_take: "take (common_prefix a b) a = take (common_prefix a b) b"
  by (induction a b rule: common_prefix.induct) auto

lemma common_prefix_le: "common_prefix a b \<le> length a"
  by (induction a b rule: common_prefix.induct) auto

text \<open>Containment of stored files.  A stored path is only ever opened or served when, after
  resolving \<open>.\<close>, \<open>..\<close> and the working directory, it lies inside the data directory; the path used
  has no \<open>..\<close> part left.\<close>

theorem safeDataPath_contained:
  assumes "safeDataPath cwd p dir = Some q"
  shows "\<exists>rest. abs_parts cwd p = abs_parts cwd dir @ rest \<and> ''..'' \<notin> set (abs_parts cwd p)
    \<and> q = path_text (abs_parts cwd p)"
proof -
  let ?b = "abs_parts cwd dir" and ?t = "abs_parts cwd p"
  let ?n = "common_prefix ?b ?t"
  from assms have q: "q = path_text ?t"
    and no: "\<not> HasPrefix (rel_text (rel_parts ?b ?t)) ''..''"
    by (auto simp: safeDataPath_def Let_def split: if_splits)
  have "?n = length ?b"
  proof (rule ccontr)
    assume "?n \<noteq> length ?b"
    with common_prefix_le [of ?b ?t] have "0 < length ?b - ?n" by linarith
    then obtain k where "length ?b - ?n = Suc k" using gr0_implies_Suc by blast
    then have r: "rel_parts ?b ?t = ''..'' # replicate k ''..'' @ drop ?n ?t"
      by (simp add: rel_parts_def Let_def)
    have "HasPrefix (Join (''..'' # xs) ''/'') ''..''" for xs
      by (cases xs) (simp_all add: HasPrefix_def)
    with r no show False by (simp add: rel_text_def)
  qed
  with common_prefix_take [of ?b ?t] have "?t = ?b @ drop (length ?b) ?t"
    by (metis append_take_drop_id take_all_iff order_refl)
  with q abs_parts_clean(1) show ?thesis by blast
qed

theorem safeDataPath_contained_witness:
  "\<exists>rest. abs_parts ''/'' ''/d/a/../b'' = abs_parts ''/'' ''/d'' @ rest
    \<and> ''..'' \<notin> set (abs_parts ''/'' ''/d/a/../b'') \<and> ''/d/b'' = path_text (abs_parts ''/'' ''/d/a/../b'')"
proof (rule safeDataPath_contained)
  show "safeDataPath ''/'' ''/d/a/../b'' ''/d'' = Some ''/d/b''" by code_simp
qed

text \<open>A file whose first part below the data directory begins with two dots is refused as well.\<close>

lemma safeDataPath_complete:
  assumes "abs_parts cwd p = abs_parts cwd dir @ rest" and "p \<noteq> []" and "dir \<noteq> []"
    and "rest = [] \<or> \<not> HasPrefix (hd rest) ''..''" and "rest = [] \<or> 2 \<le> length (hd rest)"
  shows "safeDataPath cwd p dir = Some (path_text (abs_parts cwd p))"
proof -
  have c: "common_prefix b (b @ r) = length b" for b r :: "string list"
    by (induction b) simp_all
  have "\<not> HasPrefix (rel_text rest) ''..''"
  proof (cases rest)
    case Nil
    then show ?thesis by (simp add: rel_text_def HasPrefix_def)
  next
    case (Cons r rs)
    with assms(4,5) show ?thesis
      by (cases rs) (auto simp: rel_text_def HasPrefix_def)
  qed
  with assms c show ?thesis by (simp add: safeDataPath_def Let_def rel_parts_def)
qed

end
