(* ===== verification/Json.thy ===== *)
theory Json
  imports GoText
begin

text \<open>
  JSON, as Go's \<open>encoding/json\<close> reads and writes it: the scanner with its stack of open arrays and
  objects, the unquoting of strings, the decoding of a value into a Go variable, and the two entry points
  the program uses, \<open>json.Unmarshal\<close> and \<open>json.NewDecoder(r).Decode\<close> (\<open>decodeJSON\<close> of
  \<open>src/internal/middleware/util.go\<close> and gin's \<open>ShouldBindJSON\<close>).

  A number keeps its text.  Member names are matched exactly first and then with ASCII case folded.

  Shown here: what is printed is read back, by the decoder also when more text follows.
\<close>

subsection \<open>UTF-8, written\<close>

definition utf8_encode :: "nat \<Rightarrow> string" where
  "utf8_encode r = (if r < 128 then [char_of r]
     else if r < 2048 then [char_of (192 + r div 64), char_of (128 + r mod 64)]
     else if r < 65536 then [char_of (224 + r div 4096), char_of (128 + r div 64 mod 64), char_of (128 + r mod 64)]
     else [char_of (240 + r div 262144), char_of (128 + r div 4096 mod 64), char_of (128 + r div 64 mod 64), char_of (128 + r mod 64)])"

definition replacement :: string where
  "replacement = utf8_encode 65533"

subsection \<open>Strings, written\<close>

definition json_rune :: "nat \<Rightarrow> nat list \<Rightarrow> string" where
  "json_rune r raw = (if r = 34 then [CHR 0x5C, CHR 0x22]
     else if r = 92 then [CHR 0x5C, CHR 0x5C]
     else if r = 8 then [CHR 0x5C, CHR ''b'']
     else if r = 12 then [CHR 0x5C, CHR ''f'']
     else if r = 10 then [CHR 0x5C, CHR ''n'']
     else if r = 13 then [CHR 0x5C, CHR ''r'']
     else if r = 9 then [CHR 0x5C, CHR ''t'']
     else if r < 32 \<or> r = 60 \<or> r = 62 \<or> r = 38 then CHR 0x5C # ''u00'' @ [hex_digit (r div 16), hex_digit (r mod 16)]
     else if r = 8232 then CHR 0x5C # ''u2028''
     else if r = 8233 then CHR 0x5C # ''u2029''
     else map char_of raw)"

function json_body :: "nat list \<Rightarrow> string" where
  "json_body s = (if s = [] then []
     else (case utf8_step s of None \<Rightarrow> CHR 0x5C # ''ufffd'' @ json_body (tl s)
       | Some (r, t) \<Rightarrow> json_rune r (take (length s - length t) s) @ json_body t))"
  by pat_completeness auto
termination
  by (relation "measure length") (auto dest: utf8_step_shorter)

declare json_body.simps [simp del]

definition json_quote :: "string \<Rightarrow> string" where
  "json_quote s = [CHR 0x22] @ json_body (bytes_of s) @ [CHR 0x22]"

definition json_key :: "string \<Rightarrow> string" where
  "json_key k = [CHR 0x22] @ k @ [CHR 0x22, CHR '':'']"

subsection \<open>Strings, read\<close>

text \<open>\<open>getu4\<close>: the code unit of a \<open>\u\<close> escape at the front, and the text after it.\<close>

fun hex4 :: "string \<Rightarrow> (nat \<times> string) option" where
  "hex4 (a # b # c # d # s) = (case (hex_value a, hex_value b, hex_value c, hex_value d) of
     (Some w, Some x, Some y, Some z) \<Rightarrow> Some (4096 * w + 256 * x + 16 * y + z, s) | _ \<Rightarrow> None)"
| "hex4 _ = None"

fun getu4 :: "string \<Rightarrow> (nat \<times> string) option" where
  "getu4 (a # b # s) = (if a = CHR 0x5C \<and> b = CHR ''u'' then hex4 s else None)"
| "getu4 _ = None"

text \<open>A surrogate that is not followed by its other half becomes the replacement character.\<close>

definition unescape_u :: "nat \<Rightarrow> string \<Rightarrow> string \<times> string" where
  "unescape_u r s = (if r < 55296 \<or> 57344 \<le> r then (utf8_encode r, s)
     else (case getu4 s of
       Some (r1, s1) \<Rightarrow> if r < 56320 \<and> 56320 \<le> r1 \<and> r1 < 57344
           then (utf8_encode (65536 + (r - 55296) * 1024 + (r1 - 56320)), s1) else (replacement, s)
     | None \<Rightarrow> (replacement, s)))"

definition unescape :: "string \<Rightarrow> (string \<times> string) option" where
  "unescape s = (case s of [] \<Rightarrow> None
     | c # r \<Rightarrow>
         if c = CHR 0x22 \<or> c = CHR 0x5C \<or> c = CHR ''/'' then Some ([c], r)
         else if c = CHR ''b'' then Some ([CHR 0x08], r)
         else if c = CHR ''f'' then Some ([CHR 0x0C], r)
         else if c = CHR ''n'' then Some ([CHR 0x0A], r)
         else if c = CHR ''r'' then Some ([CHR 0x0D], r)
         else if c = CHR ''t'' then Some ([CHR 0x09], r)
         else if c = CHR ''u'' then map_option (\<lambda>(u, t). unescape_u u t) (hex4 r)
         else None)"

lemma hex4_shorter: "hex4 s = Some (u, t) \<Longrightarrow> length t < length s"
  by (induction s rule: hex4.induct) (auto split: option.splits)

lemma getu4_shorter: "getu4 s = Some (u, t) \<Longrightarrow> length t < length s"
  by (induction s rule: getu4.induct) (auto dest: hex4_shorter split: if_splits)

lemma utf8_step_bytes_shorter: "utf8_step (bytes_of s) = Some (u, t) \<Longrightarrow> length t < length s"
  using utf8_step_shorter [of "bytes_of s" u t] by (simp add: bytes_of_def)

lemma unescape_shorter: "unescape s = Some (u, t) \<Longrightarrow> length t < length s"
  by (fastforce simp: unescape_def unescape_u_def dest: hex4_shorter getu4_shorter
      split: list.splits if_splits option.splits)

definition is_control :: "char \<Rightarrow> bool" where
  "is_control c \<longleftrightarrow> \<not> (digit5 c \<or> digit6 c \<or> digit7 c)"

definition is_ascii :: "char \<Rightarrow> bool" where
  "is_ascii c \<longleftrightarrow> \<not> digit7 c"

lemma is_control_byte: "is_control c \<longleftrightarrow> byte c < 32"
  and is_ascii_byte: "is_ascii c \<longleftrightarrow> byte c < 128"
  by (cases c; auto simp: is_control_def is_ascii_def of_char_def)+

text \<open>The text of a string literal up to its closing quote, unquoted; bytes that are not UTF-8 become
  the replacement character, one each.\<close>

function lex_body :: "string \<Rightarrow> (string \<times> string) option" where
  "lex_body s = (case s of [] \<Rightarrow> None
     | c # r \<Rightarrow>
         if c = CHR 0x22 then Some ([], r)
         else if c = CHR 0x5C then (case unescape r of None \<Rightarrow> None
           | Some (u, t) \<Rightarrow> map_option (\<lambda>(v, e). (u @ v, e)) (lex_body t))
         else if is_control c then None
         else if is_ascii c then map_option (\<lambda>(v, e). (c # v, e)) (lex_body r)
         else (case utf8_step (bytes_of s) of
             None \<Rightarrow> map_option (\<lambda>(v, e). (replacement @ v, e)) (lex_body r)
           | Some (u, t) \<Rightarrow> map_option (\<lambda>(v, e). (utf8_encode u @ v, e)) (lex_body (map char_of t))))"
  by pat_completeness auto
termination
  by (relation "measure length") (auto dest: unescape_shorter utf8_step_bytes_shorter)

declare lex_body.simps [simp del]

lemma lex_body_Nil: "lex_body [] = None"
  by (simp add: lex_body.simps)

lemmas lex_body_Cons = lex_body.simps [of "c # r" for c r, unfolded list.case]

subsection \<open>Tokens\<close>

datatype tok = TLBrack | TRBrack | TLBrace | TRBrace | TComma | TColon | TTrue | TFalse | TNull
  | TStr string | TNum string

definition is_ws :: "char \<Rightarrow> bool" where
  "is_ws c \<longleftrightarrow> c = CHR '' '' \<or> c = CHR 0x09 \<or> c = CHR 0x0A \<or> c = CHR 0x0D"

definition skip_ws :: "string \<Rightarrow> string" where
  "skip_ws s = dropWhile is_ws s"

definition lex_int :: "string \<Rightarrow> (string \<times> string) option" where
  "lex_int s = (case s of [] \<Rightarrow> None
     | c # r \<Rightarrow> if c = CHR ''0'' then Some ([c], r)
         else if is_digit c then Some (c # takeWhile is_digit r, dropWhile is_digit r) else None)"

definition lex_frac :: "string \<Rightarrow> (string \<times> string) option" where
  "lex_frac s = (case s of [] \<Rightarrow> Some ([], s)
     | c # r \<Rightarrow> if c \<noteq> CHR ''.'' then Some ([], s)
         else if takeWhile is_digit r = [] then None else Some (c # takeWhile is_digit r, dropWhile is_digit r))"

definition lex_exp :: "string \<Rightarrow> (string \<times> string) option" where
  "lex_exp s = (case s of [] \<Rightarrow> Some ([], s)
     | c # r \<Rightarrow> if c \<noteq> CHR ''e'' \<and> c \<noteq> CHR ''E'' then Some ([], s)
         else (let (sign, t) = (case r of [] \<Rightarrow> ([], r)
                  | x # t \<Rightarrow> if x = CHR ''+'' \<or> x = CHR ''-'' then ([x], t) else ([], r)) in
           if takeWhile is_digit t = [] then None
           else Some (c # sign @ takeWhile is_digit t, dropWhile is_digit t)))"

definition lex_sign :: "string \<Rightarrow> string \<times> string" where
  "lex_sign s = (case s of [] \<Rightarrow> ([], s) | c # r \<Rightarrow> if c = CHR ''-'' then ([c], r) else ([], s))"

definition lex_number :: "string \<Rightarrow> (string \<times> string) option" where
  "lex_number s = (case lex_sign s of (sign, t) \<Rightarrow>
     (case lex_int t of None \<Rightarrow> None
      | Some (i, t1) \<Rightarrow> (case lex_frac t1 of None \<Rightarrow> None
        | Some (f, t2) \<Rightarrow> (case lex_exp t2 of None \<Rightarrow> None
          | Some (e, t3) \<Rightarrow> Some (sign @ i @ f @ e, t3)))))"

definition next_token :: "string \<Rightarrow> (tok \<times> string) option" where
  "next_token s = (case skip_ws s of [] \<Rightarrow> None
     | c # r \<Rightarrow>
         if c = CHR ''['' then Some (TLBrack, r)
         else if c = CHR '']'' then Some (TRBrack, r)
         else if c = CHR ''{'' then Some (TLBrace, r)
         else if c = CHR ''}'' then Some (TRBrace, r)
         else if c = CHR '','' then Some (TComma, r)
         else if c = CHR '':'' then Some (TColon, r)
         else if c = CHR 0x22 then map_option (\<lambda>(v, e). (TStr v, e)) (lex_body r)
         else if HasPrefix (c # r) ''true'' then Some (TTrue, drop 4 (c # r))
         else if HasPrefix (c # r) ''false'' then Some (TFalse, drop 5 (c # r))
         else if HasPrefix (c # r) ''null'' then Some (TNull, drop 4 (c # r))
         else map_option (\<lambda>(v, e). (TNum v, e)) (lex_number (c # r)))"

lemma length_dropWhile_less: "length (dropWhile P r) < Suc (length r)"
  using length_dropWhile_le [of P r] by simp

lemma lex_body_shorter: "lex_body s = Some (v, e) \<Longrightarrow> length e < length s"
proof (induction s arbitrary: v e rule: lex_body.induct)
  case (1 s)
  show ?case
  proof (cases s)
    case Nil
    with 1(5) show ?thesis by (simp add: lex_body_Nil)
  next
    case (Cons c r)
    consider (Q) "c = CHR 0x22" | (E) u t v1 where "c = CHR 0x5C" "unescape r = Some (u, t)" "lex_body t = Some (v1, e)"
      | (A) v1 where "c \<noteq> CHR 0x22" "c \<noteq> CHR 0x5C" "\<not> is_control c" "is_ascii c" "lex_body r = Some (v1, e)"
      | (I) v1 where "c \<noteq> CHR 0x22" "c \<noteq> CHR 0x5C" "\<not> is_control c" "\<not> is_ascii c" "utf8_step (bytes_of s) = None" "lex_body r = Some (v1, e)"
      | (U) u t v1 where "c \<noteq> CHR 0x22" "c \<noteq> CHR 0x5C" "\<not> is_control c" "\<not> is_ascii c" "utf8_step (bytes_of s) = Some (u, t)" "lex_body (map char_of t) = Some (v1, e)"
      using 1(5) Cons by (auto simp: lex_body_Cons split: if_splits option.splits)
    then show ?thesis
    proof cases
      case Q
      with 1(5) Cons show ?thesis by (simp add: lex_body_Cons)
    next
      case E
      from 1(1) [OF Cons _ E(1) E(2) refl E(3)] unescape_shorter [OF E(2)] E(1) Cons show ?thesis by simp
    next
      case A
      from 1(2) [OF Cons A] Cons show ?thesis by simp
    next
      case I
      from 1(3) [OF Cons I] Cons show ?thesis by simp
    next
      case U
      from 1(4) [OF Cons U(1-5) refl U(6)] utf8_step_shorter [OF U(5)] show ?thesis by (simp add: bytes_of_def)
    qed
  qed
qed

lemma lex_number_shorter: "lex_number s = Some (v, e) \<Longrightarrow> length e < length s"
proof -
  have i: "length t1 < length t" if "lex_int t = Some (x, t1)" for t x t1
    using that length_dropWhile_less by (auto simp: lex_int_def split: list.splits if_splits)
  have f: "length t1 \<le> length t" if "lex_frac t = Some (x, t1)" for t x t1
    using that by (auto simp: lex_frac_def le_SucI length_dropWhile_le split: list.splits if_splits)
  have x: "length t1 \<le> length t" if "lex_exp t = Some (x, t1)" for t x t1
    using that by (auto simp: lex_exp_def Let_def le_SucI length_dropWhile_le split: list.splits if_splits)
  have g: "length t \<le> length s" if "lex_sign s = (sign, t)" for sign t
    using that by (auto simp: lex_sign_def split: list.splits if_splits)
  assume "lex_number s = Some (v, e)"
  then obtain sign t i1 t1 f1 t2 x1 where "lex_sign s = (sign, t)" "lex_int t = Some (i1, t1)"
    "lex_frac t1 = Some (f1, t2)" "lex_exp t2 = Some (x1, e)"
    by (auto simp: lex_number_def split: option.splits prod.splits)
  with g i f x show ?thesis by (meson le_less_trans less_le_trans)
qed

lemma next_token_shorter: "next_token s = Some (t, r) \<Longrightarrow> length r < length s"
proof -
  assume a: "next_token s = Some (t, r)"
  then obtain c q where c: "skip_ws s = c # q" by (auto simp: next_token_def split: list.splits)
  then have l: "Suc (length q) \<le> length s" using length_dropWhile_le [of is_ws s] by (simp add: skip_ws_def)
  from a c have "length r \<le> length q"
    by (auto simp: next_token_def split: if_splits dest: lex_body_shorter lex_number_shorter)
  with l show ?thesis by simp
qed

subsection \<open>The scanner\<close>

datatype jval = VNull | VBool bool | VNum string | VStr string | VArr "jval list" | VObj "(string \<times> jval) list"

text \<open>An open array with its elements so far; an open object with its members so far, and with the name
  whose value is due.\<close>

datatype frame = FArr "jval list" | FObj "(string \<times> jval) list" | FKey "(string \<times> jval) list" string

datatype mode = BeginValue | BeginValueOrEmpty | BeginStringOrEmpty | BeginString | EndValue

datatype progress = Bad | Parsed jval | More mode "frame list"

definition maxNestingDepth :: int where "maxNestingDepth = 10000"

definition close_value :: "jval \<Rightarrow> frame list \<Rightarrow> progress" where
  "close_value v st = (case st of [] \<Rightarrow> Parsed v
     | f # rest \<Rightarrow> (case f of FArr vs \<Rightarrow> More EndValue (FArr (vs @ [v]) # rest)
        | FKey ms k \<Rightarrow> More EndValue (FObj (ms @ [(k, v)]) # rest)
        | FObj _ \<Rightarrow> Bad))"

definition open_frame :: "mode \<Rightarrow> frame \<Rightarrow> frame list \<Rightarrow> progress" where
  "open_frame m f st = (if int (length st) < maxNestingDepth then More m (f # st) else Bad)"

fun value_step :: "frame list \<Rightarrow> tok \<Rightarrow> progress" where
  "value_step st (TStr s) = close_value (VStr s) st"
| "value_step st (TNum s) = close_value (VNum s) st"
| "value_step st TTrue = close_value (VBool True) st"
| "value_step st TFalse = close_value (VBool False) st"
| "value_step st TNull = close_value VNull st"
| "value_step st TLBrack = open_frame BeginValueOrEmpty (FArr []) st"
| "value_step st TLBrace = open_frame BeginStringOrEmpty (FObj []) st"
| "value_step st _ = Bad"

fun scan_step :: "mode \<Rightarrow> frame list \<Rightarrow> tok \<Rightarrow> progress" where
  "scan_step BeginValue st t = value_step st t"
| "scan_step BeginValueOrEmpty (FArr vs # st) TRBrack = close_value (VArr vs) st"
| "scan_step BeginValueOrEmpty st t = value_step st t"
| "scan_step BeginStringOrEmpty (FObj ms # st) TRBrace = close_value (VObj ms) st"
| "scan_step BeginStringOrEmpty (FObj ms # st) (TStr k) = More EndValue (FKey ms k # st)"
| "scan_step BeginString (FObj ms # st) (TStr k) = More EndValue (FKey ms k # st)"
| "scan_step EndValue (FKey ms k # st) TColon = More BeginValue (FKey ms k # st)"
| "scan_step EndValue (FObj ms # st) TComma = More BeginString (FObj ms # st)"
| "scan_step EndValue (FObj ms # st) TRBrace = close_value (VObj ms) st"
| "scan_step EndValue (FArr vs # st) TComma = More BeginValue (FArr vs # st)"
| "scan_step EndValue (FArr vs # st) TRBrack = close_value (VArr vs) st"
| "scan_step _ _ _ = Bad"

function parse_from :: "mode \<Rightarrow> frame list \<Rightarrow> string \<Rightarrow> (jval \<times> string) option" where
  "parse_from m st s = (case next_token s of None \<Rightarrow> None
     | Some (t, rest) \<Rightarrow> (case scan_step m st t of Bad \<Rightarrow> None
        | Parsed v \<Rightarrow> Some (v, rest)
        | More m1 st1 \<Rightarrow> parse_from m1 st1 rest))"
  by pat_completeness auto
termination
  by (relation "measure (\<lambda>(m, st, s). length s)") (auto dest: next_token_shorter)

declare parse_from.simps [simp del]

text \<open>The first value of a text with what follows it, and a text that is one value.\<close>

definition parse_first :: "string \<Rightarrow> (jval \<times> string) option" where
  "parse_first s = parse_from BeginValue [] s"

definition parse_whole :: "string \<Rightarrow> jval option" where
  "parse_whole s = (case parse_first s of None \<Rightarrow> None
     | Some (v, rest) \<Rightarrow> if skip_ws rest = [] then Some v else None)"


subsection \<open>Decoding into a variable\<close>

text \<open>The types a struct field has, with \<open>any\<close> and \<open>json.RawMessage\<close>, and the values of these types.  A
  floating-point number keeps the text it was decoded from; a nil slice is an empty one.\<close>

datatype gotype = GoString | GoInt | GoFloat | GoBool | GoAny | GoRaw | GoPtr gotype | GoSlice gotype
  | GoStruct "(string \<times> gotype) list"

datatype goval = OfString string | OfInt int | OfFloat string | OfBool bool | OfAny jval | OfRaw "jval option"
  | OfPtr "goval option" | OfSlice "goval list" | OfStruct "(string \<times> goval) list"

fun zero_value :: "gotype \<Rightarrow> goval" where
  "zero_value GoString = OfString []"
| "zero_value GoInt = OfInt 0"
| "zero_value GoFloat = OfFloat ''0''"
| "zero_value GoBool = OfBool False"
| "zero_value GoAny = OfAny VNull"
| "zero_value GoRaw = OfRaw None"
| "zero_value (GoPtr t) = OfPtr None"
| "zero_value (GoSlice t) = OfSlice []"
| "zero_value (GoStruct fs) = OfStruct (map (\<lambda>(k, t). (k, zero_value t)) fs)"

text \<open>\<open>strconv.ParseFloat(s, 64)\<close> of a number literal fails only where the nearest value is infinite.\<close>

definition exponent_of :: "string \<Rightarrow> int" where
  "exponent_of s = (case s of [] \<Rightarrow> 0
     | _ # q \<Rightarrow> (case q of [] \<Rightarrow> 0
        | c # d \<Rightarrow> if c = CHR ''-'' then - int (digits_val 0 d)
            else if c = CHR ''+'' then int (digits_val 0 d) else int (digits_val 0 q)))"

definition float_fits :: "string \<Rightarrow> bool" where
  "float_fits s = (case lex_sign s of (_, t) \<Rightarrow>
     let i = takeWhile is_digit t; r = dropWhile is_digit t;
         f = (if r \<noteq> [] \<and> hd r = CHR ''.'' then takeWhile is_digit (tl r) else []);
         x = (if r \<noteq> [] \<and> hd r = CHR ''.'' then dropWhile is_digit (tl r) else r);
         e = exponent_of x - int (length f)
     in int (digits_val 0 (i @ f)) * 10 ^ nat e < (2 ^ 1024 - 2 ^ 970) * 10 ^ nat (- e))"

fun any_fits :: "jval \<Rightarrow> bool" where
  "any_fits (VNum s) = float_fits s"
| "any_fits (VArr vs) = list_all any_fits vs"
| "any_fits (VObj ms) = list_all (\<lambda>(k, v). any_fits v) ms"
| "any_fits _ = True"

definition field_of :: "(string \<times> gotype) list \<Rightarrow> string \<Rightarrow> (string \<times> gotype) option" where
  "field_of fs k = (case find (\<lambda>(n, t). n = k) fs of Some f \<Rightarrow> Some f
     | None \<Rightarrow> find (\<lambda>(n, t). EqualFold n k) fs)"

definition get_field :: "(string \<times> goval) list \<Rightarrow> string \<times> gotype \<Rightarrow> goval" where
  "get_field vals f = (case map_of vals (fst f) of Some x \<Rightarrow> x | None \<Rightarrow> zero_value (snd f))"

definition set_field :: "string \<Rightarrow> goval \<Rightarrow> (string \<times> goval) list \<Rightarrow> (string \<times> goval) list" where
  "set_field k x vals = map (\<lambda>(n, y). (n, if n = k then x else y)) vals"

definition members_of :: "goval \<Rightarrow> (string \<times> goval) list" where
  "members_of v = (case v of OfStruct vals \<Rightarrow> vals | _ \<Rightarrow> [])"

definition elems_of :: "goval \<Rightarrow> goval list" where
  "elems_of v = (case v of OfSlice vs \<Rightarrow> vs | _ \<Rightarrow> [])"

text \<open>A value is decoded over what the variable held: \<open>null\<close> leaves a string, number, boolean or struct as it
  was, a later member of the same name is decoded over an earlier one, a member that names no field is
  ignored, and any mismatch is an error.\<close>

function (sequential) decode_into :: "gotype \<Rightarrow> goval \<Rightarrow> jval \<Rightarrow> goval option"
  and decode_elems :: "gotype \<Rightarrow> goval list \<Rightarrow> jval list \<Rightarrow> goval list option"
  and decode_members :: "(string \<times> gotype) list \<Rightarrow> (string \<times> goval) list \<Rightarrow> (string \<times> jval) list
    \<Rightarrow> (string \<times> goval) list option" where
  "decode_into (GoPtr t) old VNull = Some (OfPtr None)"
| "decode_into (GoPtr t) old v = map_option (\<lambda>x. OfPtr (Some x))
     (decode_into t (case old of OfPtr (Some x) \<Rightarrow> x | _ \<Rightarrow> zero_value t) v)"
| "decode_into GoAny old v = (if any_fits v then Some (OfAny v) else None)"
| "decode_into GoRaw old v = Some (OfRaw (Some v))"
| "decode_into (GoSlice t) old VNull = Some (OfSlice [])"
| "decode_into t old VNull = Some old"
| "decode_into GoString old (VStr s) = Some (OfString s)"
| "decode_into GoInt old (VNum s) = map_option OfInt (ParseInt s)"
| "decode_into GoFloat old (VNum s) = (if float_fits s then Some (OfFloat s) else None)"
| "decode_into GoBool old (VBool b) = Some (OfBool b)"
| "decode_into (GoSlice t) old (VArr vs) = map_option OfSlice (decode_elems t (elems_of old) vs)"
| "decode_into (GoStruct fs) old (VObj ms) = map_option OfStruct (decode_members fs (members_of old) ms)"
| "decode_into t old v = None"
| "decode_elems t olds [] = Some []"
| "decode_elems t olds (v # vs) =
     (case decode_into t (case olds of [] \<Rightarrow> zero_value t | x # _ \<Rightarrow> x) v of None \<Rightarrow> None
      | Some x \<Rightarrow> map_option ((#) x) (decode_elems t (drop 1 olds) vs))"
| "decode_members fs vals [] = Some vals"
| "decode_members fs vals (m # ms) =
     (case field_of fs (fst m) of None \<Rightarrow> decode_members fs vals ms
      | Some f \<Rightarrow> (case decode_into (snd f) (get_field vals f) (snd m) of None \<Rightarrow> None
         | Some x \<Rightarrow> decode_members fs (set_field (fst f) x vals) ms))"
  by pat_completeness auto
termination
  by (relation "measures [\<lambda>x. case x of Inl (t, old, v) \<Rightarrow> size v
      | Inr (Inl (t, olds, vs)) \<Rightarrow> size_list size vs
      | Inr (Inr (fs, vals, ms)) \<Rightarrow> size_list (\<lambda>m. Suc (size (snd m))) ms,
    \<lambda>x. case x of Inl (t, old, v) \<Rightarrow> size t | _ \<Rightarrow> 0]") (auto simp: size_prod_simp split_beta)

text \<open>What a decoded variable holds.\<close>

definition go_field :: "string \<Rightarrow> goval \<Rightarrow> goval" where
  "go_field k v = (case map_of (members_of v) k of Some x \<Rightarrow> x | None \<Rightarrow> OfAny VNull)"

definition go_string :: "goval \<Rightarrow> string" where
  "go_string v = (case v of OfString s \<Rightarrow> s | _ \<Rightarrow> [])"

definition go_int :: "goval \<Rightarrow> int" where
  "go_int v = (case v of OfInt i \<Rightarrow> i | _ \<Rightarrow> 0)"

definition go_bool :: "goval \<Rightarrow> bool" where
  "go_bool v = (case v of OfBool b \<Rightarrow> b | _ \<Rightarrow> False)"

definition go_ptr :: "(goval \<Rightarrow> 'a) \<Rightarrow> goval \<Rightarrow> 'a option" where
  "go_ptr f v = (case v of OfPtr (Some x) \<Rightarrow> Some (f x) | _ \<Rightarrow> None)"

definition go_slice :: "(goval \<Rightarrow> 'a) \<Rightarrow> goval \<Rightarrow> 'a list" where
  "go_slice f v = map f (elems_of v)"

lemmas go_access = go_field_def go_string_def go_int_def go_bool_def go_ptr_def go_slice_def

text \<open>\<open>json.Unmarshal(s, &v)\<close> into a new variable, and \<open>json.NewDecoder(r).Decode(&v)\<close> for a reader that gives \<open>s\<close>.\<close>

definition Unmarshal :: "gotype \<Rightarrow> string \<Rightarrow> goval option" where
  "Unmarshal t s = (case parse_whole s of None \<Rightarrow> None | Some v \<Rightarrow> decode_into t (zero_value t) v)"

definition decodeJSON :: "gotype \<Rightarrow> goval \<Rightarrow> string \<Rightarrow> goval option" where
  "decodeJSON t old s = (case parse_first s of None \<Rightarrow> None | Some (v, _) \<Rightarrow> decode_into t old v)"


subsection \<open>Printing\<close>

fun print_json :: "jval \<Rightarrow> string" where
  "print_json VNull = ''null''"
| "print_json (VBool b) = (if b then ''true'' else ''false'')"
| "print_json (VNum s) = s"
| "print_json (VStr s) = json_quote s"
| "print_json (VArr vs) = ''['' @ Join (map print_json vs) '','' @ '']''"
| "print_json (VObj ms) = ''{'' @ Join (map (\<lambda>(k, v). json_quote k @ '':'' @ print_json v) ms) '','' @ ''}''"

text \<open>The values \<open>json.Marshal\<close> can write: strings of UTF-8, numbers in JSON's syntax, and no deeper than the
  scanner follows.\<close>

fun json_ok :: "jval \<Rightarrow> bool" where
  "json_ok (VNum s) \<longleftrightarrow> lex_number s = Some (s, [])"
| "json_ok (VStr s) \<longleftrightarrow> utf8_valid s"
| "json_ok (VArr vs) \<longleftrightarrow> list_all json_ok vs"
| "json_ok (VObj ms) \<longleftrightarrow> list_all (\<lambda>(k, v). utf8_valid k \<and> json_ok v) ms"
| "json_ok _ \<longleftrightarrow> True"

fun json_depth :: "jval \<Rightarrow> nat" where
  "json_depth (VArr vs) = Suc (foldr max (map json_depth vs) 0)"
| "json_depth (VObj ms) = Suc (foldr max (map (\<lambda>(k, v). json_depth v) ms) 0)"
| "json_depth _ = 0"

subsection \<open>What is printed is read back: strings\<close>

lemma byte_char_of_256: "n < 256 \<Longrightarrow> byte (char_of n) = n"
  by simp

lemma bytes_of_append: "bytes_of (a @ b) = bytes_of a @ bytes_of b"
  by (simp add: bytes_of_def)

lemma map_char_of_bytes [simp]: "map char_of (bytes_of s) = s"
  by (induction s) (simp_all add: bytes_of_def)

lemma bytes_of_map_char_of: "list_all (\<lambda>b. b < 256) bs \<Longrightarrow> bytes_of (map char_of bs) = bs"
  by (induction bs) (simp_all add: bytes_of_def)

lemma utf8_one: "r < 128 \<Longrightarrow> bytes_of (utf8_encode r) = [r]"
  by (simp add: utf8_encode_def bytes_of_def)

lemma mod_64: "(z :: nat) < 64 \<Longrightarrow> n = 64 * k + z \<Longrightarrow> n mod 64 = z"
  by simp

lemma utf8_two:
  assumes "194 \<le> a" and "a \<le> 223" and "cont_byte b"
  shows "bytes_of (utf8_encode (64 * (a - 192) + (b - 128))) = [a, b]"
proof -
  define x y where xy: "x = a - 192" "y = b - 128"
  then have "a = 192 + x" "b = 128 + y" "2 \<le> x" "x \<le> 31" "y < 64"
    using assms by (auto simp: cont_byte_def)
  moreover from this have "\<not> 64 * x + y < 128" "64 * x + y < 2048" "(64 * x + y) div 64 = x" "(64 * x + y) mod 64 = y"
    by (simp_all)
  ultimately show ?thesis by (simp add: utf8_encode_def bytes_of_def)
qed

lemma utf8_three:
  assumes "224 \<le> a" and "a \<le> 239" and "cont_byte b" and "cont_byte c" and "a = 224 \<longrightarrow> 160 \<le> b"
  shows "bytes_of (utf8_encode (4096 * (a - 224) + 64 * (b - 128) + (c - 128))) = [a, b, c]"
proof -
  define x y z where xyz: "x = a - 224" "y = b - 128" "z = c - 128"
  then have e: "a = 224 + x" "b = 128 + y" "c = 128 + z" "x \<le> 15" "y < 64" "z < 64" "x = 0 \<longrightarrow> 32 \<le> y"
    using assms by (auto simp: cont_byte_def)
  then have l: "2048 \<le> 4096 * x + 64 * y + z" "4096 * x + 64 * y + z < 65536" by (cases "x = 0"; simp)+
  have "(4096 * x + 64 * y + z) div 64 = 64 * x + y" "(4096 * x + 64 * y + z) div 4096 = x" "(64 * x + y) mod 64 = y"
    using e by simp_all
  moreover have "(4096 * x + 64 * y + z) mod 64 = z" using e mod_64 [of z _ "64 * x + y"] by simp
  ultimately show ?thesis using l e by (simp add: utf8_encode_def bytes_of_def)
qed

lemma utf8_four:
  assumes "240 \<le> a" and "a \<le> 244" and "cont_byte b" and "cont_byte c" and "cont_byte d" and "a = 240 \<longrightarrow> 144 \<le> b"
  shows "bytes_of (utf8_encode (262144 * (a - 240) + 4096 * (b - 128) + 64 * (c - 128) + (d - 128))) = [a, b, c, d]"
proof -
  define x y z u where xyz: "x = a - 240" "y = b - 128" "z = c - 128" "u = d - 128"
  then have e: "a = 240 + x" "b = 128 + y" "c = 128 + z" "d = 128 + u" "x \<le> 4" "y < 64" "z < 64" "u < 64" "x = 0 \<longrightarrow> 16 \<le> y"
    using assms by (auto simp: cont_byte_def)
  then have l: "65536 \<le> 262144 * x + 4096 * y + 64 * z + u" by (cases "x = 0"; simp)+
  have "(262144 * x + 4096 * y + 64 * z + u) div 64 = 4096 * x + 64 * y + z"
    "(262144 * x + 4096 * y + 64 * z + u) div 4096 = 64 * x + y"
    "(262144 * x + 4096 * y + 64 * z + u) div 262144 = x" "(64 * x + y) mod 64 = y"
    using e by simp_all
  moreover have "(262144 * x + 4096 * y + 64 * z + u) mod 64 = u" "(4096 * x + 64 * y + z) mod 64 = z"
    using e mod_64 [of u _ "4096 * x + 64 * y + z"] mod_64 [of z _ "64 * x + y"] by simp_all
  ultimately show ?thesis using l e by (simp add: utf8_encode_def bytes_of_def)
qed

lemma utf8_step_encode:
  assumes "utf8_step s = Some (r, t)"
  shows "s = bytes_of (utf8_encode r) @ t \<and> (\<forall>y. utf8_step (bytes_of (utf8_encode r) @ y) = Some (r, y))
    \<and> (128 \<le> r \<longrightarrow> 194 \<le> hd s) \<and> (r < 128 \<longrightarrow> hd s = r)"
  using assms
  by (cases s) (auto simp: utf8_one utf8_two utf8_three utf8_four split: if_splits list.splits)


lemma utf8_encode_ascii: "r < 128 \<Longrightarrow> utf8_encode r = [char_of r]"
  by (simp add: utf8_encode_def)

lemma unescape_u00:
  assumes "r < 128"
  shows "unescape (''u00'' @ [hex_digit (r div 16), hex_digit (r mod 16)] @ x) = Some (utf8_encode r, x)"
proof -
  have "hex_value (CHR ''0'') = Some 0" by (simp add: hex_value_def Let_def)
  moreover have "r div 16 < 16" "r mod 16 < 16" using assms by simp_all
  moreover have "16 * (r div 16) + r mod 16 = r" by simp
  ultimately have "hex4 (''00'' @ [hex_digit (r div 16), hex_digit (r mod 16)] @ x) = Some (r, x)"
    by (simp add: hex_value_digit)
  then show ?thesis using assms by (simp add: unescape_def unescape_u_def)
qed

lemma unescape_u2028: "unescape (''u2028'' @ x) = Some (utf8_encode 8232, x)"
  and unescape_u2029: "unescape (''u2029'' @ x) = Some (utf8_encode 8233, x)"
  by (simp_all add: unescape_def unescape_u_def hex_value_def Let_def)

lemma lex_escape: "unescape t = Some (u, x) \<Longrightarrow> lex_body (CHR 0x5C # t) = map_option (\<lambda>(v, e). (u @ v, e)) (lex_body x)"
  by (simp add: lex_body_Cons)

lemma lex_raw:
  assumes "utf8_step s = Some (r, t)" and "32 \<le> r" and "r \<noteq> 34" and "r \<noteq> 92"
  shows "lex_body (utf8_encode r @ x) = map_option (\<lambda>(v, e). (utf8_encode r @ v, e)) (lex_body x)"
proof -
  note u = utf8_step_encode [OF assms(1)]
  have ne: "utf8_encode r \<noteq> []" by (simp add: utf8_encode_def)
  have one: "utf8_encode r = [char_of r]" if "r < 128" using that by (simp add: utf8_encode_def)
  from ne obtain c p where c: "utf8_encode r = c # p" by (cases "utf8_encode r") auto
  then have "hd s = byte c" using u by (simp add: bytes_of_def)
  with u assms(2-4) have b: "32 \<le> byte c" "byte c \<noteq> 34" "byte c \<noteq> 92" by (cases "r < 128"; force)+
  from u have "utf8_step (bytes_of (utf8_encode r @ x)) = Some (r, bytes_of x)" by (simp add: bytes_of_append)
  then have "utf8_step (bytes_of (c # p @ x)) = Some (r, bytes_of x)" by (simp only: c append_Cons)
  moreover have "is_ascii c \<Longrightarrow> p = []"
    using u c \<open>hd s = byte c\<close> one by (cases "r < 128") (auto simp: is_ascii_byte)
  ultimately have "lex_body (c # p @ x) = map_option (\<lambda>(v, e). (utf8_encode r @ v, e)) (lex_body x)"
    using b c by (subst lex_body_Cons) (auto simp: is_control_byte)
  then show ?thesis by (simp only: c append_Cons)
qed

lemma escaped_chars: "char_of (34 :: nat) = CHR 0x22" "char_of (92 :: nat) = CHR 0x5C" "char_of (8 :: nat) = CHR 0x08"
  "char_of (12 :: nat) = CHR 0x0C" "char_of (10 :: nat) = CHR 0x0A" "char_of (13 :: nat) = CHR 0x0D" "char_of (9 :: nat) = CHR 0x09"
  by (simp_all add: char_of_eq_iff)

lemma lex_rune:
  assumes "utf8_step s = Some (r, t)" and "raw = bytes_of (utf8_encode r)"
  shows "lex_body (json_rune r raw @ x) = map_option (\<lambda>(v, e). (utf8_encode r @ v, e)) (lex_body x)"
proof -
  consider (esc) "r = 34 \<or> r = 92 \<or> r = 8 \<or> r = 12 \<or> r = 10 \<or> r = 13 \<or> r = 9"
    | (hex) "r \<noteq> 34" "r \<noteq> 92" "r \<noteq> 8" "r \<noteq> 12" "r \<noteq> 10" "r \<noteq> 13" "r \<noteq> 9" "r < 32 \<or> r = 60 \<or> r = 62 \<or> r = 38"
    | (sep) "r = 8232 \<or> r = 8233"
    | (raw) "32 \<le> r" "r \<noteq> 34" "r \<noteq> 92" "json_rune r raw = map char_of raw"
  proof (cases "r \<in> {34, 92, 8, 12, 10, 13, 9, 60, 62, 38, 8232, 8233} \<or> r < 32")
    case True
    then show ?thesis using that(1-3) by auto
  next
    case False
    then show ?thesis using that(4) by (simp add: json_rune_def)
  qed
  then show ?thesis
  proof cases
    case esc
    then show ?thesis
      by (elim disjE) (simp_all add: json_rune_def lex_escape unescape_def utf8_encode_ascii escaped_chars)
  next
    case hex
    then have "json_rune r raw @ x = CHR 0x5C # ''u00'' @ [hex_digit (r div 16), hex_digit (r mod 16)] @ x"
      by (simp add: json_rune_def)
    moreover have "r < 128" using hex by auto
    ultimately show ?thesis by (simp only: lex_escape [OF unescape_u00])
  next
    case sep
    then show ?thesis
      using lex_escape [OF unescape_u2028] lex_escape [OF unescape_u2029] by (auto simp: json_rune_def)
  next
    case raw
    with assms show ?thesis using lex_raw [OF assms(1)] by simp
  qed
qed

lemma lex_json_body:
  "utf8_decode s \<noteq> None \<Longrightarrow> list_all (\<lambda>b. b < 256) s \<Longrightarrow> lex_body (json_body s @ CHR 0x22 # x) = Some (map char_of s, x)"
proof (induction s rule: json_body.induct)
  case (1 s)
  show ?case
  proof (cases "s = []")
    case True
    then show ?thesis by (simp add: json_body.simps [of "[]"] lex_body_Cons)
  next
    case False
    from 1(3) False obtain r t where u: "utf8_step s = Some (r, t)" and d: "utf8_decode t \<noteq> None"
      by (subst (asm) utf8_decode.simps) (auto split: option.splits)
    note e = utf8_step_encode [OF u]
    then have raw: "take (length s - length t) s = bytes_of (utf8_encode r)" by (metis append_eq_conv_conj append_take_drop_id diff_diff_cancel length_append length_drop add_diff_cancel_right')
    have "list_all (\<lambda>b. b < 256) t" using 1(4) e by (metis list_all_append)
    with 1(2) [OF False u refl d] have "lex_body (json_body t @ CHR 0x22 # x) = Some (map char_of t, x)" by simp
    then have "lex_body (json_body s @ CHR 0x22 # x) = Some (utf8_encode r @ map char_of t, x)"
      using False u lex_rune [OF u refl, of "json_body t @ CHR 0x22 # x"] raw
      by (simp add: json_body.simps [of s])
    also have "utf8_encode r @ map char_of t = map char_of s"
      using e by (metis map_append map_char_of_bytes)
    finally show ?thesis .
  qed
qed

lemma lex_json_quote:
  assumes "utf8_valid s"
  shows "next_token (json_quote s @ x) = Some (TStr s, x)"
proof -
  have "list_all (\<lambda>b. b < 256) (bytes_of s)"
    by (simp add: bytes_of_def list_all_iff of_char_less_256)
  with assms have "lex_body (json_body (bytes_of s) @ CHR 0x22 # x) = Some (s, x)"
    using lex_json_body [of "bytes_of s" x] by (simp add: utf8_valid_def utf8_runes_def)
  then show ?thesis by (simp add: next_token_def json_quote_def skip_ws_def is_ws_def)
qed


text \<open>A name of plain ASCII characters is written as it is.\<close>

definition plain_name :: "string \<Rightarrow> bool" where
  "plain_name k \<longleftrightarrow> list_all (\<lambda>c. 32 \<le> byte c \<and> byte c < 128 \<and> byte c \<notin> {34, 92, 60, 62, 38}) k"

lemma json_body_plain: "plain_name k \<Longrightarrow> json_body (bytes_of k) = k"
proof (induction k)
  case Nil
  then show ?case by (simp add: json_body.simps bytes_of_def)
next
  case (Cons c k)
  then have "json_body (bytes_of k) = k" and c: "32 \<le> byte c" "byte c < 128" "byte c \<notin> {34, 92, 60, 62, 38}"
    by (simp_all add: plain_name_def)
  then show ?case by (simp add: json_body.simps [of "byte c # map byte k"] bytes_of_def json_rune_def)
qed

lemma json_quote_plain: "plain_name k \<Longrightarrow> json_quote k = [CHR 0x22] @ k @ [CHR 0x22]"
  by (simp add: json_quote_def json_body_plain)

lemma utf8_valid_plain: "plain_name k \<Longrightarrow> utf8_valid k"
  using utf8_decode_ascii [of "bytes_of k"] by (fastforce simp: utf8_valid_def utf8_runes_def plain_name_def bytes_of_def list_all_iff)

text \<open>Evaluation looks at the characters, not at their numbers.\<close>

lemma plain_name_code [code]:
  "plain_name k = list_all (\<lambda>c. \<not> is_control c \<and> is_ascii c
     \<and> \<not> (c = CHR 0x22 \<or> c = CHR 0x5C \<or> c = CHR 0x3C \<or> c = CHR 0x3E \<or> c = CHR 0x26)) k"
proof -
  have "byte c \<notin> {34, 92, 60, 62, 38} \<longleftrightarrow> \<not> (c = CHR 0x22 \<or> c = CHR 0x5C \<or> c = CHR 0x3C \<or> c = CHR 0x3E \<or> c = CHR 0x26)" for c
    by (cases c) (auto simp: of_char_def)
  then show ?thesis by (simp add: plain_name_def is_control_byte is_ascii_byte not_less conj_assoc)
qed

lemma json_quote_code [code]:
  "json_quote s = [CHR 0x22] @ (if plain_name s then s else json_body (bytes_of s)) @ [CHR 0x22]"
  by (simp add: json_quote_def json_body_plain)

subsection \<open>What is printed is read back: numbers\<close>

definition number_ends :: "string \<Rightarrow> bool" where
  "number_ends s \<longleftrightarrow> s = [] \<or> \<not> is_digit (hd s) \<and> hd s \<notin> {CHR ''.'', CHR ''e'', CHR ''E''}"

lemma digits_append:
  assumes "number_ends rest"
  shows "takeWhile is_digit (t @ rest) = takeWhile is_digit t" and "dropWhile is_digit (t @ rest) = dropWhile is_digit t @ rest"
  using assms by (induction t) (cases rest; auto simp: number_ends_def)+

lemma lex_int_append: "number_ends rest \<Longrightarrow> lex_int t = Some (i, t1) \<Longrightarrow> lex_int (t @ rest) = Some (i, t1 @ rest)"
  by (cases t) (auto simp: lex_int_def digits_append split: if_splits)

lemma lex_frac_append: "number_ends rest \<Longrightarrow> lex_frac t = Some (i, t1) \<Longrightarrow> lex_frac (t @ rest) = Some (i, t1 @ rest)"
  by (cases t) (cases rest, auto simp: lex_frac_def digits_append number_ends_def split: if_splits)

lemma lex_exp_append:
  assumes "number_ends rest" and "lex_exp t = Some (i, t1)"
  shows "lex_exp (t @ rest) = Some (i, t1 @ rest)"
proof (cases t)
  case Nil
  with assms show ?thesis by (cases rest) (auto simp: lex_exp_def number_ends_def)
next
  case (Cons c r)
  with assms(2) show ?thesis
    by (cases r) (auto simp: lex_exp_def Let_def digits_append [OF assms(1)] split: if_splits)
qed

lemma lex_number_append:
  assumes "number_ends rest" and "lex_number s = Some (n, t)"
  shows "lex_number (s @ rest) = Some (n, t @ rest)"
proof -
  obtain sign q where q: "lex_sign s = (sign, q)" by fastforce
  with assms(2) have "s \<noteq> []" by (auto simp: lex_number_def lex_sign_def lex_int_def)
  with q have "lex_sign (s @ rest) = (sign, q @ rest)" by (cases s) (auto simp: lex_sign_def split: if_splits)
  moreover from q assms(2) obtain i t1 f t2 e where p: "lex_int q = Some (i, t1)" "lex_frac t1 = Some (f, t2)"
    "lex_exp t2 = Some (e, t)" "n = sign @ i @ f @ e"
    by (auto simp: lex_number_def split: option.splits)
  ultimately show ?thesis
    using lex_int_append [OF assms(1) p(1)] lex_frac_append [OF assms(1) p(2)] lex_exp_append [OF assms(1) p(3)]
    by (simp add: lex_number_def)
qed

lemma lex_number_head: "lex_number s = Some (n, t) \<Longrightarrow> \<exists>c r. s = c # r \<and> (c = CHR ''-'' \<or> is_digit c)"
  by (cases s) (auto simp: lex_number_def lex_sign_def lex_int_def is_digit_def split: if_splits option.splits)

lemma next_token_number:
  assumes "lex_number n = Some (n, [])" and "number_ends rest"
  shows "next_token (n @ rest) = Some (TNum n, rest)"
proof -
  from lex_number_head [OF assms(1)] obtain c r where n: "n = c # r" and c: "c = CHR ''-'' \<or> is_digit c" by blast
  then have d: "byte c = 45 \<or> 48 \<le> byte c \<and> byte c \<le> 57" by (auto simp: is_digit_def)
  then have "c \<notin> {CHR ''['', CHR '']'', CHR ''{'', CHR ''}'', CHR '','', CHR '':'', CHR 0x22, CHR ''t'', CHR ''f'', CHR ''n''}"
    and "\<not> is_ws c" by (auto simp: is_ws_def)
  moreover have "lex_number (c # r @ rest) = Some (n, rest)"
    using lex_number_append [OF assms(2,1)] n by simp
  ultimately show ?thesis by (simp add: n next_token_def skip_ws_def HasPrefix_def)
qed

lemma nat_digits_head: "0 < n \<Longrightarrow> hd (nat_digits n) \<noteq> CHR ''0''"
proof (induction n rule: nat_digits.induct)
  case (1 n)
  show ?case
  proof (cases "n < 10")
    case True
    then have "byte (digit_char n) = 48 + n" by (simp add: byte_digit_char)
    with 1(2) have "digit_char n \<noteq> CHR ''0''" by (intro notI) simp
    with True show ?thesis by (simp add: nat_digits.simps [of n])
  next
    case False
    with 1(1) show ?thesis by (simp add: nat_digits.simps [of n] hd_append nat_digits_nonempty)
  qed
qed

lemma lex_int_nat_digits: "lex_int (nat_digits n) = Some (nat_digits n, [])"
proof -
  obtain c r where c: "nat_digits n = c # r" using nat_digits_nonempty by (cases "nat_digits n") auto
  then have d: "is_digit c" "list_all is_digit r" using nat_digits_digits [of n] by simp_all
  then have tw: "takeWhile is_digit r = r" "dropWhile is_digit r = []" by (auto simp: list_all_iff)
  have "c = CHR ''0'' \<Longrightarrow> r = []"
    using nat_digits_head [of n] c by (cases "n = 0") (auto simp: nat_digits.simps [of 0])
  with c d tw show ?thesis by (auto simp: lex_int_def)
qed

lemma lex_number_Itoa: "lex_number (Itoa i) = Some (Itoa i, [])"
proof -
  have "lex_sign (nat_digits n) = ([], nat_digits n)" for n
    using nat_digits_hd [of n] nat_digits_nonempty [of n] by (cases "nat_digits n") (auto simp: lex_sign_def)
  moreover have "lex_sign (CHR ''-'' # s) = (''-'', s)" for s by (simp add: lex_sign_def)
  ultimately show ?thesis
    by (simp add: lex_number_def Itoa_def lex_int_nat_digits lex_frac_def lex_exp_def)
qed

subsection \<open>What is printed is read back: values\<close>

definition resume :: "progress \<Rightarrow> string \<Rightarrow> (jval \<times> string) option" where
  "resume p s = (case p of Bad \<Rightarrow> None | Parsed v \<Rightarrow> Some (v, s) | More m st \<Rightarrow> parse_from m st s)"

lemma resume_simps [simp]:
  "resume Bad s = None" "resume (Parsed v) s = Some (v, s)" "resume (More m st) s = parse_from m st s"
  by (simp_all add: resume_def)

lemma parse_token: "next_token s = Some (t, rest) \<Longrightarrow> parse_from m st s = resume (scan_step m st t) rest"
  by (simp add: parse_from.simps [of m st s] resume_def)

lemma or_empty_step: "t \<noteq> TRBrack \<Longrightarrow> scan_step BeginValueOrEmpty st t = value_step st t"
  by (cases "(BeginValueOrEmpty, st, t)" rule: scan_step.cases) auto

lemma next_token_punct:
  "next_token ('','' @ s) = Some (TComma, s)" "next_token ('':'' @ s) = Some (TColon, s)"
  "next_token (''['' @ s) = Some (TLBrack, s)" "next_token ('']'' @ s) = Some (TRBrack, s)"
  "next_token (''{'' @ s) = Some (TLBrace, s)" "next_token (''}'' @ s) = Some (TRBrace, s)"
  "next_token (''null'' @ s) = Some (TNull, s)" "next_token (''true'' @ s) = Some (TTrue, s)"
  "next_token (''false'' @ s) = Some (TFalse, s)"
  by (simp_all add: next_token_def skip_ws_def is_ws_def HasPrefix_def)

lemma Join_Cons: "Join (x # xs) sep = x @ (if xs = [] then [] else sep @ Join xs sep)"
  by (cases xs) simp_all

lemma number_ends_punct [simp]: "number_ends (CHR '','' # s)" "number_ends (CHR '']'' # s)" "number_ends (CHR ''}'' # s)"
  by (simp_all add: number_ends_def is_digit_def)

definition reads_back :: "jval \<Rightarrow> bool" where
  "reads_back v \<longleftrightarrow> (\<forall>st rest. int (length st + json_depth v) \<le> maxNestingDepth \<longrightarrow> number_ends rest \<or> \<not> (\<exists>n. v = VNum n) \<longrightarrow>
     (\<exists>t r. next_token (print_json v @ rest) = Some (t, r) \<and> t \<noteq> TRBrack
       \<and> resume (value_step st t) r = resume (close_value v st) rest))"

lemma reads_backD:
  assumes "reads_back v" and "int (length st + json_depth v) \<le> maxNestingDepth" and "number_ends rest \<or> \<not> (\<exists>n. v = VNum n)"
    and "m = BeginValue \<or> m = BeginValueOrEmpty"
  shows "parse_from m st (print_json v @ rest) = resume (close_value v st) rest"
proof -
  from assms(1-3) obtain t r where t: "next_token (print_json v @ rest) = Some (t, r)" "t \<noteq> TRBrack"
    "resume (value_step st t) r = resume (close_value v st) rest"
    unfolding reads_back_def by blast
  with assms(4) show ?thesis by (auto simp: parse_token [OF t(1)] or_empty_step)
qed

lemma reads_elems:
  assumes "\<forall>v \<in> set vs. reads_back v \<and> int (Suc (length st) + json_depth v) \<le> maxNestingDepth" and "vs \<noteq> []"
    and "m = BeginValue \<or> m = BeginValueOrEmpty"
  shows "parse_from m (FArr acc # st) (Join (map print_json vs) '','' @ '']'' @ rest) = resume (close_value (VArr (acc @ vs)) st) rest"
  using assms
proof (induction vs arbitrary: acc m)
  case Nil
  then show ?case by simp
next
  case (Cons v vs)
  show ?case
  proof (cases "vs = []")
    case True
    have "parse_from m (FArr acc # st) (print_json v @ '']'' @ rest) = parse_from EndValue (FArr (acc @ [v]) # st) ('']'' @ rest)"
      using reads_backD [of v "FArr acc # st" "'']'' @ rest" m] Cons.prems by (simp add: close_value_def)
    also have "\<dots> = resume (close_value (VArr (acc @ [v])) st) rest"
      by (simp only: parse_token [OF next_token_punct(4)]) simp
    finally show ?thesis using True by simp
  next
    case False
    let ?s = "Join (map print_json vs) '','' @ '']'' @ rest"
    have "parse_from m (FArr acc # st) (print_json v @ '','' @ ?s) = parse_from EndValue (FArr (acc @ [v]) # st) ('','' @ ?s)"
      using reads_backD [of v "FArr acc # st" "'','' @ ?s" m] Cons.prems by (simp add: close_value_def)
    also have "\<dots> = parse_from BeginValue (FArr (acc @ [v]) # st) ?s"
      by (simp only: parse_token [OF next_token_punct(1)]) simp
    also have "\<dots> = resume (close_value (VArr (acc @ v # vs)) st) rest"
      using Cons.IH [of BeginValue "acc @ [v]"] Cons.prems False by simp
    finally show ?thesis using False by (simp add: Join_Cons)
  qed
qed

abbreviation print_member :: "string \<times> jval \<Rightarrow> string" where
  "print_member \<equiv> \<lambda>(k, v). json_quote k @ '':'' @ print_json v"

lemma reads_member:
  assumes "utf8_valid k" and "reads_back v" and "int (Suc (length st) + json_depth v) \<le> maxNestingDepth" and "number_ends rest"
    and "m = BeginString \<or> m = BeginStringOrEmpty"
  shows "parse_from m (FObj acc # st) (print_member (k, v) @ rest) = parse_from EndValue (FObj (acc @ [(k, v)]) # st) rest"
proof -
  have "parse_from m (FObj acc # st) (print_member (k, v) @ rest)
      = parse_from EndValue (FKey acc k # st) ('':'' @ print_json v @ rest)"
    using parse_token [OF lex_json_quote [OF assms(1)], of m "FObj acc # st" "'':'' @ print_json v @ rest"] assms(5)
    by auto
  also have "\<dots> = parse_from BeginValue (FKey acc k # st) (print_json v @ rest)"
    by (simp only: parse_token [OF next_token_punct(2)]) simp
  also have "\<dots> = parse_from EndValue (FObj (acc @ [(k, v)]) # st) rest"
    using reads_backD [of v "FKey acc k # st" rest BeginValue] assms by (simp add: close_value_def)
  finally show ?thesis .
qed

lemma reads_members:
  assumes "\<forall>(k, v) \<in> set ms. utf8_valid k \<and> reads_back v \<and> int (Suc (length st) + json_depth v) \<le> maxNestingDepth" and "ms \<noteq> []"
    and "m = BeginString \<or> m = BeginStringOrEmpty"
  shows "parse_from m (FObj acc # st) (Join (map print_member ms) '','' @ ''}'' @ rest) = resume (close_value (VObj (acc @ ms)) st) rest"
  using assms
proof (induction ms arbitrary: acc m)
  case Nil
  then show ?case by simp
next
  case (Cons x ms)
  obtain k v where x: "x = (k, v)" by fastforce
  show ?case
  proof (cases "ms = []")
    case True
    have "parse_from m (FObj acc # st) (print_member x @ ''}'' @ rest) = parse_from EndValue (FObj (acc @ [(k, v)]) # st) (''}'' @ rest)"
      using reads_member [of k v st "''}'' @ rest" m acc] Cons.prems x by simp
    also have "\<dots> = resume (close_value (VObj (acc @ [(k, v)])) st) rest"
      by (simp only: parse_token [OF next_token_punct(6)]) simp
    finally show ?thesis using True x by simp
  next
    case False
    let ?s = "Join (map print_member ms) '','' @ ''}'' @ rest"
    have "parse_from m (FObj acc # st) (print_member x @ '','' @ ?s) = parse_from EndValue (FObj (acc @ [(k, v)]) # st) ('','' @ ?s)"
      using reads_member [of k v st "'','' @ ?s" m acc] Cons.prems x by simp
    also have "\<dots> = parse_from BeginString (FObj (acc @ [(k, v)]) # st) ?s"
      by (simp only: parse_token [OF next_token_punct(1)]) simp
    also have "\<dots> = resume (close_value (VObj (acc @ x # ms)) st) rest"
      using Cons.IH [of BeginString "acc @ [(k, v)]"] Cons.prems False x by simp
    finally show ?thesis using False by (simp add: Join_Cons)
  qed
qed

lemma foldr_max_bound: "x \<in> set xs \<Longrightarrow> x \<le> foldr max xs (0 :: nat)"
  by (induction xs) auto

lemma json_reads_back: "json_ok v \<Longrightarrow> reads_back v"
proof (induction v rule: print_json.induct)
  case (5 vs)
  have "\<forall>v \<in> set vs. json_depth v \<le> foldr max (map json_depth vs) 0"
    by (auto intro: foldr_max_bound)
  with 5 have el: "\<forall>v \<in> set vs. reads_back v \<and> int (Suc (length st) + json_depth v) \<le> maxNestingDepth"
    if "int (length st + json_depth (VArr vs)) \<le> maxNestingDepth" for st :: "frame list"
    using that by (fastforce simp: list_all_iff)
  show ?case unfolding reads_back_def
  proof (intro allI impI)
    fix st :: "frame list" and rest
    assume d: "int (length st + json_depth (VArr vs)) \<le> maxNestingDepth"
    let ?r = "Join (map print_json vs) '','' @ '']'' @ rest"
    have "parse_from BeginValueOrEmpty (FArr [] # st) ?r = resume (close_value (VArr vs) st) rest"
    proof (cases "vs = []")
      case True
      then show ?thesis using parse_token [OF next_token_punct(4), of BeginValueOrEmpty "FArr [] # st" rest] by simp
    next
      case False
      then show ?thesis using reads_elems [OF el [OF d], of BeginValueOrEmpty "[]" rest] by simp
    qed
    moreover have "next_token (print_json (VArr vs) @ rest) = Some (TLBrack, ?r)"
      using next_token_punct(3) [of ?r] by simp
    ultimately show "\<exists>t r. next_token (print_json (VArr vs) @ rest) = Some (t, r) \<and> t \<noteq> TRBrack
       \<and> resume (value_step st t) r = resume (close_value (VArr vs) st) rest"
      using d by (intro exI [of _ TLBrack] exI [of _ ?r]) (simp add: open_frame_def)
  qed
next
  case (6 ms)
  have "\<forall>(k, v) \<in> set ms. json_depth v \<le> foldr max (map (\<lambda>(k, v). json_depth v) ms) 0"
    by (force intro: foldr_max_bound)
  with 6 have el: "\<forall>(k, v) \<in> set ms. utf8_valid k \<and> reads_back v \<and> int (Suc (length st) + json_depth v) \<le> maxNestingDepth"
    if "int (length st + json_depth (VObj ms)) \<le> maxNestingDepth" for st :: "frame list"
    using that by (fastforce simp: list_all_iff)
  show ?case unfolding reads_back_def
  proof (intro allI impI)
    fix st :: "frame list" and rest
    assume d: "int (length st + json_depth (VObj ms)) \<le> maxNestingDepth"
    let ?r = "Join (map print_member ms) '','' @ ''}'' @ rest"
    have "parse_from BeginStringOrEmpty (FObj [] # st) ?r = resume (close_value (VObj ms) st) rest"
    proof (cases "ms = []")
      case True
      then show ?thesis using parse_token [OF next_token_punct(6), of BeginStringOrEmpty "FObj [] # st" rest] by simp
    next
      case False
      then show ?thesis using reads_members [OF el [OF d], of BeginStringOrEmpty "[]" rest] by simp
    qed
    moreover have "next_token (print_json (VObj ms) @ rest) = Some (TLBrace, ?r)"
      using next_token_punct(5) [of ?r] by simp
    ultimately show "\<exists>t r. next_token (print_json (VObj ms) @ rest) = Some (t, r) \<and> t \<noteq> TRBrack
       \<and> resume (value_step st t) r = resume (close_value (VObj ms) st) rest"
      using d by (intro exI [of _ TLBrace] exI [of _ ?r]) (simp add: open_frame_def)
  qed
qed (auto simp: reads_back_def next_token_punct [simplified] lex_json_quote next_token_number)

text \<open>The decoder reads a printed value back and leaves the text that follows it; a number has to end there.\<close>

theorem parse_print:
  assumes "json_ok v" and "int (json_depth v) \<le> maxNestingDepth" and "number_ends rest \<or> \<not> (\<exists>n. v = VNum n)"
  shows "parse_first (print_json v @ rest) = Some (v, rest)"
  using reads_backD [OF json_reads_back [OF assms(1)], of "[]" rest BeginValue] assms(2,3)
  by (simp add: parse_first_def close_value_def)

lemma parse_whole_print: "json_ok v \<Longrightarrow> int (json_depth v) \<le> maxNestingDepth \<Longrightarrow> parse_whole (print_json v) = Some v"
  using parse_print [of v "[]"] by (simp add: parse_whole_def number_ends_def skip_ws_def)

end
