(* ===== verification/World.thy ===== *)
theory World
  imports ApiKey Address Json
begin

text \<open>
  The state every component shares: the PostgreSQL tables the queries read and write (fmsgd's \<open>msg\<close>
  tables and the tables of \<open>src/dd.sql\<close>), the stored files, the fmsgid lookup cache, and the request
  log of the fmsgid service.  A request handler is an action on this state that either ends early with
  a result (a response, or an error) or goes on with a value.

  The environment \<open>env\<close> holds what the program does not decide: the configuration, the clock, which
  database statement or file operation fails, what fmsgid answers, and the code of other modules
  (\<open>message.Finalize\<close> of fmsgd, and what its schema fills in for the columns of an attachment that
  this program leaves out).  Any statement may fail at any time; a failed statement inside a
  transaction aborts it, as PostgreSQL does, so every later statement fails and the commit fails too.
  Handlers run one after the other: the row locks of the program are not modelled.
\<close>

subsection \<open>Tables\<close>

record msg_row =
  m_id :: int
  m_version :: int
  m_pid :: "int option"
  m_no_reply :: bool
  m_important :: bool
  m_deflate :: bool
  m_terminal :: bool
  m_time :: "time option"
  m_sha256 :: "string option"
  m_psha256 :: "string option"
  m_from :: string
  m_topic :: string
  m_type :: string
  m_size :: int
  m_path :: string

record to_row =
  t_id :: int
  t_msg :: int
  t_addr :: string
  t_delivered :: "time option"
  t_code :: "int option"
  t_read :: "time option"

record batch_row =
  b_id :: int
  b_msg :: int
  b_from :: string
  b_time :: time
  b_sha256 :: "string option"

record addto_row =
  a_id :: int
  a_msg :: int
  a_batch :: int
  a_addr :: string
  a_delivered :: "time option"
  a_code :: "int option"
  a_read :: "time option"

record notify_row =
  n_batch :: int
  n_domain :: string
  n_time :: "time option"
  n_code :: "int option"

record att_row =
  at_msg :: int
  at_position :: int
  at_type :: string
  at_filename :: string
  at_size :: int
  at_flags :: nat
  at_path :: string

record trash_row =
  tr_addr :: string
  tr_msg :: int
  tr_thread :: bool
  tr_deleted :: time
  tr_purged :: "time option"

text \<open>A row with \<open>agent = ''''\<close> only carries the owner's limit; its other columns are NULL.\<close>

record grant_row =
  g_owner :: string
  g_agent :: string
  g_sub :: string
  g_type :: string
  g_display :: string
  g_key_id :: string
  g_key_hash :: string
  g_cidrs :: "string list"
  g_expires :: time
  g_max :: int

record push_row =
  p_addr :: string
  p_endpoint :: string
  p_key :: string
  p_auth :: string

record database =
  msgs :: "msg_row list"
  tos :: "to_row list"
  batches :: "batch_row list"
  addtos :: "addto_row list"
  notifies :: "notify_row list"
  atts :: "att_row list"
  trash :: "trash_row list"
  grants :: "grant_row list"
  pushes :: "push_row list"
  next_id :: int
  noted :: "(string \<times> string) list"

text \<open>\<open>next_id\<close> stands for the id sequences; \<open>noted\<close> are the \<open>pg_notify\<close> events of committed
  statements (channel and payload), oldest first.\<close>

subsection \<open>The fmsgid service\<close>

datatype id_request =
    IdGet string
  | IdRegister string bool string bool
  | IdUsage string string time int

text \<open>No answer, or a status with the text of the body; \<open>None\<close> where the body cannot be read.\<close>

datatype id_reply = IdDown | IdReply nat "string option"

record cache_entry =
  c_expires :: time
  c_code :: nat
  c_accepting :: bool

subsection \<open>Configuration and environment\<close>

record env =
  e_fail :: "nat \<Rightarrow> bool"
  e_lost :: "nat \<Rightarrow> bool"
  e_io_fail :: "nat \<Rightarrow> bool"
  e_stat :: "nat \<Rightarrow> string \<Rightarrow> bool"
  e_now :: "nat \<Rightarrow> time"
  e_suffix :: "nat \<Rightarrow> string"
  e_random :: "nat \<Rightarrow> nat \<Rightarrow> string option"
  e_sha256 :: "string \<Rightarrow> string"
  e_fmsgid :: "id_request list \<Rightarrow> id_reply"
  e_escape :: "string \<Rightarrow> string"
  e_letter :: "nat \<Rightarrow> bool"
  e_addr_key :: "string \<Rightarrow> string"
  e_prefix :: "string \<Rightarrow> (string \<Rightarrow> bool) option"
  e_cidr :: "string \<Rightarrow> string option"
  e_remote_ip :: "string \<Rightarrow> string option"
  e_rfc3339 :: "string \<Rightarrow> time option"
  e_media_type :: "string \<Rightarrow> string option"
  e_extension :: "string \<Rightarrow> string option"
  e_rgi :: "string list"
  e_finalize :: "database \<Rightarrow> int \<Rightarrow> time \<Rightarrow> (string \<times> database) option \<times> (string \<times> string) list"
  e_finalize_batch :: "database \<Rightarrow> int \<Rightarrow> int \<Rightarrow> (string \<times> database) option"
  e_att_defaults :: "int \<times> string \<times> nat"
  e_cwd :: string
  DataDir :: string
  MaxDataSize :: int
  MaxMsgSize :: int
  MaxAttachSize :: int
  ShortTextSize :: int
  IDURL :: string
  LocalDomain :: string
  RetryMaxAge :: time

text \<open>\<open>e_stat\<close> says for which paths \<open>os.Stat\<close> fails at a given tick with an error other than not-existing.

  \<open>throttled\<close> of the state below is the map of \<open>indicatorThrottle\<close> (\<open>indicators.go\<close>), kept in memory.

  What is to be done after a request's transaction commits (\<open>afterCommit\<close> of \<open>transaction.go\<close>):
  remove a file, record a send, resolve local deliveries, give back usage.  On a rollback the only
  thing to be done is to remove the files the request created (\<open>createdFile\<close>, \<open>onRollback\<close>).\<close>

datatype deferred =
    DRemove string
  | DRecordSend string time int
  | DResolve bool int "string list"
  | DRelease bool string time int

record world =
  db :: database
  files :: "string \<rightharpoonup> string"
  cache :: "string \<rightharpoonup> cache_entry"
  idlog :: "id_request list"
  tick :: nat
  intx :: bool
  aborted :: bool
  on_rollback :: "string list"
  on_commit :: "deferred list"
  throttled :: "(string \<times> time) list"

subsection \<open>An example environment and state\<close>

text \<open>Nothing fails, the clock stands at 0 and fmsgid knows nobody; the examples start from these.\<close>

definition example_env :: env where
  "example_env = \<lparr>e_fail = (\<lambda>_. False), e_lost = (\<lambda>_. False), e_io_fail = (\<lambda>_. False), e_stat = (\<lambda>_ _. False), e_now = (\<lambda>_. 0),
     e_suffix = (\<lambda>n. ''x''), e_random = (\<lambda>t n. Some (replicate n CHR ''r'')), e_sha256 = (\<lambda>s. s),
     e_fmsgid = (\<lambda>_. IdReply 404 (Some [])), e_escape = (\<lambda>s. s), e_letter = (\<lambda>_. False),
     e_addr_key = ToLower, e_prefix = (\<lambda>_. Some (\<lambda>_. True)), e_cidr = Some, e_remote_ip = Some,
     e_rfc3339 = ParseInt, e_media_type = Some, e_extension = (\<lambda>_. None), e_rgi = [],
     e_finalize = (\<lambda>d i t. (None, [])), e_finalize_batch = (\<lambda>d i b. None), e_att_defaults = (0, [], 0), e_cwd = ''/'',
     DataDir = ''/d'', MaxDataSize = 1000, MaxMsgSize = 2000, MaxAttachSize = 1000,
     ShortTextSize = 16, IDURL = [], LocalDomain = ''ex.org'', RetryMaxAge = 0\<rparr>"

definition empty_db :: database where
  "empty_db = \<lparr>msgs = [], tos = [], batches = [], addtos = [], notifies = [], atts = [], trash = [],
     grants = [], pushes = [], next_id = 1, noted = []\<rparr>"

definition example_world :: world where
  "example_world = \<lparr>db = empty_db, files = Map.empty, cache = Map.empty, idlog = [], tick = 0, intx = False,
     aborted = False, on_rollback = [], on_commit = [], throttled = []\<rparr>"

subsection \<open>Actions\<close>

type_synonym ('e, 'a) act = "world \<Rightarrow> ('e + 'a) \<times> world"

definition ret :: "'a \<Rightarrow> ('e, 'a) act" where
  "ret a w = (Inr a, w)"

definition throw :: "'e \<Rightarrow> ('e, 'a) act" where
  "throw e w = (Inl e, w)"

definition bind :: "('e, 'a) act \<Rightarrow> ('a \<Rightarrow> ('e, 'b) act) \<Rightarrow> ('e, 'b) act" where
  "bind m f w = (case m w of (Inl e, w1) \<Rightarrow> (Inl e, w1) | (Inr a, w1) \<Rightarrow> f a w1)"

definition unless :: "bool \<Rightarrow> 'e \<Rightarrow> ('e, unit) act" where
  "unless b e = (if b then ret () else throw e)"

text \<open>Run an action and keep going with its outcome, error or value.\<close>

definition attempt :: "('x, 'a) act \<Rightarrow> ('e, 'x + 'a) act" where
  "attempt m w = (case m w of (r, w1) \<Rightarrow> (Inr r, w1))"

fun each :: "('a \<Rightarrow> ('e, unit) act) \<Rightarrow> 'a list \<Rightarrow> ('e, unit) act" where
  "each f [] = ret ()"
| "each f (x # xs) = bind (f x) (\<lambda>_. each f xs)"

fun each_map :: "('a \<Rightarrow> ('e, 'b) act) \<Rightarrow> 'a list \<Rightarrow> ('e, 'b list) act" where
  "each_map f [] = ret []"
| "each_map f (x # xs) = bind (f x) (\<lambda>y. bind (each_map f xs) (\<lambda>ys. ret (y # ys)))"

definition get_world :: "('e, world) act" where
  "get_world w = (Inr w, w)"

datatype sql_error = UniqueViolation | ManyRows | SqlFailed

text \<open>One database statement: \<open>f\<close> gives its result and the new tables, or the error the tables cause.\<close>

definition stmt :: "env \<Rightarrow> (database \<Rightarrow> sql_error + ('a \<times> database)) \<Rightarrow> ('e, sql_error + 'a) act" where
  "stmt E f w = (let w1 = w\<lparr>tick := Suc (tick w)\<rparr> in
     if aborted w \<or> e_fail E (tick w) then (Inr (Inl SqlFailed), w1\<lparr>aborted := intx w\<rparr>)
     else (case f (db w) of
         Inl e \<Rightarrow> (Inr (Inl e), w1\<lparr>aborted := intx w\<rparr>)
       | Inr (a, d) \<Rightarrow> (Inr (Inr a), w1\<lparr>db := d\<rparr>)))"

definition sql_query :: "env \<Rightarrow> (database \<Rightarrow> 'a) \<Rightarrow> ('e, sql_error + 'a) act" where
  "sql_query E f = stmt E (\<lambda>d. Inr (f d, d))"

definition sql_exec :: "env \<Rightarrow> (database \<Rightarrow> database) \<Rightarrow> ('e, sql_error + unit) act" where
  "sql_exec E f = stmt E (\<lambda>d. Inr ((), f d))"

text \<open>End with \<open>e\<close> when the statement failed, go on with its result otherwise.\<close>

definition or_fail :: "('e, sql_error + 'a) act \<Rightarrow> 'e \<Rightarrow> ('e, 'a) act" where
  "or_fail m e = bind m (\<lambda>r. case r of Inl _ \<Rightarrow> throw e | Inr a \<Rightarrow> ret a)"

text \<open>A scalar subquery: NULL for no row, an error for more than one.\<close>

definition scalar :: "'a list \<Rightarrow> sql_error + 'a option" where
  "scalar xs = (case xs of [] \<Rightarrow> Inr None | [x] \<Rightarrow> Inr (Some x) | _ \<Rightarrow> Inl ManyRows)"

definition clock :: "env \<Rightarrow> ('e, time) act" where
  "clock E w = (Inr (e_now E (tick w)), w\<lparr>tick := Suc (tick w)\<rparr>)"

definition ask_fmsgid :: "env \<Rightarrow> id_request \<Rightarrow> ('e, id_reply) act" where
  "ask_fmsgid E q w = (Inr (e_fmsgid E (q # idlog w)), w\<lparr>idlog := q # idlog w\<rparr>)"

definition add_rollback :: "string list \<Rightarrow> ('e, unit) act" where
  "add_rollback ds w = (Inr (), w\<lparr>on_rollback := on_rollback w @ ds\<rparr>)"

definition add_commit :: "deferred list \<Rightarrow> ('e, unit) act" where
  "add_commit ds w = (Inr (), w\<lparr>on_commit := on_commit w @ ds\<rparr>)"

text \<open>Files.  Removing one may fail, which the program only logs; creating one fails as a whole or
  gives a file that did not exist before.\<close>

definition remove_file :: "env \<Rightarrow> string \<Rightarrow> ('e, unit) act" where
  "remove_file E p w = (Inr (), w\<lparr>tick := Suc (tick w),
     files := (if e_io_fail E (tick w) then files w else (files w)(p := None))\<rparr>)"

definition create_file :: "env \<Rightarrow> string \<Rightarrow> string \<Rightarrow> ('e, bool) act" where
  "create_file E p content w = (let w1 = w\<lparr>tick := Suc (tick w)\<rparr> in
     if e_io_fail E (tick w) \<or> files w p \<noteq> None then (Inr False, w1)
     else (Inr True, w1\<lparr>files := (files w)(p \<mapsto> content)\<rparr>))"

text \<open>Any other file operation: whether it succeeds.\<close>

definition io_step :: "env \<Rightarrow> ('e, bool) act" where
  "io_step E w = (Inr (\<not> e_io_fail E (tick w)), w\<lparr>tick := Suc (tick w)\<rparr>)"

definition read_file :: "string \<Rightarrow> ('e, string option) act" where
  "read_file p w = (Inr (files w p), w)"

subsection \<open>Responses\<close>

datatype json = JNull | JBool bool | JInt int | JTime time | JStr string
  | JList "json list" | JObj "(string \<times> json) list"

definition opt_json :: "('a \<Rightarrow> json) \<Rightarrow> 'a option \<Rightarrow> json" where
  "opt_json f x = (case x of None \<Rightarrow> JNull | Some a \<Rightarrow> f a)"

text \<open>A status and a JSON body.  Handlers end early with one; \<open>ctx\<close> is what the middleware leaves in
  the request: identity, owner identity and kind of authentication.\<close>

type_synonym response = "nat \<times> json"

definition error_json :: "string \<Rightarrow> json" where
  "error_json msg = JObj [(''error'', JStr msg)]"

definition err :: "nat \<Rightarrow> string \<Rightarrow> response" where
  "err code msg = (code, error_json msg)"

subsection \<open>Weakest preconditions\<close>

text \<open>\<open>wp m Q w\<close>: whatever \<open>m\<close> does from \<open>w\<close>, its outcome and final state satisfy \<open>Q\<close>.\<close>

definition wp :: "('e, 'a) act \<Rightarrow> ('e + 'a \<Rightarrow> world \<Rightarrow> bool) \<Rightarrow> world \<Rightarrow> bool" where
  "wp m Q w = (case m w of (r, w1) \<Rightarrow> Q r w1)"

lemma wp_run: "wp m Q w \<longleftrightarrow> Q (fst (m w)) (snd (m w))"
  by (simp add: wp_def split: prod.splits)

lemma wp_ret [act_simps]: "wp (ret a) Q w = Q (Inr a) w"
  by (simp add: wp_def ret_def)

lemma wp_throw [act_simps]: "wp (throw e) Q w = Q (Inl e) w"
  by (simp add: wp_def throw_def)

lemma wp_bind [act_simps]:
  "wp (bind m f) Q w = wp m (\<lambda>r w1. case r of Inl e \<Rightarrow> Q (Inl e) w1 | Inr a \<Rightarrow> wp (f a) Q w1) w"
  by (simp add: wp_def bind_def split: prod.splits sum.splits)

lemma wp_unless [act_simps]: "wp (unless b e) Q w = (if b then Q (Inr ()) w else Q (Inl e) w)"
  by (simp add: unless_def act_simps)

lemma wp_attempt [act_simps]: "wp (attempt m) Q w = wp m (\<lambda>r w1. Q (Inr r) w1) w"
  by (simp add: wp_def attempt_def split: prod.splits)

lemma wp_get_world [act_simps]: "wp get_world Q w = Q (Inr w) w"
  by (simp add: wp_def get_world_def)

lemma wp_stmt: "wp (stmt E f) Q w =
   (let w1 = w\<lparr>tick := Suc (tick w)\<rparr> in
     if aborted w \<or> e_fail E (tick w) then Q (Inr (Inl SqlFailed)) (w1\<lparr>aborted := intx w\<rparr>)
     else (case f (db w) of Inl e \<Rightarrow> Q (Inr (Inl e)) (w1\<lparr>aborted := intx w\<rparr>)
       | Inr (a, d) \<Rightarrow> Q (Inr (Inr a)) (w1\<lparr>db := d\<rparr>)))"
  by (simp add: wp_def stmt_def Let_def split: sum.splits prod.splits)

lemma wp_mono: "wp m Q w \<Longrightarrow> (\<And>r w1. Q r w1 \<Longrightarrow> R r w1) \<Longrightarrow> wp m R w"
  by (simp add: wp_def split: prod.splits)

text \<open>\<open>keeps P m\<close>: every run of \<open>m\<close> from a state satisfying \<open>P\<close> ends in one satisfying \<open>P\<close>.\<close>

definition keeps :: "(world \<Rightarrow> bool) \<Rightarrow> ('e, 'a) act \<Rightarrow> bool" where
  "keeps P m \<longleftrightarrow> (\<forall>w. P w \<longrightarrow> P (snd (m w)))"

named_theorems keeps_intros \<open>rules for the preservation of state predicates\<close>

lemma keepsD: "keeps P m \<Longrightarrow> P w \<Longrightarrow> P (snd (m w))"
  by (simp add: keeps_def)

lemma same_db: "keeps (\<lambda>x. db x = db w) m \<Longrightarrow> m w = (r, w1) \<Longrightarrow> db w1 = db w"
  using keepsD [of "\<lambda>x. db x = db w" m w] by simp

lemma keeps_ret [keeps_intros]: "keeps P (ret a)"
  by (simp add: keeps_def ret_def)

lemma keeps_throw [keeps_intros]: "keeps P (throw e)"
  by (simp add: keeps_def throw_def)

lemma keeps_bind [keeps_intros]:
  assumes "keeps P m" and "\<And>a. keeps P (f a)"
  shows "keeps P (bind m f)"
  using assms by (simp add: keeps_def bind_def split: prod.splits sum.splits) (metis snd_conv)

lemma keeps_unless [keeps_intros]: "keeps P (unless b e)"
  by (simp add: unless_def keeps_intros)

lemma keeps_attempt [keeps_intros]: "keeps P m \<Longrightarrow> keeps P (attempt m)"
  by (simp add: keeps_def attempt_def split: prod.splits) (metis snd_conv)

lemma keeps_get_world [keeps_intros]: "keeps P get_world"
  by (simp add: keeps_def get_world_def)

lemma keeps_or_fail [keeps_intros]: "keeps P m \<Longrightarrow> keeps P (or_fail m e)"
  unfolding or_fail_def by (rule keeps_bind) (auto intro: keeps_intros split: sum.splits)

lemma keeps_each [keeps_intros]: "(\<And>x. keeps P (f x)) \<Longrightarrow> keeps P (each f xs)"
  by (induction xs) (auto intro: keeps_intros)

lemma keeps_each_map [keeps_intros]: "(\<And>x. keeps P (f x)) \<Longrightarrow> keeps P (each_map f xs)"
  by (induction xs) (auto intro!: keeps_intros)

lemma keeps_if [keeps_intros]: "keeps P m \<Longrightarrow> keeps P n \<Longrightarrow> keeps P (if b then m else n)"
  by simp

lemma keeps_case_option [keeps_intros]:
  "keeps P m \<Longrightarrow> (\<And>a. keeps P (f a)) \<Longrightarrow> keeps P (case x of None \<Rightarrow> m | Some a \<Rightarrow> f a)"
  by (simp split: option.splits)

lemma keeps_case_sum [keeps_intros]:
  "(\<And>a. keeps P (f a)) \<Longrightarrow> (\<And>b. keeps P (g b)) \<Longrightarrow> keeps P (case x of Inl a \<Rightarrow> f a | Inr b \<Rightarrow> g b)"
  by (simp split: sum.splits)

lemma keeps_case_prod [keeps_intros]:
  "(\<And>a b. keeps P (f a b)) \<Longrightarrow> keeps P (case x of (a, b) \<Rightarrow> f a b)"
  by (simp split: prod.splits)

text \<open>The state predicates about the tables only, and the actions that never touch the tables.\<close>

lemma keeps_stmt:
  assumes "\<And>d a d1. P d \<Longrightarrow> f d = Inr (a, d1) \<Longrightarrow> P d1"
  shows "keeps (\<lambda>w. P (db w)) (stmt E f)"
  using assms by (auto simp: keeps_def stmt_def Let_def split: sum.splits)

lemma keeps_sql_query [keeps_intros]: "keeps (\<lambda>w. P (db w)) (sql_query E f)"
  unfolding sql_query_def by (rule keeps_stmt) auto

lemma keeps_sql_exec: "(\<And>d. P d \<Longrightarrow> P (f d)) \<Longrightarrow> keeps (\<lambda>w. P (db w)) (sql_exec E f)"
  unfolding sql_exec_def by (rule keeps_stmt) auto

lemma keeps_clock [keeps_intros]: "keeps (\<lambda>w. P (db w)) (clock E)"
  by (simp add: keeps_def clock_def)

lemma keeps_ask [keeps_intros]: "keeps (\<lambda>w. P (db w)) (ask_fmsgid E q)"
  by (simp add: keeps_def ask_fmsgid_def)

lemma keeps_add_rollback [keeps_intros]: "keeps (\<lambda>w. P (db w)) (add_rollback ds)"
  by (simp add: keeps_def add_rollback_def)

lemma keeps_add_commit [keeps_intros]: "keeps (\<lambda>w. P (db w)) (add_commit ds)"
  by (simp add: keeps_def add_commit_def)

lemma keeps_remove_file [keeps_intros]: "keeps (\<lambda>w. P (db w)) (remove_file E p)"
  by (simp add: keeps_def remove_file_def)

lemma keeps_create_file [keeps_intros]: "keeps (\<lambda>w. P (db w)) (create_file E p c)"
  by (simp add: keeps_def create_file_def Let_def)

lemma keeps_io_step [keeps_intros]: "keeps (\<lambda>w. P (db w)) (io_step E)"
  by (simp add: keeps_def io_step_def)

lemma keeps_read_file [keeps_intros]: "keeps (\<lambda>w. P (db w)) (read_file p)"
  by (simp add: keeps_def read_file_def)

text \<open>Runs that end early never reach what follows.\<close>

lemma bind_Inr: "bind m f w = (Inr b, w2) \<longleftrightarrow> (\<exists>a w1. m w = (Inr a, w1) \<and> f a w1 = (Inr b, w2))"
  by (auto simp: bind_def split: prod.splits sum.splits)

lemma or_fail_Inr: "or_fail m e w = (Inr b, w2) \<longleftrightarrow> m w = (Inr (Inr b), w2)"
  unfolding or_fail_def bind_def
  by (cases "m w", rename_tac r w1, case_tac r, simp, rename_tac x, case_tac x)
    (auto simp: ret_def throw_def)

lemma unless_Inr: "unless b e w = (Inr u, w2) \<longleftrightarrow> b \<and> w2 = w"
  by (auto simp: unless_def ret_def throw_def)

lemma ret_eq: "ret a w = (Inr b, w2) \<longleftrightarrow> b = a \<and> w2 = w"
  by (auto simp: ret_def)

lemma throw_eq: "throw e w = (Inr b, w2) \<longleftrightarrow> False"
  by (simp add: throw_def)

lemma sql_query_Inr:
  "sql_query E f w = (Inr (Inr b), w2) \<longleftrightarrow>
     \<not> aborted w \<and> \<not> e_fail E (tick w) \<and> b = f (db w) \<and> w2 = w\<lparr>tick := Suc (tick w)\<rparr>"
  by (auto simp: sql_query_def stmt_def Let_def)

lemma sql_exec_Inr:
  "sql_exec E f w = (Inr (Inr u), w2) \<longleftrightarrow>
     \<not> aborted w \<and> \<not> e_fail E (tick w) \<and> w2 = w\<lparr>tick := Suc (tick w), db := f (db w)\<rparr>"
  by (auto simp: sql_exec_def stmt_def Let_def)

lemma clock_Inr: "clock E w = (Inr t, w2) \<longleftrightarrow> t = e_now E (tick w) \<and> w2 = w\<lparr>tick := Suc (tick w)\<rparr>"
  by (auto simp: clock_def)

lemma stmt_Inr:
  "stmt E f w = (Inr (Inr a), w2) \<longleftrightarrow> \<not> aborted w \<and> \<not> e_fail E (tick w) \<and>
     (\<exists>d. f (db w) = Inr (a, d) \<and> w2 = w\<lparr>tick := Suc (tick w), db := d\<rparr>)"
  by (auto simp: stmt_def Let_def split: sum.splits prod.splits)

text \<open>Branches that end early.\<close>

lemma case_sum_throw:
  "(case r of Inl e \<Rightarrow> throw (h e) | Inr a \<Rightarrow> m a) w = (Inr b, w2) \<longleftrightarrow>
     (\<exists>a. r = Inr a \<and> m a w = (Inr b, w2))"
  by (cases r) (simp_all add: throw_eq)

lemma case_option_throw:
  "(case x of None \<Rightarrow> throw e | Some a \<Rightarrow> m a) w = (Inr b, w2) \<longleftrightarrow> (\<exists>a. x = Some a \<and> m a w = (Inr b, w2))"
  "(case x of None \<Rightarrow> n | Some a \<Rightarrow> throw (h a)) w = (Inr b, w2) \<longleftrightarrow> x = None \<and> n w = (Inr b, w2)"
  by (cases x; simp add: throw_eq)+

lemma if_throw:
  "(if c then throw e else m) w = (Inr b, w2) \<longleftrightarrow> \<not> c \<and> m w = (Inr b, w2)"
  "(if c then m else throw e) w = (Inr b, w2) \<longleftrightarrow> c \<and> m w = (Inr b, w2)"
  by (simp_all add: throw_eq)

lemmas act_Inr = case_sum_throw case_option_throw if_throw bind_Inr or_fail_Inr unless_Inr ret_eq throw_eq sql_query_Inr sql_exec_Inr clock_Inr

lemma get_world_Inr: "get_world w = (Inr a, w2) \<longleftrightarrow> a = w \<and> w2 = w"
  by (auto simp: get_world_def)

lemma bind_known_Inr:
  "bind (unless c e) g w = (Inr b, w2) \<longleftrightarrow> c \<and> g () w = (Inr b, w2)"
  "bind (ret a) f w = (Inr b, w2) \<longleftrightarrow> f a w = (Inr b, w2)"
  "bind get_world h w = (Inr b, w2) \<longleftrightarrow> h w w = (Inr b, w2)"
  "bind (clock E) k w = (Inr b, w2) \<longleftrightarrow> k (e_now E (tick w)) (w\<lparr>tick := Suc (tick w)\<rparr>) = (Inr b, w2)"
  "bind (add_commit ds) g w = (Inr b, w2) \<longleftrightarrow> g () (w\<lparr>on_commit := on_commit w @ ds\<rparr>) = (Inr b, w2)"
  "bind (add_rollback ps) g w = (Inr b, w2) \<longleftrightarrow> g () (w\<lparr>on_rollback := on_rollback w @ ps\<rparr>) = (Inr b, w2)"
  "bind (or_fail (sql_query E q) e) l w = (Inr b, w2) \<longleftrightarrow>
     \<not> aborted w \<and> \<not> e_fail E (tick w) \<and> l (q (db w)) (w\<lparr>tick := Suc (tick w)\<rparr>) = (Inr b, w2)"
  "bind (case x of None \<Rightarrow> ret () | Some y \<Rightarrow> throw (te y)) g w = (Inr b, w2) \<longleftrightarrow> x = None \<and> g () w = (Inr b, w2)"
  by (auto simp: bind_Inr unless_Inr ret_eq get_world_def clock_Inr add_commit_def add_rollback_def or_fail_Inr
      sql_query_Inr throw_eq split: option.splits)

text \<open>What a successful run went through.\<close>

lemmas run_Inr = bind_known_Inr bind_Inr split_paired_Ex prod.case unless_Inr or_fail_Inr get_world_Inr case_option_throw if_throw

lemmas act_defs = bind_def ret_def throw_def unless_def or_fail_def sql_query_def sql_exec_def stmt_def
  clock_def attempt_def add_commit_def add_rollback_def ask_fmsgid_def get_world_def remove_file_def
  create_file_def read_file_def io_step_def

end
