(* ===== verification/FmsgID.thy ===== *)
theory FmsgID
  imports World
begin

text \<open>
  The client of the fmsgid identity service: \<open>src/internal/middleware/jwt.go\<close> from line 442 on and
  \<open>src/internal/middleware/fmsgid_usage.go\<close>.  What the service answers is the environment's
  \<open>e_fmsgid\<close>, a function of all requests so far; \<open>idlog\<close> records the requests, newest first.

  A body is a text, decoded by theory \<open>Json\<close>.

  Shown here: a lookup is answered from the cache only while the entry is fresh and only with what
  the service last said, every registration drops the cached lookup of its address, and no client
  operation touches the database.
\<close>

definition fmsgIDCacheTTL :: time where "fmsgIDCacheTTL = 30 * 1000000"

definition fmsgIDAddressURL :: "env \<Rightarrow> string \<Rightarrow> string" where
  "fmsgIDAddressURL E addr = TrimRightChar CHR ''/'' (IDURL E) @ ''/fmsgid/'' @ e_escape E addr"

definition cache_store :: "string \<Rightarrow> cache_entry \<Rightarrow> ('e, unit) act" where
  "cache_store k e w = (Inr (), w\<lparr>cache := (cache w)(k \<mapsto> e)\<rparr>)"

definition cache_delete :: "string \<Rightarrow> ('e, unit) act" where
  "cache_delete k w = (Inr (), w\<lparr>cache := (cache w)(k := None)\<rparr>)"

definition cache_load :: "string \<Rightarrow> ('e, cache_entry option) act" where
  "cache_load k w = (Inr (cache w k), w)"

text \<open>The bodies of fmsgid's answers: whether the address accepts new messages, which may be absent, and
  what a registration did.\<close>

definition accepting_type :: gotype where
  "accepting_type = GoStruct [(''acceptingNew'', GoPtr GoBool)]"

definition decode_accepting :: "string \<Rightarrow> bool option option" where
  "decode_accepting body = map_option (\<lambda>v. go_ptr go_bool (go_field ''acceptingNew'' v))
     (decodeJSON accepting_type (zero_value accepting_type) body)"

definition decode_registered :: "string \<Rightarrow> (bool \<times> bool) option" where
  "decode_registered body = map_option (\<lambda>v. (go_bool (go_field ''created'' v), go_bool (go_field ''reinstated'' v)))
     (Unmarshal (GoStruct [(''created'', GoBool), (''reinstated'', GoBool)]) body)"

text \<open>\<open>fetchFmsgID\<close>: \<open>None\<close> is an error; only a 200 answer is cached.\<close>

definition fetchFmsgID :: "env \<Rightarrow> string \<Rightarrow> ('e, (nat \<times> bool) option) act" where
  "fetchFmsgID E url = bind (ask_fmsgid E (IdGet url)) (\<lambda>reply.
     case reply of IdDown \<Rightarrow> ret None
     | IdReply code body \<Rightarrow>
         if code = 404 then ret (Some (404, False))
         else if code \<noteq> 200 then ret (Some (code, False))
         else (case Option.bind body decode_accepting of None \<Rightarrow> ret None
           | Some None \<Rightarrow> ret None
           | Some (Some a) \<Rightarrow> bind (clock E) (\<lambda>now.
               bind (cache_store url \<lparr>c_expires = now + fmsgIDCacheTTL, c_code = 200, c_accepting = a\<rparr>) (\<lambda>_.
               ret (Some (200, a))))))"

text \<open>The shared flight of concurrent lookups looks in the cache once more before it asks.\<close>

definition fetch_once :: "env \<Rightarrow> string \<Rightarrow> ('e, (nat \<times> bool) option) act" where
  "fetch_once E url = bind (cache_load url) (\<lambda>c. case c of None \<Rightarrow> fetchFmsgID E url
     | Some e \<Rightarrow> bind (clock E) (\<lambda>now.
         if now < c_expires e then ret (Some (c_code e, c_accepting e)) else fetchFmsgID E url))"

definition CheckFmsgID :: "env \<Rightarrow> string \<Rightarrow> ('e, (nat \<times> bool) option) act" where
  "CheckFmsgID E addr = (let url = fmsgIDAddressURL E addr in
     bind (cache_load url) (\<lambda>c. case c of None \<Rightarrow> fetch_once E url
     | Some e \<Rightarrow> bind (clock E) (\<lambda>now.
         if now < c_expires e then ret (Some (c_code e, c_accepting e))
         else bind (cache_delete url) (\<lambda>_. fetch_once E url))))"

datatype id_error = LinkedAddressTaken | NoAcceptingNew | IdFailed

text \<open>\<open>io.LimitReader\<close>: at most the first \<open>n\<close> bytes.\<close>

definition LimitReader :: "int \<Rightarrow> string \<Rightarrow> string" where
  "LimitReader n b = (if int (length b) \<le> n then b else take (nat n) b)"

definition postFmsgIDAddress ::
  "env \<Rightarrow> string \<Rightarrow> bool \<Rightarrow> string \<Rightarrow> bool \<Rightarrow> (response, id_error + (bool \<times> bool) option) act" where
  "postFmsgIDAddress E addr accepting quotaPool claim =
     bind (ask_fmsgid E (IdRegister addr accepting quotaPool claim)) (\<lambda>reply.
     case reply of IdDown \<Rightarrow> ret (Inl IdFailed)
     | IdReply code body \<Rightarrow>
         bind (cache_delete (fmsgIDAddressURL E addr)) (\<lambda>_.
         if code = 409 \<and> claim then ret (Inl LinkedAddressTaken)
         else if code \<noteq> 200 \<and> code \<noteq> 201 then ret (Inl IdFailed)
         else (case body of None \<Rightarrow> ret (Inl IdFailed)
           | Some b \<Rightarrow>
             if TrimSpace (LimitReader 65536 b) = [] then ret (Inr None)
             else (case decode_registered (LimitReader 65536 b) of None \<Rightarrow> ret (Inl IdFailed)
               | Some out \<Rightarrow> ret (Inr (Some out))))))"

definition RegisterLinkedFmsgID :: "env \<Rightarrow> string \<Rightarrow> string \<Rightarrow> (response, id_error + bool) act" where
  "RegisterLinkedFmsgID E addr owner = bind (postFmsgIDAddress E addr True owner True) (\<lambda>r.
     case r of Inl e \<Rightarrow> ret (Inl e)
     | Inr resp \<Rightarrow> ret (Inr (case resp of None \<Rightarrow> False | Some (_, reinstated) \<Rightarrow> reinstated)))"

definition DisableFmsgID :: "env \<Rightarrow> string \<Rightarrow> (response, id_error + unit) act" where
  "DisableFmsgID E addr = bind (postFmsgIDAddress E addr False [] False) (\<lambda>r.
     case r of Inl e \<Rightarrow> ret (Inl e)
     | Inr None \<Rightarrow> ret (Inl NoAcceptingNew)
     | Inr (Some _) \<Rightarrow> ret (Inr ()))"

subsection \<open>Usage\<close>

record FmsgIDDetail =
  AcceptingNew :: bool
  LimitRecvSizeTotal :: int
  LimitRecvSizePer1d :: int
  LimitRecvCountPer1d :: int
  LimitSendSizeTotal :: int
  LimitSendSizePerMsg :: int
  LimitSendSizePer1d :: int
  LimitSendCountPer1d :: int
  RecvSizeTotal :: int
  RecvSizePer1d :: int
  RecvCountPer1d :: int
  SendSizeTotal :: int
  SendSizePer1d :: int
  SendCountPer1d :: int

text \<open>The body is decoded over limits of -1 and usage of 0, so a limit that is left out, or null, is unlimited.\<close>

definition limit_names :: "string list" where
  "limit_names = [''limitRecvSizeTotal'', ''limitRecvSizePer1d'', ''limitRecvCountPer1d'', ''limitSendSizeTotal'',
     ''limitSendSizePerMsg'', ''limitSendSizePer1d'', ''limitSendCountPer1d'']"

definition usage_names :: "string list" where
  "usage_names = [''recvSizeTotal'', ''recvSizePer1d'', ''recvCountPer1d'', ''sendSizeTotal'', ''sendSizePer1d'', ''sendCountPer1d'']"

definition detail_type :: gotype where
  "detail_type = GoStruct ((''acceptingNew'', GoPtr GoBool) # map (\<lambda>k. (k, GoInt)) (limit_names @ usage_names))"

definition detail_init :: goval where
  "detail_init = OfStruct ((''acceptingNew'', OfPtr None) # map (\<lambda>k. (k, OfInt (-1))) limit_names
     @ map (\<lambda>k. (k, OfInt 0)) usage_names)"

definition detail_of :: "goval \<Rightarrow> bool \<Rightarrow> FmsgIDDetail" where
  "detail_of v accepting = (let n = (\<lambda>k. go_int (go_field k v)) in \<lparr>AcceptingNew = accepting,
     LimitRecvSizeTotal = n ''limitRecvSizeTotal'', LimitRecvSizePer1d = n ''limitRecvSizePer1d'',
     LimitRecvCountPer1d = n ''limitRecvCountPer1d'', LimitSendSizeTotal = n ''limitSendSizeTotal'',
     LimitSendSizePerMsg = n ''limitSendSizePerMsg'', LimitSendSizePer1d = n ''limitSendSizePer1d'',
     LimitSendCountPer1d = n ''limitSendCountPer1d'',
     RecvSizeTotal = n ''recvSizeTotal'', RecvSizePer1d = n ''recvSizePer1d'', RecvCountPer1d = n ''recvCountPer1d'',
     SendSizeTotal = n ''sendSizeTotal'', SendSizePer1d = n ''sendSizePer1d'', SendCountPer1d = n ''sendCountPer1d''\<rparr>)"

definition decode_detail :: "string \<Rightarrow> FmsgIDDetail option" where
  "decode_detail body = (case decodeJSON detail_type detail_init body of None \<Rightarrow> None
     | Some v \<Rightarrow> map_option (detail_of v) (go_ptr go_bool (go_field ''acceptingNew'' v)))"

text \<open>\<open>None\<close> is an error; a status other than 200 comes without a detail.\<close>

definition FetchFmsgIDDetail :: "env \<Rightarrow> string \<Rightarrow> ('e, (FmsgIDDetail option \<times> nat) option) act" where
  "FetchFmsgIDDetail E addr = (let url = fmsgIDAddressURL E addr in
     bind (ask_fmsgid E (IdGet url)) (\<lambda>reply.
     case reply of IdDown \<Rightarrow> ret None
     | IdReply code body \<Rightarrow>
         if code \<noteq> 200 then ret (Some (None, code))
         else (case Option.bind body decode_detail of None \<Rightarrow> ret None
           | Some d \<Rightarrow> bind (clock E) (\<lambda>now.
               bind (cache_store url \<lparr>c_expires = now + fmsgIDCacheTTL, c_code = 200, c_accepting = AcceptingNew d\<rparr>) (\<lambda>_.
               ret (Some (Some d, 200)))))))"

definition postFmsgIDUsage :: "env \<Rightarrow> string \<Rightarrow> string \<Rightarrow> time \<Rightarrow> int \<Rightarrow> ('e, bool) act" where
  "postFmsgIDUsage E part addr ts sz = bind (ask_fmsgid E (IdUsage part addr ts sz)) (\<lambda>reply.
     ret (case reply of IdReply code _ \<Rightarrow> code = 200 | IdDown \<Rightarrow> False))"

definition RecordFmsgIDRecv :: "env \<Rightarrow> string \<Rightarrow> time \<Rightarrow> int \<Rightarrow> ('e, bool) act" where
  "RecordFmsgIDRecv E addr ts sz = postFmsgIDUsage E ''recv'' addr ts sz"

definition RecordFmsgIDSend :: "env \<Rightarrow> string \<Rightarrow> time \<Rightarrow> int \<Rightarrow> ('e, bool) act" where
  "RecordFmsgIDSend E addr ts sz = postFmsgIDUsage E ''send'' addr ts sz"

definition ReleaseFmsgIDSend :: "env \<Rightarrow> string \<Rightarrow> time \<Rightarrow> int \<Rightarrow> ('e, bool) act" where
  "ReleaseFmsgIDSend E addr ts sz = postFmsgIDUsage E ''send/release'' addr ts sz"

definition ReleaseFmsgIDRecv :: "env \<Rightarrow> string \<Rightarrow> time \<Rightarrow> int \<Rightarrow> ('e, bool) act" where
  "ReleaseFmsgIDRecv E addr ts sz = postFmsgIDUsage E ''recv/release'' addr ts sz"

subsection \<open>Lemmas\<close>

lemma wp_clock [act_simps]: "wp (clock E) Q w = Q (Inr (e_now E (tick w))) (w\<lparr>tick := Suc (tick w)\<rparr>)"
  by (simp add: wp_def clock_def)

lemma wp_ask [act_simps]:
  "wp (ask_fmsgid E q) Q w = Q (Inr (e_fmsgid E (q # idlog w))) (w\<lparr>idlog := q # idlog w\<rparr>)"
  by (simp add: wp_def ask_fmsgid_def)

lemma wp_cache_store [act_simps]:
  "wp (cache_store k e) Q w = Q (Inr ()) (w\<lparr>cache := (cache w)(k \<mapsto> e)\<rparr>)"
  by (simp add: wp_def cache_store_def)

lemma wp_cache_delete [act_simps]:
  "wp (cache_delete k) Q w = Q (Inr ()) (w\<lparr>cache := (cache w)(k := None)\<rparr>)"
  by (simp add: wp_def cache_delete_def)

lemma wp_cache_load [act_simps]: "wp (cache_load k) Q w = Q (Inr (cache w k)) w"
  by (simp add: wp_def cache_load_def)

lemma keeps_cache [keeps_intros]:
  "keeps (\<lambda>w. P (db w)) (cache_store k e)" "keeps (\<lambda>w. P (db w)) (cache_delete k)"
  "keeps (\<lambda>w. P (db w)) (cache_load k)"
  by (simp_all add: keeps_def cache_store_def cache_delete_def cache_load_def)

lemma keeps_id_reply [keeps_intros]:
  "keeps P m \<Longrightarrow> (\<And>c b. keeps P (f c b)) \<Longrightarrow> keeps P (case r of IdDown \<Rightarrow> m | IdReply c b \<Rightarrow> f c b)"
  by (cases r) simp_all

lemma keeps_fetchFmsgID [keeps_intros]: "keeps (\<lambda>w. P (db w)) (fetchFmsgID E url)"
  unfolding fetchFmsgID_def by (intro keeps_intros)

lemma keeps_CheckFmsgID [keeps_intros]: "keeps (\<lambda>w. P (db w)) (CheckFmsgID E addr)"
  unfolding CheckFmsgID_def Let_def fetch_once_def by (intro keeps_intros)

lemma keeps_postFmsgIDAddress [keeps_intros]: "keeps (\<lambda>w. P (db w)) (postFmsgIDAddress E a b c d)"
  unfolding postFmsgIDAddress_def by (intro keeps_intros)

lemma keeps_RegisterLinkedFmsgID [keeps_intros]: "keeps (\<lambda>w. P (db w)) (RegisterLinkedFmsgID E a b)"
  unfolding RegisterLinkedFmsgID_def by (intro keeps_intros)

lemma keeps_DisableFmsgID [keeps_intros]: "keeps (\<lambda>w. P (db w)) (DisableFmsgID E a)"
  unfolding DisableFmsgID_def by (intro keeps_intros)

lemma keeps_FetchFmsgIDDetail [keeps_intros]: "keeps (\<lambda>w. P (db w)) (FetchFmsgIDDetail E a)"
  unfolding FetchFmsgIDDetail_def Let_def by (intro keeps_intros)

lemma keeps_postFmsgIDUsage [keeps_intros]: "keeps (\<lambda>w. P (db w)) (postFmsgIDUsage E p a t s)"
  unfolding postFmsgIDUsage_def by (intro keeps_intros)

lemma keeps_usage [keeps_intros]:
  "keeps (\<lambda>w. P (db w)) (RecordFmsgIDRecv E a t s)" "keeps (\<lambda>w. P (db w)) (RecordFmsgIDSend E a t s)"
  "keeps (\<lambda>w. P (db w)) (ReleaseFmsgIDRecv E a t s)" "keeps (\<lambda>w. P (db w)) (ReleaseFmsgIDSend E a t s)"
  unfolding RecordFmsgIDRecv_def RecordFmsgIDSend_def ReleaseFmsgIDRecv_def ReleaseFmsgIDSend_def
  by (rule keeps_postFmsgIDUsage)+

text \<open>While a lookup is cached and fresh it is answered without asking fmsgid, and an expired one
  is never used: the service is asked, exactly once, and its answer returned.\<close>

theorem CheckFmsgID_cache:
  assumes "cache w (fmsgIDAddressURL E addr) = Some e"
  shows "CheckFmsgID E addr w =
    (if e_now E (tick w) < c_expires e
     then (Inr (Some (c_code e, c_accepting e)), w\<lparr>tick := Suc (tick w)\<rparr>)
     else fetchFmsgID E (fmsgIDAddressURL E addr)
       (w\<lparr>tick := Suc (tick w), cache := (cache w)(fmsgIDAddressURL E addr := None)\<rparr>))"
  using assms by (simp add: CheckFmsgID_def Let_def fetch_once_def bind_def cache_load_def clock_def
      cache_delete_def ret_def)

theorem CheckFmsgID_cache_witness:
  "CheckFmsgID example_env ''@a@b'' (example_world\<lparr>cache := [''/fmsgid/@a@b'' \<mapsto>
       \<lparr>c_expires = 5, c_code = 200, c_accepting = True\<rparr>]\<rparr>)
   = (Inr (Some (200, True)) :: unit + (nat \<times> bool) option, example_world\<lparr>cache := [''/fmsgid/@a@b'' \<mapsto>
       \<lparr>c_expires = 5, c_code = 200, c_accepting = True\<rparr>], tick := 1\<rparr>)"
proof -
  let ?e = "\<lparr>c_expires = 5, c_code = 200, c_accepting = True\<rparr> :: cache_entry"
  have u: "fmsgIDAddressURL example_env ''@a@b'' = ''/fmsgid/@a@b''"
    by (simp add: fmsgIDAddressURL_def example_env_def TrimRightChar_def)
  then have "cache (example_world\<lparr>cache := [''/fmsgid/@a@b'' \<mapsto> ?e]\<rparr>)
      (fmsgIDAddressURL example_env ''@a@b'') = Some ?e" by simp
  from CheckFmsgID_cache [OF this] show ?thesis
    by (simp add: example_env_def example_world_def)
qed

text \<open>A registration or a disabling takes effect at once: whatever fmsgid answered, the next
  lookup of that address asks fmsgid again instead of using what was cached before.\<close>

theorem postFmsgIDAddress_drops_cache:
  assumes "postFmsgIDAddress E addr accepting pool claim w = (r, w1)"
    and "e_fmsgid E (IdRegister addr accepting pool claim # idlog w) \<noteq> IdDown"
  shows "cache w1 (fmsgIDAddressURL E addr) = None
    \<and> CheckFmsgID E addr w1 = fetchFmsgID E (fmsgIDAddressURL E addr) w1"
proof -
  obtain code body where "e_fmsgid E (IdRegister addr accepting pool claim # idlog w) = IdReply code body"
    using assms(2) by (cases "e_fmsgid E (IdRegister addr accepting pool claim # idlog w)") auto
  with assms(1) have "cache w1 (fmsgIDAddressURL E addr) = None"
    by (auto simp: postFmsgIDAddress_def bind_def ask_fmsgid_def cache_delete_def ret_def
        split: if_splits option.splits)
  then show ?thesis
    by (simp add: CheckFmsgID_def Let_def fetch_once_def bind_def cache_load_def)
qed

theorem postFmsgIDAddress_drops_cache_witness:
  "\<exists>w1. cache w1 (fmsgIDAddressURL example_env ''@a@b'') = None
    \<and> (CheckFmsgID example_env ''@a@b'' w1 :: (unit + _) \<times> _)
        = fetchFmsgID example_env (fmsgIDAddressURL example_env ''@a@b'') w1"
proof -
  obtain r w1 where run: "postFmsgIDAddress example_env ''@a@b'' True ''@o@b'' True example_world
      = (r, w1)" by fastforce
  have "e_fmsgid example_env (IdRegister ''@a@b'' True ''@o@b'' True # idlog example_world) \<noteq> IdDown"
    by (simp add: example_env_def)
  from postFmsgIDAddress_drops_cache [OF run this] show ?thesis by blast
qed

end
