(* ===== verification/GrantStore.thy ===== *)
theory GrantStore
  imports FmsgID
begin

text \<open>
  The grant store, \<open>src/internal/apiauth/store.go\<close> on the table \<open>fmsg_api_sub_account\<close> of
  \<open>src/dd.sql\<close>: the sub-accounts and delegated identities of each owner and the API key of each.
  A store method is an action that ends with a \<open>store_error\<close> or gives its result.

  The table's constraints are part of the model (\<open>grant_unique\<close>, \<open>grant_check\<close>).  Shown here: every
  operation keeps the constraints and the owners' limits, a key validates exactly when a live grant
  holds its hash, has not expired and admits the source address, and after a rotation or a deletion
  the old key and the tokens made from it are refused.
\<close>

datatype store_error = ErrNotFound | ErrAlreadyExists | ErrLimitExceeded | ErrCIDRDenied
  | ErrKeyExpired | ErrKeyRevoked | ErrInvalidRemoteIP | ErrInvalidAPIKey | ErrOther

datatype grant_type = GrantTypeDerivedSubAccount | GrantTypeDelegatedIdentity

definition grant_type_text :: "grant_type \<Rightarrow> string" where
  "grant_type_text t = (case t of GrantTypeDerivedSubAccount \<Rightarrow> ''derived_sub_account''
     | GrantTypeDelegatedIdentity \<Rightarrow> ''delegated_identity'')"

definition DefaultMaxSubAccounts :: int where "DefaultMaxSubAccounts = 5"

record SubAccount =
  OwnerAddr :: string
  Agent :: string
  SubAddr :: string
  GrantType :: string
  DisplayName :: string
  KeyID :: string
  AllowedCIDRs :: "string list"
  KeyExpiresAt :: time
  MaxSubAccountsOf :: int

record APIKeyIdentity =
  ident_OwnerAddr :: string
  ident_SubAddr :: string
  ident_KeyID :: string

definition sub_account :: "grant_row \<Rightarrow> SubAccount" where
  "sub_account g = \<lparr>OwnerAddr = g_owner g, Agent = g_agent g, SubAddr = g_sub g, GrantType = g_type g,
     DisplayName = g_display g, KeyID = g_key_id g, AllowedCIDRs = g_cidrs g,
     KeyExpiresAt = g_expires g, MaxSubAccountsOf = g_max g\<rparr>"

subsection \<open>The table\<close>

definition live :: "grant_row \<Rightarrow> bool" where
  "live g \<longleftrightarrow> g_agent g \<noteq> []"

definition owned_by :: "string \<Rightarrow> grant_row \<Rightarrow> bool" where
  "owned_by owner g \<longleftrightarrow> ToLower (g_owner g) = ToLower owner"

definition is_grant :: "string \<Rightarrow> string \<Rightarrow> grant_row \<Rightarrow> bool" where
  "is_grant owner agent g \<longleftrightarrow> owned_by owner g \<and> g_agent g = agent \<and> live g"

definition grant_unique :: "grant_row list \<Rightarrow> bool" where
  "grant_unique gs \<longleftrightarrow> distinct (map (\<lambda>g. (g_owner g, g_agent g)) gs)
     \<and> distinct (map g_key_id (filter live gs))
     \<and> distinct (map (\<lambda>g. (ToLower (g_owner g), ToLower (g_sub g))) (filter live gs))"

definition grant_check :: "grant_row \<Rightarrow> bool" where
  "grant_check g \<longleftrightarrow> 0 < g_max g \<and> (live g \<longrightarrow> g_cidrs g \<noteq> [] \<and> CHR ''_'' \<notin> set (g_agent g))"

definition cast_cidrs :: "env \<Rightarrow> string list \<Rightarrow> string list option" where
  "cast_cidrs E cidrs = those (map (e_cidr E) cidrs)"

text \<open>A change of the grant table fails when a constraint does.\<close>

definition set_grants :: "database \<Rightarrow> grant_row list \<Rightarrow> 'a \<Rightarrow> sql_error + ('a \<times> database)" where
  "set_grants d gs a = (if \<not> list_all grant_check gs then Inl SqlFailed
     else if \<not> grant_unique gs then Inl UniqueViolation else Inr (a, d\<lparr>grants := gs\<rparr>))"

definition store_fail :: "sql_error \<Rightarrow> store_error" where
  "store_fail e = (case e of UniqueViolation \<Rightarrow> ErrAlreadyExists | _ \<Rightarrow> ErrOther)"

definition max_of :: "database \<Rightarrow> string \<Rightarrow> int" where
  "max_of d owner = (case find (\<lambda>g. owned_by owner g \<and> \<not> live g) (grants d) of
     None \<Rightarrow> DefaultMaxSubAccounts | Some g \<Rightarrow> g_max g)"

definition grant_count :: "database \<Rightarrow> string \<Rightarrow> nat" where
  "grant_count d owner = length (filter (\<lambda>g. owned_by owner g \<and> live g) (grants d))"

subsection \<open>Operations\<close>

definition MaxSubAccounts :: "env \<Rightarrow> string \<Rightarrow> (store_error, int) act" where
  "MaxSubAccounts E owner = or_fail (sql_query E (\<lambda>d. max_of d owner)) ErrOther"

fun insert_agent :: "grant_row \<Rightarrow> grant_row list \<Rightarrow> grant_row list" where
  "insert_agent g [] = [g]"
| "insert_agent g (h # hs) =
     (if ord.lexordp_eq (<) (bytes_of (g_agent g)) (bytes_of (g_agent h)) then g # h # hs
      else h # insert_agent g hs)"

text \<open>\<open>ORDER BY agent\<close>, by bytes.\<close>

definition by_agent :: "grant_row list \<Rightarrow> grant_row list" where
  "by_agent gs = foldr insert_agent gs []"

definition Store_List :: "env \<Rightarrow> string \<Rightarrow> (store_error, int \<times> SubAccount list) act" where
  "Store_List E owner = bind (MaxSubAccounts E owner) (\<lambda>mx.
     bind (or_fail (sql_query E (\<lambda>d. by_agent (filter (\<lambda>g. owned_by owner g \<and> live g) (grants d)))) ErrOther)
       (\<lambda>rows. ret (mx, map sub_account rows)))"

definition Store_Get :: "env \<Rightarrow> string \<Rightarrow> string \<Rightarrow> (store_error, SubAccount) act" where
  "Store_Get E owner agent = bind (or_fail (sql_query E (\<lambda>d. find (is_grant owner agent) (grants d))) ErrOther)
     (\<lambda>r. case r of None \<Rightarrow> throw ErrNotFound | Some g \<Rightarrow> ret (sub_account g))"

text \<open>A transaction of its own: begin, body, commit; the tables are as before when any part fails, unless only
  the acknowledgement of the commit was lost (\<open>e_lost\<close>).\<close>

definition pool_tx :: "env \<Rightarrow> 'e \<Rightarrow> ('e, 'a) act \<Rightarrow> ('e, 'a) act" where
  "pool_tx E failed m w = (case or_fail (sql_query E (\<lambda>_. ())) failed w of
     (Inl e, w1) \<Rightarrow> (Inl e, w1)
   | (Inr _, w1) \<Rightarrow> (case m w1 of
       (Inl e, w2) \<Rightarrow> (Inl e, w2\<lparr>db := db w\<rparr>)
     | (Inr a, w2) \<Rightarrow> (case or_fail (sql_query E (\<lambda>_. ())) failed w2 of
         (Inl e, w3) \<Rightarrow> (Inl e, if e_lost E (tick w2) \<and> \<not> aborted w2 then w3 else w3\<lparr>db := db w\<rparr>)
       | (Inr _, w3) \<Rightarrow> (Inr a, w3))))"

definition maxSubAccountsTx :: "env \<Rightarrow> string \<Rightarrow> (store_error, int) act" where
  "maxSubAccountsTx E owner = or_fail (sql_query E (\<lambda>d. max_of d owner)) ErrOther"

definition insert_grant :: "env \<Rightarrow> grant_row \<Rightarrow> database \<Rightarrow> sql_error + (unit \<times> database)" where
  "insert_grant E g d = (case cast_cidrs E (g_cidrs g) of None \<Rightarrow> Inl SqlFailed
     | Some cs \<Rightarrow> set_grants d (grants d @ [g\<lparr>g_cidrs := cs\<rparr>]) ())"

definition createGrant :: "env \<Rightarrow> string \<Rightarrow> string \<Rightarrow> string \<Rightarrow> grant_type \<Rightarrow> string \<Rightarrow> string \<Rightarrow> string \<Rightarrow>
    string list \<Rightarrow> time \<Rightarrow> (store_error, unit) act" where
  "createGrant E owner agent subAddr grantType displayName keyID keyHash cidrs expires =
     pool_tx E ErrOther
       (bind (maxSubAccountsTx E owner) (\<lambda>mx.
        bind (or_fail (sql_query E (\<lambda>d. grant_count d owner)) ErrOther) (\<lambda>n.
        if mx \<le> int n then throw ErrLimitExceeded
        else bind (stmt E (insert_grant E \<lparr>g_owner = owner, g_agent = agent, g_sub = subAddr,
               g_type = grant_type_text grantType, g_display = displayName, g_key_id = keyID,
               g_key_hash = keyHash, g_cidrs = cidrs, g_expires = expires, g_max = mx\<rparr>))
          (\<lambda>r. case r of Inl e \<Rightarrow> throw (store_fail e) | Inr _ \<Rightarrow> ret ()))))"

definition Store_Create :: "env \<Rightarrow> string \<Rightarrow> string \<Rightarrow> string \<Rightarrow> string \<Rightarrow> string \<Rightarrow> string list \<Rightarrow> time \<Rightarrow>
    (store_error, unit) act" where
  "Store_Create E owner agent subAddr keyID keyHash cidrs expires =
     createGrant E owner agent subAddr GrantTypeDerivedSubAccount [] keyID keyHash cidrs expires"

definition CreateDelegated :: "env \<Rightarrow> string \<Rightarrow> string \<Rightarrow> string \<Rightarrow> string \<Rightarrow> string \<Rightarrow> string \<Rightarrow> string list \<Rightarrow>
    time \<Rightarrow> (store_error, unit) act" where
  "CreateDelegated E owner agent addr displayName keyID keyHash cidrs expires =
     createGrant E owner agent addr GrantTypeDelegatedIdentity displayName keyID keyHash cidrs expires"

text \<open>\<open>UPDATE \<dots> RETURNING\<close>: every matching row changes, the first one is returned.\<close>

definition update_grants :: "(grant_row \<Rightarrow> bool) \<Rightarrow> (grant_row \<Rightarrow> grant_row) \<Rightarrow> database \<Rightarrow>
    sql_error + (grant_row option \<times> database)" where
  "update_grants P f d = set_grants d (update_where P f (grants d)) (map_option f (find P (grants d)))"

definition RotateKey :: "env \<Rightarrow> string \<Rightarrow> string \<Rightarrow> string \<Rightarrow> string \<Rightarrow> time \<Rightarrow> (store_error, string) act" where
  "RotateKey E owner agent keyID keyHash expires =
     bind (stmt E (update_grants (is_grant owner agent)
        (\<lambda>g. g\<lparr>g_key_id := keyID, g_key_hash := keyHash, g_expires := expires\<rparr>)))
     (\<lambda>r. case r of Inl e \<Rightarrow> throw (store_fail e)
       | Inr None \<Rightarrow> throw ErrNotFound | Inr (Some g) \<Rightarrow> ret (g_sub g))"

definition UpdateCIDRs :: "env \<Rightarrow> string \<Rightarrow> string \<Rightarrow> string list \<Rightarrow> (store_error, SubAccount) act" where
  "UpdateCIDRs E owner agent cidrs =
     bind (stmt E (\<lambda>d. case cast_cidrs E cidrs of None \<Rightarrow> Inl SqlFailed
        | Some cs \<Rightarrow> update_grants (is_grant owner agent) (\<lambda>g. g\<lparr>g_cidrs := cs\<rparr>) d))
     (\<lambda>r. case r of Inl _ \<Rightarrow> throw ErrOther
       | Inr None \<Rightarrow> throw ErrNotFound | Inr (Some g) \<Rightarrow> ret (sub_account g))"

definition Store_Delete :: "env \<Rightarrow> string \<Rightarrow> string \<Rightarrow> (store_error, unit) act" where
  "Store_Delete E owner agent =
     bind (or_fail (stmt E (\<lambda>d. Inr (length (filter (is_grant owner agent) (grants d)),
        d\<lparr>grants := delete_where (is_grant owner agent) (grants d)\<rparr>))) ErrOther)
     (\<lambda>n. if n = 0 then throw ErrNotFound else ret ())"

fun ip_allowed :: "env \<Rightarrow> string \<Rightarrow> string list \<Rightarrow> store_error option" where
  "ip_allowed E ip [] = Some ErrCIDRDenied"
| "ip_allowed E ip (raw # rest) = (case e_prefix E (TrimSpace raw) of None \<Rightarrow> Some ErrOther
     | Some p \<Rightarrow> if p ip then None else ip_allowed E ip rest)"

definition remoteAllowed :: "env \<Rightarrow> string \<Rightarrow> string list \<Rightarrow> store_error option" where
  "remoteAllowed E remoteAddr cidrs = (case e_remote_ip E remoteAddr of
     None \<Rightarrow> Some ErrInvalidRemoteIP | Some ip \<Rightarrow> ip_allowed E ip cidrs)"

definition ValidateAPIKey :: "env \<Rightarrow> string \<Rightarrow> string \<Rightarrow> (store_error, APIKeyIdentity) act" where
  "ValidateAPIKey E apiKey remoteAddr = (case ParseAPIKey apiKey of None \<Rightarrow> throw ErrInvalidAPIKey
     | Some parsed \<Rightarrow>
       bind (or_fail (sql_query E (\<lambda>d. find (\<lambda>g. g_key_id g = ID parsed \<and> live g) (grants d))) ErrOther)
       (\<lambda>r. case r of None \<Rightarrow> throw ErrInvalidAPIKey
        | Some g \<Rightarrow>
          if HashAPIKey (e_sha256 E) apiKey \<noteq> g_key_hash g then throw ErrInvalidAPIKey
          else bind (clock E) (\<lambda>now.
            if g_expires g < now then throw ErrKeyExpired
            else (case remoteAllowed E remoteAddr (g_cidrs g) of Some e \<Rightarrow> throw e
              | None \<Rightarrow> ret \<lparr>ident_OwnerAddr = g_owner g, ident_SubAddr = g_sub g,
                           ident_KeyID = g_key_id g\<rparr>))))"

definition token_grant :: "string \<Rightarrow> string \<Rightarrow> string \<Rightarrow> grant_row \<Rightarrow> bool" where
  "token_grant keyID owner subAddr g \<longleftrightarrow>
     g_key_id g = keyID \<and> owned_by owner g \<and> ToLower (g_sub g) = ToLower subAddr \<and> live g"

definition ValidateToken :: "env \<Rightarrow> string \<Rightarrow> string \<Rightarrow> string \<Rightarrow> string \<Rightarrow> (store_error, unit) act" where
  "ValidateToken E keyID owner subAddr remoteAddr =
     bind (or_fail (sql_query E (\<lambda>d. find (token_grant keyID owner subAddr) (grants d))) ErrOther)
     (\<lambda>r. case r of None \<Rightarrow> throw ErrKeyRevoked
      | Some g \<Rightarrow> bind (clock E) (\<lambda>now.
          if g_expires g < now then throw ErrKeyExpired
          else (case remoteAllowed E remoteAddr (g_cidrs g) of Some e \<Rightarrow> throw e | None \<Rightarrow> ret ())))"

definition act_as_grant :: "string \<Rightarrow> string \<Rightarrow> grant_row \<Rightarrow> bool" where
  "act_as_grant owner subAddr g \<longleftrightarrow> owned_by owner g \<and> ToLower (g_sub g) = ToLower subAddr \<and> live g"

definition ValidateActAs :: "env \<Rightarrow> string \<Rightarrow> string \<Rightarrow> (store_error, unit) act" where
  "ValidateActAs E owner subAddr =
     bind (or_fail (sql_query E (\<lambda>d. list_ex (act_as_grant owner subAddr) (grants d))) ErrOther)
     (\<lambda>b. if b then ret () else throw ErrNotFound)"

subsection \<open>The constraints and limits are kept\<close>

definition grants_ok :: "database \<Rightarrow> bool" where
  "grants_ok d \<longleftrightarrow> list_all grant_check (grants d) \<and> grant_unique (grants d)"

definition within_limits :: "database \<Rightarrow> bool" where
  "within_limits d \<longleftrightarrow> (\<forall>owner. int (grant_count d owner) \<le> max_of d owner)"

lemma set_grants_Inr:
  "set_grants d gs a = Inr (b, d1) \<longleftrightarrow>
     list_all grant_check gs \<and> grant_unique gs \<and> b = a \<and> d1 = d\<lparr>grants := gs\<rparr>"
  by (auto simp: set_grants_def)

lemma grant_unique_filter: "grant_unique gs \<Longrightarrow> grant_unique (filter P gs)"
proof -
  have "filter live (filter P gs) = filter P (filter live gs)" by (induction gs) auto
  then show "grant_unique gs \<Longrightarrow> grant_unique (filter P gs)"
    by (simp only: grant_unique_def distinct_map_filter)
qed

lemma keeps_pool_tx [keeps_intros]:
  assumes "keeps (\<lambda>w. P (db w)) m"
  shows "keeps (\<lambda>w. P (db w)) (pool_tx E failed m)"
proof -
  have db_begin: "db (snd (or_fail (sql_query E (\<lambda>_. ())) failed w)) = db w" for w
    by (auto simp: act_defs Let_def split: prod.splits sum.splits)
  show ?thesis
    unfolding keeps_def
  proof (intro allI impI)
    fix w :: world assume P: "P (db w)"
    obtain r w1 where 1: "or_fail (sql_query E (\<lambda>_. ())) failed w = (r, w1)" by fastforce
    with db_begin [of w] P have P1: "P (db w1)" by simp
    obtain s w2 where 2: "m w1 = (s, w2)" by fastforce
    with P1 assms have P2: "P (db w2)" by (metis keeps_def snd_conv)
    obtain t w3 where 3: "or_fail (sql_query E (\<lambda>_. ())) failed w2 = (t, w3)" by fastforce
    with db_begin [of w2] P2 have "P (db w3)" by simp
    with P P1 P2 1 2 3 show "P (db (snd (pool_tx E failed m w)))"
      by (auto simp: pool_tx_def split: sum.splits)
  qed
qed

lemma max_of_append_live: "live g \<Longrightarrow> max_of (d\<lparr>grants := grants d @ [g]\<rparr>) owner = max_of d owner"
proof -
  assume "live g"
  then have "find (\<lambda>g. owned_by owner g \<and> \<not> live g) (gs @ [g])
      = find (\<lambda>g. owned_by owner g \<and> \<not> live g) gs" for gs
    by (induction gs) auto
  then show ?thesis by (simp add: max_of_def)
qed

lemma same_owner:
  "owned_by owner g \<Longrightarrow> owned_by owner = owned_by (g_owner g)"
  by (auto simp: owned_by_def fun_eq_iff)

lemma same_owner_counts:
  assumes "ToLower o1 = ToLower o2"
  shows "max_of d o1 = max_of d o2" "grant_count d o1 = grant_count d o2"
  using assms by (simp_all add: max_of_def grant_count_def owned_by_def)

lemma max_of_alt: "max_of d owner =
   (case map_option g_max (find (\<lambda>g. owned_by owner g \<and> \<not> live g) (grants d)) of
     None \<Rightarrow> DefaultMaxSubAccounts | Some m \<Rightarrow> m)"
  by (simp add: max_of_def option.case_eq_if option.map_sel)

text \<open>Changing columns other than owner, agent and limit changes neither counts nor limits.\<close>

lemma update_where_limits:
  assumes "\<And>g. g_owner (f g) = g_owner g" "\<And>g. g_agent (f g) = g_agent g" "\<And>g. g_max (f g) = g_max g"
  shows "max_of (d\<lparr>grants := update_where P f (grants d)\<rparr>) owner = max_of d owner"
    "grant_count (d\<lparr>grants := update_where P f (grants d)\<rparr>) owner = grant_count d owner"
proof -
  have q: "owned_by owner (f g) = owned_by owner g" "live (f g) = live g" for g
    using assms by (simp_all add: owned_by_def live_def)
  have "map_option g_max (find (\<lambda>g. owned_by owner g \<and> \<not> live g) (update_where P f gs))
      = map_option g_max (find (\<lambda>g. owned_by owner g \<and> \<not> live g) gs)" for gs
    by (induction gs) (auto simp: update_where_def q assms)
  then show "max_of (d\<lparr>grants := update_where P f (grants d)\<rparr>) owner = max_of d owner"
    by (simp add: max_of_alt)
  show "grant_count (d\<lparr>grants := update_where P f (grants d)\<rparr>) owner = grant_count d owner"
    using filter_update_where [of "\<lambda>g. owned_by owner g \<and> live g" f P "grants d"] q
    by (simp add: grant_count_def)
qed

definition grant_inv :: "database \<Rightarrow> bool" where
  "grant_inv d \<longleftrightarrow> grants_ok d \<and> within_limits d"

lemma grant_inv_update:
  assumes "grant_inv d" and "update_grants P f d = Inr (r, d1)"
    and "\<And>g. g_owner (f g) = g_owner g" "\<And>g. g_agent (f g) = g_agent g" "\<And>g. g_max (f g) = g_max g"
  shows "grant_inv d1"
proof -
  from assms(2) have d1: "d1 = d\<lparr>grants := update_where P f (grants d)\<rparr>" and ok: "grants_ok d1"
    by (auto simp: update_grants_def set_grants_Inr grants_ok_def)
  from assms(1) update_where_limits [OF assms(3-5)] d1 have "within_limits d1"
    by (simp add: within_limits_def grant_inv_def)
  with ok show ?thesis by (simp add: grant_inv_def)
qed

lemma keeps_Store_List: "keeps (\<lambda>w. P (db w)) (Store_List E owner)"
  unfolding Store_List_def MaxSubAccounts_def by (intro keeps_intros)

lemma keeps_Store_Get [keeps_intros]: "keeps (\<lambda>w. P (db w)) (Store_Get E owner agent)"
  unfolding Store_Get_def by (intro keeps_intros)

lemma keeps_ValidateAPIKey [keeps_intros]: "keeps (\<lambda>w. P (db w)) (ValidateAPIKey E k r)"
  unfolding ValidateAPIKey_def by (intro keeps_intros)

lemma keeps_ValidateToken [keeps_intros]: "keeps (\<lambda>w. P (db w)) (ValidateToken E k ow sub r)"
  unfolding ValidateToken_def by (intro keeps_intros)

lemma keeps_ValidateActAs [keeps_intros]: "keeps (\<lambda>w. P (db w)) (ValidateActAs E ow sub)"
  unfolding ValidateActAs_def by (intro keeps_intros)

lemma keeps_RotateKey: "keeps (\<lambda>w. grant_inv (db w)) (RotateKey E owner agent kid h ex)"
  unfolding RotateKey_def
  by (rule keeps_bind, rule keeps_stmt, erule grant_inv_update, assumption)
    (auto intro: keeps_intros split: option.splits sum.splits)

lemma keeps_UpdateCIDRs: "keeps (\<lambda>w. grant_inv (db w)) (UpdateCIDRs E owner agent cidrs)"
  unfolding UpdateCIDRs_def
  by (rule keeps_bind, rule keeps_stmt)
    (auto intro: keeps_intros split: option.splits sum.splits elim!: grant_inv_update)

lemma delete_grants_inv: "grant_inv d \<Longrightarrow> grant_inv (d\<lparr>grants := delete_where (is_grant owner agent) (grants d)\<rparr>)"
proof -
  assume inv: "grant_inv d"
  let ?d = "d\<lparr>grants := delete_where (is_grant owner agent) (grants d)\<rparr>"
  have "find (\<lambda>g. owned_by ow g \<and> \<not> live g) (delete_where (is_grant owner agent) gs)
      = find (\<lambda>g. owned_by ow g \<and> \<not> live g) gs" for ow gs
    by (induction gs) (auto simp: delete_where_def is_grant_def)
  then have m: "max_of ?d ow = max_of d ow" for ow by (simp add: max_of_def)
  have "length (filter Q (delete_where R gs)) \<le> length (filter Q gs)" for Q R and gs :: "grant_row list"
    by (induction gs) (auto simp: delete_where_def)
  then have c: "int (grant_count ?d ow) \<le> int (grant_count d ow)" for ow by (simp add: grant_count_def)
  have "int (grant_count ?d ow) \<le> max_of ?d ow" for ow
    using c [of ow] m [of ow] inv unfolding grant_inv_def within_limits_def by (metis order_trans)
  then have "within_limits ?d" unfolding within_limits_def by blast
  moreover have "grants_ok ?d"
    using inv by (auto simp: grants_ok_def grant_inv_def delete_where_def list_all_iff grant_unique_filter)
  ultimately show ?thesis by (simp add: grant_inv_def)
qed

lemma keeps_Store_Delete: "keeps (\<lambda>w. grant_inv (db w)) (Store_Delete E owner agent)"
  unfolding Store_Delete_def
  by (intro keeps_intros) (rule keeps_stmt, auto simp: delete_grants_inv)

lemma pool_tx_db:
  assumes "P (db w)" and "\<And>w1 a w2. db w1 = db w \<Longrightarrow> m w1 = (Inr a, w2) \<Longrightarrow> P (db w2)"
  shows "P (db (snd (pool_tx E failed m w)))"
proof -
  have db_q: "db (snd (or_fail (sql_query E (\<lambda>_. ())) failed v)) = db v" for v :: world
    by (auto simp: act_defs Let_def split: prod.splits sum.splits)
  obtain r w1 where 1: "or_fail (sql_query E (\<lambda>_. ())) failed w = (r, w1)" by fastforce
  with db_q [of w] have d1: "db w1 = db w" by simp
  obtain s w2 where 2: "m w1 = (s, w2)" by fastforce
  obtain t w3 where 3: "or_fail (sql_query E (\<lambda>_. ())) failed w2 = (t, w3)" by fastforce
  with db_q [of w2] have d3: "db w3 = db w2" by simp
  show ?thesis
  proof (cases s)
    case (Inl e)
    with 1 2 d1 assms(1) show ?thesis by (auto simp: pool_tx_def split: sum.splits)
  next
    case (Inr a)
    with assms(2) [OF d1] 2 have "P (db w2)" by simp
    with 1 2 3 d1 d3 Inr assms(1) show ?thesis by (auto simp: pool_tx_def split: sum.splits)
  qed
qed

lemma insert_grant_inv:
  assumes "grant_inv d" and "insert_grant E g d = Inr (u, d1)" and "live g"
    and "int (grant_count d (g_owner g)) < max_of d (g_owner g)"
  shows "grant_inv d1"
proof -
  from assms(2) obtain cs where d1: "d1 = d\<lparr>grants := grants d @ [g\<lparr>g_cidrs := cs\<rparr>]\<rparr>" and ok: "grants_ok d1"
    by (auto simp: insert_grant_def set_grants_Inr grants_ok_def split: option.splits)
  let ?g = "g\<lparr>g_cidrs := cs\<rparr>"
  have lg: "live ?g" using assms(3) by (simp add: live_def)
  have "int (grant_count d1 ow) \<le> max_of d1 ow" for ow
  proof (cases "owned_by ow ?g")
    case True
    then have "ToLower (g_owner g) = ToLower ow" by (simp add: owned_by_def)
    with assms(4) have "int (grant_count d ow) < max_of d ow"
      by (metis same_owner_counts)
    with True lg show ?thesis
      unfolding d1 max_of_append_live [OF lg] by (simp add: grant_count_def)
  next
    case False
    with lg show ?thesis
      unfolding d1 max_of_append_live [OF lg]
      using assms(1) by (simp add: grant_count_def grant_inv_def within_limits_def)
  qed
  with ok show ?thesis by (simp add: grant_inv_def within_limits_def)
qed

lemma createGrant_inv:
  assumes "agent \<noteq> []" and "grant_inv (db w)"
  shows "grant_inv (db (snd (createGrant E owner agent sub gt dn kid h cidrs ex w)))"
  unfolding createGrant_def
proof (rule pool_tx_db)
  show "grant_inv (db w)" by fact
next
  fix w1 a w2
  assume "db w1 = db w" and run: "bind (maxSubAccountsTx E owner) (\<lambda>mx.
        bind (or_fail (sql_query E (\<lambda>d. grant_count d owner)) ErrOther) (\<lambda>n.
        if mx \<le> int n then throw ErrLimitExceeded
        else bind (stmt E (insert_grant E \<lparr>g_owner = owner, g_agent = agent, g_sub = sub,
               g_type = grant_type_text gt, g_display = dn, g_key_id = kid,
               g_key_hash = h, g_cidrs = cidrs, g_expires = ex, g_max = mx\<rparr>))
          (\<lambda>r. case r of Inl e \<Rightarrow> throw (store_fail e) | Inr _ \<Rightarrow> ret ()))) w1 = (Inr a, w2)"
  let ?g = "\<lparr>g_owner = owner, g_agent = agent, g_sub = sub,
               g_type = grant_type_text gt, g_display = dn, g_key_id = kid,
               g_key_hash = h, g_cidrs = cidrs, g_expires = ex, g_max = max_of (db w1) owner\<rparr>"
  from run obtain u d1 where "insert_grant E ?g (db w1) = Inr (u, d1)" "db w2 = d1"
    "int (grant_count (db w1) owner) < max_of (db w1) owner"
    by (auto simp: act_Inr maxSubAccountsTx_def stmt_Inr split: if_splits sum.splits)
  moreover have "grant_inv (db w1)" using \<open>db w1 = db w\<close> assms(2) by simp
  ultimately show "grant_inv (db w2)"
    using insert_grant_inv [of "db w1" E ?g u d1] assms(1) by (simp add: live_def)
qed

lemma keeps_createGrant:
  "agent \<noteq> [] \<Longrightarrow> keeps (\<lambda>w. grant_inv (db w)) (createGrant E owner agent sub gt dn kid h cidrs ex)"
  by (simp add: keeps_def createGrant_inv)

text \<open>C10: the grant table stays well formed.  Whatever statements fail, every store operation keeps the
  constraints (one grant per owner and agent, one per owner and address, one per key id) and leaves
  every owner within the limit of sub-accounts.\<close>

theorem grant_store_invariant:
  assumes "agent \<noteq> []"
  shows "keeps (\<lambda>w. grant_inv (db w)) (Store_Create E owner agent sub kid h cidrs ex)
    \<and> keeps (\<lambda>w. grant_inv (db w)) (CreateDelegated E owner agent sub dn kid h cidrs ex)
    \<and> keeps (\<lambda>w. grant_inv (db w)) (RotateKey E owner agent kid h ex)
    \<and> keeps (\<lambda>w. grant_inv (db w)) (UpdateCIDRs E owner agent cidrs)
    \<and> keeps (\<lambda>w. grant_inv (db w)) (Store_Delete E owner agent)
    \<and> keeps (\<lambda>w. grant_inv (db w)) (Store_List E owner)
    \<and> keeps (\<lambda>w. grant_inv (db w)) (Store_Get E owner agent)"
  using assms by (simp add: Store_Create_def CreateDelegated_def keeps_createGrant keeps_RotateKey
      keeps_UpdateCIDRs keeps_Store_Delete keeps_Store_List keeps_Store_Get)

theorem grant_store_invariant_witness:
  "keeps (\<lambda>w. grant_inv (db w)) (Store_Create example_env ''@al@ex.org'' ''bot'' ''@al_bot@ex.org''
      ''k'' ''h'' [''10.0.0.0/8''] 9) \<and> grant_inv empty_db"
  using grant_store_invariant [of "''bot''" example_env "''@al@ex.org''" "''@al_bot@ex.org''" "''k''" "''h''"
      "[''10.0.0.0/8'']" 9 "[]"]
  by (simp add: grant_inv_def grants_ok_def grant_unique_def within_limits_def grant_count_def
      max_of_def empty_db_def DefaultMaxSubAccounts_def)

subsection \<open>Validation and revocation\<close>

lemma ValidateAPIKey_sound:
  assumes "ValidateAPIKey E k r w = (Inr ident, w1)"
  shows "\<exists>p g. ParseAPIKey k = Some p \<and> g \<in> set (grants (db w)) \<and> live g \<and> g_key_id g = ID p
    \<and> HashAPIKey (e_sha256 E) k = g_key_hash g \<and> e_now E (Suc (tick w)) \<le> g_expires g
    \<and> remoteAllowed E r (g_cidrs g) = None
    \<and> ident = \<lparr>ident_OwnerAddr = g_owner g, ident_SubAddr = g_sub g, ident_KeyID = g_key_id g\<rparr>"
proof -
  from assms obtain p where p: "ParseAPIKey k = Some p"
    by (auto simp: ValidateAPIKey_def throw_eq split: option.splits)
  with assms obtain g where f: "find (\<lambda>g. g_key_id g = ID p \<and> live g) (grants (db w)) = Some g"
    and "HashAPIKey (e_sha256 E) k = g_key_hash g" "\<not> g_expires g < e_now E (Suc (tick w))"
    "remoteAllowed E r (g_cidrs g) = None"
    "ident = \<lparr>ident_OwnerAddr = g_owner g, ident_SubAddr = g_sub g, ident_KeyID = g_key_id g\<rparr>"
    by (auto simp: ValidateAPIKey_def act_Inr split: option.splits if_splits)
  with p find_Some_mem [OF f] show ?thesis
    by (intro exI [where x = p] exI [where x = g]) simp
qed

lemma ValidateAPIKey_complete:
  assumes "grants_ok (db w)" and "\<forall>n. \<not> e_fail E n" and "\<not> aborted w"
    and "ParseAPIKey k = Some p" and "g \<in> set (grants (db w))" "live g" "g_key_id g = ID p"
    "HashAPIKey (e_sha256 E) k = g_key_hash g" "e_now E (Suc (tick w)) \<le> g_expires g"
    "remoteAllowed E r (g_cidrs g) = None"
    and "ident = \<lparr>ident_OwnerAddr = g_owner g, ident_SubAddr = g_sub g, ident_KeyID = g_key_id g\<rparr>"
  shows "\<exists>w1. ValidateAPIKey E k r w = (Inr ident, w1)"
proof -
  from assms(1) have "distinct (map g_key_id (filter live (grants (db w))))"
    by (simp add: grants_ok_def grant_unique_def)
  with assms have "find (\<lambda>g. g_key_id g = ID p \<and> live g) (grants (db w)) = Some g"
    by (intro find_unique) (auto dest: distinct_map_key)
  with assms show ?thesis by (auto simp: ValidateAPIKey_def act_Inr)
qed

text \<open>C32: an API key is accepted only for the grant that holds it: the key is well formed, the grant is
  live, holds the digest of exactly this key, has not expired, and admits the caller's address; the
  identity returned is that grant's.  In particular a key of a deleted or rotated grant never validates.\<close>

theorem ValidateAPIKey_correct:
  assumes "grants_ok (db w)" and "\<forall>n. \<not> e_fail E n" and "\<not> aborted w"
  shows "(\<exists>w1. ValidateAPIKey E k r w = (Inr ident, w1)) \<longleftrightarrow>
    (\<exists>p. ParseAPIKey k = Some p \<and> (\<exists>g \<in> set (grants (db w)). live g \<and> g_key_id g = ID p
      \<and> HashAPIKey (e_sha256 E) k = g_key_hash g \<and> e_now E (Suc (tick w)) \<le> g_expires g
      \<and> remoteAllowed E r (g_cidrs g) = None
      \<and> ident = \<lparr>ident_OwnerAddr = g_owner g, ident_SubAddr = g_sub g, ident_KeyID = g_key_id g\<rparr>))"
  (is "?l \<longleftrightarrow> ?r")
proof
  assume ?l
  then show ?r using ValidateAPIKey_sound by blast
next
  assume ?r
  then obtain p g where p: "ParseAPIKey k = Some p" and g: "g \<in> set (grants (db w))" "live g" "g_key_id g = ID p"
    "HashAPIKey (e_sha256 E) k = g_key_hash g" "e_now E (Suc (tick w)) \<le> g_expires g"
    "remoteAllowed E r (g_cidrs g) = None"
    and i: "ident = \<lparr>ident_OwnerAddr = g_owner g, ident_SubAddr = g_sub g, ident_KeyID = g_key_id g\<rparr>" by blast
  from ValidateAPIKey_complete [OF assms p g i] show ?l .
qed

definition example_grant :: grant_row where
  "example_grant = \<lparr>g_owner = ''@al@ex.org'', g_agent = ''bot'', g_sub = ''@al_bot@ex.org'',
     g_type = ''derived_sub_account'', g_display = [], g_key_id = ''k'', g_key_hash = ''fmsgk_k_s'',
     g_cidrs = [''10.0.0.0/8''], g_expires = 9, g_max = 5\<rparr>"

definition grant_world :: world where
  "grant_world = example_world\<lparr>db := empty_db\<lparr>grants := [example_grant]\<rparr>\<rparr>"

lemma grant_world_inv: "grant_inv (db grant_world)"
  by (simp add: grant_inv_def grants_ok_def grant_unique_def within_limits_def grant_count_def
      max_of_def empty_db_def DefaultMaxSubAccounts_def grant_world_def example_grant_def live_def
      grant_check_def example_world_def)

theorem ValidateAPIKey_correct_witness:
  "\<exists>w1. ValidateAPIKey example_env ''fmsgk_k_s'' ''10.1.1.1'' grant_world =
     (Inr \<lparr>ident_OwnerAddr = ''@al@ex.org'', ident_SubAddr = ''@al_bot@ex.org'', ident_KeyID = ''k''\<rparr>, w1)"
proof -
  have p: "ParseAPIKey ''fmsgk_k_s'' = Some \<lparr>ID = ''k'', Secret = ''s'', Value = ''fmsgk_k_s''\<rparr>"
    by (simp add: ParseAPIKey_def KeyPrefix_def)
  have h: "grants_ok (db grant_world)" "\<forall>n. \<not> e_fail example_env n" "\<not> aborted grant_world"
    using grant_world_inv by (simp_all add: grant_inv_def example_env_def grant_world_def example_world_def)
  show ?thesis
    unfolding ValidateAPIKey_correct [OF h] p
    by (simp add: grant_world_def example_world_def empty_db_def example_grant_def live_def example_env_def
        HashAPIKey_def remoteAllowed_def)
qed

lemma no_key_refused:
  assumes "\<forall>g \<in> set (grants (db w)). live g \<longrightarrow> g_key_id g \<noteq> kid"
  shows "fst (ValidateToken E kid ow sub r w) \<in> {Inl ErrKeyRevoked, Inl ErrOther}"
    "ParseAPIKey k = Some p \<Longrightarrow> ID p = kid \<Longrightarrow> fst (ValidateAPIKey E k r w) \<in> {Inl ErrInvalidAPIKey, Inl ErrOther}"
proof -
  have "find (token_grant kid ow sub) (grants (db w)) = None"
    using assms by (auto simp: find_None_all token_grant_def)
  then show "fst (ValidateToken E kid ow sub r w) \<in> {Inl ErrKeyRevoked, Inl ErrOther}"
    by (simp add: ValidateToken_def act_defs Let_def)
  have "find (\<lambda>g. g_key_id g = kid \<and> live g) (grants (db w)) = None"
    using assms by (auto simp: find_None_all)
  then show "ParseAPIKey k = Some p \<Longrightarrow> ID p = kid \<Longrightarrow>
      fst (ValidateAPIKey E k r w) \<in> {Inl ErrInvalidAPIKey, Inl ErrOther}"
    by (simp add: ValidateAPIKey_def act_defs Let_def)
qed

text \<open>C33: revocation is immediate.  Once a grant's key has been rotated, or the grant deleted, neither
  the old API key nor any token minted from it is accepted, for any owner, address or caller.\<close>

theorem revocation:
  assumes "grant_inv (db w)" and "g \<in> set (grants (db w))" and "is_grant owner agent g"
    and "(RotateKey E owner agent kid h ex w = (Inr s, w1) \<and> kid \<noteq> g_key_id g)
       \<or> Store_Delete E owner agent w = (Inr u, w1)"
    and "ParseAPIKey k = Some p" and "ID p = g_key_id g" and "db w2 = db w1"
  shows "fst (ValidateToken E (g_key_id g) ow sub r w2) \<in> {Inl ErrKeyRevoked, Inl ErrOther}
    \<and> fst (ValidateAPIKey E k r w2) \<in> {Inl ErrInvalidAPIKey, Inl ErrOther}"
proof -
  have uniq: "g2 = g" if "g2 \<in> set (grants (db w))" "live g2" "g_key_id g2 = g_key_id g" for g2
    using that assms(1-3) distinct_map_key [of g_key_id "filter live (grants (db w))" g2 g]
    by (simp add: grant_inv_def grants_ok_def grant_unique_def is_grant_def)
  have "\<forall>g2 \<in> set (grants (db w2)). live g2 \<longrightarrow> g_key_id g2 \<noteq> g_key_id g"
    using assms(4)
  proof
    assume rot: "RotateKey E owner agent kid h ex w = (Inr s, w1) \<and> kid \<noteq> g_key_id g"
    let ?f = "\<lambda>g. g\<lparr>g_key_id := kid, g_key_hash := h, g_expires := ex\<rparr>"
    from rot have "grants (db w1) = update_where (is_grant owner agent) ?f (grants (db w))"
      by (auto simp: RotateKey_def act_Inr stmt_Inr update_grants_def set_grants_Inr
          split: sum.splits option.splits)
    then have g2: "\<exists>x \<in> set (grants (db w)). g2 = (if is_grant owner agent x then ?f x else x)"
      if "g2 \<in> set (grants (db w2))" for g2
      using that assms(7) by (simp add: mem_update_where)
    show ?thesis
    proof (intro ballI impI)
      fix g2 assume "g2 \<in> set (grants (db w2))" and l: "live g2"
      with g2 obtain x where x: "x \<in> set (grants (db w))" "g2 = (if is_grant owner agent x then ?f x else x)"
        by blast
      show "g_key_id g2 \<noteq> g_key_id g"
        using x uniq [OF x(1)] l rot assms(3) by (cases "is_grant owner agent x") auto
    qed
  next
    assume "Store_Delete E owner agent w = (Inr u, w1)"
    then have "grants (db w1) = delete_where (is_grant owner agent) (grants (db w))"
      by (auto simp: Store_Delete_def act_Inr stmt_Inr split: if_splits)
    with assms(3,7) uniq show ?thesis by auto
  qed
  from no_key_refused [OF this] assms(5,6) show ?thesis by blast
qed

theorem revocation_witness:
  "fst (ValidateToken example_env ''k'' ''@al@ex.org'' ''@al_bot@ex.org'' ''10.1.1.1''
      (grant_world\<lparr>tick := 1, db := empty_db\<rparr>)) \<in> {Inl ErrKeyRevoked, Inl ErrOther}"
proof -
  have "Store_Delete example_env ''@al@ex.org'' ''bot'' grant_world = (Inr (), grant_world\<lparr>tick := 1, db := empty_db\<rparr>)"
    by (simp add: Store_Delete_def grant_world_def example_world_def empty_db_def example_grant_def is_grant_def
        owned_by_def live_def act_defs example_env_def delete_where_def)
  moreover have "ParseAPIKey ''fmsgk_k_s'' = Some \<lparr>ID = ''k'', Secret = ''s'', Value = ''fmsgk_k_s''\<rparr>"
    by (simp add: ParseAPIKey_def KeyPrefix_def)
  moreover have "example_grant \<in> set (grants (db grant_world))" "is_grant ''@al@ex.org'' ''bot'' example_grant"
    by (simp_all add: grant_world_def example_world_def example_grant_def is_grant_def owned_by_def live_def)
  ultimately show ?thesis
    using revocation [OF grant_world_inv, of example_grant "''@al@ex.org''" "''bot''" example_env _ _ _ _
        "grant_world\<lparr>tick := 1, db := empty_db\<rparr>" "()" "''fmsgk_k_s''" "\<lparr>ID = ''k'', Secret = ''s'', Value = ''fmsgk_k_s''\<rparr>"
        "grant_world\<lparr>tick := 1, db := empty_db\<rparr>" "''@al@ex.org''" "''@al_bot@ex.org''" "''10.1.1.1''"]
    by (simp add: example_grant_def)
qed

end
