(* ===== verification/Auth.thy ===== *)
theory Auth
  imports GrantStore
begin

text \<open>
  Authentication: \<open>src/internal/middleware/jwt.go\<close> and \<open>src/internal/middleware/oauth.go\<close>.

  The token parsers of the JWT library are parameters (\<open>v_idp\<close>, \<open>v_api\<close>), functions of the time and
  the token: what they return is a set of claims that is verified and within its time then, or nothing.  \<open>classifyAudience\<close>, \<open>authenticateIdP\<close>,
  \<open>authenticateAPIToken\<close> and \<open>AuthenticateRequest\<close> decide who the caller is.  The interface
  \<open>APIKeyChecker\<close> of the source is the locale \<open>key_checker\<close>; the grant store interprets it.

  Shown here: who a request may act as, that a delegated token never becomes an owner session and
  reaches only the listed routes, and that the tokens of a vanished grant are refused.
\<close>

subsection \<open>Results and errors\<close>

datatype auth_type = AuthTypeIdP | AuthTypeAPI | AuthTypeOAuth

record authResult =
  Addr :: string
  AuthOwner :: string
  AuthType :: auth_type
  Scopes :: "string list"
  Expires :: "time option"

datatype auth_error = AuthError nat string | StoreError store_error | TokenInvalid

definition authFailureFromError :: "auth_error \<Rightarrow> (nat \<times> string) option" where
  "authFailureFromError e = (case e of
     AuthError s m \<Rightarrow> Some (s, m)
   | StoreError ErrCIDRDenied \<Rightarrow> Some (403, ''source IP not allowed'')
   | StoreError ErrKeyExpired \<Rightarrow> Some (401, ''api key expired'')
   | StoreError ErrKeyRevoked \<Rightarrow> Some (401, ''api key revoked'')
   | StoreError ErrInvalidRemoteIP \<Rightarrow> Some (401, ''invalid source IP'')
   | StoreError ErrNotFound \<Rightarrow> Some (403, ''grant not authorised'')
   | _ \<Rightarrow> None)"

subsection \<open>Claims\<close>

text \<open>The claims of a provider token, with what the JWT library reads as audience (\<open>None\<close> where it
  reports a malformed one) and expiry; and the claims of a first-party token.\<close>

record claims =
  cl_map :: "(string \<times> json) list"
  cl_aud :: "string list option"
  cl_exp :: "time option"

record token_claims =
  tc_sub :: string
  tc_owner :: string
  tc_key :: string

definition claim :: "claims \<Rightarrow> string \<Rightarrow> json option" where
  "claim c k = map_of (cl_map c) k"

definition claim_string :: "claims \<Rightarrow> string \<Rightarrow> string" where
  "claim_string c k = (case claim c k of Some (JStr s) \<Rightarrow> s | _ \<Rightarrow> [])"

definition scope_item_ok :: "json \<Rightarrow> bool" where
  "scope_item_ok j = (case j of JStr s \<Rightarrow>
     s \<noteq> [] \<and> \<not> list_ex (\<lambda>c. byte c \<in> {32, 9, 13, 10}) s | _ \<Rightarrow> False)"

definition json_string :: "json \<Rightarrow> string" where
  "json_string j = (case j of JStr s \<Rightarrow> s | _ \<Rightarrow> [])"

definition parseScopes :: "claims \<Rightarrow> string list option" where
  "parseScopes c = (case (case claim c ''scope'' of None \<Rightarrow> claim c ''scp'' | Some v \<Rightarrow> Some v) of
     None \<Rightarrow> None
   | Some (JStr s) \<Rightarrow> if Fields s = [] then None else Some (Fields s)
   | Some (JList vs) \<Rightarrow> if list_all scope_item_ok vs \<and> vs \<noteq> [] then Some (map json_string vs) else None
   | Some _ \<Rightarrow> None)"

definition identity_ok :: "json \<Rightarrow> bool" where
  "identity_ok j = (case j of JStr s \<Rightarrow> IsValidAddr s | _ \<Rightarrow> False)"

definition delegatedIdentities :: "claims \<Rightarrow> string list option" where
  "delegatedIdentities c = (case claim c ''fmsg_identities'' of
     None \<Rightarrow> Some []
   | Some (JList vs) \<Rightarrow> if list_all identity_ok vs then Some (map json_string vs) else None
   | Some _ \<Rightarrow> None)"

subsection \<open>Routes open to delegated tokens\<close>

definition ScopeRead :: string where "ScopeRead = ''fmsg:read''"
definition ScopeWrite :: string where "ScopeWrite = ''fmsg:write''"

definition oauthRouteScopes :: "(string \<times> string) list" where
  "oauthRouteScopes =
    [(''GET /fmsg'', ScopeRead),
     (''GET /fmsg/sent'', ScopeRead),
     (''GET /fmsg/count'', ScopeRead),
     (''GET /fmsg/:id'', ScopeRead),
     (''GET /fmsg/:id/data'', ScopeRead),
     (''GET /fmsg/:id/thread'', ScopeRead),
     (''GET /fmsg/:id/thread/messages'', ScopeRead),
     (''GET /fmsg/:id/attach/:filename'', ScopeRead),
     (''GET /fmsg/ws'', ScopeRead),
     (''POST /fmsg'', ScopeWrite),
     (''PUT /fmsg/:id'', ScopeWrite),
     (''DELETE /fmsg/:id'', ScopeWrite),
     (''POST /fmsg/:id/send'', ScopeWrite),
     (''POST /fmsg/:id/read'', ScopeWrite),
     (''POST /fmsg/:id/restore'', ScopeWrite),
     (''POST /fmsg/:id/add-to'', ScopeWrite),
     (''POST /fmsg/:id/react'', ScopeWrite),
     (''POST /fmsg/:id/indicate'', ScopeWrite),
     (''POST /fmsg/:id/attach'', ScopeWrite),
     (''DELETE /fmsg/:id/attach/:filename'', ScopeWrite)]"

definition OAuthRouteScope :: "string \<Rightarrow> string \<Rightarrow> string option" where
  "OAuthRouteScope meth pattern = map_of oauthRouteScopes (meth @ '' '' @ pattern)"

definition AllowsRoute :: "authResult \<Rightarrow> string \<Rightarrow> string \<Rightarrow> bool \<times> string" where
  "AllowsRoute r meth pattern = (if AuthType r \<noteq> AuthTypeOAuth then (True, [])
     else (case OAuthRouteScope meth pattern of
        None \<Rightarrow> (False, ''this operation is not available to delegated OAuth tokens'')
      | Some need \<Rightarrow> if need \<notin> set (Scopes r) then (False, ''token lacks required scope '' @ need)
                     else (True, [])))"

text \<open>\<open>CheckScope\<close>: \<open>None\<close> lets the request proceed, otherwise the status and message of the refusal.\<close>

definition CheckScope :: "authResult \<Rightarrow> string \<Rightarrow> string \<Rightarrow> (nat \<times> string) option" where
  "CheckScope r meth pattern = (case AllowsRoute r meth pattern of
     (True, _) \<Rightarrow> None | (False, msg) \<Rightarrow> Some (403, msg))"

subsection \<open>The verifier\<close>

text \<open>\<open>v_token\<close> and \<open>v_actas\<close> are the \<open>APIKeyChecker\<close>: validation of a token's key, and of an act-as
  relationship.  \<open>DefaultClockSkew\<close> is the leeway of the parsers.\<close>

definition DefaultClockSkew :: time where "DefaultClockSkew = 10000000"

type_synonym 'c jwt_parser = "time \<Rightarrow> string \<Rightarrow> 'c option"

record verifier =
  v_idp :: "claims jwt_parser option"
  v_audience :: string
  v_oauth :: string
  v_claim :: string
  v_api :: "token_claims jwt_parser option"
  v_token :: "string \<Rightarrow> string \<Rightarrow> string \<Rightarrow> string \<Rightarrow> (store_error, unit) act"
  v_actas :: "(string \<Rightarrow> string \<Rightarrow> (store_error, unit) act) option"

text \<open>The settings \<open>NewVerifier\<close> accepts, \<open>None\<close> where it refuses to start.\<close>

definition NewVerifier :: "claims jwt_parser option \<Rightarrow> string \<Rightarrow> string \<Rightarrow> string \<Rightarrow> string \<Rightarrow>
    token_claims jwt_parser option \<Rightarrow>
    ((string \<Rightarrow> string \<Rightarrow> string \<Rightarrow> string \<Rightarrow> (store_error, unit) act)
       \<times> (string \<Rightarrow> string \<Rightarrow> (store_error, unit) act)) option \<Rightarrow> verifier option" where
  "NewVerifier jwks issuer addressClaim audience oauthAudience apiKey keys =
     (if jwks \<noteq> None \<and> (issuer = [] \<or> addressClaim = []
           \<or> oauthAudience \<noteq> [] \<and> (audience = [] \<or> audience = oauthAudience)) then None
      else if apiKey \<noteq> None \<and> keys = None then None
      else if jwks = None \<and> apiKey = None then None
      else Some \<lparr>v_idp = jwks,
        v_audience = (if jwks = None then [] else audience),
        v_oauth = (if jwks = None then [] else oauthAudience),
        v_claim = (if jwks = None then [] else addressClaim),
        v_api = apiKey,
        v_token = (case keys of Some (t, _) \<Rightarrow> if apiKey = None then (\<lambda>_ _ _ _. throw ErrOther) else t
          | None \<Rightarrow> (\<lambda>_ _ _ _. throw ErrOther)),
        v_actas = (if apiKey = None then None else map_option snd keys)\<rparr>)"

text \<open>Is the token delegated, and may it be used at all?\<close>

definition classifyAudience :: "verifier \<Rightarrow> claims \<Rightarrow> auth_error + bool" where
  "classifyAudience v c = (if v_audience v = [] then Inr False
     else (case cl_aud c of None \<Rightarrow> Inl TokenInvalid
      | Some aud \<Rightarrow>
        (let ownerAud = v_audience v \<in> set aud; oauthAud = v_oauth v \<in> set aud in
         if v_oauth v = [] then (if \<not> ownerAud then Inl TokenInvalid else Inr False)
         else if oauthAud \<and> ownerAud then Inl (AuthError 401 ''ambiguous token audience'')
         else if oauthAud then Inr True
         else if \<not> ownerAud then Inl TokenInvalid
         else if claim c ''act'' \<noteq> None
           then Inl (AuthError 401 ''delegated token presented with owner audience'')
         else Inr False)))"

definition validateIdentity :: "env \<Rightarrow> string \<Rightarrow> ('e, nat \<times> string) act" where
  "validateIdentity E addr = (if \<not> IsValidAddr addr then ret (401, ''invalid identity'')
     else bind (CheckFmsgID E addr) (\<lambda>r. ret (case r of
         None \<Rightarrow> (503, ''identity service unavailable'')
       | Some (code, accepting) \<Rightarrow>
           if code = 404 then (400, ''User '' @ addr @ '' not found'')
           else if code = 200 \<and> \<not> accepting then (403, ''User '' @ addr @ '' not authorised to send new messages'')
           else if code \<noteq> 200 then (503, ''identity service unavailable'')
           else (200, []))))"

definition require_identity :: "env \<Rightarrow> string \<Rightarrow> (auth_error, unit) act" where
  "require_identity E addr = bind (validateIdentity E addr) (\<lambda>sm.
     if fst sm \<noteq> 200 then throw (AuthError (fst sm) (snd sm)) else ret ())"

definition store_check :: "(store_error, unit) act \<Rightarrow> (auth_error, unit) act" where
  "store_check m = bind (attempt m) (\<lambda>r. case r of Inl e \<Rightarrow> throw (StoreError e) | Inr _ \<Rightarrow> ret ())"

definition idp_result :: "string \<Rightarrow> bool \<Rightarrow> claims \<Rightarrow> auth_error + (authResult \<times> string list)" where
  "idp_result owner delegated c = (if \<not> delegated
     then Inr (\<lparr>Addr = owner, AuthOwner = owner, AuthType = AuthTypeIdP, Scopes = [], Expires = None\<rparr>, [])
     else (case parseScopes c of None \<Rightarrow> Inl (AuthError 403 ''missing or malformed scope'')
      | Some scopes \<Rightarrow> (case delegatedIdentities c of
          None \<Rightarrow> Inl (AuthError 403 ''malformed identities claim'')
        | Some ids \<Rightarrow> Inr (\<lparr>Addr = owner, AuthOwner = owner, AuthType = AuthTypeOAuth,
              Scopes = scopes, Expires = cl_exp c\<rparr>, ids))))"

text \<open>\<open>ParseWithClaims\<close>, which reads the clock.\<close>

definition ParseWithClaims :: "env \<Rightarrow> 'c jwt_parser \<Rightarrow> string \<Rightarrow> (auth_error, 'c) act" where
  "ParseWithClaims E parse tok = bind (clock E) (\<lambda>now.
     case parse now tok of None \<Rightarrow> throw TokenInvalid | Some c \<Rightarrow> ret c)"

text \<open>What follows the parsing of a provider token.\<close>

definition idp_session :: "env \<Rightarrow> verifier \<Rightarrow> string \<Rightarrow> claims \<Rightarrow> (auth_error, authResult) act" where
  "idp_session E v actAs c = (case classifyAudience v c of Inl e \<Rightarrow> throw e
     | Inr delegated \<Rightarrow>
       (let owner = claim_string c (v_claim v) in
        if owner = [] then throw (AuthError 403 ''no fmsg account for this identity'')
        else bind (require_identity E owner) (\<lambda>_.
        case idp_result owner delegated c of Inl e \<Rightarrow> throw e
        | Inr (res, identities) \<Rightarrow>
          (let actAs1 = TrimSpace actAs in
           if actAs1 = [] then ret res
           else (case v_actas v of None \<Rightarrow> throw (AuthError 403 ''act-as is not enabled'')
            | Some validateActAs \<Rightarrow>
              if delegated \<and> actAs1 \<notin> set identities
                then throw (AuthError 403 ''act-as identity is not authorised for this token'')
              else if \<not> IsValidAddr actAs1 then throw (AuthError 401 ''invalid act-as identity'')
              else bind (store_check (validateActAs owner actAs1)) (\<lambda>_.
                   bind (require_identity E actAs1) (\<lambda>_. ret (res\<lparr>Addr := actAs1\<rparr>))))))))"

definition authenticateIdP :: "env \<Rightarrow> verifier \<Rightarrow> claims jwt_parser \<Rightarrow> string \<Rightarrow> string \<Rightarrow>
    (auth_error, authResult) act" where
  "authenticateIdP E v parse tok actAs = bind (ParseWithClaims E parse tok) (idp_session E v actAs)"

definition authenticateAPIToken :: "env \<Rightarrow> verifier \<Rightarrow> token_claims jwt_parser \<Rightarrow> string \<Rightarrow> string \<Rightarrow>
    string \<Rightarrow> (auth_error, authResult) act" where
  "authenticateAPIToken E v parse tok remoteAddr actAs =
     (if TrimSpace actAs \<noteq> []
      then throw (AuthError 403 ''act-as is only available with identity-provider authentication'')
      else bind (ParseWithClaims E parse tok) (\<lambda>c.
         if \<not> IsValidAddr (tc_sub c) \<or> \<not> IsValidAddr (tc_owner c) \<or> tc_key c = []
         then throw (AuthError 401 ''invalid token identity'')
         else bind (store_check (v_token v (tc_key c) (tc_owner c) (tc_sub c) remoteAddr)) (\<lambda>_.
              bind (require_identity E (tc_sub c)) (\<lambda>_.
              ret \<lparr>Addr = tc_sub c, AuthOwner = tc_owner c, AuthType = AuthTypeAPI, Scopes = [],
                   Expires = None\<rparr>))))"

text \<open>Try the provider, then the first-party tokens; an error that explains itself ends the search.\<close>

definition try_mode :: "(auth_error, authResult) act \<Rightarrow> (nat \<times> string, authResult) act \<Rightarrow>
    (nat \<times> string, authResult) act" where
  "try_mode m next_mode = bind (attempt m) (\<lambda>r. case r of Inr res \<Rightarrow> ret res
     | Inl e \<Rightarrow> (case authFailureFromError e of Some sm \<Rightarrow> throw sm | None \<Rightarrow> next_mode))"

definition AuthenticateRequest :: "env \<Rightarrow> verifier \<Rightarrow> string \<Rightarrow> string \<Rightarrow> string \<Rightarrow>
    (nat \<times> string, authResult) act" where
  "AuthenticateRequest E v tok remoteAddr actAs =
     (let last_mode = throw (401, ''invalid token'');
          api = (case v_api v of None \<Rightarrow> last_mode
             | Some parse \<Rightarrow> try_mode (authenticateAPIToken E v parse tok remoteAddr actAs) last_mode)
      in (case v_idp v of None \<Rightarrow> api
          | Some parse \<Rightarrow> try_mode (authenticateIdP E v parse tok actAs) api))"

definition Authenticate :: "env \<Rightarrow> verifier \<Rightarrow> string \<Rightarrow> (nat \<times> string, string) act" where
  "Authenticate E v tok = bind (AuthenticateRequest E v tok ''127.0.0.1'' []) (\<lambda>res. ret (Addr res))"

definition extractBearer :: "string \<Rightarrow> string option" where
  "extractBearer header = (if header = [] then None
     else if \<not> HasPrefix header ''Bearer '' then None
     else (let tok = TrimSpace (drop 7 header) in if tok = [] then None else Some tok))"

text \<open>The middleware: who the request runs as, or the response that ends it.\<close>

definition auth_middleware :: "env \<Rightarrow> verifier \<Rightarrow> string \<Rightarrow> string \<Rightarrow> string \<Rightarrow> string \<Rightarrow> string \<Rightarrow>
    (nat \<times> string, authResult) act" where
  "auth_middleware E v meth pattern header clientIP actAs =
     (case extractBearer header of
        None \<Rightarrow> throw (401, ''missing or malformed Authorization header'')
      | Some tok \<Rightarrow> bind (AuthenticateRequest E v tok clientIP actAs) (\<lambda>res.
          case CheckScope res meth pattern of Some sm \<Rightarrow> throw sm | None \<Rightarrow> ret res))"

subsection \<open>Lemmas\<close>

lemma classify_delegated:
  "classifyAudience v c = Inr True \<Longrightarrow> v_oauth v \<noteq> [] \<and> v_audience v \<noteq> []
     \<and> (\<exists>aud. cl_aud c = Some aud \<and> v_oauth v \<in> set aud \<and> v_audience v \<notin> set aud)"
  by (auto simp: classifyAudience_def Let_def split: if_splits option.splits)

lemma classify_owner:
  assumes "classifyAudience v c = Inr False" and "v_audience v \<noteq> []"
  shows "\<exists>aud. cl_aud c = Some aud \<and> v_audience v \<in> set aud
    \<and> (v_oauth v \<noteq> [] \<longrightarrow> v_oauth v \<notin> set aud \<and> claim c ''act'' = None)"
  using assms by (auto simp: classifyAudience_def Let_def split: if_splits option.splits)

lemma store_check_Inr: "store_check m w = (Inr u, w2) \<longleftrightarrow> m w = (Inr u, w2)"
  by (cases "m w") (auto simp: store_check_def bind_def attempt_def ret_def throw_def split: sum.splits)

lemma idp_result_Inr:
  "idp_result owner delegated c = Inr (res, ids) \<Longrightarrow> Addr res = owner \<and> AuthOwner res = owner
     \<and> AuthType res = (if delegated then AuthTypeOAuth else AuthTypeIdP)
     \<and> (delegated \<longrightarrow> parseScopes c = Some (Scopes res) \<and> delegatedIdentities c = Some ids)
     \<and> Expires res = (if delegated then cl_exp c else None)"
  by (auto simp: idp_result_def split: if_splits option.splits)

lemma ParseWithClaims_eq:
  "ParseWithClaims E parse tok w = (case parse (e_now E (tick w)) tok of None \<Rightarrow> Inl TokenInvalid | Some c \<Rightarrow> Inr c,
     w\<lparr>tick := Suc (tick w)\<rparr>)"
  by (simp add: ParseWithClaims_def act_defs split: option.split)

lemma ParseWithClaims_Inr:
  "ParseWithClaims E parse tok w = (Inr c, w1) \<longleftrightarrow> parse (e_now E (tick w)) tok = Some c \<and> w1 = w\<lparr>tick := Suc (tick w)\<rparr>"
  by (auto simp: ParseWithClaims_eq split: option.splits)

lemma keeps_ParseWithClaims [keeps_intros]: "keeps (\<lambda>x. P (db x)) (ParseWithClaims E parse tok)"
  by (simp add: keeps_def ParseWithClaims_eq)

text \<open>What a provider token may become: its own address, or an address the owner has a grant for.\<close>

lemma authenticateIdP_Inr:
  assumes "authenticateIdP E v parse tok actAs w = (Inr res, w2)"
  shows "\<exists>c delegated ids. parse (e_now E (tick w)) tok = Some c \<and> classifyAudience v c = Inr delegated
    \<and> AuthOwner res = claim_string c (v_claim v) \<and> AuthOwner res \<noteq> []
    \<and> AuthType res = (if delegated then AuthTypeOAuth else AuthTypeIdP)
    \<and> Expires res = (if delegated then cl_exp c else None)
    \<and> (delegated \<longrightarrow> parseScopes c = Some (Scopes res) \<and> delegatedIdentities c = Some ids)
    \<and> (Addr res = AuthOwner res
       \<or> Addr res = TrimSpace actAs \<and> IsValidAddr (Addr res) \<and> (delegated \<longrightarrow> Addr res \<in> set ids)
         \<and> (\<exists>va w1 w3. v_actas v = Some va \<and> va (AuthOwner res) (Addr res) w1 = (Inr (), w3)
             \<and> (\<exists>r. require_identity E (AuthOwner res) (w\<lparr>tick := Suc (tick w)\<rparr>) = (r, w1))))"
proof -
  let ?w = "w\<lparr>tick := Suc (tick w)\<rparr>"
  from assms obtain c where c: "parse (e_now E (tick w)) tok = Some c" and run: "idp_session E v actAs c ?w = (Inr res, w2)"
    by (auto simp: authenticateIdP_def bind_Inr ParseWithClaims_Inr)
  from run obtain delegated where d: "classifyAudience v c = Inr delegated"
    and o: "claim_string c (v_claim v) \<noteq> []"
    by (auto simp: idp_session_def Let_def throw_eq split: option.splits sum.splits if_splits)
  let ?o = "claim_string c (v_claim v)"
  from run d o obtain w1 res0 ids where w1: "require_identity E ?o ?w = (Inr (), w1)"
    and r: "idp_result ?o delegated c = Inr (res0, ids)"
    and rest: "(if TrimSpace actAs = [] then ret res0
           else (case v_actas v of None \<Rightarrow> throw (AuthError 403 ''act-as is not enabled'')
            | Some validateActAs \<Rightarrow>
              if delegated \<and> TrimSpace actAs \<notin> set ids
                then throw (AuthError 403 ''act-as identity is not authorised for this token'')
              else if \<not> IsValidAddr (TrimSpace actAs) then throw (AuthError 401 ''invalid act-as identity'')
              else bind (store_check (validateActAs ?o (TrimSpace actAs))) (\<lambda>_.
                   bind (require_identity E (TrimSpace actAs)) (\<lambda>_. ret (res0\<lparr>Addr := TrimSpace actAs\<rparr>)))))
          w1 = (Inr res, w2)"
    by (auto simp: idp_session_def Let_def bind_Inr case_sum_throw)
  note R = idp_result_Inr [OF r]
  show ?thesis
  proof (cases "TrimSpace actAs = []")
    case True
    with rest have "res = res0" by (simp add: ret_eq)
    with R c d o show ?thesis by (intro exI [of _ c] exI [of _ delegated] exI [of _ ids]) simp
  next
    case False
    with rest obtain va w3 where va: "v_actas v = Some va" "va ?o (TrimSpace actAs) w1 = (Inr (), w3)"
      and cond: "\<not> (delegated \<and> TrimSpace actAs \<notin> set ids)" "IsValidAddr (TrimSpace actAs)"
      and res: "res = res0\<lparr>Addr := TrimSpace actAs\<rparr>"
      by (auto simp: act_Inr store_check_Inr split: option.splits)
    from R c d o va cond res w1 show ?thesis
      by (intro exI [of _ c] exI [of _ delegated] exI [of _ ids]) auto
  qed
qed

lemma try_mode_Inr:
  "try_mode m nx w = (Inr res, w2) \<Longrightarrow> m w = (Inr res, w2) \<or> (\<exists>e w1. m w = (Inl e, w1) \<and> nx w1 = (Inr res, w2))"
  by (cases "m w") (auto simp: try_mode_def bind_def attempt_def ret_def throw_def
      split: sum.splits option.splits)

lemma require_identity_db: "require_identity E a w = (r, w1) \<Longrightarrow> db w1 = db w"
proof -
  have "keeps (\<lambda>x. db x = db w) (require_identity E a)"
    unfolding require_identity_def validateIdentity_def by (intro keeps_intros)
  then show "require_identity E a w = (r, w1) \<Longrightarrow> db w1 = db w"
    using keepsD [of "\<lambda>x. db x = db w" "require_identity E a" w] by simp
qed

lemma keeps_authenticateIdP:
  assumes "\<And>va a b. v_actas v = Some va \<Longrightarrow> keeps (\<lambda>x. P (db x)) (va a b)"
  shows "keeps (\<lambda>x. P (db x)) (authenticateIdP E v parse tok actAs)"
proof -
  have r: "keeps (\<lambda>x. P (db x)) (require_identity E a)" for a
    unfolding require_identity_def validateIdentity_def by (intro keeps_intros)
  have s: "keeps (\<lambda>x. P (db x)) (store_check m)" if "keeps (\<lambda>x. P (db x)) m" for m
    using that unfolding store_check_def by (intro keeps_intros)
  show ?thesis
    unfolding authenticateIdP_def idp_session_def Let_def
    by (auto intro!: keeps_bind keeps_ret keeps_throw keeps_ParseWithClaims r s assms split: option.splits sum.splits prod.splits)
qed

subsection \<open>The interface of the grant store\<close>

text \<open>
  \<open>APIKeyChecker\<close> (\<open>jwt.go\<close>, lines 47 to 50): what authentication relies on.  \<open>grant\<close> and \<open>key_grant\<close>
  say what the provider's data hold; a successful validation must be backed by them.
\<close>

locale key_checker =
  fixes vtoken :: "string \<Rightarrow> string \<Rightarrow> string \<Rightarrow> string \<Rightarrow> (store_error, unit) act"
    and vactas :: "string \<Rightarrow> string \<Rightarrow> (store_error, unit) act"
    and grant :: "database \<Rightarrow> string \<Rightarrow> string \<Rightarrow> bool"
    and key_grant :: "database \<Rightarrow> string \<Rightarrow> string \<Rightarrow> string \<Rightarrow> bool"
  assumes act_as_sound: "vactas owner sub w = (Inr (), w1) \<Longrightarrow> grant (db w) owner sub"
    and token_sound: "vtoken kid owner sub ip w = (Inr (), w1) \<Longrightarrow> key_grant (db w) kid owner sub"
    and key_grant_grant: "key_grant d kid owner sub \<Longrightarrow> grant d owner sub"
    and act_as_db: "db (snd (vactas owner sub w)) = db w"
begin

lemma idp_addr:
  assumes "authenticateIdP E v parse tok actAs w = (Inr res, w2)" and "v_actas v \<in> {None, Some vactas}"
  shows "Addr res = AuthOwner res \<or> grant (db w) (AuthOwner res) (Addr res)"
  using authenticateIdP_Inr [OF assms(1)] assms(2) act_as_sound require_identity_db by fastforce

lemma api_addr:
  assumes "authenticateAPIToken E v parse tok ip actAs w = (Inr res, w2)" and "v_token v = vtoken"
  shows "\<exists>c. parse (e_now E (tick w)) tok = Some c \<and> key_grant (db w) (tc_key c) (AuthOwner res) (Addr res)
    \<and> AuthType res = AuthTypeAPI"
proof -
  from assms(1) obtain c w1 where "parse (e_now E (tick w)) tok = Some c"
    "store_check (v_token v (tc_key c) (tc_owner c) (tc_sub c) ip) (w\<lparr>tick := Suc (tick w)\<rparr>) = (Inr (), w1)"
    "res = \<lparr>Addr = tc_sub c, AuthOwner = tc_owner c, AuthType = AuthTypeAPI, Scopes = [], Expires = None\<rparr>"
    by (auto simp: authenticateAPIToken_def act_Inr ParseWithClaims_Inr split: if_splits)
  then show ?thesis using token_sound assms(2) by (fastforce simp: store_check_Inr)
qed

lemma idp_db:
  assumes "v_actas v \<in> {None, Some vactas}"
  shows "db (snd (authenticateIdP E v parse tok actAs w)) = db w"
proof -
  have "keeps (\<lambda>x. db x = db w) (vactas a b)" for a b
    by (simp add: keeps_def act_as_db)
  then have "keeps (\<lambda>x. db x = db w) (authenticateIdP E v parse tok actAs)"
    using assms by (intro keeps_authenticateIdP) auto
  then show ?thesis using keepsD by fastforce
qed

lemma request_addr:
  assumes "AuthenticateRequest E v tok ip actAs w = (Inr res, w2)"
    and "v_actas v \<in> {None, Some vactas}" and "v_api v \<noteq> None \<longrightarrow> v_token v = vtoken"
  shows "Addr res = AuthOwner res \<or> grant (db w) (AuthOwner res) (Addr res)"
proof -
  have api: "Addr res = AuthOwner res \<or> grant (db w1) (AuthOwner res) (Addr res)"
    if "(case v_api v of None \<Rightarrow> throw (401, ''invalid token'')
             | Some parse \<Rightarrow> try_mode (authenticateAPIToken E v parse tok ip actAs)
                 (throw (401, ''invalid token''))) w1 = (Inr res, w2)" for w1
    using that by (auto simp: throw_eq split: option.splits
        dest!: try_mode_Inr api_addr [OF _ mp [OF assms(3)]] intro: key_grant_grant)
  show ?thesis
  proof (cases "v_idp v")
    case None
    with assms(1) api [of w] show ?thesis by (simp add: AuthenticateRequest_def Let_def)
  next
    case (Some parse)
    with assms(1) have "try_mode (authenticateIdP E v parse tok actAs)
       (case v_api v of None \<Rightarrow> throw (401, ''invalid token'')
             | Some parse \<Rightarrow> try_mode (authenticateAPIToken E v parse tok ip actAs)
                 (throw (401, ''invalid token''))) w = (Inr res, w2)"
      by (simp add: AuthenticateRequest_def Let_def)
    from try_mode_Inr [OF this] show ?thesis
    proof
      assume "authenticateIdP E v parse tok actAs w = (Inr res, w2)"
      from idp_addr [OF this assms(2)] show ?thesis .
    next
      assume "\<exists>e w1. authenticateIdP E v parse tok actAs w = (Inl e, w1) \<and>
        (case v_api v of None \<Rightarrow> throw (401, ''invalid token'')
             | Some parse \<Rightarrow> try_mode (authenticateAPIToken E v parse tok ip actAs)
                 (throw (401, ''invalid token''))) w1 = (Inr res, w2)"
      then obtain e w1 where "authenticateIdP E v parse tok actAs w = (Inl e, w1)"
        and "Addr res = AuthOwner res \<or> grant (db w1) (AuthOwner res) (Addr res)"
        using api by blast
      then show ?thesis using idp_db [OF assms(2), of E parse tok actAs w] by simp
    qed
  qed
qed

end

definition has_grant :: "database \<Rightarrow> string \<Rightarrow> string \<Rightarrow> bool" where
  "has_grant d owner sub \<longleftrightarrow> list_ex (act_as_grant owner sub) (grants d)"

definition has_key_grant :: "database \<Rightarrow> string \<Rightarrow> string \<Rightarrow> string \<Rightarrow> bool" where
  "has_key_grant d kid owner sub \<longleftrightarrow> list_ex (token_grant kid owner sub) (grants d)"

interpretation store: key_checker "ValidateToken E" "ValidateActAs E" has_grant has_key_grant
  for E
proof
  fix kid owner sub ip w w1 d
  show "ValidateActAs E owner sub w = (Inr (), w1) \<Longrightarrow> has_grant (db w) owner sub"
    by (auto simp: ValidateActAs_def act_Inr has_grant_def)
  show "ValidateToken E kid owner sub ip w = (Inr (), w1) \<Longrightarrow> has_key_grant (db w) kid owner sub"
    by (auto simp: ValidateToken_def act_Inr has_key_grant_def list_ex_iff dest!: find_Some_mem)
  show "has_key_grant d kid owner sub \<Longrightarrow> has_grant d owner sub"
    by (auto simp: has_key_grant_def has_grant_def token_grant_def act_as_grant_def list_ex_iff)
  show "db (snd (ValidateActAs E owner sub w)) = db w"
    using keeps_ValidateActAs [of "\<lambda>d. d = db w" E owner sub] keepsD by fastforce
qed

lemma NewVerifier_keys:
  assumes "NewVerifier jwks issuer ac aud oaud api (Some (t, a)) = Some v"
  shows "v_actas v \<in> {None, Some a} \<and> (v_api v \<noteq> None \<longrightarrow> v_token v = t)"
  using assms by (auto simp: NewVerifier_def split: if_splits)

text \<open>C3: nobody acts as an address without a grant.  With the grant store as the verifier's key checker,
  every accepted request runs either as the token's own owner or as an address for which the owner has
  a live grant at that moment, whichever token kind and act-as header the request carries.\<close>

theorem act_as_requires_grant:
  assumes "NewVerifier jwks issuer ac aud oaud api (Some (ValidateToken E, ValidateActAs E)) = Some v"
    and "AuthenticateRequest E v tok ip actAs w = (Inr res, w2)"
  shows "Addr res = AuthOwner res \<or>
    (\<exists>g \<in> set (grants (db w)). live g \<and> sameAddr (g_owner g) (AuthOwner res) \<and> sameAddr (g_sub g) (Addr res))"
  using store.request_addr [OF assms(2), of] NewVerifier_keys [OF assms(1)]
  by (auto simp: has_grant_def act_as_grant_def owned_by_def sameAddr_iff_lower list_ex_iff)

text \<open>An example: a provider token of \<open>@al@ex.org\<close> for this API, and one for the delegated audience.\<close>

definition example_claims :: "string \<Rightarrow> claims option" where
  "example_claims tok = (if tok = ''own'' then Some \<lparr>cl_map = [(''addr'', JStr ''@al@ex.org'')],
       cl_aud = Some [''api''], cl_exp = None\<rparr>
     else if tok = ''del'' then Some \<lparr>cl_map = [(''addr'', JStr ''@al@ex.org''), (''scope'', JStr ''fmsg:read'')],
       cl_aud = Some [''oauth''], cl_exp = Some 7\<rparr>
     else None)"

definition accepting_body :: string where
  "accepting_body = ''{'' @ json_key ''acceptingNew'' @ ''true}''"

definition id_env :: env where
  "id_env = example_env\<lparr>e_fmsgid := (\<lambda>_. IdReply 200 (Some accepting_body))\<rparr>"

definition example_verifier :: verifier where
  "example_verifier = \<lparr>v_idp = Some (\<lambda>_. example_claims), v_audience = ''api'', v_oauth = ''oauth'',
     v_claim = ''addr'', v_api = Some (\<lambda>_ _. None), v_token = ValidateToken id_env,
     v_actas = Some (ValidateActAs id_env)\<rparr>"

lemma example_verifier_new: "NewVerifier (Some (\<lambda>_. example_claims)) ''iss'' ''addr'' ''api'' ''oauth'' (Some (\<lambda>_ _. None))
    (Some (ValidateToken id_env, ValidateActAs id_env)) = Some example_verifier"
  by (simp add: NewVerifier_def example_verifier_def)

lemma accepting_body_accepts: "decode_accepting accepting_body = Some (Some True)"
  by code_simp

lemma id_env_accepts:
  assumes "IsValidAddr a" and "cache w (fmsgIDAddressURL id_env a) = None"
  shows "\<exists>w1. require_identity id_env a w = (Inr (), w1) \<and> db w1 = db w \<and> aborted w1 = aborted w
    \<and> cache w1 = (cache w)(fmsgIDAddressURL id_env a \<mapsto>
        \<lparr>c_expires = fmsgIDCacheTTL, c_code = 200, c_accepting = True\<rparr>)"
  using assms by (simp add: require_identity_def validateIdentity_def CheckFmsgID_def Let_def fetch_once_def
      fetchFmsgID_def act_defs cache_load_def cache_store_def id_env_def example_env_def accepting_body_accepts)

theorem act_as_requires_grant_witness:
  "\<exists>res. fst (AuthenticateRequest id_env example_verifier ''own'' ''10.1.1.1'' ''@al_bot@ex.org'' grant_world) = Inr res
    \<and> AuthOwner res = ''@al@ex.org'' \<and> Addr res = ''@al_bot@ex.org''
    \<and> (Addr res = AuthOwner res \<or> (\<exists>g \<in> set (grants (db grant_world)). live g
        \<and> sameAddr (g_owner g) (AuthOwner res) \<and> sameAddr (g_sub g) (Addr res)))"
proof -
  let ?u = "fmsgIDAddressURL id_env"
  have u: "?u ''@al_bot@ex.org'' \<noteq> ?u ''@al@ex.org''"
    by (simp add: fmsgIDAddressURL_def id_env_def example_env_def)
  have v: "IsValidAddr ''@al@ex.org''" "IsValidAddr ''@al_bot@ex.org''"
    by (simp_all add: IsValidAddr_def ContainsChar_def)
  obtain w1 where w1: "require_identity id_env ''@al@ex.org'' (grant_world\<lparr>tick := Suc (tick grant_world)\<rparr>) = (Inr (), w1)" "db w1 = db grant_world"
    "aborted w1 = aborted grant_world" "cache w1 (?u ''@al_bot@ex.org'') = None"
    using id_env_accepts [OF v(1), of "grant_world\<lparr>tick := Suc (tick grant_world)\<rparr>"] u by (auto simp: grant_world_def example_world_def)
  have act: "ValidateActAs id_env ''@al@ex.org'' ''@al_bot@ex.org'' w1 = (Inr (), w1\<lparr>tick := Suc (tick w1)\<rparr>)"
    using w1 by (simp add: ValidateActAs_def act_defs Let_def id_env_def example_env_def grant_world_def example_world_def
        act_as_grant_def owned_by_def live_def example_grant_def)
  obtain w2 where w2: "require_identity id_env ''@al_bot@ex.org'' (w1\<lparr>tick := Suc (tick w1)\<rparr>) = (Inr (), w2)"
    using id_env_accepts [OF v(2), of "w1\<lparr>tick := Suc (tick w1)\<rparr>"] w1(4) by auto
  let ?res = "\<lparr>Addr = ''@al_bot@ex.org'', AuthOwner = ''@al@ex.org'', AuthType = AuthTypeIdP, Scopes = [], Expires = None\<rparr>"
  have ts: "TrimSpace ''@al_bot@ex.org'' = ''@al_bot@ex.org''" by (simp add: TrimSpace_def is_space_def)
  have c: "example_claims ''own'' = Some \<lparr>cl_map = [(''addr'', JStr ''@al@ex.org'')],
       cl_aud = Some [''api''], cl_exp = None\<rparr>" by (simp add: example_claims_def)
  have "AuthenticateRequest id_env example_verifier ''own'' ''10.1.1.1'' ''@al_bot@ex.org'' grant_world = (Inr ?res, w2)"
    using w1(1) act w2 v by (simp add: AuthenticateRequest_def Let_def example_verifier_def try_mode_def
        authenticateIdP_def idp_session_def ParseWithClaims_eq c classifyAudience_def claim_string_def claim_def idp_result_def ts
        store_check_def act_defs)
  with act_as_requires_grant [OF example_verifier_new this] show ?thesis by auto
qed

lemma api_session:
  "authenticateAPIToken E v parse tok ip actAs w = (Inr res, w2) \<Longrightarrow> AuthType res = AuthTypeAPI \<and> Expires res = None"
  by (auto simp: authenticateAPIToken_def act_Inr split: if_splits)

lemma request_session:
  assumes "AuthenticateRequest E v tok ip actAs w = (Inr res, w2)"
  shows "AuthType res = AuthTypeAPI \<and> Expires res = None
    \<or> (\<exists>parse. v_idp v = Some parse \<and> authenticateIdP E v parse tok actAs w = (Inr res, w2))"
proof -
  have api: "AuthType res = AuthTypeAPI \<and> Expires res = None"
    if "(case v_api v of None \<Rightarrow> throw (401, ''invalid token'')
         | Some parse \<Rightarrow> try_mode (authenticateAPIToken E v parse tok ip actAs) (throw (401, ''invalid token''))) w1 = (Inr res, w2)" for w1
    using that by (auto simp: throw_eq split: option.splits dest!: try_mode_Inr dest: api_session)
  from assms show ?thesis
    by (cases "v_idp v") (auto simp: AuthenticateRequest_def Let_def dest: api dest!: try_mode_Inr)
qed

text \<open>Only a delegated token brings its expiry along.\<close>

lemma request_expires:
  assumes "AuthenticateRequest E v tok ip actAs w = (Inr res, w2)"
  shows "(AuthType res \<noteq> AuthTypeOAuth \<longrightarrow> Expires res = None)
    \<and> (AuthType res = AuthTypeOAuth \<longrightarrow> (\<exists>parse c. v_idp v = Some parse \<and> parse (e_now E (tick w)) tok = Some c
        \<and> Expires res = cl_exp c))"
  using request_session [OF assms] by (auto dest!: authenticateIdP_Inr)

text \<open>C4: a delegated OAuth token is never an owner session.  When a provider token is accepted as an owner
  session although delegated tokens are enabled, its audience names this API and not the delegated
  audience, and it carries no actor claim; a delegated result always carries the scopes of its token.\<close>

theorem delegated_never_owner:
  assumes "AuthenticateRequest E v tok ip actAs w = (Inr res, w2)"
  shows "(AuthType res = AuthTypeIdP \<longrightarrow> (\<exists>parse c. v_idp v = Some parse \<and> parse (e_now E (tick w)) tok = Some c
      \<and> (v_audience v \<noteq> [] \<and> v_oauth v \<noteq> [] \<longrightarrow> (\<exists>aud. cl_aud c = Some aud \<and> v_audience v \<in> set aud
           \<and> v_oauth v \<notin> set aud \<and> claim c ''act'' = None))))
    \<and> (AuthType res = AuthTypeOAuth \<longrightarrow> (\<exists>parse c. v_idp v = Some parse \<and> parse (e_now E (tick w)) tok = Some c
      \<and> parseScopes c = Some (Scopes res) \<and> (\<exists>aud. cl_aud c = Some aud \<and> v_oauth v \<in> set aud)))"
proof -
  have "AuthType res = AuthTypeAPI \<or> (\<exists>parse. v_idp v = Some parse \<and> authenticateIdP E v parse tok actAs w = (Inr res, w2))"
    using request_session [OF assms] by blast
  then show ?thesis
  proof (elim disjE exE conjE)
    fix parse
    assume "v_idp v = Some parse" "authenticateIdP E v parse tok actAs w = (Inr res, w2)"
    from authenticateIdP_Inr [OF this(2)] this(1) show ?thesis
      using classify_owner classify_delegated by (fastforce split: if_splits)
  qed simp
qed

theorem delegated_never_owner_witness:
  "\<exists>res w2. AuthenticateRequest id_env example_verifier ''del'' ''10.1.1.1'' [] grant_world = (Inr res, w2)
    \<and> AuthType res = AuthTypeOAuth \<and> (\<exists>parse c. v_idp example_verifier = Some parse \<and> parse 0 ''del'' = Some c
      \<and> parseScopes c = Some (Scopes res) \<and> (\<exists>aud. cl_aud c = Some aud \<and> v_oauth example_verifier \<in> set aud))"
proof -
  have v: "IsValidAddr ''@al@ex.org''" by (simp add: IsValidAddr_def ContainsChar_def)
  obtain w1 where w1: "require_identity id_env ''@al@ex.org'' (grant_world\<lparr>tick := Suc (tick grant_world)\<rparr>) = (Inr (), w1)"
    using id_env_accepts [OF v, of "grant_world\<lparr>tick := Suc (tick grant_world)\<rparr>"] by (auto simp: grant_world_def example_world_def)
  have f: "Fields ''fmsg:read'' = [''fmsg:read'']" by (simp add: Fields_def is_space_def)
  let ?res = "\<lparr>Addr = ''@al@ex.org'', AuthOwner = ''@al@ex.org'', AuthType = AuthTypeOAuth,
    Scopes = [''fmsg:read''], Expires = Some 7\<rparr>"
  have c: "example_claims ''del'' = Some \<lparr>cl_map = [(''addr'', JStr ''@al@ex.org''), (''scope'', JStr ''fmsg:read'')],
       cl_aud = Some [''oauth''], cl_exp = Some 7\<rparr>" by (simp add: example_claims_def)
  have "AuthenticateRequest id_env example_verifier ''del'' ''10.1.1.1'' [] grant_world = (Inr ?res, w1)"
    using w1 f by (simp add: AuthenticateRequest_def Let_def example_verifier_def try_mode_def
        authenticateIdP_def idp_session_def ParseWithClaims_eq c classifyAudience_def claim_string_def claim_def idp_result_def
        parseScopes_def delegatedIdentities_def TrimSpace_def act_defs)
  moreover have "e_now id_env (tick grant_world) = 0" by (simp add: id_env_def example_env_def)
  ultimately show ?thesis using delegated_never_owner [of id_env example_verifier "''del''" "''10.1.1.1''" "[]" grant_world ?res w1]
    by auto
qed

end
