(* ===== verification/SubAccounts.thy ===== *)
theory SubAccounts
  imports Auth
begin

text \<open>
  Sub-account administration and the token exchange: \<open>src/internal/handlers/subaccounts.go\<close>,
  \<open>src/internal/handlers/token.go\<close> and the token issuer of \<open>src/internal/apiauth/token.go\<close>.

  A handler takes the request's identity (\<open>ctx\<close>), its path parameter and its decoded body (\<open>None\<close>
  where the JSON binding fails) and ends with a response or gives its successful one.  Times are
  printed as the instant they name.

  Shown here: only an owner session administers sub-accounts, the key a creation returns is the key
  the exchange accepts, a failed creation undoes a reinstatement, and a deletion that fmsgid refuses
  leaves the grant in place.
\<close>

record ctx =
  GetIdentity :: string
  GetOwnerIdentity :: string
  GetAuthType :: "auth_type option"

definition ctx_of :: "authResult \<Rightarrow> ctx" where
  "ctx_of res = \<lparr>GetIdentity = Addr res, GetOwnerIdentity = AuthOwner res, GetAuthType = Some (AuthType res)\<rparr>"

definition requireIdPOwner :: "ctx \<Rightarrow> (response, string) act" where
  "requireIdPOwner c = (if GetAuthType c \<noteq> Some AuthTypeIdP \<or> GetIdentity c \<noteq> GetOwnerIdentity c
     then throw (err 403 ''identity-provider owner authentication is required'')
     else ret (GetOwnerIdentity c))"

definition parseRequiredExpiry :: "env \<Rightarrow> string \<Rightarrow> (response, time option) act" where
  "parseRequiredExpiry E raw = (if raw = [] then ret None
     else (case e_rfc3339 E raw of None \<Rightarrow> ret None
      | Some t \<Rightarrow> bind (clock E) (\<lambda>now. ret (if now < t then Some t else None))))"

definition newPlaintextKey :: "env \<Rightarrow> (response, (api_key \<times> string) option) act" where
  "newPlaintextKey E w = (Inr (case GenerateAPIKey (e_random E (tick w)) (e_random E (Suc (tick w))) of
       None \<Rightarrow> None | Some k \<Rightarrow> Some (k, HashAPIKey (e_sha256 E) (Value k))),
     w\<lparr>tick := tick w + 2\<rparr>)"

definition checkAcceptingFmsgID :: "env \<Rightarrow> string \<Rightarrow> (response, unit) act" where
  "checkAcceptingFmsgID E addr = bind (CheckFmsgID E addr) (\<lambda>r. case r of
     None \<Rightarrow> throw (err 503 ''identity service unavailable'')
   | Some (code, accepting) \<Rightarrow>
       if code = 404 then throw (err 400 ''granted address not found in fmsgid'')
       else if code \<noteq> 200 then throw (err 503 ''identity service unavailable'')
       else if \<not> accepting then throw (err 403 ''granted address is not accepting new messages'')
       else ret ())"

definition respondSubAccountStoreError :: "store_error \<Rightarrow> response" where
  "respondSubAccountStoreError e = (case e of
     ErrAlreadyExists \<Rightarrow> err 409 ''sub-account already exists''
   | ErrLimitExceeded \<Rightarrow> err 403 ''sub-account limit exceeded''
   | ErrNotFound \<Rightarrow> err 404 ''grant not found''
   | _ \<Rightarrow> err 500 ''failed to update grant'')"

text \<open>Run a store method; its errors become responses through \<open>h\<close>.\<close>

definition on_store_error :: "(store_error, 'a) act \<Rightarrow> (store_error \<Rightarrow> response) \<Rightarrow> (response, 'a) act" where
  "on_store_error m h = bind (attempt m) (\<lambda>r. case r of Inl e \<Rightarrow> throw (h e) | Inr a \<Rightarrow> ret a)"

definition account_json :: "SubAccount \<Rightarrow> (string \<times> json) list" where
  "account_json a = [(''agent'', JStr (Agent a)), (''addr'', JStr (SubAddr a)),
     (''grant_type'', JStr (GrantType a)), (''display_name'', JStr (DisplayName a)),
     (''key_id'', JStr (KeyID a)), (''allowed_cidrs'', JList (map JStr (AllowedCIDRs a))),
     (''key_expires_at'', JTime (KeyExpiresAt a))]"

subsection \<open>Handlers\<close>

definition subaccounts_List :: "env \<Rightarrow> ctx \<Rightarrow> (response, response) act" where
  "subaccounts_List E c = bind (requireIdPOwner c) (\<lambda>owner.
     bind (on_store_error (Store_List E owner) (\<lambda>_. err 500 ''failed to list sub-accounts'')) (\<lambda>(mx, accounts).
     ret (200, JObj [(''max_sub_accounts'', JInt mx),
       (''sub_accounts'', JList (map (\<lambda>a. JObj (account_json a)) accounts))])))"

definition require_agent :: "env \<Rightarrow> string \<Rightarrow> (response, unit) act" where
  "require_agent E agent = unless (ValidateAgent (e_letter E) agent) (err 400 ''invalid agent'')"

definition subaccounts_Get :: "env \<Rightarrow> ctx \<Rightarrow> string \<Rightarrow> (response, response) act" where
  "subaccounts_Get E c agent = bind (requireIdPOwner c) (\<lambda>owner.
     bind (require_agent E agent) (\<lambda>_.
     bind (on_store_error (Store_Get E owner agent) respondSubAccountStoreError) (\<lambda>account.
     ret (200, JObj (account_json account)))))"

record subAccountInput =
  in_Agent :: string
  in_AllowedCIDRs :: "string list"
  in_KeyExpiresAt :: string

text \<open>The deferred undo of a reinstatement: when the rest fails, the address is disabled again.\<close>

definition undo_unless_granted :: "env \<Rightarrow> bool \<Rightarrow> string \<Rightarrow> (response, 'a) act \<Rightarrow> (response, 'a) act" where
  "undo_unless_granted E reinstated subAddr m = bind (attempt m) (\<lambda>r. case r of
     Inr a \<Rightarrow> ret a
   | Inl e \<Rightarrow> if reinstated then bind (DisableFmsgID E subAddr) (\<lambda>_. throw e) else throw e)"

definition create_grant :: "env \<Rightarrow> string \<Rightarrow> subAccountInput \<Rightarrow> string \<Rightarrow> time \<Rightarrow> (response, api_key) act" where
  "create_grant E owner i subAddr expires =
     bind (checkAcceptingFmsgID E subAddr) (\<lambda>_.
     bind (newPlaintextKey E) (\<lambda>k. case k of None \<Rightarrow> throw (err 500 ''failed to generate api key'')
      | Some (key, h) \<Rightarrow>
        bind (on_store_error (Store_Create E owner (in_Agent i) subAddr (ID key) h (in_AllowedCIDRs i) expires)
          respondSubAccountStoreError) (\<lambda>_. ret key)))"

definition register_and_grant :: "env \<Rightarrow> string \<Rightarrow> subAccountInput \<Rightarrow> string \<Rightarrow> time \<Rightarrow> (response, response) act" where
  "register_and_grant E owner i subAddr expires = bind (RegisterLinkedFmsgID E subAddr owner) (\<lambda>r. case r of
     Inl LinkedAddressTaken \<Rightarrow> throw (err 409 ''that name is already taken; choose another'')
   | Inl _ \<Rightarrow> throw (err 503 ''identity service unavailable'')
   | Inr reinstated \<Rightarrow>
       bind (undo_unless_granted E reinstated subAddr (create_grant E owner i subAddr expires)) (\<lambda>key.
       ret (201, JObj [(''agent'', JStr (in_Agent i)), (''addr'', JStr subAddr),
         (''grant_type'', JStr (grant_type_text GrantTypeDerivedSubAccount)), (''key_id'', JStr (ID key)),
         (''allowed_cidrs'', JList (map JStr (in_AllowedCIDRs i))), (''key_expires_at'', JTime expires),
         (''api_key'', JStr (Value key)), (''reinstated'', JBool reinstated)])))"

definition subaccounts_Create :: "env \<Rightarrow> ctx \<Rightarrow> subAccountInput option \<Rightarrow> (response, response) act" where
  "subaccounts_Create E c input = bind (requireIdPOwner c) (\<lambda>owner.
     case input of None \<Rightarrow> throw (err 400 ''invalid request body'') | Some i \<Rightarrow>
     bind (parseRequiredExpiry E (in_KeyExpiresAt i)) (\<lambda>ex.
     case ex of None \<Rightarrow> throw (err 400 ''key_expires_at must be a future RFC3339 timestamp'') | Some expires \<Rightarrow>
     if \<not> ValidateCIDRs (e_prefix E) (in_AllowedCIDRs i)
       then throw (err 400 ''allowed_cidrs must contain valid CIDR ranges'')
     else (case DeriveSubAccountAddr (e_letter E) owner (in_Agent i) of
        None \<Rightarrow> throw (err 400 ''agent must be 1-64 letters/digits/dots/hyphens and contain no underscores'')
      | Some subAddr \<Rightarrow>
        if \<not> IsValidAddr subAddr
        then throw (err 400 ''agent must be 1-64 letters/digits/dots/hyphens and contain no underscores'')
        else register_and_grant E owner i subAddr expires)))"

definition subaccounts_RotateKey :: "env \<Rightarrow> ctx \<Rightarrow> string \<Rightarrow> string option \<Rightarrow> (response, response) act" where
  "subaccounts_RotateKey E c agent input = bind (requireIdPOwner c) (\<lambda>owner.
     bind (require_agent E agent) (\<lambda>_.
     bind (on_store_error (Store_Get E owner agent) respondSubAccountStoreError) (\<lambda>account.
     bind (checkAcceptingFmsgID E (SubAddr account)) (\<lambda>_.
     case input of None \<Rightarrow> throw (err 400 ''invalid request body'') | Some raw \<Rightarrow>
     bind (parseRequiredExpiry E raw) (\<lambda>ex.
     case ex of None \<Rightarrow> throw (err 400 ''key_expires_at must be a future RFC3339 timestamp'') | Some expires \<Rightarrow>
     bind (newPlaintextKey E) (\<lambda>k. case k of None \<Rightarrow> throw (err 500 ''failed to generate api key'')
      | Some (key, h) \<Rightarrow>
        bind (on_store_error (RotateKey E owner agent (ID key) h expires) respondSubAccountStoreError) (\<lambda>subAddr.
        ret (200, JObj [(''agent'', JStr agent), (''addr'', JStr subAddr),
          (''grant_type'', JStr (GrantType account)), (''key_id'', JStr (ID key)),
          (''key_expires_at'', JTime expires), (''api_key'', JStr (Value key))]))))))))"

definition subaccounts_UpdateCIDRs :: "env \<Rightarrow> ctx \<Rightarrow> string \<Rightarrow> string list option \<Rightarrow> (response, response) act" where
  "subaccounts_UpdateCIDRs E c agent input = bind (requireIdPOwner c) (\<lambda>owner.
     bind (require_agent E agent) (\<lambda>_.
     case input of None \<Rightarrow> throw (err 400 ''invalid request body'') | Some cidrs \<Rightarrow>
     if \<not> ValidateCIDRs (e_prefix E) cidrs then throw (err 400 ''allowed_cidrs must contain valid CIDR ranges'')
     else bind (on_store_error (UpdateCIDRs E owner agent cidrs) respondSubAccountStoreError) (\<lambda>account.
     ret (200, JObj (account_json account)))))"

definition subaccounts_Delete :: "env \<Rightarrow> ctx \<Rightarrow> string \<Rightarrow> (response, response) act" where
  "subaccounts_Delete E c agent = bind (requireIdPOwner c) (\<lambda>owner.
     bind (require_agent E agent) (\<lambda>_.
     bind (on_store_error (Store_Get E owner agent) respondSubAccountStoreError) (\<lambda>account.
     bind (if GrantType account = grant_type_text GrantTypeDerivedSubAccount
           then bind (DisableFmsgID E (SubAddr account)) (\<lambda>r. case r of
                 Inl _ \<Rightarrow> throw (err 503 ''identity service unavailable'') | Inr _ \<Rightarrow> ret ())
           else ret ()) (\<lambda>_.
     bind (on_store_error (Store_Delete E owner agent) respondSubAccountStoreError) (\<lambda>_.
     ret (204, JNull))))))"

subsection \<open>Tokens\<close>

text \<open>The issuer's settings; \<open>sign\<close> is the signing of a set of claims by the JWT library, whose
  numeric dates are whole seconds (\<open>NewNumericDate\<close> truncates).\<close>

record TokenIssuer =
  ti_issuer :: string
  ti_audience :: string
  ti_ttl :: time

record minted =
  mc_owner :: string
  mc_key :: string
  mc_issuer :: string
  mc_sub :: string
  mc_aud :: string
  mc_iat :: time
  mc_exp :: time

definition NewTokenIssuer :: "string \<Rightarrow> string \<Rightarrow> time \<Rightarrow> TokenIssuer" where
  "NewTokenIssuer issuer audience ttl = \<lparr>ti_issuer = (if issuer = [] then ''fmsg-webapi'' else issuer),
     ti_audience = (if audience = [] then ''fmsg-webapi'' else audience),
     ti_ttl = (if ttl = 0 then 12 * 3600 * 1000000 else ttl)\<rparr>"

definition NewNumericDate :: "time \<Rightarrow> time" where
  "NewNumericDate t = t div 1000000 * 1000000"

definition Mint :: "TokenIssuer \<Rightarrow> (minted \<Rightarrow> string option) \<Rightarrow> string \<Rightarrow> string \<Rightarrow> string \<Rightarrow> time \<Rightarrow>
    (string \<times> time) option" where
  "Mint i sign ownerAddr subAddr keyID now = (let expires = now + ti_ttl i in
     case sign \<lparr>mc_owner = ownerAddr, mc_key = keyID, mc_issuer = ti_issuer i, mc_sub = subAddr,
        mc_aud = ti_audience i, mc_iat = NewNumericDate now, mc_exp = NewNumericDate expires\<rparr> of
       None \<Rightarrow> None | Some tok \<Rightarrow> Some (tok, expires))"

definition bearerTokenStrict :: "string \<Rightarrow> string option" where
  "bearerTokenStrict header = (if length header \<le> 7 \<or> \<not> EqualFold (take 7 header) ''Bearer '' then None
     else (let token = TrimSpace (drop 7 header) in if token = [] then None else Some token))"

definition respondTokenError :: "store_error \<Rightarrow> response" where
  "respondTokenError e = (case e of
     ErrCIDRDenied \<Rightarrow> err 403 ''source IP not allowed''
   | ErrKeyExpired \<Rightarrow> err 401 ''api key expired''
   | ErrInvalidRemoteIP \<Rightarrow> err 401 ''invalid source IP''
   | ErrInvalidAPIKey \<Rightarrow> err 401 ''invalid api key''
   | _ \<Rightarrow> err 500 ''failed to validate api key'')"

definition Exchange :: "env \<Rightarrow> TokenIssuer \<Rightarrow> (minted \<Rightarrow> string option) \<Rightarrow> string \<Rightarrow> string \<Rightarrow>
    (response, response) act" where
  "Exchange E issuer sign header clientIP = (case bearerTokenStrict header of
     None \<Rightarrow> throw (err 401 ''missing or malformed Authorization header'')
   | Some apiKey \<Rightarrow>
     bind (on_store_error (ValidateAPIKey E apiKey clientIP) respondTokenError) (\<lambda>ident.
     bind (checkAcceptingFmsgID E (ident_SubAddr ident)) (\<lambda>_.
     bind (clock E) (\<lambda>now.
     case Mint issuer sign (ident_OwnerAddr ident) (ident_SubAddr ident) (ident_KeyID ident) now of
       None \<Rightarrow> throw (err 500 ''failed to mint token'')
     | Some (token, expires) \<Rightarrow> ret (200, JObj [(''access_token'', JStr token), (''token_type'', JStr ''Bearer''),
         (''expires_in'', JInt (ti_ttl issuer div 1000000)), (''expires_at'', JTime expires)])))))"

subsection \<open>Lemmas\<close>

lemma on_store_error_Inr: "on_store_error m h w = (Inr a, w2) \<longleftrightarrow> m w = (Inr a, w2)"
  by (cases "m w") (auto simp: on_store_error_def bind_def attempt_def ret_def throw_def split: sum.splits)

lemma keeps_on_store_error [keeps_intros]: "keeps P m \<Longrightarrow> keeps P (on_store_error m h)"
  unfolding on_store_error_def by (intro keeps_intros)

lemma keeps_checkAccepting [keeps_intros]: "keeps (\<lambda>w. P (db w)) (checkAcceptingFmsgID E a)"
  unfolding checkAcceptingFmsgID_def by (intro keeps_intros)

lemma keeps_newPlaintextKey [keeps_intros]: "keeps (\<lambda>w. P (db w)) (newPlaintextKey E)"
  by (simp add: keeps_def newPlaintextKey_def)

lemma keeps_parseRequiredExpiry [keeps_intros]: "keeps (\<lambda>w. P (db w)) (parseRequiredExpiry E raw)"
  unfolding parseRequiredExpiry_def by (intro keeps_intros)

text \<open>C36: only an owner session administers sub-accounts.  A request authenticated with an API token, a
  delegated token, or a provider token acting as a sub-account is refused with 403 by every handler,
  before anything is read, asked or changed.\<close>

theorem admin_requires_owner:
  assumes "GetAuthType c \<noteq> Some AuthTypeIdP \<or> GetIdentity c \<noteq> GetOwnerIdentity c"
  shows "\<forall>m \<in> {subaccounts_List E c, subaccounts_Get E c agent, subaccounts_Create E c i,
      subaccounts_RotateKey E c agent j, subaccounts_UpdateCIDRs E c agent k, subaccounts_Delete E c agent}.
    m w = (Inl (err 403 ''identity-provider owner authentication is required''), w)"
  using assms by (auto simp: requireIdPOwner_def subaccounts_List_def subaccounts_Get_def subaccounts_Create_def
      subaccounts_RotateKey_def subaccounts_UpdateCIDRs_def subaccounts_Delete_def bind_def throw_def)

theorem admin_requires_owner_witness:
  "subaccounts_Delete example_env \<lparr>GetIdentity = ''@al_bot@ex.org'', GetOwnerIdentity = ''@al@ex.org'',
      GetAuthType = Some AuthTypeIdP\<rparr> ''bot'' grant_world
    = (Inl (err 403 ''identity-provider owner authentication is required''), grant_world)"
  using admin_requires_owner [of "\<lparr>GetIdentity = ''@al_bot@ex.org'', GetOwnerIdentity = ''@al@ex.org'',
      GetAuthType = Some AuthTypeIdP\<rparr>"] by simp

subsection \<open>Creation\<close>

lemma pool_tx_Inr:
  assumes "pool_tx E failed m w = (Inr a, w2)"
  shows "\<exists>w1 w3. db w1 = db w \<and> m w1 = (Inr a, w3) \<and> db w2 = db w3"
proof -
  from assms obtain w3 where "m (w\<lparr>tick := Suc (tick w)\<rparr>) = (Inr a, w3)" "db w2 = db w3"
    by (auto simp: pool_tx_def or_fail_Inr sql_query_Inr split: prod.splits sum.splits)
  then show ?thesis by (intro exI [of _ "w\<lparr>tick := Suc (tick w)\<rparr>"] exI [of _ w3]) simp
qed

lemma createGrant_Inr:
  assumes "createGrant E owner agent sub gt dn kid h cidrs ex w = (Inr u, w2)"
  shows "\<exists>cs. cast_cidrs E cidrs = Some cs \<and> grants_ok (db w2)
    \<and> int (grant_count (db w) owner) < max_of (db w) owner
    \<and> grants (db w2) = grants (db w) @ [\<lparr>g_owner = owner, g_agent = agent, g_sub = sub,
        g_type = grant_type_text gt, g_display = dn, g_key_id = kid, g_key_hash = h, g_cidrs = cs,
        g_expires = ex, g_max = max_of (db w) owner\<rparr>]"
proof -
  from pool_tx_Inr [OF assms [unfolded createGrant_def]] obtain w1 w3 where d: "db w1 = db w" "db w2 = db w3"
    and run: "bind (maxSubAccountsTx E owner) (\<lambda>mx.
        bind (or_fail (sql_query E (\<lambda>d. grant_count d owner)) ErrOther) (\<lambda>n.
        if mx \<le> int n then throw ErrLimitExceeded
        else bind (stmt E (insert_grant E \<lparr>g_owner = owner, g_agent = agent, g_sub = sub,
               g_type = grant_type_text gt, g_display = dn, g_key_id = kid,
               g_key_hash = h, g_cidrs = cidrs, g_expires = ex, g_max = mx\<rparr>))
          (\<lambda>r. case r of Inl e \<Rightarrow> throw (store_fail e) | Inr _ \<Rightarrow> ret ()))) w1 = (Inr u, w3)"
    by blast
  from run have lim: "\<not> max_of (db w1) owner \<le> int (grant_count (db w1) owner)"
    and ins: "\<exists>v. insert_grant E \<lparr>g_owner = owner, g_agent = agent, g_sub = sub,
               g_type = grant_type_text gt, g_display = dn, g_key_id = kid,
               g_key_hash = h, g_cidrs = cidrs, g_expires = ex, g_max = max_of (db w1) owner\<rparr> (db w1) = Inr (v, db w3)"
    by (auto simp: act_Inr maxSubAccountsTx_def stmt_Inr)
  from ins obtain cs where "cast_cidrs E cidrs = Some cs" "grants_ok (db w3)"
    "grants (db w3) = grants (db w1) @ [\<lparr>g_owner = owner, g_agent = agent, g_sub = sub,
        g_type = grant_type_text gt, g_display = dn, g_key_id = kid, g_key_hash = h, g_cidrs = cs,
        g_expires = ex, g_max = max_of (db w1) owner\<rparr>]"
    by (auto simp: insert_grant_def set_grants_Inr grants_ok_def split: option.splits)
  with d lim show ?thesis by (simp add: not_le)
qed

lemma newPlaintextKey_Inr:
  assumes "newPlaintextKey E w = (Inr (Some (key, h)), w2)" and "\<And>t n b. e_random E t n = Some b \<Longrightarrow> length b = n"
  shows "h = HashAPIKey (e_sha256 E) (Value key) \<and> ParseAPIKey (Value key) = Some key \<and> db w2 = db w"
proof -
  from assms(1) have g: "GenerateAPIKey (e_random E (tick w)) (e_random E (Suc (tick w))) = Some key"
    and r: "h = HashAPIKey (e_sha256 E) (Value key)" "db w2 = db w"
    by (auto simp: newPlaintextKey_def split: option.splits)
  from g have "ParseAPIKey (Value key) = Some key"
    by (rule generated_key_parses) (auto dest: assms(2))
  with r show ?thesis by simp
qed

lemma undo_Inr: "undo_unless_granted E b a m w = (Inr x, w2) \<longleftrightarrow> m w = (Inr x, w2)"
  by (cases "m w") (auto simp: undo_unless_granted_def bind_def attempt_def ret_def throw_def
      split: sum.splits prod.splits)

lemma subaccounts_Create_Inr:
  assumes "subaccounts_Create E c (Some i) w = (Inr (st, js), w2)"
  shows "\<exists>sub ex key w1 reinstated. DeriveSubAccountAddr (e_letter E) (GetOwnerIdentity c) (in_Agent i) = Some sub
    \<and> create_grant E (GetOwnerIdentity c) i sub ex w1 = (Inr key, w2) \<and> GetAuthType c = Some AuthTypeIdP
    \<and> db w1 = db w \<and> st = 201 \<and> e_rfc3339 E (in_KeyExpiresAt i) = Some ex
    \<and> js = JObj [(''agent'', JStr (in_Agent i)), (''addr'', JStr sub),
               (''grant_type'', JStr (grant_type_text GrantTypeDerivedSubAccount)), (''key_id'', JStr (ID key)),
               (''allowed_cidrs'', JList (map JStr (in_AllowedCIDRs i))), (''key_expires_at'', JTime ex),
               (''api_key'', JStr (Value key)), (''reinstated'', JBool reinstated)]"
proof -
  let ?o = "GetOwnerIdentity c"
  from assms have o: "requireIdPOwner c w = (Inr ?o, w)" and ty: "GetAuthType c = Some AuthTypeIdP"
    by (auto simp: subaccounts_Create_def bind_Inr requireIdPOwner_def ret_def throw_def split: if_splits)
  with assms obtain ex w1 sub where pe: "parseRequiredExpiry E (in_KeyExpiresAt i) w = (Inr (Some ex), w1)"
    and der: "DeriveSubAccountAddr (e_letter E) ?o (in_Agent i) = Some sub"
    and rest: "register_and_grant E ?o i sub ex w1 = (Inr (st, js), w2)"
    by (fastforce simp: subaccounts_Create_def bind_Inr case_option_throw if_throw)
  have d1: "db w1 = db w"
    by (rule same_db [OF keeps_parseRequiredExpiry pe])
  have ex: "e_rfc3339 E (in_KeyExpiresAt i) = Some ex"
    using pe by (auto simp: parseRequiredExpiry_def bind_Inr ret_eq split: if_splits option.splits)
  obtain r0 w3 where reg0: "RegisterLinkedFmsgID E sub ?o w1 = (r0, w3)" by fastforce
  with rest obtain r where r0: "r0 = Inr r"
    by (cases r0) (auto simp: register_and_grant_def bind_def)
  obtain reinstated where "r = Inr reinstated"
  proof (cases r)
    case (Inl e)
    with rest reg0 r0 show ?thesis by (cases e) (auto simp: register_and_grant_def bind_def throw_def)
  qed blast
  with reg0 r0 have reg: "RegisterLinkedFmsgID E sub ?o w1 = (Inr (Inr reinstated), w3)" by simp
  with rest reg obtain key where "create_grant E ?o i sub ex w3 = (Inr key, w2)" "st = 201"
    "js = JObj [(''agent'', JStr (in_Agent i)), (''addr'', JStr sub),
               (''grant_type'', JStr (grant_type_text GrantTypeDerivedSubAccount)), (''key_id'', JStr (ID key)),
               (''allowed_cidrs'', JList (map JStr (in_AllowedCIDRs i))), (''key_expires_at'', JTime ex),
               (''api_key'', JStr (Value key)), (''reinstated'', JBool reinstated)]"
    by (auto simp: register_and_grant_def bind_Inr undo_Inr ret_eq)
  moreover have "db w3 = db w1"
    by (rule same_db [OF keeps_RegisterLinkedFmsgID reg])
  ultimately show ?thesis using der ty d1 ex by metis
qed

text \<open>A grant just stored for a fresh key lets that key in until it expires.\<close>

lemma stored_key_works:
  assumes k: "newPlaintextKey E w4 = (Inr (Some (key, h)), w5)"
    and st: "Store_Create E owner agent sub (ID key) h cidrs ex w6 = (Inr (), w2)"
    and len: "\<And>t n b. e_random E t n = Some b \<Longrightarrow> length b = n" and ok: "\<forall>n. \<not> e_fail E n" and agent: "agent \<noteq> []"
  shows "\<exists>cs. cast_cidrs E cidrs = Some cs
    \<and> (\<forall>w3 ip. db w3 = db w2 \<and> \<not> aborted w3 \<and> e_now E (Suc (tick w3)) \<le> ex \<and> remoteAllowed E ip cs = None
        \<longrightarrow> (\<exists>w4. ValidateAPIKey E (Value key) ip w3 = (Inr \<lparr>ident_OwnerAddr = owner,
               ident_SubAddr = sub, ident_KeyID = ID key\<rparr>, w4)))"
proof -
  note K = newPlaintextKey_Inr [OF k len]
  from createGrant_Inr [OF st [unfolded Store_Create_def]] obtain cs where
    cs: "cast_cidrs E cidrs = Some cs" and gok: "grants_ok (db w2)"
    and g: "\<lparr>g_owner = owner, g_agent = agent, g_sub = sub,
        g_type = grant_type_text GrantTypeDerivedSubAccount, g_display = [], g_key_id = ID key, g_key_hash = h,
        g_cidrs = cs, g_expires = ex, g_max = max_of (db w6) owner\<rparr> \<in> set (grants (db w2))"
    (is "?g \<in> _") by auto
  have live: "live ?g" using agent by (simp add: live_def)
  have "\<exists>w6. ValidateAPIKey E (Value key) ip w3 = (Inr \<lparr>ident_OwnerAddr = owner,
               ident_SubAddr = sub, ident_KeyID = ID key\<rparr>, w6)"
    if "db w3 = db w2" "\<not> aborted w3" "e_now E (Suc (tick w3)) \<le> ex" "remoteAllowed E ip cs = None" for w3 ip
    using g live K that
    by (intro ValidateAPIKey_complete [where g = ?g and w = w3]) (simp_all add: ok gok)
  with cs show ?thesis by blast
qed

text \<open>C37: the API key a successful creation returns works, for exactly the new address.  As long as the
  tables stay as they are, the exchange accepts it until the time the request asked for, from every allowed address, as
  the derived address of the owner who created it.\<close>

theorem created_key_works:
  assumes "subaccounts_Create E c (Some i) w = (Inr (st, js), w2)"
    and "\<And>t n b. e_random E t n = Some b \<Longrightarrow> length b = n" and "\<forall>n. \<not> e_fail E n"
  shows "\<exists>sub ex (key :: api_key) cs. DeriveSubAccountAddr (e_letter E) (GetOwnerIdentity c) (in_Agent i) = Some sub
    \<and> (''api_key'', JStr (Value key)) \<in> (case js of JObj fs \<Rightarrow> set fs | _ \<Rightarrow> {})
    \<and> e_rfc3339 E (in_KeyExpiresAt i) = Some ex \<and> cast_cidrs E (in_AllowedCIDRs i) = Some cs
    \<and> (\<forall>w3 ip. db w3 = db w2 \<and> \<not> aborted w3 \<and> e_now E (Suc (tick w3)) \<le> ex \<and> remoteAllowed E ip cs = None
        \<longrightarrow> (\<exists>w4. ValidateAPIKey E (Value key) ip w3 = (Inr \<lparr>ident_OwnerAddr = GetOwnerIdentity c,
               ident_SubAddr = sub, ident_KeyID = ID key\<rparr>, w4)))"
proof -
  from subaccounts_Create_Inr [OF assms(1)] obtain sub ex key w1 reinstated where
    der: "DeriveSubAccountAddr (e_letter E) (GetOwnerIdentity c) (in_Agent i) = Some sub"
    and cg: "create_grant E (GetOwnerIdentity c) i sub ex w1 = (Inr key, w2)"
    and ex: "e_rfc3339 E (in_KeyExpiresAt i) = Some ex"
    and js: "js = JObj [(''agent'', JStr (in_Agent i)), (''addr'', JStr sub),
               (''grant_type'', JStr (grant_type_text GrantTypeDerivedSubAccount)), (''key_id'', JStr (ID key)),
               (''allowed_cidrs'', JList (map JStr (in_AllowedCIDRs i))), (''key_expires_at'', JTime ex),
               (''api_key'', JStr (Value key)), (''reinstated'', JBool reinstated)]" by blast
  from cg obtain h w4 w5 where k: "newPlaintextKey E w4 = (Inr (Some (key, h)), w5)"
    and st: "Store_Create E (GetOwnerIdentity c) (in_Agent i) sub (ID key) h (in_AllowedCIDRs i) ex w5 = (Inr (), w2)"
    by (fastforce simp: create_grant_def act_Inr on_store_error_Inr)
  have "in_Agent i \<noteq> []" using der by (auto simp: DeriveSubAccountAddr_Some dest: ValidateAgent_chars)
  from stored_key_works [OF k st _ assms(3) this] assms(2) obtain cs where cs: "cast_cidrs E (in_AllowedCIDRs i) = Some cs"
    "\<forall>w3 ip. db w3 = db w2 \<and> \<not> aborted w3 \<and> e_now E (Suc (tick w3)) \<le> ex \<and> remoteAllowed E ip cs = None
        \<longrightarrow> (\<exists>w4. ValidateAPIKey E (Value key) ip w3 = (Inr \<lparr>ident_OwnerAddr = GetOwnerIdentity c,
               ident_SubAddr = sub, ident_KeyID = ID key\<rparr>, w4))" by blast
  with der js cs ex show ?thesis
    by - (rule exI [of _ sub], rule exI [of _ ex], rule exI [of _ key], rule exI [of _ cs], simp)
qed

definition grant_env :: env where
  "grant_env = id_env\<lparr>e_fmsgid := (\<lambda>l. case l of IdRegister _ _ _ _ # _ \<Rightarrow> IdReply 201 (Some (''{'' @ json_key ''created'' @ ''true}''))
     | _ \<Rightarrow> e_fmsgid id_env l), e_rfc3339 := (\<lambda>_. Some 9)\<rparr>"

definition owner_ctx :: ctx where
  "owner_ctx = \<lparr>GetIdentity = ''@al@ex.org'', GetOwnerIdentity = ''@al@ex.org'', GetAuthType = Some AuthTypeIdP\<rparr>"

definition bot_input :: subAccountInput where
  "bot_input = \<lparr>in_Agent = ''bot'', in_AllowedCIDRs = [''10.0.0.0/8''], in_KeyExpiresAt = ''9''\<rparr>"

theorem created_key_works_witness:
  "\<exists>st js w2. subaccounts_Create grant_env owner_ctx (Some bot_input) example_world = (Inr (st, js), w2)
    \<and> (\<exists>sub (key :: api_key) cs. DeriveSubAccountAddr (e_letter grant_env) (GetOwnerIdentity owner_ctx)
          (in_Agent bot_input) = Some sub
        \<and> (''api_key'', JStr (Value key)) \<in> (case js of JObj fs \<Rightarrow> set fs | _ \<Rightarrow> {})
        \<and> cast_cidrs grant_env (in_AllowedCIDRs bot_input) = Some cs)"
proof -
  let ?r = "subaccounts_Create grant_env owner_ctx (Some bot_input) example_world"
  have "(case fst ?r of Inr _ \<Rightarrow> True | Inl _ \<Rightarrow> False)" by code_simp
  then obtain st js w2 where run: "?r = (Inr (st, js), w2)"
    by (cases ?r; cases "fst ?r") auto
  have e: "\<And>t n b. e_random grant_env t n = Some b \<Longrightarrow> length b = n" "\<forall>n. \<not> e_fail grant_env n"
    by (auto simp: grant_env_def id_env_def example_env_def)
  have "\<exists>sub (key :: api_key) cs. DeriveSubAccountAddr (e_letter grant_env) (GetOwnerIdentity owner_ctx)
          (in_Agent bot_input) = Some sub
        \<and> (''api_key'', JStr (Value key)) \<in> (case js of JObj fs \<Rightarrow> set fs | _ \<Rightarrow> {})
        \<and> cast_cidrs grant_env (in_AllowedCIDRs bot_input) = Some cs"
    using created_key_works [OF run] e by blast
  with run show ?thesis by blast
qed

subsection \<open>Undoing and ordering\<close>

lemma DisableFmsgID_asks: "idlog (snd (DisableFmsgID E a w)) = IdRegister a False [] False # idlog w"
  by (auto simp: DisableFmsgID_def postFmsgIDAddress_def act_defs cache_delete_def
      split: id_reply.splits option.splits prod.splits sum.splits)

text \<open>A failed creation leaves no reinstated address behind.  Once fmsgid has reinstated the derived
  address, every failure of the rest of the creation, whatever its reason, ends with a request to
  fmsgid that stops the address accepting messages again.\<close>

theorem reinstatement_undone:
  assumes "undo_unless_granted E True sub (create_grant E owner i sub ex) w = (Inl e, w2)"
  shows "hd (idlog w2) = IdRegister sub False [] False"
proof -
  obtain r w1 where m: "create_grant E owner i sub ex w = (r, w1)" by fastforce
  with assms obtain e1 where "r = Inl e1"
    by (cases r) (auto simp: undo_unless_granted_def bind_def attempt_def ret_def)
  with assms m have "w2 = snd (DisableFmsgID E sub w1 :: (response + _) \<times> _)"
    by (auto simp: undo_unless_granted_def bind_def attempt_def throw_def split: prod.splits sum.splits)
  then show ?thesis by (simp add: DisableFmsgID_asks)
qed

theorem reinstatement_undone_witness:
  "hd (idlog (snd (undo_unless_granted example_env True ''@al_bot@ex.org''
      (create_grant example_env ''@al@ex.org'' \<lparr>in_Agent = ''bot'', in_AllowedCIDRs = [''10.0.0.0/8''],
        in_KeyExpiresAt = ''9''\<rparr> ''@al_bot@ex.org'' 9) example_world)))
    = IdRegister ''@al_bot@ex.org'' False [] False"
proof -
  let ?m = "create_grant example_env ''@al@ex.org'' \<lparr>in_Agent = ''bot'', in_AllowedCIDRs = [''10.0.0.0/8''],
        in_KeyExpiresAt = ''9''\<rparr> ''@al_bot@ex.org'' 9"
  have "fst (?m example_world) = Inl (err 400 ''granted address not found in fmsgid'')"
    by (simp add: create_grant_def checkAcceptingFmsgID_def CheckFmsgID_def Let_def fetch_once_def
        fetchFmsgID_def act_defs cache_load_def example_env_def example_world_def)
  then obtain w1 where m: "?m example_world = (Inl (err 400 ''granted address not found in fmsgid''), w1)"
    by (metis prod.collapse)
  obtain r :: "response + (id_error + unit)" and w2
    where d: "DisableFmsgID example_env ''@al_bot@ex.org'' w1 = (r, w2)" by fastforce
  then obtain x where "r = Inr x"
    by (auto simp: DisableFmsgID_def postFmsgIDAddress_def act_defs cache_delete_def example_env_def)
  with m d have "undo_unless_granted example_env True ''@al_bot@ex.org'' ?m example_world
      = (Inl (err 400 ''granted address not found in fmsgid''), w2)"
    by (simp add: undo_unless_granted_def act_defs)
  from reinstatement_undone [OF this] show ?thesis
    using \<open>undo_unless_granted example_env True ''@al_bot@ex.org'' ?m example_world = _\<close> by simp
qed

text \<open>Deleting a derived sub-account disables its address first.  When the request succeeds, fmsgid
  was told to stop accepting messages for it before the grant went; when fmsgid does not answer, the
  grant is still there to retry from.\<close>

theorem delete_disables_first:
  assumes "Store_Get E (GetOwnerIdentity c) agent w = (Inr account, w1)"
    and "GrantType account = grant_type_text GrantTypeDerivedSubAccount"
    and "DisableFmsgID E (SubAddr account) w1 = (r :: response + (id_error + unit), w3)"
  shows "db w3 = db w \<and> hd (idlog w3) = IdRegister (SubAddr account) False [] False
    \<and> (r \<noteq> Inr (Inr ()) \<longrightarrow> db (snd (subaccounts_Delete E c agent w)) = db w)
    \<and> (fst (subaccounts_Delete E c agent w) = Inr resp \<longrightarrow> r = Inr (Inr ()))"
proof -
  have d1: "db w1 = db w"
    by (rule same_db [OF keeps_Store_Get assms(1)])
  have d3: "db w3 = db w1"
    by (rule same_db [OF keeps_DisableFmsgID assms(3)])
  have h: "hd (idlog w3) = IdRegister (SubAddr account) False [] False"
    using DisableFmsgID_asks [of E "SubAddr account" w1] assms(3) by simp
  have fails: "db (snd (subaccounts_Delete E c agent w)) = db w \<and> (\<forall>x. fst (subaccounts_Delete E c agent w) \<noteq> Inr x)"
    if "r \<noteq> Inr (Inr ())"
    using assms d1 d3 that
    by (cases r; cases "projr r") (auto simp: subaccounts_Delete_def requireIdPOwner_def require_agent_def act_defs on_store_error_def)
  with d1 d3 h show ?thesis by metis
qed

theorem delete_disables_first_witness:
  "db (snd (subaccounts_Delete (example_env\<lparr>e_fmsgid := (\<lambda>_. IdDown)\<rparr>) \<lparr>GetIdentity = ''@al@ex.org'',
      GetOwnerIdentity = ''@al@ex.org'', GetAuthType = Some AuthTypeIdP\<rparr> ''bot'' grant_world)) = db grant_world"
proof -
  let ?E = "example_env\<lparr>e_fmsgid := (\<lambda>_. IdDown)\<rparr>"
  let ?c = "\<lparr>GetIdentity = ''@al@ex.org'', GetOwnerIdentity = ''@al@ex.org'', GetAuthType = Some AuthTypeIdP\<rparr>"
  have g: "Store_Get ?E (GetOwnerIdentity ?c) ''bot'' grant_world
      = (Inr (sub_account example_grant), grant_world\<lparr>tick := 1\<rparr>)"
    by (simp add: Store_Get_def act_defs Let_def example_env_def grant_world_def example_world_def example_grant_def
        is_grant_def owned_by_def live_def)
  have ty: "GrantType (sub_account example_grant) = grant_type_text GrantTypeDerivedSubAccount"
    by (simp add: sub_account_def example_grant_def grant_type_text_def)
  have d: "DisableFmsgID ?E (SubAddr (sub_account example_grant)) (grant_world\<lparr>tick := 1\<rparr>)
      = (Inr (Inl IdFailed) :: response + _, grant_world\<lparr>tick := 1, idlog := [IdRegister ''@al_bot@ex.org'' False [] False]\<rparr>)"
    by (simp add: DisableFmsgID_def postFmsgIDAddress_def act_defs example_env_def sub_account_def example_grant_def
        grant_world_def example_world_def)
  from delete_disables_first [OF g ty d] show ?thesis by simp
qed

end
