(* ===== verification/Models.thy ===== *)
theory Models
  imports SubAccounts
begin

text \<open>
  The messages of the HTTP API (\<open>src/internal/models/models.go\<close>) and the queries that load them
  (\<open>src/internal/handlers/messages.go\<close>): \<open>fetchMessage\<close>, \<open>loadRecipients\<close>, \<open>loadAddToBatches\<close>, the
  reading of message bodies, and the resolution of a message id or hash
  (\<open>src/internal/handlers/references.go\<close>).

  Rows come in table order where the query has no \<open>ORDER BY\<close>.  Delivery times are printed with second
  resolution; \<open>formatDeliveredISO\<close> keeps the second the text names.
\<close>

subsection \<open>Data\<close>

record Attachment =
  AttSize :: int
  AttFilename :: string

record RecipientDelivery =
  RdAddr :: string
  TimeDelivered :: "time option"
  ResponseCode :: "int option"

record AddToBatch =
  BatchSHA256 :: "string option"
  BatchID :: int
  AddToFrom :: string
  BatchTo :: "string list"
  BatchToDelivery :: "RecipientDelivery list"
  BatchTime :: time

record Reaction =
  Emoji :: string
  ReactionFrom :: "string list"

record message =
  SHA256 :: "string option"
  PSHA256 :: "string option"
  Version :: int
  HasPid :: bool
  HasAddTo :: bool
  Important :: bool
  NoReply :: bool
  Deflate :: bool
  Terminal :: bool
  PID :: "int option"
  From :: string
  To :: "string list"
  ToDelivery :: "RecipientDelivery list"
  AddTo :: "AddToBatch list"
  Time :: "time option"
  Topic :: string
  Type :: string
  Size :: int
  ShortText :: string
  Read :: bool
  TimeRead :: "time option"
  Attachments :: "Attachment list"
  MsgReaction :: "string option"
  Reactions :: "Reaction list"
  Trash :: "string option"

text \<open>An item of a list or of a WebSocket event: the message with its id, and two fields that are not
  sent, the stored body's path and whether the address it is built for deleted it for good.\<close>

record list_item = message +
  ItemID :: int
  dataPath :: string
  purged :: bool

subsection \<open>Loading\<close>

definition formatDeliveredISO :: "time option \<Rightarrow> time option" where
  "formatDeliveredISO t = map_option (\<lambda>u. u div 1000000) t"

definition to_delivery :: "to_row \<Rightarrow> RecipientDelivery" where
  "to_delivery r = \<lparr>RdAddr = t_addr r, TimeDelivered = formatDeliveredISO (t_delivered r), ResponseCode = t_code r\<rparr>"

definition addto_delivery :: "addto_row \<Rightarrow> RecipientDelivery" where
  "addto_delivery r = \<lparr>RdAddr = a_addr r, TimeDelivered = formatDeliveredISO (a_delivered r), ResponseCode = a_code r\<rparr>"

definition to_rows :: "database \<Rightarrow> int \<Rightarrow> to_row list" where
  "to_rows d i = filter (\<lambda>r. t_msg r = i) (tos d)"

definition addto_rows :: "database \<Rightarrow> int \<Rightarrow> addto_row list" where
  "addto_rows d i = filter (\<lambda>r. a_msg r = i) (addtos d)"

definition att_rows :: "database \<Rightarrow> int \<Rightarrow> att_row list" where
  "att_rows d i = filter (\<lambda>r. at_msg r = i) (atts d)"

definition find_msg :: "database \<Rightarrow> int \<Rightarrow> msg_row option" where
  "find_msg d i = find (\<lambda>m. m_id m = i) (msgs d)"

text \<open>The recipients and their delivery, by message; empty where the query fails.\<close>

definition loadRecipients :: "env \<Rightarrow> (response, (int \<Rightarrow> string list) \<times> (int \<Rightarrow> RecipientDelivery list)) act" where
  "loadRecipients E = bind (sql_query E (\<lambda>d. ((\<lambda>i. map t_addr (to_rows d i)), (\<lambda>i. map to_delivery (to_rows d i)))))
     (\<lambda>r. ret (case r of Inl _ \<Rightarrow> ((\<lambda>_. []), (\<lambda>_. [])) | Inr x \<Rightarrow> x))"

definition batch_of :: "database \<Rightarrow> batch_row \<Rightarrow> AddToBatch" where
  "batch_of d b = (let rows = sort_key a_id (filter (\<lambda>a. a_batch a = b_id b) (addtos d)) in
     \<lparr>BatchSHA256 = map_option hex_encode (b_sha256 b), BatchID = b_id b, AddToFrom = b_from b,
      BatchTo = map a_addr rows, BatchToDelivery = map addto_delivery rows, BatchTime = b_time b\<rparr>)"

definition batches_of :: "database \<Rightarrow> int \<Rightarrow> AddToBatch list" where
  "batches_of d i = map (batch_of d) (sort_key b_id (filter (\<lambda>b. b_msg b = i) (batches d)))"

definition loadAddToBatches :: "env \<Rightarrow> (response, int \<Rightarrow> AddToBatch list) act" where
  "loadAddToBatches E = bind (sql_query E batches_of) (\<lambda>r. ret (case r of Inl _ \<Rightarrow> (\<lambda>_. []) | Inr f \<Rightarrow> f))"

definition attachments_of :: "database \<Rightarrow> int \<Rightarrow> Attachment list" where
  "attachments_of d i = map (\<lambda>r. \<lparr>AttSize = at_size r, AttFilename = at_filename r\<rparr>) (att_rows d i)"

definition loadAttachments :: "env \<Rightarrow> (response, int \<Rightarrow> Attachment list) act" where
  "loadAttachments E = bind (sql_query E attachments_of) (\<lambda>r. ret (case r of Inl _ \<Rightarrow> (\<lambda>_. []) | Inr f \<Rightarrow> f))"

definition row_message :: "msg_row \<Rightarrow> string list \<Rightarrow> RecipientDelivery list \<Rightarrow> AddToBatch list \<Rightarrow> Attachment list \<Rightarrow> message" where
  "row_message m to dl ad at = \<lparr>SHA256 = map_option hex_encode (m_sha256 m), PSHA256 = map_option hex_encode (m_psha256 m),
     Version = m_version m, HasPid = (m_pid m \<noteq> None), HasAddTo = (ad \<noteq> []), Important = m_important m,
     NoReply = m_no_reply m, Deflate = m_deflate m, Terminal = m_terminal m, PID = m_pid m, From = m_from m,
     To = to, ToDelivery = dl, AddTo = ad, Time = m_time m, Topic = m_topic m, Type = m_type m, Size = m_size m,
     ShortText = [], Read = False, TimeRead = None, Attachments = at, MsgReaction = None, Reactions = [], Trash = None\<rparr>"

text \<open>\<open>fetchMessage\<close>: the message and its stored path, no row, or a failed first query.\<close>

definition fetchMessage :: "env \<Rightarrow> int \<Rightarrow> (response, sql_error + (message \<times> string) option) act" where
  "fetchMessage E i = bind (sql_query E (\<lambda>d. find_msg d i)) (\<lambda>r. case r of
     Inl e \<Rightarrow> ret (Inl e)
   | Inr None \<Rightarrow> ret (Inr None)
   | Inr (Some m) \<Rightarrow>
       bind (loadRecipients E) (\<lambda>(toMap, deliveryMap).
       bind (loadAddToBatches E) (\<lambda>ad.
       bind (loadAttachments E) (\<lambda>at.
       ret (Inr (Some (row_message m (toMap i) (deliveryMap i) (ad i) (at i), m_path m)))))))"

text \<open>The answer of every route to a message that does not exist, or that cannot be read.\<close>

definition not_found :: response where
  "not_found = err 404 ''message not found''"

definition require_row :: "string \<Rightarrow> (response, sql_error + 'a option) act \<Rightarrow> (response, 'a) act" where
  "require_row msg m = bind m (\<lambda>r. case r of Inl _ \<Rightarrow> throw (err 500 msg)
     | Inr None \<Rightarrow> throw not_found | Inr (Some a) \<Rightarrow> ret a)"

definition require_message :: "env \<Rightarrow> int \<Rightarrow> (response, message \<times> string) act" where
  "require_message E i = require_row ''failed to retrieve message'' (fetchMessage E i)"

subsection \<open>Message ids\<close>

definition decodeHash :: "string \<Rightarrow> string option" where
  "decodeHash s = (if length s \<noteq> 64 then None else hex_decode s)"

definition parseID :: "string \<Rightarrow> (response, int) act" where
  "parseID s = (case ParseInt s of None \<Rightarrow> throw (err 400 ''invalid message id'')
     | Some i \<Rightarrow> if i \<le> 0 then throw (err 400 ''invalid message id'') else ret i)"

definition resolveID :: "env \<Rightarrow> string \<Rightarrow> (response, int) act" where
  "resolveID E s = (if length s \<noteq> 64 then parseID s
     else (case decodeHash s of None \<Rightarrow> throw (err 400 ''invalid message sha256'')
      | Some h \<Rightarrow> require_row ''failed to resolve message''
          (sql_query E (\<lambda>d. map_option m_id (find (\<lambda>m. m_sha256 m = Some h) (msgs d))))))"

subsection \<open>Recipients of a message\<close>

definition addToContains :: "AddToBatch list \<Rightarrow> string \<Rightarrow> bool" where
  "addToContains bs addr \<longleftrightarrow> list_ex (\<lambda>b. isRecipient (BatchTo b) addr) bs"

definition anyAddToContains :: "string list \<Rightarrow> AddToBatch list \<Rightarrow> bool" where
  "anyAddToContains addrs bs \<longleftrightarrow> list_ex (addToContains bs) addrs"

text \<open>\<open>visibleAddrs\<close>: always exactly the identity of the request, lower-cased.\<close>

definition visibleAddrs :: "string \<Rightarrow> string list" where
  "visibleAddrs identity = [ToLower identity]"

subsection \<open>Bodies\<close>

definition isTextMIME :: "env \<Rightarrow> string \<Rightarrow> bool" where
  "isTextMIME E t = (if t = [] then False
     else (case e_media_type E t of None \<Rightarrow> False | Some mt \<Rightarrow> HasPrefix mt ''text/''))"

definition isZip :: "string \<Rightarrow> bool" where
  "isZip s \<longleftrightarrow> 4 \<le> length s \<and> map of_char (take 4 s) = [0x50 :: nat, 0x4b, 0x03, 0x04]"

definition mimeToExt :: "env \<Rightarrow> string \<Rightarrow> string" where
  "mimeToExt E t = (case e_media_type E t of None \<Rightarrow> ''.bin''
     | Some mt \<Rightarrow> (case e_extension E mt of Some x \<Rightarrow> x
        | None \<Rightarrow> (if mt = ''text/plain'' then ''.txt'' else if mt = ''text/html'' then ''.html''
            else if mt = ''application/json'' then ''.json'' else if mt = ''application/pdf'' then ''.pdf''
            else ''.bin'')))"

text \<open>The longest valid UTF-8 prefix, found by dropping trailing bytes.\<close>

function trim_utf8 :: "string \<Rightarrow> string" where
  "trim_utf8 s = (if s = [] \<or> utf8_valid s then s else trim_utf8 (butlast s))"
  by pat_completeness auto
termination
  by (relation "measure length") (auto simp: neq_Nil_conv)

declare trim_utf8.simps [simp del]

definition extractShortText :: "env \<Rightarrow> (string \<rightharpoonup> string) \<Rightarrow> string \<Rightarrow> string \<Rightarrow> string" where
  "extractShortText E stored path t = (if ShortTextSize E \<le> 0 then []
     else if \<not> isTextMIME E t then []
     else (case safeDataPath (e_cwd E) path (DataDir E) of None \<Rightarrow> []
      | Some p \<Rightarrow> (case stored p of None \<Rightarrow> []
         | Some content \<Rightarrow> trim_utf8 (take (nat (ShortTextSize E)) content))))"

lemma trim_utf8_spec:
  "utf8_valid (trim_utf8 s) \<and> (\<exists>t. s = trim_utf8 s @ t)
    \<and> (\<forall>p t. s = p @ t \<longrightarrow> utf8_valid p \<longrightarrow> length p \<le> length (trim_utf8 s))"
proof (induction s rule: trim_utf8.induct)
  case (1 s)
  show ?case
  proof (cases "s = [] \<or> utf8_valid s")
    case True
    then have "trim_utf8 s = s" by (subst trim_utf8.simps) simp
    with True show ?thesis by auto
  next
    case False
    then have eq: "trim_utf8 s = trim_utf8 (butlast s)" by (subst trim_utf8.simps) simp
    from False have ne: "s \<noteq> []" by simp
    have "\<exists>t. s = trim_utf8 s @ t"
      using 1 [OF False] eq append_butlast_last_id [OF ne] by (metis append_assoc)
    moreover have "length p \<le> length (trim_utf8 s)" if "s = p @ t" "utf8_valid p" for p t
    proof (cases t rule: rev_cases)
      case Nil
      with that False show ?thesis by simp
    next
      case (snoc u c)
      with that have "butlast s = p @ u" by (simp add: butlast_append)
      with 1 [OF False] that eq show ?thesis by auto
    qed
    ultimately show ?thesis using 1 [OF False] eq by auto
  qed
qed

text \<open>The text preview of a message is always valid UTF-8, at most the configured number of bytes, a
  prefix of the stored body, and the longest such prefix: a rune that ends exactly at the limit is kept.\<close>

theorem extractShortText_spec:
  assumes "extractShortText E stored path t \<noteq> []"
  shows "\<exists>p content tail. safeDataPath (e_cwd E) path (DataDir E) = Some p \<and> stored p = Some content
    \<and> isTextMIME E t \<and> content = extractShortText E stored path t @ tail
    \<and> utf8_valid (extractShortText E stored path t)
    \<and> int (length (extractShortText E stored path t)) \<le> ShortTextSize E
    \<and> (\<forall>q. (\<exists>r. take (nat (ShortTextSize E)) content = q @ r) \<and> utf8_valid q
        \<longrightarrow> length q \<le> length (extractShortText E stored path t))"
proof -
  from assms obtain p content where p: "safeDataPath (e_cwd E) path (DataDir E) = Some p" "stored p = Some content"
    "isTextMIME E t" "0 < ShortTextSize E"
    and eq: "extractShortText E stored path t = trim_utf8 (take (nat (ShortTextSize E)) content)"
    by (auto simp: extractShortText_def split: if_splits option.splits)
  let ?s = "take (nat (ShortTextSize E)) content"
  from trim_utf8_spec [of ?s] obtain r where r: "?s = trim_utf8 ?s @ r" by blast
  then have "content = trim_utf8 ?s @ (r @ drop (nat (ShortTextSize E)) content)"
    by (metis append_assoc append_take_drop_id)
  moreover have "length (trim_utf8 ?s) \<le> nat (ShortTextSize E)"
    using arg_cong [OF r, of length] by simp
  ultimately show ?thesis using p eq trim_utf8_spec [of ?s] by auto
qed

theorem extractShortText_spec_witness:
  "\<exists>tail. ''hi there'' = extractShortText (example_env\<lparr>ShortTextSize := 2\<rparr>) [''/d/m'' \<mapsto> ''hi there''] ''/d/m'' ''text/plain'' @ tail
    \<and> extractShortText (example_env\<lparr>ShortTextSize := 2\<rparr>) [''/d/m'' \<mapsto> ''hi there''] ''/d/m'' ''text/plain'' = ''hi''"
proof -
  let ?t = "extractShortText (example_env\<lparr>ShortTextSize := 2\<rparr>) [''/d/m'' \<mapsto> ''hi there''] ''/d/m'' ''text/plain''"
  have v: "?t = ''hi''" by code_simp
  then have "?t \<noteq> []" by simp
  from extractShortText_spec [OF this] obtain p content tail where
    "safeDataPath (e_cwd (example_env\<lparr>ShortTextSize := 2\<rparr>)) ''/d/m'' (DataDir (example_env\<lparr>ShortTextSize := 2\<rparr>)) = Some p"
    "[''/d/m'' \<mapsto> ''hi there''] p = Some content" "content = ?t @ tail" by blast
  then show ?thesis using v by (auto split: if_splits)
qed

subsection \<open>Preservation\<close>

lemma keeps_loadRecipients [keeps_intros]: "keeps (\<lambda>w. P (db w)) (loadRecipients E)"
  unfolding loadRecipients_def by (intro keeps_intros)

lemma keeps_loadAddToBatches [keeps_intros]: "keeps (\<lambda>w. P (db w)) (loadAddToBatches E)"
  unfolding loadAddToBatches_def by (intro keeps_intros)

lemma keeps_loadAttachments [keeps_intros]: "keeps (\<lambda>w. P (db w)) (loadAttachments E)"
  unfolding loadAttachments_def by (intro keeps_intros)

lemma keeps_fetchMessage [keeps_intros]: "keeps (\<lambda>w. P (db w)) (fetchMessage E i)"
  unfolding fetchMessage_def by (intro keeps_intros)

lemma keeps_require_row [keeps_intros]: "keeps P m \<Longrightarrow> keeps P (require_row msg m)"
  unfolding require_row_def by (intro keeps_intros)

lemma keeps_require_message [keeps_intros]: "keeps (\<lambda>w. P (db w)) (require_message E i)"
  unfolding require_message_def by (intro keeps_intros)

lemma keeps_resolveID [keeps_intros]: "keeps (\<lambda>w. P (db w)) (resolveID E s)"
  unfolding resolveID_def parseID_def by (intro keeps_intros)

lemma require_row_Inr: "require_row msg m w = (Inr a, w2) \<longleftrightarrow> m w = (Inr (Inr (Some a)), w2)"
  by (cases "m w") (auto simp: require_row_def bind_def ret_def throw_def split: sum.splits option.splits)

text \<open>What a message read without a failure holds: the row, and either the table's relations or
  nothing where a relation query failed.\<close>

lemma require_message_Inr:
  assumes "require_message E i w = (Inr (m, p), w2)"
  shows "\<exists>r to dl ad at. find_msg (db w) i = Some r \<and> m = row_message r to dl ad at \<and> p = m_path r
    \<and> (to = map t_addr (to_rows (db w) i) \<or> to = []) \<and> (ad = batches_of (db w) i \<or> ad = [])
    \<and> (at = attachments_of (db w) i \<or> at = []) \<and> db w2 = db w"
proof -
  have run: "fetchMessage E i w = (Inr (Inr (Some (m, p))), w2)"
    using assms by (simp add: require_message_def require_row_Inr)
  have d: "db w2 = db w"
    by (rule same_db [OF keeps_require_message assms])
  show ?thesis using run d
    by (auto simp: fetchMessage_def loadRecipients_def loadAddToBatches_def loadAttachments_def act_defs Let_def
        split: if_splits option.splits)
qed

end
