(* ===== verification/Delivery.thy ===== *)
theory Delivery
  imports Models
begin

text \<open>
  Quotas and delivery: \<open>src/internal/handlers/quota.go\<close> and the delivery half of
  \<open>src/internal/handlers/messages.go\<close> (\<open>resolveLocalDelivery\<close>, \<open>remoteRecipientDomains\<close>,
  \<open>parentDeliveryByDomain\<close>, \<open>undeliverableReplyDomains\<close>).

  Sizes and counts are Go's \<open>int64\<close>: their sums wrap (\<open>wrap64\<close>).  Shown here: which send is refused and
  why, what local delivery writes and to which rows, and which replies are refused before sending.
\<close>

subsection \<open>Limits\<close>

definition responseCodeUserUnknown :: int where "responseCodeUserUnknown = 100"
definition responseCodeUserFull :: int where "responseCodeUserFull = 101"
definition responseCodeUserNotAccepting :: int where "responseCodeUserNotAccepting = 102"
definition responseCodeAccept :: int where "responseCodeAccept = 200"

lemmas response_codes = responseCodeUserUnknown_def responseCodeUserFull_def
  responseCodeUserNotAccepting_def responseCodeAccept_def

definition over :: "int \<Rightarrow> int \<Rightarrow> bool" where
  "over limit usage \<longleftrightarrow> limit > -1 \<and> usage > limit"

definition recvLimitExceeded :: "FmsgIDDetail \<Rightarrow> int \<Rightarrow> bool" where
  "recvLimitExceeded d sz \<longleftrightarrow>
     over (LimitRecvCountPer1d d) (wrap64 (RecvCountPer1d d + 1)) \<or>
     over (LimitRecvSizePer1d d) (wrap64 (RecvSizePer1d d + sz)) \<or>
     over (LimitRecvSizeTotal d) (wrap64 (RecvSizeTotal d + sz))"

definition localDeliveryCode :: "nat \<Rightarrow> FmsgIDDetail option \<Rightarrow> int \<Rightarrow> int option" where
  "localDeliveryCode status detail sz = (if status = 404 then Some responseCodeUserUnknown
     else if status \<noteq> 200 then None
     else (case detail of None \<Rightarrow> None
      | Some d \<Rightarrow> if \<not> AcceptingNew d then Some responseCodeUserNotAccepting
          else if recvLimitExceeded d sz then Some responseCodeUserFull
          else Some responseCodeAccept))"

datatype send_limit = TooBig | DailyCount | DailySize | StorageFull

definition checkSendLimits :: "FmsgIDDetail \<Rightarrow> int \<Rightarrow> send_limit option" where
  "checkSendLimits d sz =
     (if over (LimitSendSizePerMsg d) sz then Some TooBig
      else if over (LimitSendCountPer1d d) (wrap64 (SendCountPer1d d + 1)) then Some DailyCount
      else if over (LimitSendSizePer1d d) (wrap64 (SendSizePer1d d + sz)) then Some DailySize
      else if over (LimitSendSizeTotal d) (wrap64 (SendSizeTotal d + sz)) then Some StorageFull
      else None)"

definition send_refusal :: "FmsgIDDetail \<Rightarrow> int \<Rightarrow> send_limit \<Rightarrow> response" where
  "send_refusal d sz r = (case r of
     TooBig \<Rightarrow> (413, JObj [(''error'', JStr (''message size '' @ Itoa sz @
         '' exceeds the sending limit of '' @ Itoa (LimitSendSizePerMsg d) @ '' bytes per message'')),
         (''code'', JStr ''send_size_per_msg_limit'')])
   | DailyCount \<Rightarrow> (429, JObj [(''error'', JStr ''daily message limit reached''),
         (''code'', JStr ''send_count_per_1d_limit'')])
   | DailySize \<Rightarrow> (429, JObj [(''error'', JStr ''daily sending size limit reached''),
         (''code'', JStr ''send_size_per_1d_limit'')])
   | StorageFull \<Rightarrow> (422, JObj [(''error'', JStr ''storage limit reached''),
         (''code'', JStr ''send_size_total_limit'')]))"

definition checkSendQuota :: "env \<Rightarrow> string \<Rightarrow> int \<Rightarrow> (response, unit) act" where
  "checkSendQuota E sender sz = bind (FetchFmsgIDDetail E sender) (\<lambda>r. case r of
     None \<Rightarrow> throw (err 503 ''identity service unavailable'')
   | Some (detail, status) \<Rightarrow>
       if status = 404 then throw (err 403 (''User '' @ sender @ '' not found''))
       else if status \<noteq> 200 then throw (err 503 ''identity service unavailable'')
       else (case detail of None \<Rightarrow> throw (err 503 ''identity service unavailable'')
        | Some d \<Rightarrow> if \<not> AcceptingNew d
            then throw (err 403 (''User '' @ sender @ '' not authorised to send new messages''))
            else (case checkSendLimits d sz of Some l \<Rightarrow> throw (send_refusal d sz l) | None \<Rightarrow> ret ())))"

definition recordSend :: "env \<Rightarrow> string \<Rightarrow> time \<Rightarrow> int \<Rightarrow> (response, unit) act" where
  "recordSend E sender ts sz = bind (RecordFmsgIDSend E sender ts sz) (\<lambda>_. ret ())"

text \<open>The stored size of a message, body plus attachments; no row or a value that does not fit an
  \<open>int64\<close> is an error.\<close>

definition stored_size :: "database \<Rightarrow> int \<Rightarrow> int option" where
  "stored_size d i = (case find_msg d i of None \<Rightarrow> None
     | Some m \<Rightarrow> (let s = m_size m + sum_list (map at_size (att_rows d i)) in
         if - (2 ^ 63) \<le> s \<and> s < 2 ^ 63 then Some s else None))"

definition messageStoredSize :: "env \<Rightarrow> int \<Rightarrow> ('e, int option) act" where
  "messageStoredSize E i = bind (sql_query E (\<lambda>d. stored_size d i))
     (\<lambda>r. ret (case r of Inl _ \<Rightarrow> None | Inr s \<Rightarrow> s))"

subsection \<open>Local delivery\<close>

text \<open>\<open>addto\<close> selects the table: \<open>msg_add_to\<close> if set, else \<open>msg_to\<close>.  The update gives the number of
  rows it changed.\<close>

definition pending_to :: "int \<Rightarrow> string \<Rightarrow> to_row \<Rightarrow> bool" where
  "pending_to i addr r \<longleftrightarrow> t_msg r = i \<and> t_addr r = addr \<and> t_delivered r = None \<and> t_code r = None"

definition pending_addto :: "int \<Rightarrow> string \<Rightarrow> addto_row \<Rightarrow> bool" where
  "pending_addto i addr r \<longleftrightarrow> a_msg r = i \<and> a_addr r = addr \<and> a_delivered r = None \<and> a_code r = None"

definition resolve_row :: "bool \<Rightarrow> int \<Rightarrow> string \<Rightarrow> time option \<Rightarrow> int \<Rightarrow> database \<Rightarrow> nat \<times> database" where
  "resolve_row addto i addr delivered code d = (if addto
     then (length (filter (pending_addto i addr) (addtos d)),
           d\<lparr>addtos := update_where (pending_addto i addr)
               (\<lambda>r. r\<lparr>a_delivered := delivered, a_code := Some code\<rparr>) (addtos d)\<rparr>)
     else (length (filter (pending_to i addr) (tos d)),
           d\<lparr>tos := update_where (pending_to i addr)
               (\<lambda>r. r\<lparr>t_delivered := delivered, t_code := Some code\<rparr>) (tos d)\<rparr>))"

definition resolve_one :: "env \<Rightarrow> bool \<Rightarrow> int \<Rightarrow> time \<Rightarrow> string \<Rightarrow> nat \<Rightarrow> FmsgIDDetail option \<Rightarrow> int \<Rightarrow> ('e, unit) act" where
  "resolve_one E addto i now addr status detail sz = (case localDeliveryCode status detail sz of
     None \<Rightarrow> ret ()
   | Some code \<Rightarrow>
       bind (stmt E (\<lambda>d. Inr (resolve_row addto i addr
              (if code = responseCodeAccept then Some now else None) code d))) (\<lambda>r. case r of
         Inl _ \<Rightarrow> ret ()
       | Inr n \<Rightarrow> if code = responseCodeAccept \<and> 0 < n
           then bind (RecordFmsgIDRecv E addr now sz) (\<lambda>_. ret ()) else ret ()))"

fun resolve_loop :: "env \<Rightarrow> bool \<Rightarrow> int \<Rightarrow> string \<Rightarrow> time \<Rightarrow> int \<Rightarrow> string list \<Rightarrow> ('e, unit) act" where
  "resolve_loop E addto i localDomain now sz [] = ret ()"
| "resolve_loop E addto i localDomain now sz (addr # rest) =
     (if \<not> EqualFold (addr_domain addr) localDomain then resolve_loop E addto i localDomain now sz rest
      else bind (FetchFmsgIDDetail E addr) (\<lambda>r. case r of
          None \<Rightarrow> resolve_loop E addto i localDomain now sz rest
        | Some (detail, status) \<Rightarrow>
            if sz < 0 \<and> status = 200
            then bind (messageStoredSize E i) (\<lambda>s. case s of
                None \<Rightarrow> resolve_loop E addto i localDomain now (-1) rest
              | Some sz1 \<Rightarrow> bind (resolve_one E addto i now addr status detail sz1)
                  (\<lambda>_. resolve_loop E addto i localDomain now sz1 rest))
            else bind (resolve_one E addto i now addr status detail sz)
                  (\<lambda>_. resolve_loop E addto i localDomain now sz rest)))"

definition resolveLocalDelivery :: "env \<Rightarrow> bool \<Rightarrow> int \<Rightarrow> string \<Rightarrow> string list \<Rightarrow> ('e, unit) act" where
  "resolveLocalDelivery E addto i localDomain addrs =
     bind (clock E) (\<lambda>now. resolve_loop E addto i localDomain now (-1) addrs)"

subsection \<open>Replies\<close>

record parentDomainDelivery =
  pd_delivered :: bool
  pd_pending :: bool
  pd_otherHost :: bool
  pd_codes :: "int list"

definition no_delivery :: parentDomainDelivery where
  "no_delivery = \<lparr>pd_delivered = False, pd_pending = False, pd_otherHost = False, pd_codes = []\<rparr>"

definition add_outcome :: "bool \<Rightarrow> int option \<Rightarrow> parentDomainDelivery \<Rightarrow> parentDomainDelivery" where
  "add_outcome delivered code s = (if delivered then s\<lparr>pd_delivered := True\<rparr>
     else (case code of None \<Rightarrow> s\<lparr>pd_pending := True\<rparr>
      | Some c \<Rightarrow> if c = -2 then s\<lparr>pd_otherHost := True\<rparr>
          else if c = -1 then s\<lparr>pd_pending := True\<rparr>
          else s\<lparr>pd_codes := pd_codes s @ [c]\<rparr>))"

text \<open>The recipients of a message with their outcome, \<open>msg_to\<close> before \<open>msg_add_to\<close>.\<close>

definition outcomes :: "database \<Rightarrow> int \<Rightarrow> (string \<times> bool \<times> int option) list" where
  "outcomes d i = map (\<lambda>r. (t_addr r, t_delivered r \<noteq> None, t_code r)) (to_rows d i)
     @ map (\<lambda>r. (a_addr r, a_delivered r \<noteq> None, a_code r)) (addto_rows d i)"

fun by_domain :: "(string \<times> bool \<times> int option) list \<Rightarrow> (string \<rightharpoonup> parentDomainDelivery) \<Rightarrow>
    (string \<rightharpoonup> parentDomainDelivery)" where
  "by_domain [] m = m"
| "by_domain ((addr, delivered, code) # rest) m = (let key = ToLower (addr_domain addr) in
     by_domain rest (m(key \<mapsto> add_outcome delivered code (case m key of None \<Rightarrow> no_delivery | Some s \<Rightarrow> s))))"

definition parentDeliveryByDomain :: "env \<Rightarrow> int \<Rightarrow>
    ('e, (string \<times> (string \<rightharpoonup> parentDomainDelivery)) option) act" where
  "parentDeliveryByDomain E parentID = bind (sql_query E (\<lambda>d. find_msg d parentID)) (\<lambda>r. case r of
     Inl _ \<Rightarrow> ret None
   | Inr None \<Rightarrow> ret None
   | Inr (Some m) \<Rightarrow> bind (sql_query E (\<lambda>d. outcomes d parentID)) (\<lambda>q. case q of
         Inl _ \<Rightarrow> ret None
       | Inr os \<Rightarrow> ret (Some (addr_domain (m_from m), by_domain os Map.empty))))"

datatype blocked_reason = NeverAddressed | DeliveryFailed "int list"

definition undeliverableReplyDomains :: "string list \<Rightarrow> string \<Rightarrow> (string \<rightharpoonup> parentDomainDelivery) \<Rightarrow>
    (string \<times> blocked_reason) list" where
  "undeliverableReplyDomains replyDomains parentFromDomain byDomain =
     concat (map (\<lambda>d. if EqualFold d parentFromDomain then []
       else (case byDomain (ToLower d) of None \<Rightarrow> [(d, NeverAddressed)]
        | Some s \<Rightarrow> if pd_delivered s \<or> pd_pending s \<or> pd_otherHost s then []
                    else [(d, DeliveryFailed (pd_codes s))])) replyDomains)"

fun dedup_domains :: "string \<Rightarrow> string set \<Rightarrow> string list \<Rightarrow> string list" where
  "dedup_domains localDomain seen [] = []"
| "dedup_domains localDomain seen (a # as) = (let d = addr_domain a; key = ToLower d in
     if d = [] \<or> EqualFold d localDomain \<or> key \<in> seen then dedup_domains localDomain seen as
     else d # dedup_domains localDomain (insert key seen) as)"

definition remoteRecipientDomains :: "string list \<Rightarrow> AddToBatch list \<Rightarrow> string \<Rightarrow> string list" where
  "remoteRecipientDomains to bs localDomain = dedup_domains localDomain {} (to @ concat (map BatchTo bs))"

subsection \<open>Properties of the limits\<close>

text \<open>A message is sent only within every limit of its sender: as long as the usage plus the message
  fits a 64-bit integer, no refusal means every limit that is set is respected, and each refusal names
  the first limit that would be exceeded.\<close>

theorem checkSendLimits_spec:
  assumes "0 \<le> sz" and "0 \<le> SendCountPer1d d" and "0 \<le> SendSizePer1d d" and "0 \<le> SendSizeTotal d"
    and "SendCountPer1d d + 1 < 2 ^ 63" and "SendSizePer1d d + sz < 2 ^ 63" and "SendSizeTotal d + sz < 2 ^ 63"
  shows "(checkSendLimits d sz = None \<longleftrightarrow>
      (LimitSendSizePerMsg d < 0 \<or> sz \<le> LimitSendSizePerMsg d) \<and>
      (LimitSendCountPer1d d < 0 \<or> SendCountPer1d d < LimitSendCountPer1d d) \<and>
      (LimitSendSizePer1d d < 0 \<or> SendSizePer1d d + sz \<le> LimitSendSizePer1d d) \<and>
      (LimitSendSizeTotal d < 0 \<or> SendSizeTotal d + sz \<le> LimitSendSizeTotal d))
    \<and> (checkSendLimits d sz = Some StorageFull \<longrightarrow>
        0 \<le> LimitSendSizeTotal d \<and> LimitSendSizeTotal d < SendSizeTotal d + sz)"
proof -
  have "wrap64 (SendCountPer1d d + 1) = SendCountPer1d d + 1"
    "wrap64 (SendSizePer1d d + sz) = SendSizePer1d d + sz"
    "wrap64 (SendSizeTotal d + sz) = SendSizeTotal d + sz"
    using assms by (intro wrap64_id; linarith)+
  then show ?thesis by (auto simp: checkSendLimits_def over_def)
qed

definition example_detail :: FmsgIDDetail where
  "example_detail = \<lparr>AcceptingNew = True, LimitRecvSizeTotal = -1, LimitRecvSizePer1d = -1,
     LimitRecvCountPer1d = 3, LimitSendSizeTotal = 100, LimitSendSizePerMsg = -1, LimitSendSizePer1d = -1,
     LimitSendCountPer1d = 5, RecvSizeTotal = 0, RecvSizePer1d = 0, RecvCountPer1d = 3, SendSizeTotal = 90,
     SendSizePer1d = 0, SendCountPer1d = 4\<rparr>"

theorem checkSendLimits_spec_witness:
  "checkSendLimits example_detail 10 = None \<and> checkSendLimits example_detail 11 = Some StorageFull
    \<and> LimitSendSizeTotal example_detail < SendSizeTotal example_detail + 11"
proof -
  have "checkSendLimits example_detail 11 = Some StorageFull" by code_simp
  with checkSendLimits_spec [of 10 example_detail] checkSendLimits_spec [of 11 example_detail]
  show ?thesis by (simp add: example_detail_def)
qed

text \<open>The response code of a local delivery says why: unknown address, not accepting, a receive limit
  reached, or accepted; an unexpected answer of fmsgid decides nothing.\<close>

theorem localDeliveryCode_spec:
  "localDeliveryCode status detail sz =
    (case (status = 404, status = 200, detail) of
       (True, _, _) \<Rightarrow> Some 100
     | (False, True, Some d) \<Rightarrow> Some (if \<not> AcceptingNew d then 102
         else if (LimitRecvCountPer1d d \<ge> 0 \<and> wrap64 (RecvCountPer1d d + 1) > LimitRecvCountPer1d d)
               \<or> (LimitRecvSizePer1d d \<ge> 0 \<and> wrap64 (RecvSizePer1d d + sz) > LimitRecvSizePer1d d)
               \<or> (LimitRecvSizeTotal d \<ge> 0 \<and> wrap64 (RecvSizeTotal d + sz) > LimitRecvSizeTotal d)
         then 101 else 200)
     | _ \<Rightarrow> None)"
  by (auto simp: localDeliveryCode_def recvLimitExceeded_def over_def response_codes split: option.splits)

lemma localDeliveryCode_range:
  "localDeliveryCode status detail sz = Some c \<Longrightarrow> c \<in> {100, 101, 102, 200}"
  by (auto simp: localDeliveryCode_def response_codes split: if_splits option.splits)

subsection \<open>Properties of local delivery\<close>

text \<open>What a delivery may do to the rows of \<open>msg_to\<close> and \<open>msg_add_to\<close>.\<close>

definition resolved_to :: "int \<Rightarrow> string \<Rightarrow> string set \<Rightarrow> time \<Rightarrow> to_row \<Rightarrow> to_row \<Rightarrow> bool" where
  "resolved_to i ldom addrs now r s \<longleftrightarrow> s = r \<or>
     (t_msg r = i \<and> t_addr r \<in> addrs \<and> EqualFold (addr_domain (t_addr r)) ldom
      \<and> t_delivered r = None \<and> t_code r = None
      \<and> (\<exists>c \<in> {100, 101, 102, 200}. s = r\<lparr>t_delivered := (if c = 200 then Some now else None), t_code := Some c\<rparr>))"

definition resolved_addto :: "int \<Rightarrow> string \<Rightarrow> string set \<Rightarrow> time \<Rightarrow> addto_row \<Rightarrow> addto_row \<Rightarrow> bool" where
  "resolved_addto i ldom addrs now r s \<longleftrightarrow> s = r \<or>
     (a_msg r = i \<and> a_addr r \<in> addrs \<and> EqualFold (addr_domain (a_addr r)) ldom
      \<and> a_delivered r = None \<and> a_code r = None
      \<and> (\<exists>c \<in> {100, 101, 102, 200}. s = r\<lparr>a_delivered := (if c = 200 then Some now else None), a_code := Some c\<rparr>))"

definition delivery_step :: "bool \<Rightarrow> int \<Rightarrow> string \<Rightarrow> string set \<Rightarrow> time \<Rightarrow> database \<Rightarrow> database \<Rightarrow> bool" where
  "delivery_step addto i ldom addrs now d0 d \<longleftrightarrow>
     (if addto then list_all2 (resolved_addto i ldom addrs now) (addtos d0) (addtos d) \<and> d\<lparr>addtos := []\<rparr> = d0\<lparr>addtos := []\<rparr>
      else list_all2 (resolved_to i ldom addrs now) (tos d0) (tos d) \<and> d\<lparr>tos := []\<rparr> = d0\<lparr>tos := []\<rparr>)"

lemma delivery_step_refl: "delivery_step addto i ldom addrs now d d"
  by (auto simp: delivery_step_def resolved_to_def resolved_addto_def intro: list_all2_refl)

lemma list_all2_update_where:
  assumes "list_all2 R xs ys" and "\<And>x y. R x y \<Longrightarrow> P y \<Longrightarrow> R x (f y)"
  shows "list_all2 R xs (update_where P f ys)"
  using assms by (induction rule: list_all2_induct) (auto simp: update_where_def)

lemma resolved_to_step:
  assumes "resolved_to i ldom addrs now r s" and "pending_to i addr s" and "addr \<in> addrs"
    and "EqualFold (addr_domain addr) ldom" and "c \<in> {100, 101, 102, 200}"
  shows "resolved_to i ldom addrs now r (s\<lparr>t_delivered := (if c = 200 then Some now else None), t_code := Some c\<rparr>)"
proof -
  from assms(2) have p: "t_msg s = i" "t_addr s = addr" "t_delivered s = None" "t_code s = None"
    by (simp_all add: pending_to_def)
  have "s = r"
  proof (rule ccontr)
    assume "s \<noteq> r"
    with assms(1) obtain c1 where "s = r\<lparr>t_delivered := (if c1 = 200 then Some now else None), t_code := Some c1\<rparr>"
      unfolding resolved_to_def by blast
    then have "t_code s = Some c1" by simp
    with p show False by simp
  qed
  have "\<exists>c1 \<in> {100, 101, 102, 200}. s\<lparr>t_delivered := (if c = 200 then Some now else None), t_code := Some c\<rparr>
      = r\<lparr>t_delivered := (if c1 = 200 then Some now else None), t_code := Some c1\<rparr>"
    using assms(5) \<open>s = r\<close> by (intro bexI [of _ c]) simp_all
  with p \<open>s = r\<close> assms(3,4) show ?thesis unfolding resolved_to_def by simp
qed

lemma resolved_addto_step:
  assumes "resolved_addto i ldom addrs now r s" and "pending_addto i addr s" and "addr \<in> addrs"
    and "EqualFold (addr_domain addr) ldom" and "c \<in> {100, 101, 102, 200}"
  shows "resolved_addto i ldom addrs now r (s\<lparr>a_delivered := (if c = 200 then Some now else None), a_code := Some c\<rparr>)"
proof -
  from assms(2) have p: "a_msg s = i" "a_addr s = addr" "a_delivered s = None" "a_code s = None"
    by (simp_all add: pending_addto_def)
  have "s = r"
  proof (rule ccontr)
    assume "s \<noteq> r"
    with assms(1) obtain c1 where "s = r\<lparr>a_delivered := (if c1 = 200 then Some now else None), a_code := Some c1\<rparr>"
      unfolding resolved_addto_def by blast
    then have "a_code s = Some c1" by simp
    with p show False by simp
  qed
  have "\<exists>c1 \<in> {100, 101, 102, 200}. s\<lparr>a_delivered := (if c = 200 then Some now else None), a_code := Some c\<rparr>
      = r\<lparr>a_delivered := (if c1 = 200 then Some now else None), a_code := Some c1\<rparr>"
    using assms(5) \<open>s = r\<close> by (intro bexI [of _ c]) simp_all
  with p \<open>s = r\<close> assms(3,4) show ?thesis unfolding resolved_addto_def by simp
qed

lemma delivery_step_resolve:
  assumes "delivery_step addto i ldom addrs now d0 d" and "addr \<in> addrs" and "EqualFold (addr_domain addr) ldom"
    and "localDeliveryCode status detail sz = Some c"
  shows "delivery_step addto i ldom addrs now d0
    (snd (resolve_row addto i addr (if c = responseCodeAccept then Some now else None) c d))"
proof (cases addto)
  case True
  with assms(1) have "list_all2 (resolved_addto i ldom addrs now) (addtos d0)
      (update_where (pending_addto i addr) (\<lambda>r. r\<lparr>a_delivered := (if c = 200 then Some now else None), a_code := Some c\<rparr>) (addtos d))"
    by (intro list_all2_update_where resolved_addto_step [OF _ _ assms(2,3) localDeliveryCode_range [OF assms(4)]])
      (simp_all add: delivery_step_def)
  moreover have "d\<lparr>addtos := []\<rparr> = d0\<lparr>addtos := []\<rparr>" using True assms(1) by (simp add: delivery_step_def)
  ultimately show ?thesis using True
    by (simp add: delivery_step_def resolve_row_def responseCodeAccept_def)
next
  case False
  with assms(1) have "list_all2 (resolved_to i ldom addrs now) (tos d0)
      (update_where (pending_to i addr) (\<lambda>r. r\<lparr>t_delivered := (if c = 200 then Some now else None), t_code := Some c\<rparr>) (tos d))"
    by (intro list_all2_update_where resolved_to_step [OF _ _ assms(2,3) localDeliveryCode_range [OF assms(4)]])
      (simp_all add: delivery_step_def)
  moreover have "d\<lparr>tos := []\<rparr> = d0\<lparr>tos := []\<rparr>" using False assms(1) by (simp add: delivery_step_def)
  ultimately show ?thesis using False
    by (simp add: delivery_step_def resolve_row_def responseCodeAccept_def)
qed

lemma keeps_messageStoredSize [keeps_intros]: "keeps (\<lambda>w. P (db w)) (messageStoredSize E i)"
  unfolding messageStoredSize_def by (intro keeps_intros)

lemma keeps_resolve_one:
  assumes "addr \<in> addrs" and "EqualFold (addr_domain addr) ldom"
  shows "keeps (\<lambda>w. delivery_step addto i ldom addrs now d0 (db w)) (resolve_one E addto i now addr status detail sz)"
proof (cases "localDeliveryCode status detail sz")
  case None
  then show ?thesis by (simp add: resolve_one_def keeps_ret)
next
  case (Some c)
  have "keeps (\<lambda>w. delivery_step addto i ldom addrs now d0 (db w)) (stmt E (\<lambda>d. Inr (resolve_row addto i addr
              (if c = responseCodeAccept then Some now else None) c d)))"
    by (rule keeps_stmt) (metis Inr_inject delivery_step_resolve [OF _ assms Some] snd_conv)
  then show ?thesis
    unfolding resolve_one_def Some option.case by (intro keeps_intros)
qed

lemma keeps_resolve_loop:
  "set as \<subseteq> addrs \<Longrightarrow> keeps (\<lambda>w. delivery_step addto i ldom addrs now d0 (db w)) (resolve_loop E addto i ldom now sz as)"
proof (induction as arbitrary: sz)
  case Nil
  show ?case by (simp add: keeps_ret)
next
  case (Cons addr rest)
  then show ?case
    by (simp, intro conjI impI keeps_intros keeps_resolve_one) auto
qed

text \<open>Local delivery touches only what is its own: in the given table, only rows of this message for
  the listed addresses of the local domain that nothing has been decided for; such a row gets one of
  the four response codes, and a delivery time exactly when it is accepted.  Nothing else changes.\<close>

theorem resolveLocalDelivery_only_pending:
  "delivery_step addto i ldom (set addrs) (e_now E (tick w)) (db w)
     (db (snd (resolveLocalDelivery E addto i ldom addrs w)))"
proof -
  let ?now = "e_now E (tick w)"
  have "keeps (\<lambda>x. delivery_step addto i ldom (set addrs) ?now (db w) (db x)) (resolve_loop E addto i ldom ?now (-1) addrs)"
    by (rule keeps_resolve_loop) simp
  then have "delivery_step addto i ldom (set addrs) ?now (db w)
      (db (snd (resolve_loop E addto i ldom ?now (-1) addrs (w\<lparr>tick := Suc (tick w)\<rparr>))))"
    by (rule keepsD) (simp add: delivery_step_refl)
  then show ?thesis by (simp add: resolveLocalDelivery_def bind_def clock_def)
qed

text \<open>A lookup that fmsgid answers, and the answer of the example environment.\<close>

lemma FetchFmsgIDDetail_ok:
  assumes "e_fmsgid E (IdGet (fmsgIDAddressURL E addr) # idlog w) = IdReply 200 (Some body)"
    and "decode_detail body = Some d"
  shows "\<exists>w1. FetchFmsgIDDetail E addr w = (Inr (Some (Some d, 200)) :: 'a + _, w1)
    \<and> idlog w1 = IdGet (fmsgIDAddressURL E addr) # idlog w"
  using assms by (simp add: FetchFmsgIDDetail_def Let_def act_defs cache_store_def)

definition open_detail :: FmsgIDDetail where
  "open_detail = \<lparr>AcceptingNew = True, LimitRecvSizeTotal = -1, LimitRecvSizePer1d = -1, LimitRecvCountPer1d = -1,
     LimitSendSizeTotal = -1, LimitSendSizePerMsg = -1, LimitSendSizePer1d = -1, LimitSendCountPer1d = -1,
     RecvSizeTotal = 0, RecvSizePer1d = 0, RecvCountPer1d = 0, SendSizeTotal = 0, SendSizePer1d = 0, SendCountPer1d = 0\<rparr>"

lemma accepting_body_detail: "decode_detail accepting_body = Some open_detail"
  by code_simp

text \<open>What one resolution asks fmsgid and changes, when no statement fails.\<close>

lemma resolve_one_usage:
  assumes "\<not> aborted w" and "\<not> e_fail E (tick w)"
  shows "idlog (snd (resolve_one E addto i now addr status detail sz w)) =
    (if localDeliveryCode status detail sz = Some 200 \<and> 0 < fst (resolve_row addto i addr (Some now) 200 (db w))
     then IdUsage ''recv'' addr now sz # idlog w else idlog w)"
  using assms by (auto simp: resolve_one_def act_defs Let_def responseCodeAccept_def RecordFmsgIDRecv_def
      postFmsgIDUsage_def split: option.splits prod.splits)

text \<open>Usage is recorded for exactly the deliveries made here.  Resolving one local recipient records one
  received message with fmsgid if fmsgid accepts it and a row was still pending; an address that was
  resolved before, or that is refused, is not charged.\<close>

theorem delivery_usage:
  assumes "EqualFold (addr_domain addr) ldom" and "\<forall>n. \<not> e_fail E n" and "\<not> aborted w" and "0 \<le> sz"
    and "FetchFmsgIDDetail E addr w = (Inr (Some (detail, status)) :: 'e + _, w1)"
  shows "idlog (snd (resolve_loop E addto i ldom now sz [addr] w :: ('e + unit) \<times> world)) =
    (if localDeliveryCode status detail sz = Some 200 \<and> 0 < fst (resolve_row addto i addr (Some now) 200 (db w))
     then IdUsage ''recv'' addr now sz # idlog w1 else idlog w1)"
proof -
  have d: "db w1 = db w" by (rule same_db [OF keeps_FetchFmsgIDDetail assms(5)])
  have a: "\<not> aborted w1"
    using assms(3,5) by (auto simp: FetchFmsgIDDetail_def Let_def act_defs cache_store_def
        split: id_reply.splits if_splits option.splits)
  obtain r w2 where r: "resolve_one E addto i now addr status detail sz w1 = (r :: 'e + unit, w2)" by fastforce
  then have "idlog (snd (resolve_loop E addto i ldom now sz [addr] w :: ('e + unit) \<times> world)) = idlog w2"
    using assms by (auto simp: bind_def ret_def split: sum.splits)
  moreover have "idlog w2 = idlog (snd (resolve_one E addto i now addr status detail sz w1 :: ('e + unit) \<times> world))"
    using r by simp
  ultimately show ?thesis using resolve_one_usage [OF a, of E addto i now addr status detail sz] assms(2) d by simp
qed

definition delivery_world :: world where
  "delivery_world = example_world\<lparr>db := empty_db\<lparr>tos := [\<lparr>t_id = 1, t_msg = 1, t_addr = ''@bo@ex.org'',
     t_delivered = None, t_code = None, t_read = None\<rparr>]\<rparr>\<rparr>"

theorem delivery_usage_witness:
  "idlog (snd (resolve_loop id_env False 1 ''ex.org'' 7 5 [''@bo@ex.org''] delivery_world :: (unit + unit) \<times> world))
    = [IdUsage ''recv'' ''@bo@ex.org'' 7 5, IdGet ''/fmsgid/@bo@ex.org'']"
proof -
  have u: "fmsgIDAddressURL id_env ''@bo@ex.org'' = ''/fmsgid/@bo@ex.org''" by code_simp
  have e: "e_fmsgid id_env (IdGet (fmsgIDAddressURL id_env ''@bo@ex.org'') # idlog delivery_world) = IdReply 200 (Some accepting_body)"
    by (simp add: id_env_def)
  have l0: "idlog delivery_world = []" by (simp add: delivery_world_def example_world_def)
  obtain w1 where f: "FetchFmsgIDDetail id_env ''@bo@ex.org'' delivery_world
      = (Inr (Some (Some (open_detail), 200)) :: unit + _, w1)"
    and l1: "idlog w1 = [IdGet ''/fmsgid/@bo@ex.org'']"
    using FetchFmsgIDDetail_ok [where ?'a = unit, OF e accepting_body_detail] by (auto simp: u l0)
  have c: "localDeliveryCode 200 (Some (open_detail)) 5 = Some 200" by code_simp
  have h: "EqualFold (addr_domain ''@bo@ex.org'') ''ex.org''" by code_simp
  have h2: "\<forall>n. \<not> e_fail id_env n" "\<not> aborted delivery_world" "(0 :: int) \<le> 5"
    by (simp_all add: id_env_def example_env_def delivery_world_def example_world_def)
  have n: "0 < fst (resolve_row False 1 ''@bo@ex.org'' (Some 7) 200 (db delivery_world))"
    by (simp add: resolve_row_def delivery_world_def pending_to_def)
  show ?thesis unfolding delivery_usage [OF h h2 f] using c l1 n by simp
qed

subsection \<open>Properties of reply checks\<close>

lemma domain_verdict:
  "p \<in> set (if EqualFold x from_domain then [] else (case m (ToLower x) of None \<Rightarrow> [(x, NeverAddressed)]
        | Some s \<Rightarrow> if pd_delivered s \<or> pd_pending s \<or> pd_otherHost s then [] else [(x, DeliveryFailed (pd_codes s))]))
    \<longleftrightarrow> fst p = x \<and> \<not> EqualFold x from_domain \<and> (case m (ToLower x) of None \<Rightarrow> snd p = NeverAddressed
     | Some s \<Rightarrow> \<not> pd_delivered s \<and> \<not> pd_pending s \<and> \<not> pd_otherHost s \<and> snd p = DeliveryFailed (pd_codes s))"
  by (cases p; cases "m (ToLower x)") auto

lemma undeliverable_iff:
  "(d, why) \<in> set (undeliverableReplyDomains ds from_domain m) \<longleftrightarrow> d \<in> set ds \<and> \<not> EqualFold d from_domain \<and>
    (case m (ToLower d) of None \<Rightarrow> why = NeverAddressed
     | Some s \<Rightarrow> \<not> pd_delivered s \<and> \<not> pd_pending s \<and> \<not> pd_otherHost s \<and> why = DeliveryFailed (pd_codes s))"
  unfolding undeliverableReplyDomains_def set_concat set_map UN_iff bex_simps domain_verdict fst_conv snd_conv by auto

text \<open>The summary of a domain, read off the recipients directly.\<close>

definition domain_outcomes :: "string \<Rightarrow> (string \<times> bool \<times> int option) list \<Rightarrow> (bool \<times> int option) list" where
  "domain_outcomes key os = map snd (filter (\<lambda>x. ToLower (addr_domain (fst x)) = key) os)"

definition may_deliver :: "bool \<times> int option \<Rightarrow> bool" where
  "may_deliver x \<longleftrightarrow> fst x \<or> snd x \<in> {None, Some (-1), Some (-2)}"

lemma by_domain_fold:
  "by_domain os m key = (if domain_outcomes key os = [] then m key
     else Some (fold (\<lambda>(dl, c). add_outcome dl c) (domain_outcomes key os)
        (case m key of None \<Rightarrow> no_delivery | Some s \<Rightarrow> s)))"
proof (induction os arbitrary: m)
  case Nil
  show ?case by (simp add: domain_outcomes_def)
next
  case (Cons x xs)
  obtain a dl c where x: "x = (a, dl, c)" by (cases x) auto
  show ?case
    unfolding x by (simp add: Let_def Cons domain_outcomes_def)
qed

definition reachable :: "parentDomainDelivery \<Rightarrow> bool" where
  "reachable s \<longleftrightarrow> pd_delivered s \<or> pd_pending s \<or> pd_otherHost s"

lemma add_outcome_reachable: "reachable (add_outcome dl c s) \<longleftrightarrow> reachable s \<or> may_deliver (dl, c)"
  by (auto simp: reachable_def add_outcome_def may_deliver_def split: option.splits)

lemma fold_reachable:
  "reachable (fold (\<lambda>(dl, c). add_outcome dl c) xs s) \<longleftrightarrow> reachable s \<or> list_ex may_deliver xs"
proof (induction xs arbitrary: s)
  case Nil
  show ?case by simp
next
  case (Cons x xs)
  then show ?case by (cases x) (auto simp: add_outcome_reachable)
qed


text \<open>A parent with one recipient delivered and one refused on \<open>a.org\<close>, two refused on \<open>b.org\<close>: a reply
  to both domains and a third is refused for the second and the third.\<close>

definition outcome_db :: database where
  "outcome_db = empty_db\<lparr>tos := map (\<lambda>(k, a, t, c). \<lparr>t_id = k, t_msg = 1, t_addr = a, t_delivered = t, t_code = Some c, t_read = None\<rparr>)
     [(1, ''@x@a.org'', Some 9, 200), (2, ''@y@a.org'', None, 100), (3, ''@x@B.org'', None, 100), (4, ''@y@b.org'', None, 103)]\<rparr>"


lemma dedup_domains_set:
  "d \<in> set (dedup_domains ldom seen as) \<Longrightarrow> d \<in> addr_domain ` set as \<and> d \<noteq> [] \<and> \<not> EqualFold d ldom \<and> ToLower d \<notin> seen"
  by (induction as arbitrary: seen) (auto simp: Let_def split: if_splits)

lemma dedup_domains_complete:
  "a \<in> set as \<Longrightarrow> addr_domain a \<noteq> [] \<Longrightarrow> \<not> EqualFold (addr_domain a) ldom \<Longrightarrow>
    ToLower (addr_domain a) \<in> seen \<union> ToLower ` set (dedup_domains ldom seen as)"
proof (induction as arbitrary: seen)
  case Nil
  then show ?case by simp
next
  case (Cons b bs)
  then show ?case
    using Cons.IH [of seen] Cons.IH [of "insert (ToLower (addr_domain b)) seen"]
    by (cases "a = b") (auto simp: Let_def)
qed

end
