(* ===== verification/Transaction.thy ===== *)
theory Transaction
  imports Delivery
begin

text \<open>
  The transaction around every message mutation (\<open>src/internal/handlers/transaction.go\<close>, \<open>Atomic\<close>):
  begin, find and lock the message of the route, run the handler with its response buffered, and either
  commit and do what was put off until then, or roll back and remove the files the handler created.

  A rollback restores the tables; the id sequences keep their place, as PostgreSQL's do.  A commit of an
  aborted transaction is a rollback that reports an error.  A commit whose acknowledgement is lost
  (\<open>e_lost\<close>) took effect although it is reported as failed.
\<close>

subsection \<open>Deferred work\<close>

fun run_deferred :: "env \<Rightarrow> deferred \<Rightarrow> (response, unit) act" where
  "run_deferred E (DRemove p) = remove_file E p"
| "run_deferred E (DRecordSend sender ts sz) = recordSend E sender ts sz"
| "run_deferred E (DResolve addto i addrs) = resolveLocalDelivery E addto i (LocalDomain E) addrs"
| "run_deferred E (DRelease send addr ts sz) =
     bind (if send then ReleaseFmsgIDSend E addr ts sz else ReleaseFmsgIDRecv E addr ts sz) (\<lambda>_. ret ())"

definition run_all :: "env \<Rightarrow> deferred list \<Rightarrow> world \<Rightarrow> world" where
  "run_all E ds w = snd (each (run_deferred E) ds w)"

definition remove_created :: "env \<Rightarrow> string list \<Rightarrow> world \<Rightarrow> world" where
  "remove_created E ps w = snd (each (remove_file E) ps w :: (response + unit) \<times> world)"

subsection \<open>The transaction\<close>

definition begin_tx :: "world \<Rightarrow> world" where
  "begin_tx w = w\<lparr>intx := True, aborted := False, on_rollback := [], on_commit := []\<rparr>"

definition end_tx :: "world \<Rightarrow> world" where
  "end_tx w = w\<lparr>intx := False, aborted := False, on_rollback := [], on_commit := []\<rparr>"

definition roll_back :: "database \<Rightarrow> world \<Rightarrow> world" where
  "roll_back d0 w = (end_tx w)\<lparr>db := d0\<lparr>next_id := next_id (db w)\<rparr>\<rparr>"

definition lock_message :: "env \<Rightarrow> string \<Rightarrow> (response, unit) act" where
  "lock_message E param = (if param = [] then ret ()
     else bind (resolveID E param) (\<lambda>i. or_fail (sql_query E (\<lambda>_. ())) (err 500 ''failed to lock message'')))"

definition outcome :: "response + response \<Rightarrow> response" where
  "outcome r = (case r of Inl x \<Rightarrow> x | Inr x \<Rightarrow> x)"

definition commit_tx :: "env \<Rightarrow> database \<Rightarrow> response \<Rightarrow> world \<Rightarrow> response \<times> world" where
  "commit_tx E d0 resp w = (let w1 = w\<lparr>tick := Suc (tick w)\<rparr> in
     if aborted w then (err 500 ''failed to commit message mutation'', roll_back d0 w1)
     else if e_fail E (tick w) then (err 500 ''failed to commit message mutation'',
         if e_lost E (tick w) then end_tx w1 else roll_back d0 w1)
     else (resp, run_all E (on_commit w) (end_tx w1)))"

definition atomic :: "env \<Rightarrow> string \<Rightarrow> (response, response) act \<Rightarrow> world \<Rightarrow> response \<times> world" where
  "atomic E param handler w =
     (case or_fail (sql_query E (\<lambda>_. ())) (err 500 ''failed to begin message transaction'') w of
        (Inl e, w1) \<Rightarrow> (e, w1)
      | (Inr _, w1) \<Rightarrow> (case lock_message E param (begin_tx w1) of
           (Inl e, w2) \<Rightarrow> (e, roll_back (db w1) w2)
         | (Inr _, w2) \<Rightarrow> (case handler w2 of (r, w3) \<Rightarrow>
             if fst (outcome r) < 400 then commit_tx E (db w1) (outcome r) w3
             else (outcome r, remove_created E (on_rollback w3) (roll_back (db w1) w3)))))"

text \<open>A handler that is not wrapped: its response, and the state it leaves.\<close>

definition plain :: "(response, response) act \<Rightarrow> world \<Rightarrow> response \<times> world" where
  "plain handler w = (case handler w of (r, w1) \<Rightarrow> (outcome r, w1))"

subsection \<open>Lemmas\<close>

lemma roll_back_db [simp]: "db (roll_back d0 w) = d0\<lparr>next_id := next_id (db w)\<rparr>"
  and end_tx_db [simp]: "db (end_tx w) = db w"
  and begin_tx_db [simp]: "db (begin_tx w) = db w"
  and roll_back_files [simp]: "files (roll_back d0 w) = files w"
  and end_tx_files [simp]: "files (end_tx w) = files w"
  by (simp_all add: roll_back_def end_tx_def begin_tx_def)

lemma remove_created_db [simp]: "db (remove_created E ps w) = db w"
  unfolding remove_created_def
  by (rule keepsD [OF keeps_each [where P = "\<lambda>x. db x = db w"]]) (rule keeps_remove_file, simp)

lemma same_tables_refl: "d\<lparr>next_id := next_id d\<rparr> = d"
  by simp

lemma begin_same_db:
  "or_fail (sql_query E (\<lambda>_. ())) e w = (r, w1) \<Longrightarrow> db w1 = db w"
  by (rule same_db [OF keeps_or_fail [OF keeps_sql_query]])

lemma keeps_lock_message [keeps_intros]: "keeps (\<lambda>w. P (db w)) (lock_message E param)"
  unfolding lock_message_def by (intro keeps_intros)

lemma remove_created_files:
  "(\<forall>n. \<not> e_io_fail E n) \<Longrightarrow> files (remove_created E ps w) = files w |` (- set ps)"
proof (induction ps arbitrary: w)
  case Nil
  show ?case by (simp add: remove_created_def act_defs)
next
  case (Cons p ps)
  have "remove_created E (p # ps) w
      = remove_created E ps (w\<lparr>tick := Suc (tick w), files := (files w)(p := None)\<rparr>)"
    using Cons.prems by (simp add: remove_created_def act_defs)
  with Cons show ?case
    by (simp add: restrict_map_def fun_eq_iff)
qed

lemma resolveID_error: "resolveID E s w = (Inl e, w1) \<Longrightarrow> 400 \<le> fst e"
  by (auto simp: resolveID_def parseID_def require_row_def act_defs Let_def err_def not_found_def
      split: option.splits sum.splits if_splits prod.splits)

lemma resolveID_state:
  "resolveID E s w = (r, w1) \<Longrightarrow> files w1 = files w \<and> on_commit w1 = on_commit w \<and> on_rollback w1 = on_rollback w"
  by (auto simp: resolveID_def parseID_def require_row_def act_defs Let_def err_def not_found_def
      split: option.splits sum.splits if_splits prod.splits)

lemma lock_message_error: "lock_message E s w = (Inl e, w1) \<Longrightarrow> 400 \<le> fst e"
  by (cases "resolveID E s w") (auto simp: lock_message_def act_defs Let_def err_def dest: resolveID_error
      split: sum.splits if_splits prod.splits)

lemma lock_message_state:
  "lock_message E s w = (r, w1) \<Longrightarrow> files w1 = files w \<and> on_commit w1 = on_commit w \<and> on_rollback w1 = on_rollback w"
  by (cases "resolveID E s w") (auto simp: lock_message_def act_defs Let_def err_def dest!: resolveID_state
      split: sum.splits if_splits prod.splits)

text \<open>How a request may end.  Either it never reached the handler and changed no table, or the handler
  ran and its outcome decides.\<close>

lemma atomic_cases:
  assumes "atomic E param handler w = (resp, w1)"
  obtains (early) "db w1 = db w" and "files w1 = files w" and "400 \<le> fst resp"
  | (ran) w2 r w3 where "handler w2 = (r, w3)" and "db w2 = db w" and "files w2 = files w" and "on_commit w2 = []"
      and "on_rollback w2 = []" and "fst (outcome r) < 400"
      and "commit_tx E (db w) (outcome r) w3 = (resp, w1)"
  | (failed) w2 r w3 where "handler w2 = (r, w3)" and "db w2 = db w" and "files w2 = files w" and "on_commit w2 = []"
      and "on_rollback w2 = []" and "400 \<le> fst (outcome r)"
      and "resp = outcome r" and "w1 = remove_created E (on_rollback w3) (roll_back (db w) w3)"
proof -
  obtain b w0 where b0: "or_fail (sql_query E (\<lambda>_. ())) (err 500 ''failed to begin message transaction'') w = (b, w0)"
    by fastforce
  have d0: "db w0 = db w" by (rule begin_same_db [OF b0])
  have f0: "files w0 = files w" "case b of Inl e \<Rightarrow> 400 \<le> fst e | Inr _ \<Rightarrow> True"
    using b0 by (auto simp: act_defs Let_def err_def split: if_splits)
  show ?thesis
  proof (cases b)
    case (Inl e)
    with assms b0 d0 f0 show ?thesis using early by (simp add: atomic_def)
  next
    case (Inr u)
    obtain l w2 where lock: "lock_message E param (begin_tx w0) = (l, w2)" by fastforce
    have d2: "db w2 = db w" "files w2 = files w" "on_commit w2 = []" "on_rollback w2 = []"
      using same_db [OF keeps_lock_message lock] lock_message_state [OF lock] d0 f0 by (simp_all add: begin_tx_def)
    show ?thesis
    proof (cases l)
      case (Inl e)
      with assms b0 lock Inr d0 d2 lock_message_error [of E param "begin_tx w0" e w2] show ?thesis
        using early by (auto simp: atomic_def)
    next
      case (Inr u2)
      obtain r w3 where h: "handler w2 = (r, w3)" by fastforce
      show ?thesis
      proof (cases "fst (outcome r) < 400")
        case True
        with assms b0 lock \<open>b = Inr u\<close> Inr d0 h d2 show ?thesis using ran by (simp add: atomic_def)
      next
        case False
        with assms b0 lock \<open>b = Inr u\<close> Inr d0 h d2 show ?thesis using failed by (simp add: atomic_def)
      qed
    qed
  qed
qed

subsection \<open>Properties\<close>

lemma atomic_error_tables:
  assumes "atomic E param handler w = (resp, w1)" and "400 \<le> fst resp" and "\<forall>n. \<not> e_lost E n"
  shows "(db w1)\<lparr>next_id := 0\<rparr> = (db w)\<lparr>next_id := 0\<rparr>"
  using assms(1)
proof (cases rule: atomic_cases)
  case early
  then show ?thesis by simp
next
  case (ran w2 r w3)
  then show ?thesis using assms(2,3) by (auto simp: commit_tx_def Let_def split: if_splits)
next
  case (failed w2 r w3)
  then show ?thesis by simp
qed

text \<open>Without any assumption on what fails: after an error the tables are the ones of before, unless the
  commit itself took effect and only its acknowledgement was lost.\<close>

lemma atomic_error_outcome:
  assumes "atomic E param handler w = (resp, w1)" and "400 \<le> fst resp"
  shows "(db w1)\<lparr>next_id := 0\<rparr> = (db w)\<lparr>next_id := 0\<rparr>
    \<or> resp = err 500 ''failed to commit message mutation'' \<and> (\<exists>w2 r w3. handler w2 = (r, w3) \<and> db w2 = db w \<and> files w2 = files w
        \<and> fst (outcome r) < 400 \<and> e_fail E (tick w3) \<and> e_lost E (tick w3) \<and> db w1 = db w3 \<and> files w1 = files w3)"
  using assms(1)
proof (cases rule: atomic_cases)
  case early
  then show ?thesis by simp
next
  case (ran w2 r w3)
  from ran(7) assms(2) ran(6) have "db w1 = (db w)\<lparr>next_id := next_id (db w3)\<rparr>
      \<or> resp = err 500 ''failed to commit message mutation'' \<and> e_fail E (tick w3) \<and> e_lost E (tick w3)
        \<and> w1 = end_tx (w3\<lparr>tick := Suc (tick w3)\<rparr>)"
    by (auto simp: commit_tx_def Let_def split: if_splits)
  with ran show ?thesis by fastforce
next
  case (failed w2 r w3)
  then show ?thesis by simp
qed

text \<open>A mutation that is answered with an error leaves every table as it was, unless the answer is a
  commit that failed after it had taken effect.  Only the place of the id sequences may have moved.\<close>

theorem atomic_error_rolls_back:
  assumes "atomic E param handler w = (resp, w1)" and "400 \<le> fst resp" and "\<forall>n. \<not> e_lost E n"
  shows "(db w1)\<lparr>next_id := 0\<rparr> = (db w)\<lparr>next_id := 0\<rparr>"
  using assms by (rule atomic_error_tables)

definition example_mutation :: "env \<Rightarrow> response \<Rightarrow> (response, response) act" where
  "example_mutation E resp = bind (create_file E ''/d/f'' ''hi'') (\<lambda>_.
     bind (add_rollback [''/d/f'']) (\<lambda>_.
     bind (or_fail (sql_exec E (\<lambda>d. d\<lparr>noted := [(''c'', ''p'')]\<rparr>)) (err 500 ''failed'')) (\<lambda>_. ret resp)))"

lemma example_env_runs: "\<not> e_fail example_env n" "\<not> e_lost example_env n" "\<not> e_io_fail example_env n"
  by (simp_all add: example_env_def)

lemmas run_example = atomic_def example_mutation_def lock_message_def act_defs begin_tx_def outcome_def
  commit_tx_def run_all_def end_tx_def roll_back_def remove_created_def example_env_runs example_world_def Let_def

theorem atomic_error_rolls_back_witness:
  "noted (db (snd (atomic example_env [] (example_mutation example_env (413, JNull)) example_world))) = []"
proof -
  let ?a = "atomic example_env [] (example_mutation example_env (413, JNull)) example_world"
  have "400 \<le> fst (fst ?a)" by (simp add: run_example)
  then have "(db (snd ?a))\<lparr>next_id := 0\<rparr> = (db example_world)\<lparr>next_id := 0\<rparr>"
    by (rule atomic_error_rolls_back [OF surjective_pairing]) (simp add: example_env_runs)
  then have "noted ((db (snd ?a))\<lparr>next_id := 0\<rparr>) = noted ((db example_world)\<lparr>next_id := 0\<rparr>)" by (rule arg_cong)
  then show ?thesis by (simp add: example_world_def empty_db_def)
qed

text \<open>C15: a mutation that is answered with success committed exactly what its handler did, started from the
  tables and files as the request found them; what was put off runs afterwards and in order.\<close>

theorem atomic_success_commits:
  assumes "atomic E param handler w = (resp, w1)" and "fst resp < 400"
  shows "\<exists>w2 r w3. handler w2 = (r, w3) \<and> db w2 = db w \<and> files w2 = files w \<and> on_commit w2 = [] \<and> outcome r = resp
    \<and> \<not> aborted w3 \<and> w1 = run_all E (on_commit w3) (end_tx (w3\<lparr>tick := Suc (tick w3)\<rparr>))"
  using assms(1)
proof (cases rule: atomic_cases)
  case early
  then show ?thesis using assms(2) by simp
next
  case (ran w2 r w3)
  then show ?thesis using assms(2)
    by (intro exI [of _ w2] exI [of _ r] exI [of _ w3]) (auto simp: commit_tx_def Let_def err_def split: if_splits)
next
  case (failed w2 r w3)
  then show ?thesis using assms(2) by simp
qed

theorem atomic_success_commits_witness:
  "noted (db (snd (atomic example_env [] (example_mutation example_env (201, JNull)) example_world))) = [(''c'', ''p'')]"
proof -
  let ?a = "atomic example_env [] (example_mutation example_env (201, JNull)) example_world"
  have r: "fst ?a = (201, JNull)" by (simp add: run_example)
  then have "fst (fst ?a) < 400" by simp
  from atomic_success_commits [OF surjective_pairing this] r
  obtain w2 r w3 where h: "example_mutation example_env (201, JNull) w2 = (r, w3)" and o: "outcome r = (201, JNull)"
    and c: "on_commit w2 = []" and a: "snd ?a = run_all example_env (on_commit w3) (end_tx (w3\<lparr>tick := Suc (tick w3)\<rparr>))"
    by metis
  have "on_commit w3 = [] \<and> noted (db w3) = [(''c'', ''p'')]"
    using h o c by (auto simp: example_mutation_def act_defs err_def outcome_def Let_def example_env_runs split: if_splits)
  then show ?thesis unfolding a by (simp add: run_all_def act_defs end_tx_def)
qed

text \<open>Files follow the outcome.  When the handler's answer is an error, exactly the files it registered as
  created are removed; when only the commit is reported as failed, every file is kept, whether the rows
  were committed or not, so no payload of a committed row is lost.\<close>

theorem atomic_error_files:
  assumes "atomic E param handler w = (resp, w1)" and "400 \<le> fst resp" and "\<forall>n. \<not> e_io_fail E n"
  shows "files w1 = files w \<or> (\<exists>w2 r w3. handler w2 = (r, w3) \<and> files w2 = files w \<and>
     (if 400 \<le> fst (outcome r) then files w1 = files w3 |` (- set (on_rollback w3))
      else files w1 = files w3 \<and> (db w1 = db w3 \<or> db w1 = (db w)\<lparr>next_id := next_id (db w3)\<rparr>)))"
  using assms(1)
proof (cases rule: atomic_cases)
  case early
  then show ?thesis by simp
next
  case (ran w2 r w3)
  then show ?thesis using assms(2)
    by (intro disjI2 exI [of _ w2] exI [of _ r] exI [of _ w3]) (auto simp: commit_tx_def Let_def split: if_splits)
next
  case (failed w2 r w3)
  then show ?thesis
    by (intro disjI2 exI [of _ w2] exI [of _ r] exI [of _ w3]) (auto simp: remove_created_files [OF assms(3)])
qed

theorem atomic_error_files_witness:
  "files (snd (atomic example_env [] (example_mutation example_env (413, JNull)) example_world)) ''/d/f'' = None"
proof -
  let ?a = "atomic example_env [] (example_mutation example_env (413, JNull)) example_world"
  have "400 \<le> fst (fst ?a)" by (simp add: run_example)
  from atomic_error_files [OF surjective_pairing this]
  have "files (snd ?a) = files example_world \<or> (\<exists>w2 r w3. example_mutation example_env (413, JNull) w2 = (r, w3) \<and>
      (if 400 \<le> fst (outcome r) then files (snd ?a) = files w3 |` (- set (on_rollback w3)) else fst (outcome r) < 400))"
    by (fastforce simp: example_env_runs)
  then show ?thesis
    by (auto simp: example_mutation_def act_defs err_def outcome_def Let_def example_env_runs example_world_def
        split: if_splits)
qed

end
