(* ===== verification/Trash.thy ===== *)
theory Trash
  imports Transaction "HOL-Library.Option_ord"
begin

text \<open>
  Trash (\<open>src/internal/handlers/trash.go\<close> and the functions \<open>fmsg_api_trash_state\<close> and
  \<open>fmsg_api_delivery_pending\<close> of \<open>src/dd.sql\<close>).  Each address has its own: a row of \<open>fmsg_api_trash\<close>
  marks one message for one address, a thread mark covers everything below it, and a message deleted
  for good (purged) is removed from the host once nobody here holds it.

  Where a message stands is the strongest of what its own mark and its ancestors' marks say; the order
  of the states is an instance of \<open>linorder\<close>, so the state is a maximum.
\<close>

subsection \<open>States\<close>

datatype trash_state = InTrash | InThread | Purged

instantiation trash_state :: linorder
begin

definition less_eq_trash_state :: "trash_state \<Rightarrow> trash_state \<Rightarrow> bool" where
  "less_eq_trash_state a b = (a = InTrash \<or> a = b \<or> b = Purged)"

definition less_trash_state :: "trash_state \<Rightarrow> trash_state \<Rightarrow> bool" where
  "less_trash_state a b = (a \<noteq> b \<and> (a = InTrash \<or> b = Purged))"

instance
proof
  fix x y z :: trash_state
  show "x < y \<longleftrightarrow> x \<le> y \<and> \<not> y \<le> x"
    by (cases x; cases y) (simp_all add: less_trash_state_def less_eq_trash_state_def)
  show "x \<le> x" by (simp add: less_eq_trash_state_def)
  show "x \<le> z" if "x \<le> y" "y \<le> z"
    using that by (cases x; cases y; cases z) (simp_all add: less_eq_trash_state_def)
  show "x = y" if "x \<le> y" "y \<le> x"
    using that by (cases x; cases y) (simp_all add: less_eq_trash_state_def)
  show "x \<le> y \<or> y \<le> x" by (cases x; cases y) (simp_all add: less_eq_trash_state_def)
qed

end

definition trash_text :: "trash_state \<Rightarrow> string" where
  "trash_text s = (case s of InTrash \<Rightarrow> ''message'' | InThread \<Rightarrow> ''thread'' | Purged \<Rightarrow> ''purged'')"

text \<open>A message and its ancestors, at most \<open>n\<close> steps up.\<close>

fun ancestors :: "database \<Rightarrow> nat \<Rightarrow> int \<Rightarrow> int list" where
  "ancestors d 0 i = [i]"
| "ancestors d (Suc n) i = i # (case find_msg d i of None \<Rightarrow> []
     | Some m \<Rightarrow> (case m_pid m of None \<Rightarrow> [] | Some p \<Rightarrow> ancestors d n p))"

definition max_depth :: nat where
  "max_depth = 1000"

text \<open>The marks of an address on a message and its ancestors, with their distance.\<close>

definition marks :: "database \<Rightarrow> string \<Rightarrow> int \<Rightarrow> (nat \<times> trash_row) list" where
  "marks d addr i = concat (map (\<lambda>(k, j). map (Pair k) (filter (\<lambda>t. tr_addr t = addr \<and> tr_msg t = j) (trash d)))
     (enumerate 0 (ancestors d max_depth i)))"

definition fmsg_api_trash_state :: "database \<Rightarrow> string \<Rightarrow> int \<Rightarrow> trash_state option" where
  "fmsg_api_trash_state d addr i = (let ts = marks d addr i in
     if list_ex (\<lambda>(k, t). tr_purged t \<noteq> None) ts then Some Purged
     else if list_ex (\<lambda>(k, t). tr_thread t) ts then Some InThread
     else if list_ex (\<lambda>(k, t). k = 0) ts then Some InTrash
     else None)"

definition has_trash :: "database \<Rightarrow> string \<Rightarrow> bool" where
  "has_trash d addr \<longleftrightarrow> list_ex (\<lambda>t. tr_addr t = addr) (trash d)"

definition trashStateQ :: "env \<Rightarrow> string \<Rightarrow> int \<Rightarrow> (response, sql_error + trash_state option) act" where
  "trashStateQ E addr i = sql_query E (\<lambda>d.
     if has_trash d (ToLower addr) then fmsg_api_trash_state d (ToLower addr) i else None)"

definition purgedFor :: "env \<Rightarrow> string \<Rightarrow> int \<Rightarrow> (response, bool) act" where
  "purgedFor E addr i = bind (trashStateQ E addr i) (\<lambda>r. ret (case r of Inl _ \<Rightarrow> False | Inr s \<Rightarrow> s = Some Purged))"

definition hasTrash :: "env \<Rightarrow> string \<Rightarrow> (response, sql_error + bool) act" where
  "hasTrash E addr = sql_query E (\<lambda>d. has_trash d (ToLower addr))"

text \<open>The list modes; a missing \<open>trash\<close> parameter means \<open>exclude\<close>.\<close>

datatype list_mode = Exclude | Include | Only

definition trashListFilter :: "string option \<Rightarrow> (response, list_mode) act" where
  "trashListFilter v = (case v of None \<Rightarrow> ret Exclude
     | Some s \<Rightarrow> if s = ''exclude'' then ret Exclude else if s = ''include'' then ret Include
         else if s = ''only'' then ret Only
         else throw (err 400 ''trash must be exclude, include or only''))"

definition listed :: "list_mode \<Rightarrow> trash_state option \<Rightarrow> bool" where
  "listed mode s \<longleftrightarrow> (case mode of Exclude \<Rightarrow> s = None | Include \<Rightarrow> s \<noteq> Some Purged
     | Only \<Rightarrow> s = Some InTrash \<or> s = Some InThread)"

definition boolQuery :: "string \<Rightarrow> bool" where
  "boolQuery v \<longleftrightarrow> ToLower v = ''true'' \<or> ToLower v = ''1''"

definition localDomains :: "env \<Rightarrow> string list" where
  "localDomains E = (if LocalDomain E = [] then [] else [ToLower (LocalDomain E)])"

subsection \<open>Participants and subtrees\<close>

definition receives :: "database \<Rightarrow> string \<Rightarrow> int \<Rightarrow> bool" where
  "receives d addr i \<longleftrightarrow> list_ex (\<lambda>r. ToLower (t_addr r) = addr) (to_rows d i)
     \<or> list_ex (\<lambda>r. ToLower (a_addr r) = addr) (addto_rows d i)"

definition takes_part :: "database \<Rightarrow> string \<Rightarrow> int \<Rightarrow> bool" where
  "takes_part d addr i \<longleftrightarrow> list_ex (\<lambda>m. m_id m = i \<and> ToLower (m_from m) = addr) (msgs d) \<or> receives d addr i"

definition participates :: "env \<Rightarrow> string \<Rightarrow> int \<Rightarrow> (response, sql_error + bool) act" where
  "participates E addr i = sql_query E (\<lambda>d. takes_part d (ToLower addr) i)"

definition children :: "database \<Rightarrow> int \<Rightarrow> int list" where
  "children d i = map m_id (filter (\<lambda>m. m_pid m = Some i) (msgs d))"

fun sub_rows :: "database \<Rightarrow> nat \<Rightarrow> nat \<Rightarrow> int list \<Rightarrow> (int \<times> nat) list" where
  "sub_rows d 0 k is = map (\<lambda>i. (i, k)) is"
| "sub_rows d (Suc n) k is = map (\<lambda>i. (i, k)) is @
     (case concat (map (children d) is) of [] \<Rightarrow> [] | c # cs \<Rightarrow> sub_rows d n (Suc k) (c # cs))"

definition depth_in :: "(int \<times> nat) list \<Rightarrow> int \<Rightarrow> nat" where
  "depth_in rows i = foldr (\<lambda>(j, k) m. if j = i then max k m else m) rows 0"

definition sent_to :: "database \<Rightarrow> string \<Rightarrow> int \<Rightarrow> bool" where
  "sent_to d addr i \<longleftrightarrow> (case find_msg d i of None \<Rightarrow> False
     | Some m \<Rightarrow> m_time m \<noteq> None \<and> (ToLower (m_from m) = addr \<or> receives d addr i))"

definition subtree :: "database \<Rightarrow> string \<Rightarrow> int \<Rightarrow> int list" where
  "subtree d addr i = (let rows = sub_rows d max_depth 0 [i];
       ids = remdups (filter (sent_to d addr) (map fst rows)) in
     sort_key (\<lambda>j. - int (depth_in rows j)) (sort_key uminus ids))"

definition trashSubtree :: "env \<Rightarrow> string \<Rightarrow> int \<Rightarrow> (response, sql_error + int list) act" where
  "trashSubtree E addr i = sql_query E (\<lambda>d. subtree d (ToLower addr) i)"

definition notify :: "string \<Rightarrow> string \<Rightarrow> database \<Rightarrow> database" where
  "notify ch payload d = d\<lparr>noted := noted d @ [(ch, payload)]\<rparr>"

definition notifyTrash :: "env \<Rightarrow> string \<Rightarrow> int list \<Rightarrow> (response, unit) act" where
  "notifyTrash E addr is = each (\<lambda>i. bind (sql_exec E (notify ''msg_trash'' (Itoa i @ '','' @ addr)))
     (\<lambda>_. ret ())) is"

subsection \<open>Moving to the trash and back\<close>

definition mark_row :: "string \<Rightarrow> int \<Rightarrow> bool \<Rightarrow> time \<Rightarrow> database \<Rightarrow> database" where
  "mark_row addr i thread now d = (if list_ex (\<lambda>t. tr_addr t = addr \<and> tr_msg t = i) (trash d)
     then d\<lparr>trash := update_where (\<lambda>t. tr_addr t = addr \<and> tr_msg t = i)
         (\<lambda>t. t\<lparr>tr_thread := tr_thread t \<or> thread\<rparr>) (trash d)\<rparr>
     else d\<lparr>trash := trash d @ [\<lparr>tr_addr = addr, tr_msg = i, tr_thread = thread, tr_deleted = now, tr_purged = None\<rparr>]\<rparr>)"

definition purge_row :: "string \<Rightarrow> int \<Rightarrow> bool \<Rightarrow> time \<Rightarrow> database \<Rightarrow> database" where
  "purge_row addr i thread now d = (if list_ex (\<lambda>t. tr_addr t = addr \<and> tr_msg t = i) (trash d)
     then d\<lparr>trash := update_where (\<lambda>t. tr_addr t = addr \<and> tr_msg t = i)
         (\<lambda>t. t\<lparr>tr_thread := tr_thread t \<or> thread, tr_purged := Some now\<rparr>) (trash d)\<rparr>
     else d\<lparr>trash := trash d @ [\<lparr>tr_addr = addr, tr_msg = i, tr_thread = thread, tr_deleted = now, tr_purged = Some now\<rparr>]\<rparr>)"

definition unmark_rows :: "string \<Rightarrow> int list \<Rightarrow> database \<Rightarrow> database" where
  "unmark_rows addr is d = d\<lparr>trash := delete_where (\<lambda>t. tr_addr t = addr \<and> tr_msg t \<in> set is \<and> tr_purged t = None) (trash d)\<rparr>"

subsection \<open>Deleting for good\<close>

record usageRelease =
  ur_send :: bool
  ur_size :: int

definition fileSize :: "env \<Rightarrow> (string \<rightharpoonup> string) \<Rightarrow> string \<Rightarrow> int \<Rightarrow> int" where
  "fileSize E stored path fallback = (case safeDataPath (e_cwd E) path (DataDir E) of None \<Rightarrow> fallback
     | Some p \<Rightarrow> (case stored p of None \<Rightarrow> fallback | Some content \<Rightarrow> int (length content)))"

fun expanded :: "env \<Rightarrow> (string \<rightharpoonup> string) \<Rightarrow> int \<Rightarrow> att_row list \<Rightarrow> int" where
  "expanded E stored sz [] = sz"
| "expanded E stored sz (a # as) = expanded E stored (wrap64 (sz +
     (if at_flags a div 2 mod 2 = 1 then fileSize E stored (at_path a) (at_size a) else at_size a))) as"

definition recordedSize :: "env \<Rightarrow> int \<Rightarrow> string \<Rightarrow> (response, int option) act" where
  "recordedSize E i from_addr = (if list_ex (\<lambda>d. EqualFold (addr_domain from_addr) d) (localDomains E)
     then messageStoredSize E i
     else bind (sql_query E (\<lambda>d. find_msg d i)) (\<lambda>r. case r of
        Inl _ \<Rightarrow> ret None
      | Inr None \<Rightarrow> ret None
      | Inr (Some m) \<Rightarrow> bind get_world (\<lambda>w.
          let sz = (if m_deflate m then fileSize E (files w) (m_path m) (m_size m) else m_size m) in
          bind (sql_query E (\<lambda>d. att_rows d i)) (\<lambda>q. case q of Inl _ \<Rightarrow> ret None
           | Inr as \<Rightarrow> ret (Some (expanded E (files w) sz as))))))"

definition deliveries_of :: "database \<Rightarrow> string \<Rightarrow> int \<Rightarrow> nat" where
  "deliveries_of d addr i = length (filter (\<lambda>r. ToLower (t_addr r) = addr \<and> t_delivered r \<noteq> None) (to_rows d i))
     + length (filter (\<lambda>r. ToLower (a_addr r) = addr \<and> a_delivered r \<noteq> None) (addto_rows d i))"

definition usageOf :: "env \<Rightarrow> string \<Rightarrow> int \<Rightarrow> (response, usageRelease list option) act" where
  "usageOf E addr i = bind (sql_query E (\<lambda>d. map_option (\<lambda>m. (m_from m, m_time m \<noteq> None, deliveries_of d addr i))
      (find_msg d i))) (\<lambda>r. case r of
     Inl _ \<Rightarrow> ret None
   | Inr None \<Rightarrow> ret None
   | Inr (Some (from_addr, sent, deliveries)) \<Rightarrow>
       let isSender = (sent \<and> EqualFold from_addr addr) in
       if \<not> isSender \<and> deliveries = 0 then ret (Some [])
       else bind (recordedSize E i from_addr) (\<lambda>q. case q of None \<Rightarrow> ret None
         | Some sz \<Rightarrow> ret (Some ((if isSender then [\<lparr>ur_send = True, ur_size = sz\<rparr>] else [])
             @ replicate deliveries \<lparr>ur_send = False, ur_size = sz\<rparr>))))"

definition purged_row :: "database \<Rightarrow> string \<Rightarrow> int \<Rightarrow> bool" where
  "purged_row d addr i \<longleftrightarrow> list_ex (\<lambda>t. tr_addr t = addr \<and> tr_msg t = i \<and> tr_purged t \<noteq> None) (trash d)"

fun markPurged :: "env \<Rightarrow> string \<Rightarrow> int \<Rightarrow> time \<Rightarrow> nat \<Rightarrow> usageRelease list \<Rightarrow> int list
    \<Rightarrow> (response, nat \<times> usageRelease list) act" where
  "markPurged E identity threadTop now n rel [] = ret (n, rel)"
| "markPurged E identity threadTop now n rel (i # is) =
     bind (or_fail (sql_query E (\<lambda>d. purged_row d identity i)) (err 500 ''failed to delete message'')) (\<lambda>already.
     if already then markPurged E identity threadTop now n rel is
     else bind (or_fail (sql_exec E (purge_row identity i (threadTop \<noteq> 0 \<and> i = threadTop) now))
            (err 500 ''failed to delete message'')) (\<lambda>_.
          bind (usageOf E identity i) (\<lambda>u. case u of None \<Rightarrow> throw (err 500 ''failed to delete message'')
           | Some more_rel \<Rightarrow> markPurged E identity threadTop now (Suc n) (rel @ more_rel) is)))"

subsection \<open>Removing from the host\<close>

definition retryableResponseCodes :: "int list" where
  "retryableResponseCodes = [-1, 3, 5, 101]"

definition retryMaxAge :: "env \<Rightarrow> time" where
  "retryMaxAge E = (if RetryMaxAge E > 0 then RetryMaxAge E else 86400 * 1000000)"

definition retryable :: "int option \<Rightarrow> bool" where
  "retryable c \<longleftrightarrow> (case c of None \<Rightarrow> True | Some x \<Rightarrow> x \<in> set retryableResponseCodes)"

definition fmsg_api_delivery_pending :: "database \<Rightarrow> int \<Rightarrow> time \<Rightarrow> time \<Rightarrow> bool" where
  "fmsg_api_delivery_pending d i now max_age \<longleftrightarrow>
     list_ex (\<lambda>r. list_ex (\<lambda>m. m_id m = i \<and> (case m_time m of None \<Rightarrow> False | Some t \<Rightarrow> now - t < max_age)) (msgs d)
        \<and> t_delivered r = None \<and> retryable (t_code r)) (to_rows d i)
   \<or> list_ex (\<lambda>r. list_ex (\<lambda>b. b_id b = a_batch r \<and> now - b_time b < max_age) (batches d)
        \<and> a_delivered r = None \<and> retryable (a_code r)) (addto_rows d i)
   \<or> list_ex (\<lambda>n. list_ex (\<lambda>b. b_id b = n_batch n \<and> b_msg b = i \<and> now - b_time b < max_age) (batches d)
        \<and> n_time n = None \<and> retryable (n_code n)) (notifies d)"

definition holders :: "database \<Rightarrow> int \<Rightarrow> string list" where
  "holders d i = map m_from (filter (\<lambda>m. m_id m = i \<and> m_time m \<noteq> None) (msgs d))
     @ map t_addr (filter (\<lambda>r. t_delivered r \<noteq> None) (to_rows d i))
     @ map a_addr (filter (\<lambda>r. a_delivered r \<noteq> None) (addto_rows d i))"

definition held :: "env \<Rightarrow> database \<Rightarrow> int \<Rightarrow> bool" where
  "held E d i \<longleftrightarrow> list_ex (\<lambda>a. split_part (ToLower a) (CHR ''@'') 3 \<in> set (localDomains E)
     \<and> \<not> purged_row d (ToLower a) i) (holders d i)"

definition remove_row :: "int \<Rightarrow> database \<Rightarrow> database" where
  "remove_row i d = d\<lparr>msgs := delete_where (\<lambda>m. m_id m = i) (msgs d), trash := delete_where (\<lambda>t. tr_msg t = i) (trash d)\<rparr>"

definition in_batches :: "database \<Rightarrow> int \<Rightarrow> int \<Rightarrow> bool" where
  "in_batches d i b \<longleftrightarrow> list_ex (\<lambda>x. b_id x = b \<and> b_msg x = i) (batches d)"

text \<open>The statements that remove a message, in their order; a row of \<open>fmsg_api_trash\<close> goes with its
  message (\<open>ON DELETE CASCADE\<close>).\<close>

definition removal :: "int \<Rightarrow> (database \<Rightarrow> database) list" where
  "removal i = [(\<lambda>d. d),
     (\<lambda>d. d\<lparr>msgs := update_where (\<lambda>m. m_pid m = Some i) (\<lambda>m. m\<lparr>m_pid := None\<rparr>) (msgs d)\<rparr>),
     (\<lambda>d. d\<lparr>notifies := delete_where (\<lambda>n. in_batches d i (n_batch n)) (notifies d)\<rparr>),
     (\<lambda>d. d\<lparr>addtos := delete_where (\<lambda>r. a_msg r = i) (addtos d)\<rparr>),
     (\<lambda>d. d\<lparr>batches := delete_where (\<lambda>b. b_msg b = i) (batches d)\<rparr>),
     (\<lambda>d. d\<lparr>tos := delete_where (\<lambda>r. t_msg r = i) (tos d)\<rparr>),
     (\<lambda>d. d\<lparr>atts := delete_where (\<lambda>r. at_msg r = i) (atts d)\<rparr>),
     remove_row i]"

fun unshared :: "env \<Rightarrow> string list \<Rightarrow> (response, string list) act" where
  "unshared E [] = ret []"
| "unshared E (p # ps) = (case safeDataPath (e_cwd E) p (DataDir E) of
     None \<Rightarrow> unshared E ps
   | Some clean \<Rightarrow> bind (or_fail (sql_query E (\<lambda>d. list_ex (\<lambda>m. m_path m = p) (msgs d) \<or> list_ex (\<lambda>a. at_path a = p) (atts d)))
        (err 500 ''failed to delete message'')) (\<lambda>shared.
      bind (unshared E ps) (\<lambda>rest. ret (if shared then rest else clean # rest))))"

definition removeIfUnheld :: "env \<Rightarrow> int \<Rightarrow> (response, string list option) act" where
  "removeIfUnheld E i = bind (clock E) (\<lambda>now.
     bind (or_fail (sql_query E (\<lambda>d. held E d i \<or> fmsg_api_delivery_pending d i now (retryMaxAge E)))
        (err 500 ''failed to delete message'')) (\<lambda>keep. if keep then ret None else
     bind (or_fail (sql_query E (\<lambda>d. map_option m_path (find_msg d i))) (err 500 ''failed to delete message'')) (\<lambda>body.
     case body of None \<Rightarrow> throw (err 500 ''failed to delete message'')
     | Some p \<Rightarrow>
       bind (or_fail (sql_query E (\<lambda>d. map at_path (att_rows d i))) (err 500 ''failed to delete message'')) (\<lambda>ps.
       bind (each (\<lambda>f. or_fail (sql_exec E f) (err 500 ''failed to delete message'')) (removal i)) (\<lambda>_.
       bind (unshared E (p # ps)) (\<lambda>fl. ret (Some fl)))))))"

fun removeUnheld :: "env \<Rightarrow> nat \<Rightarrow> string list \<Rightarrow> int list \<Rightarrow> (response, nat \<times> string list) act" where
  "removeUnheld E n fl [] = ret (n, fl)"
| "removeUnheld E n fl (i # is) = bind (removeIfUnheld E i) (\<lambda>r. case r of
     None \<Rightarrow> removeUnheld E n fl is
   | Some ps \<Rightarrow> removeUnheld E (Suc n) (fl @ ps) is)"

definition purge :: "env \<Rightarrow> string \<Rightarrow> int \<Rightarrow> bool \<Rightarrow> (response, response) act" where
  "purge E identity i thread =
     bind (or_fail (trashSubtree E identity i) (err 500 ''failed to delete message'')) (\<lambda>ids.
     bind (clock E) (\<lambda>now.
     bind (markPurged E identity (if thread then i else 0) now 0 [] ids) (\<lambda>(purged_n, releases).
     bind (removeUnheld E 0 [] ids) (\<lambda>(removed, fl).
     bind (notifyTrash E identity ids) (\<lambda>_.
     bind (add_commit (map DRemove fl)) (\<lambda>_.
     bind (add_commit (if IDURL E \<noteq> [] \<and> releases \<noteq> []
        then map (\<lambda>r. DRelease (ur_send r) identity now (ur_size r)) releases else [])) (\<lambda>_.
     ret (200, JObj [(''id'', JInt i), (''trash'', JStr ''purged''), (''purged'', JInt (int purged_n)),
        (''removed'', JInt (int removed))]))))))))"

definition trashSent :: "env \<Rightarrow> string \<Rightarrow> int \<Rightarrow> string \<Rightarrow> string \<Rightarrow> (response, response) act" where
  "trashSent E caller i thread_q permanent_q = (let identity = ToLower caller in
     bind (or_fail (participates E identity i) (err 500 ''failed to delete message'')) (\<lambda>ok.
     bind (or_fail (trashStateQ E identity i) (err 500 ''failed to delete message'')) (\<lambda>state.
     if \<not> ok \<or> state = Some Purged then throw not_found
     else (let thread = boolQuery thread_q in
       if boolQuery permanent_q then purge E identity i thread
       else bind (clock E) (\<lambda>now.
         bind (or_fail (sql_exec E (mark_row identity i thread now)) (err 500 ''failed to delete message'')) (\<lambda>_.
         bind (if thread then or_fail (trashSubtree E identity i) (err 500 ''failed to delete message'') else ret [i]) (\<lambda>ids.
         bind (notifyTrash E identity ids) (\<lambda>_.
         bind (if thread then ret (Some InThread)
               else bind (trashStateQ E identity i) (\<lambda>q. ret (case q of Inl _ \<Rightarrow> Some InTrash | Inr s \<Rightarrow> s))) (\<lambda>st.
         ret (200, JObj [(''id'', JInt i), (''trash'', JStr (case st of None \<Rightarrow> [] | Some s \<Rightarrow> trash_text s))]))))))))))"

definition Restore :: "env \<Rightarrow> string \<Rightarrow> string \<Rightarrow> string \<Rightarrow> (response, response) act" where
  "Restore E caller param thread_q = (let identity = ToLower caller in
     bind (resolveID E param) (\<lambda>i.
     bind (or_fail (participates E identity i) (err 500 ''failed to restore message'')) (\<lambda>ok.
     bind (if ok then purgedFor E identity i else ret False) (\<lambda>purged_already.
     if \<not> ok \<or> purged_already then throw not_found
     else bind (if boolQuery thread_q then or_fail (trashSubtree E identity i) (err 500 ''failed to restore message'')
                else ret [i]) (\<lambda>ids.
       bind (or_fail (sql_exec E (unmark_rows identity ids)) (err 500 ''failed to restore message'')) (\<lambda>_.
       bind (notifyTrash E identity ids) (\<lambda>_.
       bind (trashStateQ E identity i) (\<lambda>q.
       ret (200, JObj [(''id'', JInt i), (''trash'', case q of Inr (Some s) \<Rightarrow> JStr (trash_text s) | _ \<Rightarrow> JNull)])))))))))"

subsection \<open>Where a message stands\<close>

definition marked :: "database \<Rightarrow> string \<Rightarrow> int set \<Rightarrow> (trash_row \<Rightarrow> bool) \<Rightarrow> bool" where
  "marked d addr is P \<longleftrightarrow> (\<exists>t \<in> set (trash d). tr_addr t = addr \<and> tr_msg t \<in> is \<and> P t)"

lemma ancestors_hd: "\<exists>rest. ancestors d n i = i # rest"
  by (cases n) simp_all

lemma enumerate_ex:
  "list_ex (\<lambda>(k, t). P t) (concat (map (\<lambda>(k, j). map (Pair k) (filter (\<lambda>t. Q t \<and> f t = j) ts)) (enumerate n js)))
    \<longleftrightarrow> (\<exists>t \<in> set ts. Q t \<and> f t \<in> set js \<and> P t)"
proof (induction js arbitrary: n)
  case Nil
  show ?case by simp
next
  case (Cons j js)
  have pair: "list_ex (\<lambda>(k, t). P t) (map (Pair n) ys) = list_ex P ys" for ys
    by (induction ys) simp_all
  show ?case by (simp add: Cons.IH pair) (auto simp: list_ex_iff)
qed

lemma marks_ex: "list_ex (\<lambda>(k, t). P t) (marks d addr i) \<longleftrightarrow> marked d addr (set (ancestors d max_depth i)) P"
  unfolding marks_def marked_def by (rule enumerate_ex)

lemma marks_zero: "list_ex (\<lambda>(k, t). k = 0) (marks d addr i) \<longleftrightarrow> marked d addr {i} (\<lambda>_. True)"
proof -
  obtain rest where r: "ancestors d max_depth i = i # rest" using ancestors_hd by blast
  have "(0, j) \<in> set (enumerate 0 (i # rest)) \<longleftrightarrow> j = i" for j
    by (auto simp: in_set_enumerate_eq)
  then show ?thesis by (fastforce simp: list_ex_iff marks_def marked_def r)
qed

lemma trash_state_marked:
  "fmsg_api_trash_state d addr i = (let up = set (ancestors d max_depth i) in
     if marked d addr up (\<lambda>t. tr_purged t \<noteq> None) then Some Purged
     else if marked d addr up tr_thread then Some InThread
     else if marked d addr {i} (\<lambda>_. True) then Some InTrash else None)"
  unfolding fmsg_api_trash_state_def Let_def marks_zero
  using marks_ex [of "\<lambda>t. tr_purged t \<noteq> None" d addr i] marks_ex [of tr_thread d addr i] by simp

text \<open>The shortcut for addresses without trash changes nothing.\<close>

lemma trash_shortcut: "\<not> has_trash d addr \<Longrightarrow> fmsg_api_trash_state d addr i = None"
  by (auto simp: trash_state_marked marked_def has_trash_def list_ex_iff Let_def)

lemma trashStateQ_Inr:
  "trashStateQ E addr i w = (Inr (Inr s), w2) \<longleftrightarrow> \<not> aborted w \<and> \<not> e_fail E (tick w)
     \<and> s = fmsg_api_trash_state (db w) (ToLower addr) i \<and> w2 = w\<lparr>tick := Suc (tick w)\<rparr>"
  using trash_shortcut [of "db w" "ToLower addr" i] by (auto simp: trashStateQ_def sql_query_Inr)

lemma ancestors_short: "length (ancestors d (Suc n) i) \<le> Suc n \<Longrightarrow> ancestors d n i = ancestors d (Suc n) i"
  by (induction n arbitrary: i) (auto split: option.splits)

text \<open>What a message's own mark says, and what its parent's state says about it.\<close>

definition own_state :: "database \<Rightarrow> string \<Rightarrow> int \<Rightarrow> trash_state option" where
  "own_state d addr i = (if marked d addr {i} (\<lambda>t. tr_purged t \<noteq> None) then Some Purged
     else if marked d addr {i} tr_thread then Some InThread
     else if marked d addr {i} (\<lambda>_. True) then Some InTrash else None)"

definition inherited :: "trash_state option \<Rightarrow> trash_state option" where
  "inherited s = (if s = Some InTrash then None else s)"

lemma marked_insert: "marked d addr (insert i is) P \<longleftrightarrow> marked d addr {i} P \<or> marked d addr is P"
  by (auto simp: marked_def)

lemma trash_state_le [simp]:
  "(InTrash :: trash_state) \<le> s" "s \<le> (Purged :: trash_state)"
  "InThread \<le> s \<longleftrightarrow> s \<noteq> InTrash" "Purged \<le> s \<longleftrightarrow> s = Purged"
  by (cases s; simp add: less_eq_trash_state_def)+

lemma max_states:
  "max (if c1 then Some Purged else if c2 then Some InThread else if c3 then Some InTrash else None)
        (inherited (if a then Some Purged else if b then Some InThread else if c then Some InTrash else None))
      = (if c1 \<or> a then Some Purged else if c2 \<or> b then Some InThread else if c3 then Some InTrash else None)"
  by (simp add: inherited_def max_def)

text \<open>C16: a message stands where the stronger of its own mark and its parent's state puts it: a thread mark
  and a deletion for good pass down to every reply, whenever it arrives, and a single deleted message
  does not.  (The walk up stops after 1000 messages; the parent's must end before that.)\<close>

theorem trash_state_step:
  assumes "find_msg d i = Some m" and "m_pid m = Some p" and "length (ancestors d max_depth p) \<le> max_depth"
  shows "fmsg_api_trash_state d addr i = max (own_state d addr i) (inherited (fmsg_api_trash_state d addr p))"
proof -
  obtain n where n: "max_depth = Suc n" by (simp add: max_depth_def)
  have "set (ancestors d max_depth i) = insert i (set (ancestors d max_depth p))"
  proof -
    have "ancestors d (Suc n) i = i # ancestors d n p" using assms(1,2) by simp
    moreover have "ancestors d n p = ancestors d (Suc n) p" using assms(3) unfolding n by (rule ancestors_short)
    ultimately show ?thesis unfolding n by (metis list.simps(15))
  qed
  then have up: "marked d addr (set (ancestors d max_depth i)) P
      \<longleftrightarrow> marked d addr {i} P \<or> marked d addr (set (ancestors d max_depth p)) P" for P
    using marked_insert [of d addr i "set (ancestors d max_depth p)" P] by simp
  show ?thesis unfolding trash_state_marked own_state_def Let_def up by (rule max_states [symmetric])
qed

definition thread_db :: database where
  "thread_db = empty_db\<lparr>
     msgs := [\<lparr>m_id = 1, m_version = 1, m_pid = None, m_no_reply = False, m_important = False, m_deflate = False,
        m_terminal = False, m_time = Some 5, m_sha256 = Some ''h'', m_psha256 = None, m_from = ''@al@ex.org'', m_topic = ''t'',
        m_type = ''text/plain'', m_size = 2, m_path = ''/d/1''\<rparr>,
       \<lparr>m_id = 2, m_version = 1, m_pid = Some 1, m_no_reply = False, m_important = False, m_deflate = False,
        m_terminal = False, m_time = Some 6, m_sha256 = Some ''i'', m_psha256 = None, m_from = ''@bo@ex.org'', m_topic = [],
        m_type = ''text/plain'', m_size = 3, m_path = ''/d/2''\<rparr>],
     tos := [\<lparr>t_id = 1, t_msg = 1, t_addr = ''@bo@ex.org'', t_delivered = Some 5, t_code = Some 200, t_read = None\<rparr>,
       \<lparr>t_id = 2, t_msg = 2, t_addr = ''@al@ex.org'', t_delivered = Some 6, t_code = Some 200, t_read = None\<rparr>],
     trash := [\<lparr>tr_addr = ''@bo@ex.org'', tr_msg = 1, tr_thread = True, tr_deleted = 7, tr_purged = None\<rparr>],
     next_id := 3\<rparr>"

theorem trash_state_step_witness:
  "fmsg_api_trash_state thread_db ''@bo@ex.org'' 2 = Some InThread
   \<and> fmsg_api_trash_state thread_db ''@al@ex.org'' 2 = None"
proof -
  have "\<exists>m. find_msg thread_db 2 = Some m \<and> m_pid m = Some 1"
    and "length (ancestors thread_db max_depth 1) \<le> max_depth"
    and o: "own_state thread_db ''@bo@ex.org'' 2 = None" "own_state thread_db ''@al@ex.org'' 2 = None"
    and p: "fmsg_api_trash_state thread_db ''@bo@ex.org'' 1 = Some InThread"
           "fmsg_api_trash_state thread_db ''@al@ex.org'' 1 = None"
    by (auto simp: thread_db_def find_msg_def max_depth_def own_state_def marked_def trash_state_marked
        numeral_eq_Suc)
  then show ?thesis using trash_state_step [of thread_db 2 _ 1] by (auto simp: inherited_def max_def)
qed

subsection \<open>Whose trash changes\<close>

definition ids :: "database \<Rightarrow> int set" where
  "ids d = m_id ` set (msgs d)"

text \<open>\<open>trash_step a d0 d\<close>: of the marks of messages that are still on the host, those of other addresses
  than \<open>a\<close> are the same in both, and no deletion for good has been undone; no message appeared.\<close>

definition trash_step :: "string \<Rightarrow> database \<Rightarrow> database \<Rightarrow> bool" where
  "trash_step a d0 d \<longleftrightarrow> ids d \<subseteq> ids d0
     \<and> (\<forall>t. tr_addr t \<noteq> a \<longrightarrow> tr_msg t \<in> ids d \<longrightarrow> (t \<in> set (trash d) \<longleftrightarrow> t \<in> set (trash d0)))
     \<and> (\<forall>i \<in> ids d. purged_row d0 a i \<longrightarrow> purged_row d a i)"

lemma trash_step_refl: "trash_step a d d"
  by (simp add: trash_step_def)

lemma ids_update: "(\<And>m. m_id (f m) = m_id m) \<Longrightarrow> m_id ` set (update_where P f ms) = m_id ` set ms"
  by (simp only: set_map [symmetric] map_update_where)

lemma trash_step_same: "trash_step a d0 d \<Longrightarrow> ids d1 = ids d \<Longrightarrow> trash d1 = trash d \<Longrightarrow> trash_step a d0 d1"
  by (simp add: trash_step_def purged_row_def)

lemma other_update:
  assumes "\<And>t. tr_addr (f t) = tr_addr t" and "\<And>t. P t \<Longrightarrow> tr_addr t = a" and "tr_addr t \<noteq> a"
  shows "t \<in> set (update_where P f ts) \<longleftrightarrow> t \<in> set ts"
  using assms by (auto simp: mem_update_where)

lemma purged_update:
  assumes "\<And>t. tr_addr (f t) = tr_addr t \<and> tr_msg (f t) = tr_msg t \<and> (tr_purged t \<noteq> None \<longrightarrow> tr_purged (f t) \<noteq> None)"
    and "purged_row d a i"
  shows "purged_row (d\<lparr>trash := update_where P f (trash d)\<rparr>) a i"
proof -
  obtain t where t: "t \<in> set (trash d)" "tr_addr t = a" "tr_msg t = i" "tr_purged t \<noteq> None"
    using assms(2) by (auto simp: purged_row_def list_ex_iff)
  let ?t = "if P t then f t else t"
  have "?t \<in> set (update_where P f (trash d))" "tr_addr ?t = a" "tr_msg ?t = i" "tr_purged ?t \<noteq> None"
    using t assms(1) [of t] by (auto simp: mem_update_where)
  then show ?thesis by (auto simp: purged_row_def list_ex_iff)
qed

lemma purged_delete:
  assumes "purged_row d a i" and "\<And>t. tr_addr t = a \<Longrightarrow> tr_msg t = i \<Longrightarrow> tr_purged t \<noteq> None \<Longrightarrow> \<not> P t"
  shows "purged_row (d\<lparr>trash := delete_where P (trash d)\<rparr>) a i"
  using assms unfolding purged_row_def list_ex_iff by (metis (no_types, lifting) database.select_convs(7) database.update_convs(7) database.surjective mem_Collect_eq set_delete_where)

lemma trash_step_update:
  assumes "trash_step a d0 d" and "\<And>t. P t \<Longrightarrow> tr_addr t = a"
    and "\<And>t. tr_addr (f t) = tr_addr t \<and> tr_msg (f t) = tr_msg t \<and> (tr_purged t \<noteq> None \<longrightarrow> tr_purged (f t) \<noteq> None)"
  shows "trash_step a d0 (d\<lparr>trash := update_where P f (trash d)\<rparr>)"
proof -
  have "t \<in> set (update_where P f (trash d)) \<longleftrightarrow> t \<in> set (trash d)" if "tr_addr t \<noteq> a" for t
    using assms(2,3) that by (intro other_update [of f P a]) simp_all
  moreover have "purged_row (d\<lparr>trash := update_where P f (trash d)\<rparr>) a i" if "purged_row d a i" for i
    using that assms(3) by (intro purged_update)
  ultimately show ?thesis using assms(1) by (simp add: trash_step_def ids_def)
qed

lemma trash_step_append:
  assumes "trash_step a d0 d" and "tr_addr t = a"
  shows "trash_step a d0 (d\<lparr>trash := trash d @ [t]\<rparr>)"
proof -
  have "purged_row (d\<lparr>trash := trash d @ [t]\<rparr>) a i" if "purged_row d a i" for i
    using that by (simp add: purged_row_def)
  with assms show ?thesis by (auto simp: trash_step_def ids_def)
qed

lemma trash_step_delete:
  assumes "trash_step a d0 d" and "\<And>t. P t \<Longrightarrow> tr_addr t = a \<and> tr_purged t = None"
  shows "trash_step a d0 (d\<lparr>trash := delete_where P (trash d)\<rparr>)"
proof -
  have np: "tr_purged t = None" if "P t" for t using assms(2) that by simp
  have "purged_row (d\<lparr>trash := delete_where P (trash d)\<rparr>) a i" if "purged_row d a i" for i
    using that by (rule purged_delete) (metis np)
  moreover have "\<not> P t" if "tr_addr t \<noteq> a" for t using that assms(2) by blast
  ultimately show ?thesis using assms(1) by (simp add: trash_step_def ids_def)
qed

lemma trash_step_mark: "trash_step a d0 d \<Longrightarrow> trash_step a d0 (mark_row a i thread now d)"
  unfolding mark_row_def by (auto intro!: trash_step_update trash_step_append)

lemma trash_step_purge: "trash_step a d0 d \<Longrightarrow> trash_step a d0 (purge_row a i thread now d)"
  unfolding purge_row_def by (auto intro!: trash_step_update trash_step_append)

lemma trash_step_unmark: "trash_step a d0 d \<Longrightarrow> trash_step a d0 (unmark_rows a is d)"
  unfolding unmark_rows_def by (rule trash_step_delete) simp_all

lemma trash_step_notify: "trash_step a d0 d \<Longrightarrow> trash_step a d0 (notify ch payload d)"
  by (erule trash_step_same) (simp_all add: notify_def ids_def)

lemma trash_step_remove:
  assumes "trash_step a d0 d"
  shows "trash_step a d0 (remove_row i d)"
proof -
  have "purged_row (remove_row i d) a j" if "purged_row d a j" "j \<noteq> i" for j
    using purged_delete [OF that(1), of "\<lambda>t. tr_msg t = i"] that(2) by (simp add: remove_row_def purged_row_def)
  with assms show ?thesis by (auto simp: trash_step_def remove_row_def ids_def)
qed

lemma trash_step_removal: "f \<in> set (removal i) \<Longrightarrow> trash_step a d0 d \<Longrightarrow> trash_step a d0 (f d)"
  by (auto simp: removal_def intro: trash_step_remove)
    (erule trash_step_same; simp add: ids_def ids_update)+

text \<open>The actions of this file, for any predicate on the tables.\<close>

lemma keeps_trash_queries [keeps_intros]:
  "keeps (\<lambda>w. P (db w)) (trashStateQ E a i)" "keeps (\<lambda>w. P (db w)) (purgedFor E a i)"
  "keeps (\<lambda>w. P (db w)) (hasTrash E a)" "keeps (\<lambda>w. P (db w)) (participates E a i)"
  "keeps (\<lambda>w. P (db w)) (trashSubtree E a i)" "keeps (\<lambda>w. P (db w)) (recordedSize E i s)"
  "keeps (\<lambda>w. P (db w)) (usageOf E a i)" "keeps (\<lambda>w. P (db w)) (trashListFilter q)"
  unfolding purgedFor_def trashStateQ_def hasTrash_def participates_def trashSubtree_def recordedSize_def usageOf_def
    trashListFilter_def Let_def
  by (intro keeps_intros)+

lemma keeps_unshared [keeps_intros]: "keeps (\<lambda>w. P (db w)) (unshared E ps)"
  by (induction ps) (auto intro!: keeps_intros split: option.splits)

lemma keeps_each_set: "(\<And>x. x \<in> set xs \<Longrightarrow> keeps P (f x)) \<Longrightarrow> keeps P (each f xs)"
  by (induction xs) (auto intro: keeps_intros)

lemma keeps_notifyTrash: "keeps (\<lambda>w. trash_step a d0 (db w)) (notifyTrash E addr is)"
  unfolding notifyTrash_def by (intro keeps_intros keeps_sql_exec trash_step_notify)

lemma keeps_exec_trash:
  "keeps (\<lambda>w. trash_step a d0 (db w)) (sql_exec E (purge_row a i thread now))"
  "keeps (\<lambda>w. trash_step a d0 (db w)) (sql_exec E (mark_row a i thread now))"
  "keeps (\<lambda>w. trash_step a d0 (db w)) (sql_exec E (unmark_rows a is))"
  by (rule keeps_sql_exec, erule trash_step_purge trash_step_mark trash_step_unmark)+

lemma keeps_markPurged: "keeps (\<lambda>w. trash_step a d0 (db w)) (markPurged E a tt now n rel is)"
proof (induction "is" arbitrary: n rel)
  case Nil
  show ?case by (simp add: keeps_ret)
next
  case (Cons i "is")
  show ?case unfolding markPurged.simps by (intro keeps_intros keeps_exec_trash Cons.IH)
qed

lemma keeps_removeIfUnheld: "keeps (\<lambda>w. trash_step a d0 (db w)) (removeIfUnheld E i)"
proof -
  have "keeps (\<lambda>w. trash_step a d0 (db w)) (sql_exec E f :: (response, _) act)" if "f \<in> set (removal i)" for f
    by (rule keeps_sql_exec) (rule trash_step_removal [OF that])
  then have r: "keeps (\<lambda>w. trash_step a d0 (db w)) (each (\<lambda>f. or_fail (sql_exec E f) e) (removal i))" for e :: response
    by (intro keeps_each_set keeps_or_fail)
  show ?thesis unfolding removeIfUnheld_def by (rule r | rule keeps_intros)+
qed

lemma keeps_removeUnheld: "keeps (\<lambda>w. trash_step a d0 (db w)) (removeUnheld E n fl is)"
  by (induction "is" arbitrary: n fl) (auto intro!: keeps_intros keeps_removeIfUnheld)

lemma keeps_purge: "keeps (\<lambda>w. trash_step a d0 (db w)) (purge E a i thread)"
  unfolding purge_def by (intro keeps_intros keeps_markPurged keeps_removeUnheld keeps_notifyTrash)

lemma keeps_trashSent: "keeps (\<lambda>w. trash_step (ToLower caller) d0 (db w)) (trashSent E caller i tq pq)"
  unfolding trashSent_def Let_def
  by (intro keeps_intros keeps_purge keeps_notifyTrash keeps_exec_trash)

lemma keeps_Restore: "keeps (\<lambda>w. trash_step (ToLower caller) d0 (db w)) (Restore E caller param tq)"
  unfolding Restore_def Let_def
  by (intro keeps_intros keeps_notifyTrash keeps_exec_trash)

text \<open>C17: a caller changes only their own trash, and never undoes a deletion for good: deleting, deleting for
  good and restoring leave the marks of every other address on the messages that remain as they were,
  and keep every message the caller purged purged.\<close>

theorem trash_isolation:
  "trash_step (ToLower caller) (db w) (db (snd (trashSent E caller i tq pq w)))
   \<and> trash_step (ToLower caller) (db w) (db (snd (Restore E caller param tq w)))"
  using keepsD [OF keeps_trashSent [of caller "db w" E i tq pq], of w]
    keepsD [OF keeps_Restore [of caller "db w" E param tq], of w]
  by (simp add: trash_step_refl)

subsection \<open>Restoring and removing\<close>

lemma notifyTrash_db: "db (snd (notifyTrash E a is w)) = (db w)\<lparr>noted := noted (db (snd (notifyTrash E a is w)))\<rparr>"
proof -
  have "keeps (\<lambda>x. (db x)\<lparr>noted := []\<rparr> = (db w)\<lparr>noted := []\<rparr>) (notifyTrash E a is)"
    unfolding notifyTrash_def by (intro keeps_intros keeps_sql_exec) (simp add: notify_def)
  from keepsD [OF this, of w] have k: "(db (snd (notifyTrash E a is w)))\<lparr>noted := []\<rparr> = (db w)\<lparr>noted := []\<rparr>" by simp
  let ?d = "db (snd (notifyTrash E a is w))"
  have "?d = (?d\<lparr>noted := []\<rparr>)\<lparr>noted := noted ?d\<rparr>" by simp
  also have "\<dots> = (db w)\<lparr>noted := noted ?d\<rparr>" unfolding k by simp
  finally show ?thesis .
qed

lemma notifyTrash_tables:
  "notifyTrash E a is w = (r, w1) \<Longrightarrow> trash (db w1) = trash (db w) \<and> msgs (db w1) = msgs (db w)"
  using notifyTrash_db [of E a "is" w] by (metis database.select_convs(1,7) database.surjective database.update_convs(11) snd_conv)

lemma Restore_Inr:
  assumes "Restore E caller param tq w = (Inr resp, w1)"
  shows "\<exists>i w0 js. resolveID E param w = (Inr i, w0) \<and> takes_part (db w) (ToLower caller) i
    \<and> js = (if boolQuery tq then subtree (db w) (ToLower caller) i else [i])
    \<and> trash (db w1) = delete_where (\<lambda>t. tr_addr t = ToLower caller \<and> tr_msg t \<in> set js \<and> tr_purged t = None) (trash (db w))
    \<and> msgs (db w1) = msgs (db w)"
proof -
  let ?a = "ToLower caller"
  obtain i w0 where res: "resolveID E param w = (Inr i, w0)"
    and run: "bind (or_fail (participates E ?a i) (err 500 ''failed to restore message'')) (\<lambda>ok.
     bind (if ok then purgedFor E ?a i else ret False) (\<lambda>purged_already.
     if \<not> ok \<or> purged_already then throw not_found
     else bind (if boolQuery tq then or_fail (trashSubtree E ?a i) (err 500 ''failed to restore message'')
                else ret [i]) (\<lambda>ids.
       bind (or_fail (sql_exec E (unmark_rows ?a ids)) (err 500 ''failed to restore message'')) (\<lambda>_.
       bind (notifyTrash E ?a ids) (\<lambda>_.
       bind (trashStateQ E ?a i) (\<lambda>q.
       ret (200, JObj [(''id'', JInt i), (''trash'', case q of Inr (Some s) \<Rightarrow> JStr (trash_text s) | _ \<Rightarrow> JNull)]))))))) w0
      = (Inr resp, w1)"
    using assms unfolding Restore_def Let_def bind_Inr by blast
  have d0: "db w0 = db w" by (rule same_db [OF keeps_resolveID res])
  from run [unfolded bind_Inr if_throw] obtain ok w2 b w3 js w4 u w5 u2 w6 q
    where p: "or_fail (participates E ?a i) (err 500 ''failed to restore message'') w0 = (Inr ok, w2)"
    and pf0: "(if ok then purgedFor E ?a i else ret False) w2 = (Inr b, w3)" and run2: "\<not> (\<not> ok \<or> b)"
    and sub: "(if boolQuery tq then or_fail (trashSubtree E ?a i) (err 500 ''failed to restore message'') else ret [i]) w3 = (Inr js, w4)"
    and ex: "or_fail (sql_exec E (unmark_rows ?a js)) (err 500 ''failed to restore message'') w4 = (Inr u, w5)"
    and nt: "notifyTrash E ?a js w5 = (Inr u2, w6)"
    and ts: "\<exists>q. trashStateQ E ?a i w6 = (Inr q, w1)" unfolding ret_eq by blast
  from pf0 run2 have pf: "purgedFor E ?a i w2 = (Inr b, w3)" by simp
  have d3: "db w3 = db w2" by (rule same_db [OF keeps_trash_queries(2) pf])
  have d2: "db w2 = db w0" and tp: "takes_part (db w0) ?a i"
    using p run2 by (auto simp: participates_def or_fail_Inr sql_query_Inr)
  have js: "js = (if boolQuery tq then subtree (db w) ?a i else [i])" and d4: "db w4 = db w3"
    using sub d0 d2 d3 by (auto simp: trashSubtree_def or_fail_Inr sql_query_Inr ret_eq split: if_splits)
  have d5: "db w5 = unmark_rows ?a js (db w4)" using ex by (simp add: or_fail_Inr sql_exec_Inr)
  have d6: "trash (db w1) = trash (db w5)" "msgs (db w1) = msgs (db w5)"
    using notifyTrash_tables [OF nt] ts same_db [OF keeps_trash_queries(1)] by (metis, metis)
  have tr: "trash (db w1) = delete_where (\<lambda>t. tr_addr t = ?a \<and> tr_msg t \<in> set js \<and> tr_purged t = None) (trash (db w))"
    and ms: "msgs (db w1) = msgs (db w)"
    using d6 d5 d4 d3 d2 d0 by (simp_all add: unmark_rows_def)
  show ?thesis using res tp d0 js tr ms by (intro exI [of _ i] exI [of _ w0] exI [of _ js]) simp
qed

text \<open>C18: restoring takes out of the caller's trash exactly the message, or with the thread flag the sent
  messages of its subtree the caller takes part in: their marks that are not deletions for good go, every
  other mark stays, no message changes, and none of them still stands as deleted by itself.\<close>

theorem Restore_spec:
  assumes "Restore E caller param tq w = (Inr resp, w1)"
  shows "\<exists>i w0 js. resolveID E param w = (Inr i, w0) \<and> takes_part (db w) (ToLower caller) i
    \<and> js = (if boolQuery tq then subtree (db w) (ToLower caller) i else [i])
    \<and> trash (db w1) = delete_where (\<lambda>t. tr_addr t = ToLower caller \<and> tr_msg t \<in> set js \<and> tr_purged t = None) (trash (db w))
    \<and> msgs (db w1) = msgs (db w)
    \<and> (\<forall>j \<in> set js. fmsg_api_trash_state (db w1) (ToLower caller) j \<noteq> Some InTrash)"
proof -
  let ?a = "ToLower caller"
  from Restore_Inr [OF assms] obtain i w0 js where r: "resolveID E param w = (Inr i, w0)" "takes_part (db w) ?a i"
    "js = (if boolQuery tq then subtree (db w) ?a i else [i])" "msgs (db w1) = msgs (db w)"
    and tr: "trash (db w1) = delete_where (\<lambda>t. tr_addr t = ?a \<and> tr_msg t \<in> set js \<and> tr_purged t = None) (trash (db w))" by blast
  have "fmsg_api_trash_state (db w1) ?a j \<noteq> Some InTrash" if "j \<in> set js" for j
  proof -
    have "marked (db w1) ?a (set (ancestors (db w1) max_depth j)) (\<lambda>t. tr_purged t \<noteq> None)" if "marked (db w1) ?a {j} (\<lambda>_. True)"
      using that \<open>j \<in> set js\<close> ancestors_hd [of "db w1" max_depth j] by (auto simp: marked_def tr)
    then show ?thesis by (auto simp: trash_state_marked Let_def)
  qed
  with r tr show ?thesis by blast
qed

definition trash_world :: world where
  "trash_world = example_world\<lparr>db := thread_db\<rparr>"

theorem Restore_spec_witness:
  "trash (db (snd (Restore example_env ''@Bo@ex.org'' ''1'' [] trash_world))) = []"
proof -
  let ?r = "Restore example_env ''@Bo@ex.org'' ''1'' [] trash_world"
  have f: "case fst ?r of Inr x \<Rightarrow> True | Inl _ \<Rightarrow> False" by code_simp
  then obtain resp where "?r = (Inr resp, snd ?r)" by (cases ?r) (auto split: sum.splits)
  from Restore_spec [OF this] obtain i w0 where i: "resolveID example_env ''1'' trash_world = (Inr i, w0)"
    and t: "trash (db (snd ?r)) = delete_where (\<lambda>t. tr_addr t = ToLower ''@Bo@ex.org'' \<and> tr_msg t \<in> {i} \<and> tr_purged t = None) (trash (db trash_world))"
    by (auto simp: boolQuery_def)
  have "fst (resolveID example_env ''1'' trash_world) = Inr 1" by code_simp
  with i have "i = 1" by simp
  moreover have "ToLower ''@Bo@ex.org'' = ''@bo@ex.org''" by code_simp
  ultimately show ?thesis using t by (simp add: trash_world_def thread_db_def delete_where_def)
qed

lemma removal_run:
  "each (\<lambda>f. or_fail (sql_exec E f) e) fs w = (Inr u, w1) \<Longrightarrow> db w1 = fold (\<lambda>f d. f d) fs (db w)"
  by (induction fs arbitrary: w) (auto simp: act_Inr)

lemma filter_delete_key:
  "filter (\<lambda>x. f x = j) (delete_where (\<lambda>x. f x = i) xs) = (if j = i then [] else filter (\<lambda>x. f x = j) xs)"
  by (induction xs) (auto simp: delete_where_def)

lemma removal_db:
  "fold (\<lambda>f d. f d) (removal i) d = d\<lparr>
     msgs := delete_where (\<lambda>m. m_id m = i) (update_where (\<lambda>m. m_pid m = Some i) (\<lambda>m. m\<lparr>m_pid := None\<rparr>) (msgs d)),
     tos := delete_where (\<lambda>r. t_msg r = i) (tos d), batches := delete_where (\<lambda>b. b_msg b = i) (batches d),
     addtos := delete_where (\<lambda>r. a_msg r = i) (addtos d),
     notifies := delete_where (\<lambda>n. in_batches d i (n_batch n)) (notifies d),
     atts := delete_where (\<lambda>r. at_msg r = i) (atts d), trash := delete_where (\<lambda>t. tr_msg t = i) (trash d)\<rparr>"
  by (simp add: removal_def remove_row_def in_batches_def)

lemma delete_where_filter: "delete_where P xs = filter (\<lambda>x. \<not> P x) xs"
  by (simp add: delete_where_def)

lemma removed_msgs:
  "delete_where (\<lambda>m. m_id m = i) (update_where (\<lambda>m. m_pid m = Some i) (\<lambda>m. m\<lparr>m_pid := None\<rparr>) ms)
     = map (\<lambda>m. if m_pid m = Some i then m\<lparr>m_pid := None\<rparr> else m) (filter (\<lambda>m. m_id m \<noteq> i) (ms :: msg_row list))"
  by (induction ms) (auto simp: delete_where_def update_where_def)

lemma unshared_spec:
  "unshared E ps w = (Inr fl, w1) \<Longrightarrow> set fl = {f. \<exists>p \<in> set ps. safeDataPath (e_cwd E) p (DataDir E) = Some f
    \<and> (\<forall>m \<in> set (msgs (db w)). m_path m \<noteq> p) \<and> (\<forall>a \<in> set (atts (db w)). at_path a \<noteq> p)}"
proof (induction ps arbitrary: w fl)
  case Nil
  then show ?case by (simp add: ret_eq)
next
  case (Cons p ps)
  show ?case
  proof (cases "safeDataPath (e_cwd E) p (DataDir E)")
    case None
    with Cons show ?thesis by auto
  next
    case (Some clean)
    from Cons.prems Some have "bind (or_fail (sql_query E (\<lambda>d. list_ex (\<lambda>m. m_path m = p) (msgs d) \<or> list_ex (\<lambda>a. at_path a = p) (atts d)))
        (err 500 ''failed to delete message'')) (\<lambda>shared.
      bind (unshared E ps) (\<lambda>rest. ret (if shared then rest else clean # rest))) w = (Inr fl, w1)" by simp
    from this [unfolded bind_Inr or_fail_Inr sql_query_Inr ret_eq] obtain rest
      where q: "unshared E ps (w\<lparr>tick := Suc (tick w)\<rparr>) = (Inr rest, w1)"
      and fl: "fl = (if list_ex (\<lambda>m. m_path m = p) (msgs (db w)) \<or> list_ex (\<lambda>a. at_path a = p) (atts (db w)) then rest else clean # rest)"
      by blast
    from Cons.IH [OF q] fl Some show ?thesis by (auto simp: list_ex_iff)
  qed
qed

text \<open>C19: a message leaves the host only when nobody here holds it: every local sender or recipient who
  accepted it deleted it for good, and no delivery of it may still happen.  Exactly its rows go with it, in every
  table: the message, its recipients, add-to batches with their recipients and notifications, attachments, and
  everybody's marks on it; its replies lose their parent and nothing else changes.  Of the files stored for it exactly
  those inside the data directory go that no remaining message or attachment uses.\<close>

theorem removeIfUnheld_removes:
  assumes "removeIfUnheld E i w = (Inr (Some fl), w1)"
  shows "(\<forall>a \<in> set (holders (db w) i). split_part (ToLower a) (CHR ''@'') 3 \<in> set (localDomains E)
        \<longrightarrow> purged_row (db w) (ToLower a) i)
    \<and> \<not> fmsg_api_delivery_pending (db w) i (e_now E (tick w)) (retryMaxAge E)
    \<and> db w1 = (db w)\<lparr>
        msgs := map (\<lambda>m. if m_pid m = Some i then m\<lparr>m_pid := None\<rparr> else m) (filter (\<lambda>m. m_id m \<noteq> i) (msgs (db w))),
        tos := filter (\<lambda>r. t_msg r \<noteq> i) (tos (db w)),
        batches := filter (\<lambda>b. b_msg b \<noteq> i) (batches (db w)),
        addtos := filter (\<lambda>r. a_msg r \<noteq> i) (addtos (db w)),
        notifies := filter (\<lambda>n. \<not> (\<exists>b \<in> set (batches (db w)). b_id b = n_batch n \<and> b_msg b = i)) (notifies (db w)),
        atts := filter (\<lambda>a. at_msg a \<noteq> i) (atts (db w)),
        trash := filter (\<lambda>t. tr_msg t \<noteq> i) (trash (db w))\<rparr>
    \<and> (\<exists>m. find_msg (db w) i = Some m \<and> set fl = {f. \<exists>p \<in> {m_path m} \<union> at_path ` set (att_rows (db w) i).
          safeDataPath (e_cwd E) p (DataDir E) = Some f
          \<and> (\<forall>m \<in> set (msgs (db w1)). m_path m \<noteq> p) \<and> (\<forall>a \<in> set (atts (db w1)). at_path a \<noteq> p)})"
proof -
  let ?fail = "err 500 ''failed to delete message''"
  from assms [unfolded removeIfUnheld_def bind_Inr clock_Inr] obtain keep w0
    where q: "or_fail (sql_query E (\<lambda>d. held E d i \<or> fmsg_api_delivery_pending d i (e_now E (tick w)) (retryMaxAge E))) ?fail
        (w\<lparr>tick := Suc (tick w)\<rparr>) = (Inr keep, w0)"
    and k: "(if keep then ret None
     else bind (or_fail (sql_query E (\<lambda>d. map_option m_path (find_msg d i))) ?fail) (\<lambda>body. case body of
       None \<Rightarrow> throw ?fail
     | Some p \<Rightarrow> bind (or_fail (sql_query E (\<lambda>d. map at_path (att_rows d i))) ?fail) (\<lambda>ps.
       bind (each (\<lambda>f. or_fail (sql_exec E f) ?fail) (removal i)) (\<lambda>_.
       bind (unshared E (p # ps)) (\<lambda>fl. ret (Some fl)))))) w0 = (Inr (Some fl), w1)"
    by blast
  have kp: "\<not> held E (db w) i" "\<not> fmsg_api_delivery_pending (db w) i (e_now E (tick w)) (retryMaxAge E)"
    and d0: "db w0 = db w" and "\<not> keep"
    using q k by (auto simp: or_fail_Inr sql_query_Inr ret_eq)
  with k have "bind (or_fail (sql_query E (\<lambda>d. map_option m_path (find_msg d i))) ?fail) (\<lambda>body. case body of
       None \<Rightarrow> throw ?fail
     | Some p \<Rightarrow> bind (or_fail (sql_query E (\<lambda>d. map at_path (att_rows d i))) ?fail) (\<lambda>ps.
       bind (each (\<lambda>f. or_fail (sql_exec E f) ?fail) (removal i)) (\<lambda>_.
       bind (unshared E (p # ps)) (\<lambda>fl. ret (Some fl))))) w0 = (Inr (Some fl), w1)" by (simp del: unshared.simps)
  from this [unfolded bind_Inr case_option_throw or_fail_Inr sql_query_Inr ret_eq] obtain p u w3
    where p: "map_option m_path (find_msg (db w0) i) = Some p"
    and rm: "each (\<lambda>f. or_fail (sql_exec E f) ?fail) (removal i) (w0\<lparr>tick := Suc (Suc (tick w0))\<rparr>) = (Inr u, w3)"
    and us: "unshared E (p # map at_path (att_rows (db w0) i)) w3 = (Inr fl, w1)"
    by (auto simp del: unshared.simps)
  have d1: "db w1 = db w3" by (rule same_db [OF keeps_unshared us])
  have "db w3 = fold (\<lambda>f d. f d) (removal i) (db w)" using removal_run [OF rm] d0 by simp
  with d1 have "db w1 = fold (\<lambda>f d. f d) (removal i) (db w)" by simp
  then have tables: "db w1 = (db w)\<lparr>
        msgs := map (\<lambda>m. if m_pid m = Some i then m\<lparr>m_pid := None\<rparr> else m) (filter (\<lambda>m. m_id m \<noteq> i) (msgs (db w))),
        tos := filter (\<lambda>r. t_msg r \<noteq> i) (tos (db w)),
        batches := filter (\<lambda>b. b_msg b \<noteq> i) (batches (db w)),
        addtos := filter (\<lambda>r. a_msg r \<noteq> i) (addtos (db w)),
        notifies := filter (\<lambda>n. \<not> (\<exists>b \<in> set (batches (db w)). b_id b = n_batch n \<and> b_msg b = i)) (notifies (db w)),
        atts := filter (\<lambda>a. at_msg a \<noteq> i) (atts (db w)),
        trash := filter (\<lambda>t. tr_msg t \<noteq> i) (trash (db w))\<rparr>"
    unfolding removal_db removed_msgs by (simp add: delete_where_filter in_batches_def list_ex_iff)
  from p d0 obtain m where m: "find_msg (db w) i = Some m" "p = m_path m" by auto
  have "set fl = {f. \<exists>p \<in> {m_path m} \<union> at_path ` set (att_rows (db w) i). safeDataPath (e_cwd E) p (DataDir E) = Some f
          \<and> (\<forall>m \<in> set (msgs (db w1)). m_path m \<noteq> p) \<and> (\<forall>a \<in> set (atts (db w1)). at_path a \<noteq> p)}"
    using unshared_spec [OF us] by (simp add: d1 d0 m(2))
  with m(1) have "\<exists>m. find_msg (db w) i = Some m \<and> set fl = {f. \<exists>p \<in> {m_path m} \<union> at_path ` set (att_rows (db w) i).
          safeDataPath (e_cwd E) p (DataDir E) = Some f
          \<and> (\<forall>m \<in> set (msgs (db w1)). m_path m \<noteq> p) \<and> (\<forall>a \<in> set (atts (db w1)). at_path a \<noteq> p)}" by blast
  moreover have "\<forall>a \<in> set (holders (db w) i). split_part (ToLower a) (CHR ''@'') 3 \<in> set (localDomains E) \<longrightarrow> purged_row (db w) (ToLower a) i"
    using kp(1) by (auto simp: held_def list_ex_iff)
  ultimately show ?thesis using kp(2) tables by (intro conjI)
qed

definition removal_world :: world where
  "removal_world = example_world\<lparr>db := thread_db\<lparr>trash := [
     \<lparr>tr_addr = ''@bo@ex.org'', tr_msg = 2, tr_thread = False, tr_deleted = 7, tr_purged = Some 7\<rparr>,
     \<lparr>tr_addr = ''@al@ex.org'', tr_msg = 2, tr_thread = False, tr_deleted = 8, tr_purged = Some 8\<rparr>]\<rparr>\<rparr>"

theorem removeIfUnheld_removes_witness:
  "ids (db (snd (removeIfUnheld example_env 2 removal_world))) = {1}
   \<and> purged_row (db removal_world) ''@al@ex.org'' 2"
proof -
  let ?r = "removeIfUnheld example_env 2 removal_world"
  have "fst ?r = Inr (Some [''/d/2''])" by code_simp
  then have r: "?r = (Inr (Some [''/d/2'']), snd ?r)" by (metis prod.collapse)
  note spec = removeIfUnheld_removes [OF r]
  note d = spec [THEN conjunct2, THEN conjunct2, THEN conjunct1]
  have "ids (db (snd ?r)) = {1}" unfolding d by (simp add: ids_def removal_world_def thread_db_def)
  moreover have "''@al@ex.org'' \<in> set (holders (db removal_world) 2)"
    and "split_part (ToLower ''@al@ex.org'') (CHR ''@'') 3 \<in> set (localDomains example_env)"
    and "ToLower ''@al@ex.org'' = ''@al@ex.org''" by code_simp+
  then have "purged_row (db removal_world) ''@al@ex.org'' 2" using spec [THEN conjunct1] by metis
  ultimately show ?thesis by blast
qed

end
