(* ===== verification/Compose.thy ===== *)
theory Compose
  imports Trash
begin

text \<open>
  What creating, updating and reacting share (\<open>src/internal/handlers/messages.go\<close>,
  \<open>references.go\<close>): the decoded request body, the resolution and the checks of a parent message,
  the stored body of a message, and the statements that insert a message and its recipients.

  The parent of a request is a JSON value: absent or null, a string, or anything else as its text.
\<close>

subsection \<open>The request body\<close>

datatype parent_json = NoParent | ParentString string | ParentText string

record messageInput =
  InFrom :: string
  InTo :: "string list"
  InVersion :: int
  InNoReply :: bool
  InImportant :: bool
  InTerminal :: bool
  InTopic :: string
  InType :: string
  InParent :: parent_json
  InData :: string

subsection \<open>Parents\<close>

text \<open>A parent hash may be the hash of a message or of one of its add-to batches; the message wins,
  then the earliest batch.\<close>

definition parent_rows :: "database \<Rightarrow> string \<Rightarrow> (msg_row \<times> int option) list" where
  "parent_rows d hash = (let rows = concat (map (\<lambda>m.
         (case filter (\<lambda>b. b_msg b = m_id m \<and> b_sha256 b = Some hash) (batches d) of
            [] \<Rightarrow> if m_sha256 m = Some hash then [(m, None)] else []
          | b # bs \<Rightarrow> map (\<lambda>x. (m, Some (b_id x))) (b # bs))) (msgs d)) in
     filter (\<lambda>(m, b). b = None) rows
       @ sort_key (\<lambda>(m, b). case b of None \<Rightarrow> 0 | Some i \<Rightarrow> i) (filter (\<lambda>(m, b). b \<noteq> None) rows))"

definition first_of :: "'a list \<Rightarrow> 'a option" where
  "first_of xs = (case xs of [] \<Rightarrow> None | x # _ \<Rightarrow> Some x)"

definition parent_participant :: "database \<Rightarrow> int \<Rightarrow> string \<Rightarrow> int option \<Rightarrow> bool" where
  "parent_participant d i identity batch \<longleftrightarrow>
     list_ex (\<lambda>m. m_id m = i \<and> ToLower (m_from m) = ToLower identity) (msgs d)
   \<or> list_ex (\<lambda>r. ToLower (t_addr r) = ToLower identity) (to_rows d i)
   \<or> list_ex (\<lambda>r. Some (a_batch r) = batch \<and> ToLower (a_addr r) = ToLower identity) (addto_rows d i)"

datatype parent_key = ByHash string | ByID int

definition parent_key :: "parent_json \<Rightarrow> parent_key option" where
  "parent_key p = (case p of NoParent \<Rightarrow> None
     | ParentString s \<Rightarrow> map_option ByHash (decodeHash s)
     | ParentText s \<Rightarrow> (case ParseInt s of Some i \<Rightarrow> if i \<le> 0 then None else Some (ByID i) | None \<Rightarrow> None))"

definition resolveParent :: "env \<Rightarrow> string \<Rightarrow> parent_json \<Rightarrow> (response, (int \<times> string) option) act" where
  "resolveParent E identity p = (if p = NoParent then ret None
     else (case parent_key p of
        None \<Rightarrow> throw (err 400 ''pid must be a positive integer or a 64-character sha256 string'')
      | Some k \<Rightarrow>
        bind (or_fail (sql_query E (\<lambda>d. case k of ByHash h \<Rightarrow> first_of (parent_rows d h)
                 | ByID i \<Rightarrow> map_option (\<lambda>m. (m, None)) (find_msg d i)))
              (err 500 ''failed to resolve parent'')) (\<lambda>row.
        case row of None \<Rightarrow> throw (err 400 ''parent message not found'')
        | Some (m, batch) \<Rightarrow>
          bind (or_fail (sql_query E (\<lambda>d. parent_participant d (m_id m) identity batch))
              (err 500 ''failed to validate parent participation'')) (\<lambda>participant.
          bind (unless participant (err 403 ''not a participant of this parent; added recipients must use their batch sha256'')) (\<lambda>_.
          bind (purgedFor E identity (m_id m)) (\<lambda>gone.
          bind (unless (\<not> gone) (err 400 ''parent message not found'')) (\<lambda>_.
          bind (unless (m_time m \<noteq> None \<and> \<not> m_terminal m) (err 409 ''parent is a draft or terminal message'')) (\<lambda>_.
          let hash = (case k of ByHash h \<Rightarrow> h | ByID _ \<Rightarrow> (case m_sha256 m of None \<Rightarrow> [] | Some h \<Rightarrow> h)) in
          bind (unless (length hash = 32) (err 500 ''parent has no finalized identity'')) (\<lambda>_.
          ret (Some (m_id m, hex_encode hash)))))))))))"

definition validatePidRelations :: "int option \<Rightarrow> string \<Rightarrow> (response, unit) act" where
  "validatePidRelations pid topic = unless (\<not> (pid \<noteq> None \<and> topic \<noteq> []))
     (err 400 ''topic must be empty when pid is supplied'')"

definition validateParent :: "env \<Rightarrow> int option \<Rightarrow> (response, unit) act" where
  "validateParent E pid = (case pid of None \<Rightarrow> ret ()
     | Some i \<Rightarrow> bind (or_fail (sql_query E (\<lambda>d. map_option m_terminal (find_msg d i))) (err 500 ''failed to validate pid'')) (\<lambda>r.
         case r of None \<Rightarrow> throw (err 400 (''PID '' @ Itoa i @ '' not found''))
         | Some terminal \<Rightarrow> unless (\<not> terminal) (err 409 (''PID '' @ Itoa i @ '' is terminal; it cannot be replied to''))))"

subsection \<open>Storing and inserting\<close>

text \<open>The stored body: a new file in the message's directory, or a failure that leaves none.\<close>

definition saveMessageData :: "env \<Rightarrow> string \<Rightarrow> int \<Rightarrow> string \<Rightarrow> string \<Rightarrow> (response, string option) act" where
  "saveMessageData E fromAddr i ext content w =
     (let path = msgDataDir (DataDir E) fromAddr i @ ''/data-'' @ e_suffix E (tick w) @ ext in
      bind (create_file E path content) (\<lambda>ok. ret (if ok then Some path else None)) w)"

definition new_message :: "int \<Rightarrow> int option \<Rightarrow> string option \<Rightarrow> bool \<Rightarrow> bool \<Rightarrow> bool \<Rightarrow> string \<Rightarrow> string \<Rightarrow> string \<Rightarrow> int \<Rightarrow> int \<Rightarrow> msg_row" where
  "new_message version pid psha no_reply important terminal from_addr topic type sz i = \<lparr>m_id = i, m_version = version,
     m_pid = pid, m_no_reply = no_reply, m_important = important, m_deflate = False, m_terminal = terminal,
     m_time = None, m_sha256 = None, m_psha256 = psha, m_from = from_addr, m_topic = topic, m_type = type,
     m_size = sz, m_path = []\<rparr>"

definition insert_message :: "(int \<Rightarrow> msg_row) \<Rightarrow> database \<Rightarrow> sql_error + (int \<times> database)" where
  "insert_message row d = Inr (next_id d, d\<lparr>msgs := msgs d @ [row (next_id d)], next_id := next_id d + 1\<rparr>)"

definition set_path :: "int \<Rightarrow> string \<Rightarrow> database \<Rightarrow> database" where
  "set_path i p d = d\<lparr>msgs := update_where (\<lambda>m. m_id m = i) (\<lambda>m. m\<lparr>m_path := p\<rparr>) (msgs d)\<rparr>"

text \<open>A recipient row; one that is there already is left as it is (\<open>ON CONFLICT DO NOTHING\<close>).\<close>

definition insert_recipient :: "env \<Rightarrow> int \<Rightarrow> string \<Rightarrow> database \<Rightarrow> database" where
  "insert_recipient E i addr d = (if list_ex (\<lambda>r. e_addr_key E (t_addr r) = e_addr_key E addr) (to_rows d i) then d
     else d\<lparr>tos := tos d @ [\<lparr>t_id = next_id d, t_msg = i, t_addr = addr, t_delivered = None, t_code = None, t_read = None\<rparr>],
            next_id := next_id d + 1\<rparr>)"

text \<open>\<open>message.Finalize\<close> of fmsgd runs in the request's transaction; the files it creates are removed on a
  rollback.\<close>

definition finalize :: "env \<Rightarrow> int \<Rightarrow> time \<Rightarrow> response \<Rightarrow> (response, string) act" where
  "finalize E i now fail w = (if aborted w then (Inl fail, w)
     else (case e_finalize E (db w) i now of (r, created) \<Rightarrow>
       (let w1 = w\<lparr>files := files w ++ map_of created, on_rollback := on_rollback w @ map fst created\<rparr> in
        case r of None \<Rightarrow> (Inl fail, w1) | Some (hash, d) \<Rightarrow> (Inr hash, w1\<lparr>db := d\<rparr>))))"

subsection \<open>Sending\<close>

definition sendableProblems :: "message \<Rightarrow> string list" where
  "sendableProblems m = (if Version m \<noteq> 1 then [''unsupported version '' @ Itoa (Version m)] else [])
     @ (if To m = [] then [''no recipients''] else [])
     @ map (\<lambda>a. ''invalid recipient address '' @ a) (filter (\<lambda>a. \<not> IsValidAddr a) (To m))
     @ (if Type m = [] then [''no type''] else [])"

definition parseLimitOffset :: "string \<Rightarrow> string \<Rightarrow> (response, int \<times> int) act" where
  "parseLimitOffset l off =
     bind (if l = [] then ret 20 else (case ParseInt l of None \<Rightarrow> throw (err 400 ''invalid limit'')
        | Some n \<Rightarrow> if n < 1 then throw (err 400 ''invalid limit'') else ret (if n > 100 then 100 else n))) (\<lambda>limit.
     bind (if off = [] then ret 0 else (case ParseInt off of None \<Rightarrow> throw (err 400 ''invalid offset'')
        | Some n \<Rightarrow> if n < 0 then throw (err 400 ''invalid offset'') else ret n)) (\<lambda>offset.
     ret (limit, offset)))"

text \<open>The error of a reply that a remote host can never accept, with its reasons.\<close>

definition blocked_text :: "string \<times> blocked_reason \<Rightarrow> string" where
  "blocked_text b = (case b of
     (d, NeverAddressed) \<Rightarrow> d @ '': the message being replied to was never addressed to this domain''
   | (d, DeliveryFailed codes) \<Rightarrow> d @ '': delivery of the message being replied to failed there (response code(s) [''
        @ Join (map Itoa codes) '' '' @ ''])'')"

definition check_reply_domains :: "env \<Rightarrow> string list \<Rightarrow> int \<Rightarrow> (string \<Rightarrow> response) \<Rightarrow> (response, unit) act" where
  "check_reply_domains E domains parent blocked_err = (if domains = [] then ret ()
     else bind (parentDeliveryByDomain E parent) (\<lambda>r. case r of
        None \<Rightarrow> throw (err 500 ''failed to verify parent delivery'')
      | Some (parentFromDomain, byDomain) \<Rightarrow>
          (case undeliverableReplyDomains domains parentFromDomain byDomain of [] \<Rightarrow> ret ()
           | b # bs \<Rightarrow> throw (blocked_err (Join (map blocked_text (b # bs)) ''; '')))))"

end
