(* ===== verification/Emoji.thy ===== *)
theory Emoji
  imports GoText
begin

text \<open>
  Package \<open>internal/emoji\<close>: recognising a single emoji.  The Unicode property tables are those of
  \<open>tables.go\<close>, range by range; the set of RGI sequences of that file, generated data of 3,944
  entries, is the argument \<open>rgi\<close> of \<open>IsRGI\<close> and \<open>IsSingle\<close>.

  \<open>possible_emoji\<close> is the grammar of the comment on \<open>IsPossible\<close> (UTS #51) restricted to
  sequences that present as emoji; \<open>possible_loop_grammar\<close> shows that the scanner accepts
  exactly its sentences.
\<close>

subsection \<open>Range tables\<close>

record range_table =
  R16 :: "(nat \<times> nat) list"
  R32 :: "(nat \<times> nat) list"

definition unicode_Is :: "range_table \<Rightarrow> nat \<Rightarrow> bool" where
  "unicode_Is t r = list_ex (\<lambda>(lo, hi). lo \<le> r \<and> r \<le> hi) (R16 t @ R32 t)"

definition propEmoji :: range_table where
  "propEmoji = \<lparr>R16 =
    [(0x23, 0x23), (0x2A, 0x2A), (0x30, 0x39), (0xA9, 0xA9), (0xAE, 0xAE), (0x203C, 0x203C), 
     (0x2049, 0x2049), (0x2122, 0x2122), (0x2139, 0x2139), (0x2194, 0x2199), (0x21A9, 0x21AA), 
     (0x231A, 0x231B), (0x2328, 0x2328), (0x23CF, 0x23CF), (0x23E9, 0x23F3), (0x23F8, 0x23FA), 
     (0x24C2, 0x24C2), (0x25AA, 0x25AB), (0x25B6, 0x25B6), (0x25C0, 0x25C0), (0x25FB, 0x25FE), 
     (0x2600, 0x2604), (0x260E, 0x260E), (0x2611, 0x2611), (0x2614, 0x2615), (0x2618, 0x2618), 
     (0x261D, 0x261D), (0x2620, 0x2620), (0x2622, 0x2623), (0x2626, 0x2626), (0x262A, 0x262A), 
     (0x262E, 0x262F), (0x2638, 0x263A), (0x2640, 0x2640), (0x2642, 0x2642), (0x2648, 0x2653), 
     (0x265F, 0x2660), (0x2663, 0x2663), (0x2665, 0x2666), (0x2668, 0x2668), (0x267B, 0x267B), 
     (0x267E, 0x267F), (0x2692, 0x2697), (0x2699, 0x2699), (0x269B, 0x269C), (0x26A0, 0x26A1), 
     (0x26A7, 0x26A7), (0x26AA, 0x26AB), (0x26B0, 0x26B1), (0x26BD, 0x26BE), (0x26C4, 0x26C5), 
     (0x26C8, 0x26C8), (0x26CE, 0x26CF), (0x26D1, 0x26D1), (0x26D3, 0x26D4), (0x26E9, 0x26EA), 
     (0x26F0, 0x26F5), (0x26F7, 0x26FA), (0x26FD, 0x26FD), (0x2702, 0x2702), (0x2705, 0x2705), 
     (0x2708, 0x270D), (0x270F, 0x270F), (0x2712, 0x2712), (0x2714, 0x2714), (0x2716, 0x2716), 
     (0x271D, 0x271D), (0x2721, 0x2721), (0x2728, 0x2728), (0x2733, 0x2734), (0x2744, 0x2744), 
     (0x2747, 0x2747), (0x274C, 0x274C), (0x274E, 0x274E), (0x2753, 0x2755), (0x2757, 0x2757), 
     (0x2763, 0x2764), (0x2795, 0x2797), (0x27A1, 0x27A1), (0x27B0, 0x27B0), (0x27BF, 0x27BF), 
     (0x2934, 0x2935), (0x2B05, 0x2B07), (0x2B1B, 0x2B1C), (0x2B50, 0x2B50), (0x2B55, 0x2B55), 
     (0x3030, 0x3030), (0x303D, 0x303D), (0x3297, 0x3297), (0x3299, 0x3299)],
   R32 =
    [(0x1F004, 0x1F004), (0x1F0CF, 0x1F0CF), (0x1F170, 0x1F171), (0x1F17E, 0x1F17F), 
     (0x1F18E, 0x1F18E), (0x1F191, 0x1F19A), (0x1F1E6, 0x1F1FF), (0x1F201, 0x1F202), 
     (0x1F21A, 0x1F21A), (0x1F22F, 0x1F22F), (0x1F232, 0x1F23A), (0x1F250, 0x1F251), 
     (0x1F300, 0x1F321), (0x1F324, 0x1F393), (0x1F396, 0x1F397), (0x1F399, 0x1F39B), 
     (0x1F39E, 0x1F3F0), (0x1F3F3, 0x1F3F5), (0x1F3F7, 0x1F4FD), (0x1F4FF, 0x1F53D), 
     (0x1F549, 0x1F54E), (0x1F550, 0x1F567), (0x1F56F, 0x1F570), (0x1F573, 0x1F57A), 
     (0x1F587, 0x1F587), (0x1F58A, 0x1F58D), (0x1F590, 0x1F590), (0x1F595, 0x1F596), 
     (0x1F5A4, 0x1F5A5), (0x1F5A8, 0x1F5A8), (0x1F5B1, 0x1F5B2), (0x1F5BC, 0x1F5BC), 
     (0x1F5C2, 0x1F5C4), (0x1F5D1, 0x1F5D3), (0x1F5DC, 0x1F5DE), (0x1F5E1, 0x1F5E1), 
     (0x1F5E3, 0x1F5E3), (0x1F5E8, 0x1F5E8), (0x1F5EF, 0x1F5EF), (0x1F5F3, 0x1F5F3), 
     (0x1F5FA, 0x1F64F), (0x1F680, 0x1F6C5), (0x1F6CB, 0x1F6D2), (0x1F6D5, 0x1F6D8), 
     (0x1F6DC, 0x1F6E5), (0x1F6E9, 0x1F6E9), (0x1F6EB, 0x1F6EC), (0x1F6F0, 0x1F6F0), 
     (0x1F6F3, 0x1F6FC), (0x1F7E0, 0x1F7EB), (0x1F7F0, 0x1F7F0), (0x1F90C, 0x1F93A), 
     (0x1F93C, 0x1F945), (0x1F947, 0x1F9FF), (0x1FA70, 0x1FA7C), (0x1FA80, 0x1FA8A), 
     (0x1FA8E, 0x1FAC6), (0x1FAC8, 0x1FAC8), (0x1FACD, 0x1FADC), (0x1FADF, 0x1FAEA), 
     (0x1FAEF, 0x1FAF8)]\<rparr>"

definition propEmojiPresentation :: range_table where
  "propEmojiPresentation = \<lparr>R16 =
    [(0x231A, 0x231B), (0x23E9, 0x23EC), (0x23F0, 0x23F0), (0x23F3, 0x23F3), (0x25FD, 0x25FE), 
     (0x2614, 0x2615), (0x2648, 0x2653), (0x267F, 0x267F), (0x2693, 0x2693), (0x26A1, 0x26A1), 
     (0x26AA, 0x26AB), (0x26BD, 0x26BE), (0x26C4, 0x26C5), (0x26CE, 0x26CE), (0x26D4, 0x26D4), 
     (0x26EA, 0x26EA), (0x26F2, 0x26F3), (0x26F5, 0x26F5), (0x26FA, 0x26FA), (0x26FD, 0x26FD), 
     (0x2705, 0x2705), (0x270A, 0x270B), (0x2728, 0x2728), (0x274C, 0x274C), (0x274E, 0x274E), 
     (0x2753, 0x2755), (0x2757, 0x2757), (0x2795, 0x2797), (0x27B0, 0x27B0), (0x27BF, 0x27BF), 
     (0x2B1B, 0x2B1C), (0x2B50, 0x2B50), (0x2B55, 0x2B55)],
   R32 =
    [(0x1F004, 0x1F004), (0x1F0CF, 0x1F0CF), (0x1F18E, 0x1F18E), (0x1F191, 0x1F19A), 
     (0x1F1E6, 0x1F1FF), (0x1F201, 0x1F201), (0x1F21A, 0x1F21A), (0x1F22F, 0x1F22F), 
     (0x1F232, 0x1F236), (0x1F238, 0x1F23A), (0x1F250, 0x1F251), (0x1F300, 0x1F320), 
     (0x1F32D, 0x1F335), (0x1F337, 0x1F37C), (0x1F37E, 0x1F393), (0x1F3A0, 0x1F3CA), 
     (0x1F3CF, 0x1F3D3), (0x1F3E0, 0x1F3F0), (0x1F3F4, 0x1F3F4), (0x1F3F8, 0x1F43E), 
     (0x1F440, 0x1F440), (0x1F442, 0x1F4FC), (0x1F4FF, 0x1F53D), (0x1F54B, 0x1F54E), 
     (0x1F550, 0x1F567), (0x1F57A, 0x1F57A), (0x1F595, 0x1F596), (0x1F5A4, 0x1F5A4), 
     (0x1F5FB, 0x1F64F), (0x1F680, 0x1F6C5), (0x1F6CC, 0x1F6CC), (0x1F6D0, 0x1F6D2), 
     (0x1F6D5, 0x1F6D8), (0x1F6DC, 0x1F6DF), (0x1F6EB, 0x1F6EC), (0x1F6F4, 0x1F6FC), 
     (0x1F7E0, 0x1F7EB), (0x1F7F0, 0x1F7F0), (0x1F90C, 0x1F93A), (0x1F93C, 0x1F945), 
     (0x1F947, 0x1F9FF), (0x1FA70, 0x1FA7C), (0x1FA80, 0x1FA8A), (0x1FA8E, 0x1FAC6), 
     (0x1FAC8, 0x1FAC8), (0x1FACD, 0x1FADC), (0x1FADF, 0x1FAEA), (0x1FAEF, 0x1FAF8)]\<rparr>"

definition propEmojiModifier :: range_table where
  "propEmojiModifier = \<lparr>R16 =
    [],
   R32 =
    [(0x1F3FB, 0x1F3FF)]\<rparr>"

definition propEmojiModifierBase :: range_table where
  "propEmojiModifierBase = \<lparr>R16 =
    [(0x261D, 0x261D), (0x26F9, 0x26F9), (0x270A, 0x270D)],
   R32 =
    [(0x1F385, 0x1F385), (0x1F3C2, 0x1F3C4), (0x1F3C7, 0x1F3C7), (0x1F3CA, 0x1F3CC), 
     (0x1F442, 0x1F443), (0x1F446, 0x1F450), (0x1F466, 0x1F478), (0x1F47C, 0x1F47C), 
     (0x1F481, 0x1F483), (0x1F485, 0x1F487), (0x1F48F, 0x1F48F), (0x1F491, 0x1F491), 
     (0x1F4AA, 0x1F4AA), (0x1F574, 0x1F575), (0x1F57A, 0x1F57A), (0x1F590, 0x1F590), 
     (0x1F595, 0x1F596), (0x1F645, 0x1F647), (0x1F64B, 0x1F64F), (0x1F6A3, 0x1F6A3), 
     (0x1F6B4, 0x1F6B6), (0x1F6C0, 0x1F6C0), (0x1F6CC, 0x1F6CC), (0x1F90C, 0x1F90C), 
     (0x1F90F, 0x1F90F), (0x1F918, 0x1F91F), (0x1F926, 0x1F926), (0x1F930, 0x1F939), 
     (0x1F93C, 0x1F93E), (0x1F977, 0x1F977), (0x1F9B5, 0x1F9B6), (0x1F9B8, 0x1F9B9), 
     (0x1F9BB, 0x1F9BB), (0x1F9CD, 0x1F9CF), (0x1F9D1, 0x1F9DD), (0x1FAC3, 0x1FAC5), 
     (0x1FAF0, 0x1FAF8)]\<rparr>"

subsection \<open>The scanner\<close>

definition zwj :: nat where "zwj = 0x200D"
definition vs16 :: nat where "vs16 = 0xFE0F"
definition keycap :: nat where "keycap = 0x20E3"
definition tagBegin :: nat where "tagBegin = 0xE0020"
definition tagEnd :: nat where "tagEnd = 0xE007E"
definition tagTerm :: nat where "tagTerm = 0xE007F"
definition riFirst :: nat where "riFirst = 0x1F1E6"
definition riLast :: nat where "riLast = 0x1F1FF"
definition blackFlag :: nat where "blackFlag = 0x1F3F4"
definition maxReaction :: nat where "maxReaction = 64"
definition maxSequenceR :: nat where "maxSequenceR = 24"

definition isRI :: "nat \<Rightarrow> bool" where
  "isRI r \<longleftrightarrow> riFirst \<le> r \<and> r \<le> riLast"

definition is_tag :: "nat \<Rightarrow> bool" where
  "is_tag r \<longleftrightarrow> tagBegin \<le> r \<and> r \<le> tagEnd"

definition zwjElement :: "nat list \<Rightarrow> nat \<times> bool" where
  "zwjElement runes = (case runes of
     [] \<Rightarrow> (0, False)
   | base # tail_runes \<Rightarrow>
       if \<not> unicode_Is propEmoji base \<or> isRI base then (0, False)
       else (let presents = unicode_Is propEmojiPresentation base in
         case tail_runes of
           [] \<Rightarrow> (1, presents)
         | r # after \<Rightarrow>
             if unicode_Is propEmojiModifier r then
               (if \<not> unicode_Is propEmojiModifierBase base then (0, False) else (2, True))
             else if r = vs16 then
               (case after of k # _ \<Rightarrow> if k = keycap then (3, True) else (2, True) | [] \<Rightarrow> (2, True))
             else if is_tag r then
               (if base \<noteq> blackFlag then (0, False)
                else (let i = 1 + length (takeWhile is_tag tail_runes) in
                  if length runes \<le> i \<or> runes ! i \<noteq> tagTerm then (0, False) else (i + 1, True)))
             else (1, presents)))"

lemma zwjElement_pos: "zwjElement rs = (n, True) \<Longrightarrow> 0 < n"
  by (auto simp: zwjElement_def Let_def split: list.splits if_splits)

lemma drop_Cons_length: "drop n xs = r # rest \<Longrightarrow> length rest < length xs"
  by (metis Suc_le_lessD diff_le_self length_Cons length_drop)

function possible_loop :: "nat list \<Rightarrow> bool" where
  "possible_loop runes = (case zwjElement runes of (n, ok) \<Rightarrow>
     if \<not> ok then False
     else (case drop n runes of
        [] \<Rightarrow> True
      | r # rest \<Rightarrow> if r \<noteq> zwj then False else if rest = [] then False else possible_loop rest))"
  by pat_completeness auto
termination
  by (relation "measure length") (auto dest: drop_Cons_length)

declare possible_loop.simps [simp del]

definition IsPossible :: "string \<Rightarrow> bool" where
  "IsPossible s = (if s = [] \<or> maxReaction < length s then False
     else (case utf8_runes s of None \<Rightarrow> False
       | Some runes \<Rightarrow>
           if maxSequenceR < length runes then False
           else if length runes = 2 \<and> isRI (runes ! 0) \<and> isRI (runes ! 1) then True
           else possible_loop runes))"

definition IsRGI :: "string list \<Rightarrow> string \<Rightarrow> bool" where
  "IsRGI rgi s \<longleftrightarrow> s \<in> set rgi"

definition IsSingle :: "string list \<Rightarrow> string \<Rightarrow> bool" where
  "IsSingle rgi s \<longleftrightarrow> IsRGI rgi s \<or> IsPossible s"

subsection \<open>The grammar\<close>

inductive emoji_element :: "nat list \<Rightarrow> bool" where
  plain: "unicode_Is propEmoji b \<Longrightarrow> \<not> isRI b \<Longrightarrow> unicode_Is propEmojiPresentation b \<Longrightarrow>
    emoji_element [b]"
| modified: "unicode_Is propEmoji b \<Longrightarrow> \<not> isRI b \<Longrightarrow> unicode_Is propEmojiModifierBase b \<Longrightarrow>
    unicode_Is propEmojiModifier m \<Longrightarrow> emoji_element [b, m]"
| variation: "unicode_Is propEmoji b \<Longrightarrow> \<not> isRI b \<Longrightarrow> emoji_element [b, vs16]"
| keycapped: "unicode_Is propEmoji b \<Longrightarrow> \<not> isRI b \<Longrightarrow> emoji_element [b, vs16, keycap]"
| tagged: "tags \<noteq> [] \<Longrightarrow> list_all is_tag tags \<Longrightarrow> emoji_element (blackFlag # tags @ [tagTerm])"

inductive zwj_sequence :: "nat list \<Rightarrow> bool" where
  one: "emoji_element e \<Longrightarrow> zwj_sequence e"
| join: "emoji_element e \<Longrightarrow> zwj_sequence s \<Longrightarrow> zwj_sequence (e @ zwj # s)"

inductive possible_emoji :: "nat list \<Rightarrow> bool" where
  flag: "isRI a \<Longrightarrow> isRI b \<Longrightarrow> possible_emoji [a, b]"
| zwj: "zwj_sequence s \<Longrightarrow> possible_emoji s"

lemmas emoji_consts = zwj_def vs16_def keycap_def tagBegin_def tagEnd_def tagTerm_def
  riFirst_def riLast_def blackFlag_def is_tag_def isRI_def

lemma modifier_iff: "unicode_Is propEmojiModifier r \<longleftrightarrow> 0x1F3FB \<le> r \<and> r \<le> 0x1F3FF"
  by (simp add: unicode_Is_def propEmojiModifier_def)

lemma black_flag_emoji [simp]: "unicode_Is propEmoji blackFlag" "\<not> isRI blackFlag"
  by (simp_all add: unicode_Is_def propEmoji_def emoji_consts)

lemma not_modifier [simp]: "\<not> unicode_Is propEmojiModifier zwj" "\<not> unicode_Is propEmojiModifier vs16"
  "is_tag r \<Longrightarrow> \<not> unicode_Is propEmojiModifier r"
  by (simp_all add: modifier_iff emoji_consts)

lemma code_points_differ [simp]: "zwj \<noteq> vs16" "vs16 \<noteq> zwj" "zwj \<noteq> keycap" "\<not> is_tag zwj" "\<not> is_tag vs16"
  "\<not> is_tag tagTerm" "is_tag r \<Longrightarrow> r \<noteq> vs16"
  by (auto simp: emoji_consts)

lemma zwjElement_sound:
  assumes "zwjElement rs = (n, True)"
  shows "emoji_element (take n rs) \<and> n \<le> length rs"
proof -
  obtain b tail_runes where rs: "rs = b # tail_runes" using assms by (cases rs) (auto simp: zwjElement_def)
  with assms have b: "unicode_Is propEmoji b" "\<not> isRI b"
    by (auto simp: zwjElement_def split: if_splits)
  show ?thesis
  proof (cases tail_runes)
    case Nil
    with assms rs b show ?thesis by (auto simp: zwjElement_def intro: emoji_element.plain)
  next
    case (Cons r after)
    consider (m) "unicode_Is propEmojiModifier r"
      | (v) "r = vs16" | (t) "is_tag r" "\<not> unicode_Is propEmojiModifier r" "r \<noteq> vs16"
      | (p) "\<not> unicode_Is propEmojiModifier r" "r \<noteq> vs16" "\<not> is_tag r" by blast
    then show ?thesis
    proof cases
      case m
      with assms rs Cons b show ?thesis
        by (auto simp: zwjElement_def split: if_splits intro: emoji_element.modified)
    next
      case v
      with assms rs Cons b show ?thesis
        by (auto simp: zwjElement_def split: if_splits list.splits
            intro: emoji_element.variation emoji_element.keycapped)
    next
      case t
      let ?tags = "takeWhile is_tag tail_runes"
      let ?i = "1 + length ?tags"
      from assms rs Cons b t have flag: "b = blackFlag" and n: "n = ?i + 1"
        and i: "?i < length rs" "rs ! ?i = tagTerm"
        by (auto simp: zwjElement_def Let_def split: if_splits)
      have "rs = (b # ?tags) @ dropWhile is_tag tail_runes" using rs by simp
      then have "take ?i rs = b # ?tags"
        by (metis append_eq_conv_conj length_Cons plus_1_eq_Suc)
      with i n flag have "take n rs = blackFlag # ?tags @ [tagTerm]"
        by (simp add: take_Suc_conv_app_nth)
      moreover have "?tags \<noteq> []" using Cons t by simp
      moreover have "list_all is_tag ?tags" by (simp add: list_all_iff) (metis set_takeWhileD)
      ultimately show ?thesis using emoji_element.tagged n i by simp
    next
      case p
      with assms rs Cons b show ?thesis
        by (auto simp: zwjElement_def split: if_splits intro: emoji_element.plain)
    qed
  qed
qed

lemma takeWhile_tags: "list_all is_tag tags \<Longrightarrow> takeWhile is_tag (tags @ tagTerm # s) = tags"
  by (induction tags) auto

lemma zwjElement_complete:
  assumes "emoji_element e" and "rest = [] \<or> (\<exists>s. rest = zwj # s)"
  shows "zwjElement (e @ rest) = (length e, True)"
  using assms
proof (induction rule: emoji_element.induct)
  case (tagged tags)
  then obtain t ts where tags: "tags = t # ts" and t: "is_tag t" by (cases tags) auto
  let ?rs = "(blackFlag # tags @ [tagTerm]) @ rest"
  have tw: "takeWhile is_tag (tags @ tagTerm # rest) = tags"
    using tagged by (simp add: takeWhile_tags)
  have "?rs ! (1 + length tags) = tagTerm" by (simp add: nth_append)
  with tw tags t show ?case by (simp add: zwjElement_def Let_def)
next
  case (modified b m)
  then show ?case by (auto simp: zwjElement_def)
qed (auto simp: zwjElement_def Let_def)

lemma possible_loop_sound: "possible_loop rs \<Longrightarrow> zwj_sequence rs"
proof (induction "length rs" arbitrary: rs rule: less_induct)
  case less
  obtain n ok where z: "zwjElement rs = (n, ok)" by fastforce
  with less.prems have ok: "ok" by (subst (asm) possible_loop.simps) (auto split: if_splits)
  with z have e: "emoji_element (take n rs)" using zwjElement_sound [of rs n] by simp
  show ?case
  proof (cases "drop n rs")
    case Nil
    then have "take n rs = rs" by simp
    with e show ?thesis using zwj_sequence.one by metis
  next
    case (Cons r rest)
    with less.prems z ok have r: "r = zwj" and "possible_loop rest"
      by (subst (asm) possible_loop.simps, simp split: if_splits)+
    with less.hyps Cons have "zwj_sequence rest" by (blast dest: drop_Cons_length)
    with e have "zwj_sequence (take n rs @ zwj # rest)" by (rule zwj_sequence.join)
    moreover have "rs = take n rs @ zwj # rest"
      using Cons r by (metis append_take_drop_id)
    ultimately show ?thesis by simp
  qed
qed

lemma zwj_sequence_nonempty: "zwj_sequence s \<Longrightarrow> s \<noteq> []"
  by (induction rule: zwj_sequence.induct) (auto elim: emoji_element.cases)

lemma possible_loop_complete: "zwj_sequence rs \<Longrightarrow> possible_loop rs"
proof (induction rule: zwj_sequence.induct)
  case (one e)
  with zwjElement_complete [of e "[]"] show ?case by (subst possible_loop.simps) simp
next
  case (join e s)
  with zwjElement_complete [of e "zwj # s"] zwj_sequence_nonempty [of s]
  show ?case by (subst possible_loop.simps) simp
qed

lemma possible_loop_grammar: "possible_loop rs \<longleftrightarrow> zwj_sequence rs"
  using possible_loop_sound possible_loop_complete by blast

lemma possible_emoji_iff:
  "possible_emoji rs \<longleftrightarrow> (length rs = 2 \<and> isRI (rs ! 0) \<and> isRI (rs ! 1)) \<or> zwj_sequence rs"
proof
  assume "possible_emoji rs"
  then show "(length rs = 2 \<and> isRI (rs ! 0) \<and> isRI (rs ! 1)) \<or> zwj_sequence rs"
    by (cases rule: possible_emoji.cases) auto
next
  assume h: "(length rs = 2 \<and> isRI (rs ! 0) \<and> isRI (rs ! 1)) \<or> zwj_sequence rs"
  show "possible_emoji rs"
  proof (cases "zwj_sequence rs")
    case True
    then show ?thesis by (rule possible_emoji.zwj)
  next
    case False
    with h have l: "length rs = 2" and ri: "isRI (rs ! 0)" "isRI (rs ! 1)" by auto
    from l obtain a b where "rs = [a, b]"
      by (auto simp: length_Suc_conv numeral_2_eq_2)
    with ri show ?thesis by (simp add: possible_emoji.flag)
  qed
qed

end
