(* ===== verification/Reactions.thy ===== *)
theory Reactions
  imports Compose Emoji "HOL-Library.AList" "HOL-Library.Multiset"
begin

text \<open>
  Reactions (\<open>src/internal/handlers/reactions.go\<close>): how a message is recognised as a reaction, which
  reactions are in effect on a message, and \<open>React\<close>, which sends one.

  A reactor's effective reaction is the latest of theirs.  The choice of the latest row per key is
  proved once for any order, in the locale \<open>latest_wins\<close>, and used for the order of the code,
  \<open>newerReaction\<close>.  The body of a reaction is the emoji grammar of theory \<open>Emoji\<close>.
\<close>

subsection \<open>Recognition\<close>

definition reactionMediaType :: string where
  "reactionMediaType = ''text/plain;charset=UTF-8''"

definition maxReactionBytes :: nat where
  "maxReactionBytes = 64"

definition isReactionMediaType :: "string \<Rightarrow> bool" where
  "isReactionMediaType t \<longleftrightarrow> EqualFold (RemoveChar (CHR '' '') t) reactionMediaType"

definition reactionShape :: "bool \<Rightarrow> bool \<Rightarrow> bool \<Rightarrow> bool \<Rightarrow> bool \<Rightarrow> string \<Rightarrow> int \<Rightarrow> nat \<Rightarrow> bool" where
  "reactionShape hasPid noReply terminal important hasAddTo mediaType sz attachments \<longleftrightarrow>
     hasPid \<and> noReply \<and> terminal \<and> \<not> important \<and> \<not> hasAddTo \<and>
     sz \<ge> 0 \<and> sz \<le> int maxReactionBytes \<and> attachments = 0 \<and> isReactionMediaType mediaType"

definition readReactionData :: "env \<Rightarrow> (string \<rightharpoonup> string) \<Rightarrow> string \<Rightarrow> int \<Rightarrow> string option" where
  "readReactionData E stored path sz = (if sz = 0 then Some []
     else (case safeDataPath (e_cwd E) path (DataDir E) of None \<Rightarrow> None
      | Some p \<Rightarrow> (case stored p of None \<Rightarrow> None
         | Some content \<Rightarrow> (let s = take (maxReactionBytes + 1) content in
             if IsSingle (e_rgi E) s then Some s else None))))"

definition reactionOf :: "env \<Rightarrow> (string \<rightharpoonup> string) \<Rightarrow> bool \<Rightarrow> bool \<Rightarrow> bool \<Rightarrow> bool \<Rightarrow> bool \<Rightarrow> string \<Rightarrow> int \<Rightarrow> nat \<Rightarrow> string
    \<Rightarrow> string option" where
  "reactionOf E stored hasPid noReply terminal important hasAddTo mediaType sz attachments path =
     (if \<not> reactionShape hasPid noReply terminal important hasAddTo mediaType sz attachments then None
      else readReactionData E stored path sz)"

definition message_reaction :: "env \<Rightarrow> (string \<rightharpoonup> string) \<Rightarrow> ('x message_scheme) \<Rightarrow> string \<Rightarrow> string option" where
  "message_reaction E stored m path = reactionOf E stored (HasPid m) (NoReply m) (Terminal m) (Important m) (HasAddTo m)
     (Type m) (Size m) (length (Attachments m)) path"

text \<open>The subject of a stored message that is a reaction.\<close>

definition subject_of :: "env \<Rightarrow> (string \<rightharpoonup> string) \<Rightarrow> database \<Rightarrow> int \<Rightarrow> int option" where
  "subject_of E stored d i = (case find_msg d i of None \<Rightarrow> None
     | Some m \<Rightarrow> (if m_pid m \<noteq> None \<and> reactionOf E stored True (m_no_reply m) (m_terminal m) (m_important m)
          (list_ex (\<lambda>b. b_msg b = i) (batches d)) (m_type m) (m_size m) (length (att_rows d i)) (m_path m) \<noteq> None
        then m_pid m else None))"

definition reactionSubject :: "env \<Rightarrow> int \<Rightarrow> (response, int option) act" where
  "reactionSubject E i = bind get_world (\<lambda>w. bind (sql_query E (\<lambda>d. subject_of E (files w) d i))
     (\<lambda>r. ret (case r of Inl _ \<Rightarrow> None | Inr s \<Rightarrow> s)))"

subsection \<open>The latest row of each key\<close>

fun put_latest :: "('r \<Rightarrow> 'r \<Rightarrow> bool) \<Rightarrow> ('r \<Rightarrow> 'k) \<Rightarrow> ('k \<times> 'r) list \<Rightarrow> 'r list \<Rightarrow> ('k \<times> 'r) list" where
  "put_latest newer key tab [] = tab"
| "put_latest newer key tab (r # rs) = put_latest newer key (case map_of tab (key r) of
       None \<Rightarrow> AList.update (key r) r tab
     | Some cur \<Rightarrow> if newer r cur then AList.update (key r) r tab else tab) rs"

locale latest_wins =
  fixes newer :: "'r \<Rightarrow> 'r \<Rightarrow> bool" and key :: "'r \<Rightarrow> 'k"
  assumes newer_irrefl: "\<not> newer a a"
    and newer_trans: "newer a b \<Longrightarrow> newer b c \<Longrightarrow> newer a c"
    and not_newer_trans: "\<not> newer a b \<Longrightarrow> \<not> newer b c \<Longrightarrow> \<not> newer a c"
begin

definition latest_map :: "('k \<rightharpoonup> 'r) \<Rightarrow> 'r list \<Rightarrow> bool" where
  "latest_map m rs \<longleftrightarrow> (\<forall>k. m k = None \<longrightarrow> (\<forall>r \<in> set rs. key r \<noteq> k))
     \<and> (\<forall>k b. m k = Some b \<longrightarrow> b \<in> set rs \<and> key b = k \<and> (\<forall>r \<in> set rs. key r = k \<longrightarrow> \<not> newer r b))"

definition holds_latest :: "('k \<times> 'r) list \<Rightarrow> 'r list \<Rightarrow> bool" where
  "holds_latest tab rs \<longleftrightarrow> distinct (map fst tab) \<and> latest_map (map_of tab) rs"

lemma latest_map_put:
  assumes "latest_map m rs" and "case m (key r) of None \<Rightarrow> True | Some cur \<Rightarrow> newer r cur"
  shows "latest_map (m(key r \<mapsto> r)) (rs @ [r])"
proof -
  have "\<not> newer x r" if "x \<in> set rs" "key x = key r" for x
  proof (cases "m (key r)")
    case None
    with assms(1) that show ?thesis by (simp add: latest_map_def)
  next
    case (Some cur)
    with assms have "newer r cur" "\<not> newer x cur" using that by (simp_all add: latest_map_def)
    with newer_trans show ?thesis by blast
  qed
  with assms(1) newer_irrefl show ?thesis by (simp add: latest_map_def)
qed

lemma latest_map_keep:
  assumes "latest_map m rs" and "m (key r) = Some cur" and "\<not> newer r cur"
  shows "latest_map m (rs @ [r])"
  using assms by (auto simp: latest_map_def)

lemma holds_latest_step:
  assumes "holds_latest tab rs"
  shows "holds_latest (case map_of tab (key r) of None \<Rightarrow> AList.update (key r) r tab
     | Some cur \<Rightarrow> if newer r cur then AList.update (key r) r tab else tab) (rs @ [r])"
proof (cases "map_of tab (key r)")
  case None
  with assms latest_map_put [of "map_of tab" rs r] show ?thesis
    by (simp add: holds_latest_def update_conv' distinct_update)
next
  case (Some cur)
  with assms latest_map_put [of "map_of tab" rs r] latest_map_keep [of "map_of tab" rs r cur] show ?thesis
    by (simp add: holds_latest_def update_conv' distinct_update del: map_of_eq_Some_iff)
qed

lemma put_latest_holds: "holds_latest tab rs0 \<Longrightarrow> holds_latest (put_latest newer key tab rs) (rs0 @ rs)"
proof (induction rs arbitrary: tab rs0)
  case Nil
  then show ?case by simp
next
  case (Cons r rs)
  from Cons.IH [OF holds_latest_step [OF Cons.prems, of r]] show ?case by simp
qed

lemma put_latest_spec:
  "map_of (put_latest newer key [] rs) k = Some b \<Longrightarrow> b \<in> set rs \<and> key b = k \<and> (\<forall>r \<in> set rs. key r = k \<longrightarrow> \<not> newer r b)"
  "map_of (put_latest newer key [] rs) k = None \<longleftrightarrow> (\<forall>r \<in> set rs. key r \<noteq> k)"
  "distinct (map fst (put_latest newer key [] rs))"
proof -
  have "holds_latest [] []" by (simp add: holds_latest_def latest_map_def)
  from put_latest_holds [OF this, of rs] have h: "distinct (map fst (put_latest newer key [] rs))"
    "latest_map (map_of (put_latest newer key [] rs)) rs" by (simp_all only: holds_latest_def append_Nil)
  show "distinct (map fst (put_latest newer key [] rs))" by (rule h(1))
  show some: "map_of (put_latest newer key [] rs) k = Some b \<Longrightarrow> b \<in> set rs \<and> key b = k \<and> (\<forall>r \<in> set rs. key r = k \<longrightarrow> \<not> newer r b)" for k b
    using h(2) unfolding latest_map_def by blast
  have "\<exists>r \<in> set rs. key r = k" if "map_of (put_latest newer key [] rs) k = Some b" for b
    using some [OF that] by blast
  then show "map_of (put_latest newer key [] rs) k = None \<longleftrightarrow> (\<forall>r \<in> set rs. key r \<noteq> k)"
    using h(2) unfolding latest_map_def by (metis option.exhaust)
qed

text \<open>When no two rows of a key are level, the table holds exactly the newest of each key.\<close>

lemma put_latest_iff:
  assumes "\<And>a b. a \<in> set rs \<Longrightarrow> b \<in> set rs \<Longrightarrow> key a = key b \<Longrightarrow> a \<noteq> b \<Longrightarrow> newer a b \<or> newer b a"
  shows "r \<in> snd ` set (put_latest newer key [] rs) \<longleftrightarrow> r \<in> set rs \<and> (\<forall>x \<in> set rs. key x = key r \<longrightarrow> \<not> newer x r)"
proof
  let ?t = "put_latest newer key [] rs"
  assume "r \<in> snd ` set ?t"
  then obtain k where "(k, r) \<in> set ?t" by auto
  then have "map_of ?t k = Some r" using put_latest_spec(3) by (simp add: map_of_eq_Some_iff)
  from put_latest_spec(1) [OF this] show "r \<in> set rs \<and> (\<forall>x \<in> set rs. key x = key r \<longrightarrow> \<not> newer x r)" by auto
next
  let ?t = "put_latest newer key [] rs"
  assume r: "r \<in> set rs \<and> (\<forall>x \<in> set rs. key x = key r \<longrightarrow> \<not> newer x r)"
  then obtain b where b: "map_of ?t (key r) = Some b" using put_latest_spec(2) by (cases "map_of ?t (key r)") auto
  from put_latest_spec(1) [OF b] r assms have "b = r" by metis
  with b map_of_SomeD show "r \<in> snd ` set ?t" by force
qed

end

subsection \<open>Effective reactions\<close>

record reactionRow =
  subjectID :: int
  msgID :: int
  rr_from :: string
  rr_time :: time
  rr_hash :: string
  rr_emoji :: string

fun bytes_greater :: "string \<Rightarrow> string \<Rightarrow> bool" where
  "bytes_greater [] b = False"
| "bytes_greater (x # xs) [] = True"
| "bytes_greater (x # xs) (y # ys) = (byte x > byte y \<or> (byte x = byte y \<and> bytes_greater xs ys))"

definition newerReaction :: "reactionRow \<Rightarrow> reactionRow \<Rightarrow> bool" where
  "newerReaction a b \<longleftrightarrow> (if rr_time a \<noteq> rr_time b then rr_time a > rr_time b
     else bytes_greater (rr_hash a) (rr_hash b))"

definition reactor_key :: "reactionRow \<Rightarrow> string" where
  "reactor_key r = ToLower (rr_from r)"

fun add_reaction :: "Reaction list \<Rightarrow> reactionRow \<Rightarrow> Reaction list" where
  "add_reaction [] r = [\<lparr>Emoji = rr_emoji r, ReactionFrom = [rr_from r]\<rparr>]"
| "add_reaction (g # gs) r = (if Emoji g = rr_emoji r then g\<lparr>ReactionFrom := ReactionFrom g @ [rr_from r]\<rparr> # gs
     else g # add_reaction gs r)"

definition effective_rows :: "reactionRow list \<Rightarrow> int \<Rightarrow> reactionRow list" where
  "effective_rows rows s = sort_key rr_time (sort_key msgID
     (filter (\<lambda>r. rr_emoji r \<noteq> []) (map snd (put_latest newerReaction reactor_key [] (filter (\<lambda>r. subjectID r = s) rows)))))"

definition effectiveReactions :: "reactionRow list \<Rightarrow> int \<Rightarrow> Reaction list" where
  "effectiveReactions rows s = foldl add_reaction [] (effective_rows rows s)"

subsection \<open>Loading\<close>

definition reaction_row :: "database \<Rightarrow> int list \<Rightarrow> string \<Rightarrow> msg_row \<Rightarrow> bool" where
  "reaction_row d subjects reactor m \<longleftrightarrow> (case m_pid m of None \<Rightarrow> False | Some p \<Rightarrow> p \<in> set subjects)
     \<and> m_time m \<noteq> None \<and> m_terminal m \<and> m_no_reply m \<and> \<not> m_important m \<and> m_size m \<le> int maxReactionBytes
     \<and> ToLower (RemoveChar (CHR '' '') (m_type m)) = ToLower reactionMediaType
     \<and> (reactor = [] \<or> ToLower (m_from m) = ToLower reactor)
     \<and> att_rows d (m_id m) = [] \<and> \<not> list_ex (\<lambda>b. b_msg b = m_id m) (batches d)"

definition row_of :: "msg_row \<Rightarrow> string \<Rightarrow> reactionRow" where
  "row_of m e = \<lparr>subjectID = (case m_pid m of None \<Rightarrow> 0 | Some p \<Rightarrow> p), msgID = m_id m, rr_from = m_from m,
     rr_time = (case m_time m of None \<Rightarrow> 0 | Some t \<Rightarrow> t),
     rr_hash = (case m_sha256 m of None \<Rightarrow> [] | Some h \<Rightarrow> h), rr_emoji = e\<rparr>"

definition reaction_rows :: "env \<Rightarrow> (string \<rightharpoonup> string) \<Rightarrow> database \<Rightarrow> int list \<Rightarrow> string \<Rightarrow> reactionRow list" where
  "reaction_rows E stored d subjects reactor =
     concat (map (\<lambda>m. case readReactionData E stored (m_path m) (m_size m) of None \<Rightarrow> [] | Some e \<Rightarrow> [row_of m e])
       (sort_key (\<lambda>m. case m_pid m of None \<Rightarrow> 0 | Some p \<Rightarrow> p)
         (sort_key (\<lambda>m. case m_time m of None \<Rightarrow> 0 | Some t \<Rightarrow> t)
           (sort_key m_id (filter (reaction_row d subjects reactor) (msgs d))))))"

definition loadReactionRows :: "env \<Rightarrow> int list \<Rightarrow> string \<Rightarrow> (response, sql_error + reactionRow list) act" where
  "loadReactionRows E subjects reactor = (if subjects = [] then ret (Inr [])
     else bind get_world (\<lambda>w. sql_query E (\<lambda>d. reaction_rows E (files w) d subjects reactor)))"

definition loadReactions :: "env \<Rightarrow> int list \<Rightarrow> (response, int \<Rightarrow> Reaction list) act" where
  "loadReactions E subjects = bind (loadReactionRows E subjects []) (\<lambda>r.
     ret (case r of Inl _ \<Rightarrow> (\<lambda>_. []) | Inr rows \<Rightarrow> effectiveReactions rows))"

definition populateListReactions :: "env \<Rightarrow> list_item list \<Rightarrow> (response, list_item list) act" where
  "populateListReactions E items = bind get_world (\<lambda>w.
     bind (loadReactions E (map ItemID items)) (\<lambda>rs.
     ret (map (\<lambda>it. it\<lparr>MsgReaction := message_reaction E (files w) it (dataPath it),
        Reactions := rs (ItemID it)\<rparr>) items)))"

subsection \<open>Sending a reaction\<close>

fun dedup_lower :: "string set \<Rightarrow> string list \<Rightarrow> string list" where
  "dedup_lower seen [] = []"
| "dedup_lower seen (a # as) = (if ToLower a \<in> seen then dedup_lower seen as
     else a # dedup_lower (insert (ToLower a) seen) as)"

definition reactionRecipients :: "message \<Rightarrow> string \<Rightarrow> string list" where
  "reactionRecipients subject reactor = dedup_lower {ToLower reactor}
     (From subject # To subject @ concat (map (\<lambda>b. AddToFrom b # BatchTo b) (AddTo subject)))"

fun newest :: "reactionRow option \<Rightarrow> reactionRow list \<Rightarrow> reactionRow option" where
  "newest cur [] = cur"
| "newest cur (r # rs) = newest (case cur of None \<Rightarrow> Some r | Some c \<Rightarrow> if newerReaction r c then Some r else cur) rs"

text \<open>The hash a reaction names as its parent: the message's, or for an added recipient their batch's.\<close>

definition reaction_parent_hash :: "message \<Rightarrow> string \<Rightarrow> string option" where
  "reaction_parent_hash subject identity =
     (if sameAddr (From subject) identity \<or> isRecipient (To subject) identity then SHA256 subject
      else (case find (\<lambda>b. isRecipient (BatchTo b) identity) (AddTo subject) of None \<Rightarrow> None
            | Some b \<Rightarrow> BatchSHA256 b))"

definition send_reaction :: "env \<Rightarrow> string \<Rightarrow> int \<Rightarrow> string \<Rightarrow> string \<Rightarrow> string list \<Rightarrow> (response, response) act" where
  "send_reaction E identity i want parentHash recipients =
     bind (checkSendQuota E identity (int (length want))) (\<lambda>_.
     bind (clock E) (\<lambda>now.
     bind (or_fail (sql_query E (\<lambda>_. ())) (err 500 ''failed to send reaction'')) (\<lambda>_.
     bind (or_fail (stmt E (insert_message (new_message 1 (Some i) (hex_decode parentHash) True False True identity []
         reactionMediaType (int (length want))))) (err 500 ''failed to send reaction'')) (\<lambda>rid.
     bind (saveMessageData E identity rid (mimeToExt E reactionMediaType) want) (\<lambda>saved. case saved of
       None \<Rightarrow> throw (err 500 ''failed to save reaction'')
     | Some path \<Rightarrow>
       bind (add_rollback [path]) (\<lambda>_.
       bind (or_fail (sql_exec E (set_path rid path)) (err 500 ''failed to send reaction'')) (\<lambda>_.
       bind (each (\<lambda>a. or_fail (stmt E (\<lambda>d. if list_ex (\<lambda>r. e_addr_key E (t_addr r) = e_addr_key E a) (to_rows d rid)
            then Inl UniqueViolation else Inr ((), insert_recipient E rid a d))) (err 500 ''failed to send reaction'')) recipients) (\<lambda>_.
       bind (finalize E rid now (err 500 ''failed to finalize reaction'')) (\<lambda>hash.
       bind (or_fail (sql_query E (\<lambda>_. ())) (err 500 ''failed to send reaction'')) (\<lambda>_.
       bind (add_commit [DRecordSend identity now (int (length want)), DResolve False rid recipients]) (\<lambda>_.
       ret (201, JObj [(''id'', JInt rid), (''time'', JTime now), (''sha256'', JStr (hex_encode hash))]))))))))))))"

text \<open>The checks of \<open>React\<close> on the message reacted to, and what it does once they passed.\<close>

definition react_subject :: "env \<Rightarrow> string \<Rightarrow> int \<Rightarrow> (response, message) act" where
  "react_subject E identity i =
     bind (require_message E i) (\<lambda>(subject, _).
     bind (if draftHidden [identity] (From subject) (Time subject) then ret True else purgedFor E identity i) (\<lambda>hidden.
     bind (unless (\<not> hidden) not_found) (\<lambda>_.
     bind (unless (EqualFold (From subject) identity \<or> isRecipient (To subject) identity \<or> addToContains (AddTo subject) identity)
         (err 403 ''only participants may react to a message'')) (\<lambda>_.
     bind (unless (Time subject \<noteq> None) (err 409 ''cannot react to a draft'')) (\<lambda>_.
     bind (unless (\<not> Terminal subject) (err 409 ''message is terminal; it cannot be reacted to'')) (\<lambda>_.
     ret subject))))))"

definition current_json :: "reactionRow option \<Rightarrow> json" where
  "current_json cur = (case cur of
       None \<Rightarrow> JObj [(''id'', JNull), (''time'', JNull), (''sha256'', JNull)]
     | Some c \<Rightarrow> JObj [(''id'', JInt (msgID c)), (''time'', JTime (rr_time c)), (''sha256'', JStr (hex_encode (rr_hash c)))])"

definition react_decide :: "env \<Rightarrow> string \<Rightarrow> int \<Rightarrow> string \<Rightarrow> message \<Rightarrow> (response, response) act" where
  "react_decide E identity i want subject = (let recipients = reactionRecipients subject identity in
     bind (unless (recipients \<noteq> []) (err 409 ''message has no other participants to send a reaction to'')) (\<lambda>_.
     bind (or_fail (loadReactionRows E [i] identity) (err 500 ''failed to load reactions'')) (\<lambda>mine.
     let current = newest None mine in
     if (case current of None \<Rightarrow> want = [] | Some c \<Rightarrow> rr_emoji c = want) then ret (200, current_json current)
     else
       bind (check_reply_domains E (dedup_domains (LocalDomain E) {} recipients) i
          (\<lambda>why. err 409 (''reaction cannot be accepted by recipient host(s): '' @ why))) (\<lambda>_.
       case reaction_parent_hash subject identity of
         None \<Rightarrow> throw (err 500 ''reaction parent has no finalized identity'')
       | Some h \<Rightarrow> send_reaction E identity i want h recipients))))"

definition React :: "env \<Rightarrow> string \<Rightarrow> string \<Rightarrow> string option option \<Rightarrow> (response, response) act" where
  "React E identity param body =
     bind (resolveID E param) (\<lambda>i.
     case body of None \<Rightarrow> throw (err 400 ''invalid request body'')
     | Some emoji \<Rightarrow>
       let want = (case emoji of None \<Rightarrow> [] | Some s \<Rightarrow> s) in
       bind (unless (want = [] \<or> IsSingle (e_rgi E) want) (err 400 ''emoji must be a single emoji, or empty to clear'')) (\<lambda>_.
       bind (react_subject E identity i) (\<lambda>subject. react_decide E identity i want subject)))"

subsection \<open>The order of reactions\<close>

lemma bytes_greater_irrefl: "\<not> bytes_greater a a"
  by (induction a) simp_all

lemma bytes_greater_trans: "bytes_greater a b \<Longrightarrow> bytes_greater b c \<Longrightarrow> bytes_greater a c"
proof (induction a b arbitrary: c rule: bytes_greater.induct)
  case (3 x xs y ys)
  then show ?case by (cases c) auto
qed auto

lemma bytes_greater_total: "bytes_greater a b \<or> a = b \<or> bytes_greater b a"
  by (induction a b rule: bytes_greater.induct) (auto, (case_tac b; simp)+)

lemma newerReaction_irrefl: "\<not> newerReaction a a"
  by (simp add: newerReaction_def bytes_greater_irrefl)

lemma newerReaction_trans: "newerReaction a b \<Longrightarrow> newerReaction b c \<Longrightarrow> newerReaction a c"
  by (auto simp: newerReaction_def dest: bytes_greater_trans split: if_splits)

lemma newerReaction_negtrans: "\<not> newerReaction a b \<Longrightarrow> \<not> newerReaction b c \<Longrightarrow> \<not> newerReaction a c"
  using bytes_greater_total [of "rr_hash a" "rr_hash b"] bytes_greater_total [of "rr_hash b" "rr_hash c"]
  by (auto simp: newerReaction_def bytes_greater_irrefl dest: bytes_greater_trans split: if_splits)

interpretation reaction_order: latest_wins newerReaction reactor_key
  by unfold_locales (fact newerReaction_irrefl newerReaction_trans newerReaction_negtrans)+

subsection \<open>Properties of effective reactions\<close>

definition has_reaction :: "Reaction list \<Rightarrow> string \<Rightarrow> string \<Rightarrow> bool" where
  "has_reaction gs e f \<longleftrightarrow> (\<exists>g \<in> set gs. Emoji g = e \<and> f \<in> set (ReactionFrom g))"

lemma has_reaction_add: "has_reaction (add_reaction gs r) e f \<longleftrightarrow> has_reaction gs e f \<or> (rr_emoji r = e \<and> rr_from r = f)"
  by (induction gs) (auto simp: has_reaction_def)

lemma has_reaction_foldl:
  "has_reaction (foldl add_reaction gs rs) e f \<longleftrightarrow> has_reaction gs e f \<or> (\<exists>r \<in> set rs. rr_emoji r = e \<and> rr_from r = f)"
  by (induction rs arbitrary: gs) (auto simp: has_reaction_add)

lemma mset_add_reaction:
  "mset (concat (map ReactionFrom (add_reaction gs r))) = mset (concat (map ReactionFrom gs)) + {#rr_from r#}"
  by (induction gs) (auto simp: ac_simps)

lemma mset_foldl_reaction:
  "mset (concat (map ReactionFrom (foldl add_reaction gs rs))) = mset (concat (map ReactionFrom gs)) + mset (map rr_from rs)"
  by (induction rs arbitrary: gs) (simp_all add: mset_add_reaction)

lemma distinct_emojis: "distinct (map Emoji gs) \<Longrightarrow> distinct (map Emoji (foldl add_reaction gs rs))"
proof (induction rs arbitrary: gs)
  case Nil
  then show ?case by simp
next
  case (Cons r rs)
  have "Emoji ` set (add_reaction gs r) = insert (rr_emoji r) (Emoji ` set gs)" for gs
    by (induction gs) auto
  moreover have "distinct (map Emoji gs) \<Longrightarrow> distinct (map Emoji (add_reaction gs r))" for gs
  proof (induction gs)
    case (Cons g gs)
    then show ?case using calculation [of gs] by (auto simp: image_iff)
  qed simp
  ultimately show ?case using Cons by simp
qed

lemma table_values:
  "map reactor_key (map snd (put_latest newerReaction reactor_key [] rs)) = map fst (put_latest newerReaction reactor_key [] rs)"
proof -
  have "reactor_key r = k" if "(k, r) \<in> set (put_latest newerReaction reactor_key [] rs)" for k r
    using that reaction_order.put_latest_spec(1) [of rs k r] reaction_order.put_latest_spec(3) [of rs]
    by (simp add: map_of_eq_Some_iff)
  then show ?thesis by (induction "put_latest newerReaction reactor_key [] rs") auto
qed

lemma effective_rows_distinct: "distinct (map reactor_key (effective_rows rows s))"
proof -
  let ?rs = "filter (\<lambda>r. subjectID r = s) rows"
  let ?t = "map snd (put_latest newerReaction reactor_key [] ?rs)"
  have "distinct (map reactor_key ?t)" unfolding table_values by (rule reaction_order.put_latest_spec(3))
  then have "distinct (map reactor_key (filter (\<lambda>r. rr_emoji r \<noteq> []) ?t))" by (rule distinct_map_filter)
  moreover have "mset (map reactor_key (effective_rows rows s)) = mset (map reactor_key (filter (\<lambda>r. rr_emoji r \<noteq> []) ?t))"
    by (simp add: effective_rows_def mset_filter)
  ultimately show ?thesis by (metis mset_eq_imp_distinct_iff)
qed

text \<open>C21: the effective reaction of a participant is their latest.  As long as no two reactions of one reactor to
  one message are level (same time and same hash), a reactor is shown under an emoji exactly when the latest
  of their reactions carries it and is not a cleared one; each reactor is shown at most once, and each emoji.\<close>

theorem effectiveReactions_spec:
  assumes "\<And>a b. a \<in> set rows \<Longrightarrow> b \<in> set rows \<Longrightarrow> subjectID a = s \<Longrightarrow> subjectID b = s \<Longrightarrow>
    reactor_key a = reactor_key b \<Longrightarrow> a \<noteq> b \<Longrightarrow> newerReaction a b \<or> newerReaction b a"
  shows "((\<exists>g \<in> set (effectiveReactions rows s). Emoji g = e \<and> f \<in> set (ReactionFrom g)) \<longleftrightarrow>
      (\<exists>r \<in> set rows. subjectID r = s \<and> rr_from r = f \<and> rr_emoji r = e \<and> e \<noteq> [] \<and>
         (\<forall>x \<in> set rows. subjectID x = s \<and> ToLower (rr_from x) = ToLower f \<longrightarrow> \<not> newerReaction x r)))
    \<and> distinct (map ToLower (concat (map ReactionFrom (effectiveReactions rows s))))
    \<and> distinct (map Emoji (effectiveReactions rows s))"
proof -
  let ?rs = "filter (\<lambda>r. subjectID r = s) rows"
  have set_eff: "r \<in> set (effective_rows rows s) \<longleftrightarrow> rr_emoji r \<noteq> [] \<and> r \<in> set ?rs
      \<and> (\<forall>x \<in> set ?rs. reactor_key x = reactor_key r \<longrightarrow> \<not> newerReaction x r)" for r
    using reaction_order.put_latest_iff [of ?rs r] assms by (auto simp: effective_rows_def)
  have "has_reaction (effectiveReactions rows s) e f \<longleftrightarrow> (\<exists>r \<in> set (effective_rows rows s). rr_emoji r = e \<and> rr_from r = f)"
    by (simp add: effectiveReactions_def has_reaction_foldl) (simp add: has_reaction_def)
  also have "\<dots> \<longleftrightarrow>
      (\<exists>r \<in> set rows. subjectID r = s \<and> rr_from r = f \<and> rr_emoji r = e \<and> e \<noteq> [] \<and>
         (\<forall>x \<in> set rows. subjectID x = s \<and> ToLower (rr_from x) = ToLower f \<longrightarrow> \<not> newerReaction x r))"
    by (simp add: Bex_def set_eff reactor_key_def) blast
  finally have "has_reaction (effectiveReactions rows s) e f \<longleftrightarrow>
      (\<exists>r \<in> set rows. subjectID r = s \<and> rr_from r = f \<and> rr_emoji r = e \<and> e \<noteq> [] \<and>
         (\<forall>x \<in> set rows. subjectID x = s \<and> ToLower (rr_from x) = ToLower f \<longrightarrow> \<not> newerReaction x r))" .
  moreover have "mset (map ToLower (concat (map ReactionFrom (effectiveReactions rows s)))) = mset (map reactor_key (effective_rows rows s))"
    using mset_foldl_reaction [of "[]" "effective_rows rows s"]
    by (simp add: effectiveReactions_def reactor_key_def [abs_def] image_mset.compositionality comp_def)
  then have "distinct (map ToLower (concat (map ReactionFrom (effectiveReactions rows s))))"
    using effective_rows_distinct by (metis mset_eq_imp_distinct_iff)
  moreover have "distinct (map Emoji (effectiveReactions rows s))"
    unfolding effectiveReactions_def by (rule distinct_emojis) simp
  ultimately show ?thesis unfolding has_reaction_def by blast
qed

definition example_reactions :: "reactionRow list" where
  "example_reactions = [
     \<lparr>subjectID = 1, msgID = 2, rr_from = ''@bo@x'', rr_time = 5, rr_hash = ''a'', rr_emoji = ''+''\<rparr>,
     \<lparr>subjectID = 1, msgID = 3, rr_from = ''@Bo@x'', rr_time = 6, rr_hash = ''b'', rr_emoji = ''-''\<rparr>,
     \<lparr>subjectID = 1, msgID = 4, rr_from = ''@al@x'', rr_time = 5, rr_hash = ''c'', rr_emoji = ''-''\<rparr>]"

theorem effectiveReactions_spec_witness:
  "effectiveReactions example_reactions 1 = [\<lparr>Emoji = ''-'', ReactionFrom = [''@al@x'', ''@Bo@x'']\<rparr>]
   \<and> (\<exists>r \<in> set example_reactions. rr_from r = ''@Bo@x'' \<and> rr_emoji r = ''-'')"
proof -
  have v: "effectiveReactions example_reactions 1 = [\<lparr>Emoji = ''-'', ReactionFrom = [''@al@x'', ''@Bo@x'']\<rparr>]" by code_simp
  have "newerReaction a b \<or> newerReaction b a"
    if "a \<in> set example_reactions" "b \<in> set example_reactions" "reactor_key a = reactor_key b" "a \<noteq> b" for a b
  proof -
    have "list_all (\<lambda>a. list_all (\<lambda>b. reactor_key a = reactor_key b \<longrightarrow> a \<noteq> b \<longrightarrow> newerReaction a b \<or> newerReaction b a)
      example_reactions) example_reactions" by code_simp
    with that show ?thesis unfolding list_all_iff by blast
  qed
  from effectiveReactions_spec [of example_reactions 1 "''-''" "''@Bo@x''", OF this]
  have "(\<exists>g \<in> set (effectiveReactions example_reactions 1). Emoji g = ''-'' \<and> ''@Bo@x'' \<in> set (ReactionFrom g)) \<longrightarrow>
      (\<exists>r \<in> set example_reactions. rr_from r = ''@Bo@x'' \<and> rr_emoji r = ''-'')" by blast
  then show ?thesis using v by simp
qed

subsection \<open>Properties of sending a reaction\<close>

lemma dedup_lower_spec:
  "ToLower ` set (dedup_lower seen as) = ToLower ` set as - seen \<and> distinct (map ToLower (dedup_lower seen as))"
  by (induction "as" arbitrary: seen) (auto simp: image_iff)

text \<open>A reaction goes to every other participant exactly once and never back to the reactor, whatever the
  case in which their addresses are written.\<close>

theorem reactionRecipients_spec:
  "ToLower ` set (reactionRecipients subject reactor) =
     ToLower ` ({From subject} \<union> set (To subject) \<union> (\<Union>b \<in> set (AddTo subject). insert (AddToFrom b) (set (BatchTo b))))
       - {ToLower reactor}
   \<and> distinct (map ToLower (reactionRecipients subject reactor))"
  using dedup_lower_spec [of "{ToLower reactor}" "From subject # To subject @ concat (map (\<lambda>b. AddToFrom b # BatchTo b) (AddTo subject))"]
  unfolding reactionRecipients_def by (simp del: dedup_lower.simps)

lemma react_subject_Inr:
  assumes "react_subject E identity i w = (Inr subject, w1)"
  shows "db w1 = db w \<and> idlog w1 = idlog w \<and> on_commit w1 = on_commit w \<and> files w1 = files w
    \<and> (\<exists>m. find_msg (db w) i = Some m \<and> m_time m \<noteq> None \<and> \<not> m_terminal m
       \<and> (EqualFold (m_from m) identity \<or> isRecipient (map t_addr (to_rows (db w) i)) identity
          \<or> addToContains (batches_of (db w) i) identity))"
proof -
  from assms [unfolded react_subject_def bind_Inr] obtain s p w2
    where m: "require_message E i w = (Inr (s, p), w2)"
    and g: "EqualFold (From s) identity \<or> isRecipient (To s) identity \<or> addToContains (AddTo s) identity"
      "Time s \<noteq> None" "\<not> Terminal s"
    and h: "\<exists>b. (if draftHidden [identity] (From s) (Time s) then ret True else purgedFor E identity i) w2 = (Inr b, w1)"
    by (auto simp: bind_Inr unless_Inr ret_eq split: prod.splits)
  from h have "db w1 = db w2 \<and> idlog w1 = idlog w2 \<and> on_commit w1 = on_commit w2 \<and> files w1 = files w2"
    by (auto simp: purgedFor_def trashStateQ_def act_defs Let_def split: if_splits)
  moreover have "idlog w2 = idlog w \<and> on_commit w2 = on_commit w \<and> files w2 = files w"
    using m by (auto simp: require_message_def require_row_def fetchMessage_def loadRecipients_def loadAddToBatches_def loadAttachments_def
        act_defs Let_def split: if_splits option.splits)
  moreover from require_message_Inr [OF m] g
  have "\<exists>m. find_msg (db w) i = Some m \<and> m_time m \<noteq> None \<and> \<not> m_terminal m
       \<and> (EqualFold (m_from m) identity \<or> isRecipient (map t_addr (to_rows (db w) i)) identity
          \<or> addToContains (batches_of (db w) i) identity)" "db w2 = db w"
    by (auto simp: row_message_def isRecipient_def addToContains_def)
  ultimately show ?thesis by metis
qed

text \<open>Deciding: the reaction asked for is the current one and nothing more happens, or it is sent.\<close>

lemma react_decide_Inr:
  assumes "react_decide E identity i want subject w2 = (Inr resp, w1)"
  shows "if (case newest None (reaction_rows E (files w2) (db w2) [i] identity) of None \<Rightarrow> want = [] | Some c \<Rightarrow> rr_emoji c = want)
       then resp = (200, current_json (newest None (reaction_rows E (files w2) (db w2) [i] identity))) \<and> w1 = w2\<lparr>tick := Suc (tick w2)\<rparr>
       else fst resp = 201"
proof -
  let ?cur = "newest None (reaction_rows E (files w2) (db w2) [i] identity)"
  have decide: "(if (case ?cur of None \<Rightarrow> want = [] | Some c \<Rightarrow> rr_emoji c = want) then ret (200, current_json ?cur)
     else
       bind (check_reply_domains E (dedup_domains (LocalDomain E) {} (reactionRecipients subject identity)) i
          (\<lambda>why. err 409 (''reaction cannot be accepted by recipient host(s): '' @ why))) (\<lambda>_.
       case reaction_parent_hash subject identity of
         None \<Rightarrow> throw (err 500 ''reaction parent has no finalized identity'')
       | Some h \<Rightarrow> send_reaction E identity i want h (reactionRecipients subject identity)))
     (w2\<lparr>tick := Suc (tick w2)\<rparr>) = (Inr resp, w1)"
    using assms by (simp add: react_decide_def Let_def bind_Inr unless_Inr or_fail_Inr loadReactionRows_def get_world_def
        sql_query_Inr)
  have sent: "send_reaction E identity i want h rs v = (Inr resp, w1) \<Longrightarrow> fst resp = 201" for want h rs v
    by (auto simp: send_reaction_def bind_Inr ret_eq case_option_throw)
  show ?thesis using decide by (auto simp: ret_eq bind_Inr case_option_throw intro: sent split: if_splits)
qed

text \<open>C22: only a participant of a sent, non-terminal message can react to it, with a single emoji or none to clear.
  When the caller's current reaction is already the one asked for, the answer names it and nothing is
  written, sent or charged: the request is idempotent.\<close>

theorem React_spec:
  assumes "React E identity param body w = (Inr resp, w1)"
  shows "\<exists>i w0 m emoji. resolveID E param w = (Inr i, w0) \<and> find_msg (db w) i = Some m \<and> m_time m \<noteq> None \<and> \<not> m_terminal m
    \<and> (EqualFold (m_from m) identity \<or> isRecipient (map t_addr (to_rows (db w) i)) identity
        \<or> addToContains (batches_of (db w) i) identity)
    \<and> body = Some emoji \<and> (emoji = None \<or> emoji = Some [] \<or> (\<exists>s. emoji = Some s \<and> IsSingle (e_rgi E) s))
    \<and> (if (case newest None (reaction_rows E (files w) (db w) [i] identity) of
             None \<Rightarrow> emoji = None \<or> emoji = Some [] | Some c \<Rightarrow> (case emoji of None \<Rightarrow> [] | Some s \<Rightarrow> s) = rr_emoji c)
       then resp = (200, current_json (newest None (reaction_rows E (files w) (db w) [i] identity)))
         \<and> db w1 = db w \<and> idlog w1 = idlog w \<and> on_commit w1 = on_commit w \<and> files w1 = files w
       else fst resp = 201)"
proof -
  from assms [unfolded React_def bind_Inr case_option_throw Let_def unless_Inr] obtain i w0 emoji subject w2 where
    r: "resolveID E param w = (Inr i, w0)" and b: "body = Some emoji"
    and e: "(case emoji of None \<Rightarrow> [] | Some s \<Rightarrow> s) = [] \<or> IsSingle (e_rgi E) (case emoji of None \<Rightarrow> [] | Some s \<Rightarrow> s)"
    and m: "react_subject E identity i w0 = (Inr subject, w2)"
    and d: "react_decide E identity i (case emoji of None \<Rightarrow> [] | Some s \<Rightarrow> s) subject w2 = (Inr resp, w1)"
    by blast
  have w0: "db w0 = db w" "idlog w0 = idlog w" "on_commit w0 = on_commit w" "files w0 = files w"
    using same_db [OF keeps_resolveID r] resolveID_state [OF r] r
    by (auto simp: resolveID_def parseID_def require_row_def act_defs Let_def split: option.splits sum.splits if_splits)
  note g = react_subject_Inr [OF m]
  have w2: "db w2 = db w" "files w2 = files w" "idlog w2 = idlog w" "on_commit w2 = on_commit w" using g w0 by simp_all
  let ?cur = "newest None (reaction_rows E (files w2) (db w2) [i] identity)"
  have c: "(case ?cur of None \<Rightarrow> (case emoji of None \<Rightarrow> [] | Some s \<Rightarrow> s) = [] | Some c \<Rightarrow> rr_emoji c = (case emoji of None \<Rightarrow> [] | Some s \<Rightarrow> s))
      \<longleftrightarrow> (case ?cur of None \<Rightarrow> emoji = None \<or> emoji = Some [] | Some c \<Rightarrow> (case emoji of None \<Rightarrow> [] | Some s \<Rightarrow> s) = rr_emoji c)"
    by (auto split: option.splits)
  note dec = react_decide_Inr [OF d, unfolded c]
  have "emoji = None \<or> emoji = Some [] \<or> (\<exists>s. emoji = Some s \<and> IsSingle (e_rgi E) s)"
    using e by (cases emoji) auto
  moreover obtain mr where "find_msg (db w) i = Some mr" "m_time mr \<noteq> None" "\<not> m_terminal mr"
    "EqualFold (m_from mr) identity \<or> isRecipient (map t_addr (to_rows (db w) i)) identity
      \<or> addToContains (batches_of (db w) i) identity" using g w0 by auto
  ultimately show ?thesis using dec r b unfolding w2
    by (intro exI [of _ i] exI [of _ w0] exI [of _ mr] exI [of _ emoji]) (simp add: w2 split del: if_split split: if_splits)
qed

theorem React_spec_witness:
  "fst (React example_env ''@bo@ex.org'' ''1'' (Some None) trash_world) = Inr (200, current_json None)
   \<and> db (snd (React example_env ''@bo@ex.org'' ''1'' (Some None) trash_world)) = thread_db"
proof -
  let ?r = "React example_env ''@bo@ex.org'' ''1'' (Some None) trash_world"
  have f: "case fst ?r of Inr x \<Rightarrow> True | Inl _ \<Rightarrow> False" by code_simp
  then obtain resp where run: "?r = (Inr resp, snd ?r)" by (cases ?r) (auto split: sum.splits)
  have "fst (resolveID example_env ''1'' trash_world) = Inr 1" by code_simp
  then have one: "i = 1" if "resolveID example_env ''1'' trash_world = (Inr i, w0)" for i w0 using that by simp
  have none: "newest None (reaction_rows example_env (files trash_world) (db trash_world) [1] ''@bo@ex.org'') = None"
    by (simp add: trash_world_def thread_db_def reaction_rows_def reaction_row_def)
  have "resp = (200, current_json None) \<and> db (snd ?r) = db trash_world"
    using React_spec [OF run]
  proof (elim exE conjE)
    fix i w0 emoji
    assume "resolveID example_env ''1'' trash_world = (Inr i, w0)" "Some None = Some emoji"
      and c: "if (case newest None (reaction_rows example_env (files trash_world) (db trash_world) [i] ''@bo@ex.org'') of
             None \<Rightarrow> emoji = None \<or> emoji = Some [] | Some c \<Rightarrow> (case emoji of None \<Rightarrow> [] | Some s \<Rightarrow> s) = rr_emoji c)
       then resp = (200, current_json (newest None (reaction_rows example_env (files trash_world) (db trash_world) [i] ''@bo@ex.org'')))
         \<and> db (snd ?r) = db trash_world \<and> idlog (snd ?r) = idlog trash_world \<and> on_commit (snd ?r) = on_commit trash_world
         \<and> files (snd ?r) = files trash_world
       else fst resp = 201"
    with one none show ?thesis by simp
  qed
  moreover have "fst ?r = Inr resp" by (subst run) simp
  ultimately show ?thesis by (simp add: trash_world_def)
qed

end
