(* ===== verification/Messages.thy ===== *)
theory Messages
  imports Reactions
begin

text \<open>
  The message routes (\<open>src/internal/handlers/messages.go\<close>): create, read, download, update, delete, send,
  mark as read, add recipients, the two lists, and the item pushed to WebSocket clients.

  A handler takes the request's identity, its path and query parameters and its decoded body (\<open>None\<close>
  where decoding fails).  Mutations give a response; reads give a typed value, which is what the response
  prints.  \<open>Create\<close>, \<open>Update\<close>, \<open>Delete\<close>, \<open>Send\<close> and \<open>AddRecipients\<close> run inside \<open>atomic\<close>
  (theory \<open>Transaction\<close>), \<open>MarkRead\<close> and the reads do not.
\<close>

subsection \<open>Creating and updating drafts\<close>

definition insert_recipients :: "env \<Rightarrow> int \<Rightarrow> string list \<Rightarrow> response \<Rightarrow> (response, unit) act" where
  "insert_recipients E i addrs fail = each (\<lambda>a. or_fail (sql_exec E (insert_recipient E i a)) fail) addrs"

definition check_input :: "env \<Rightarrow> string \<Rightarrow> messageInput \<Rightarrow> (response, (int \<times> string) option) act" where
  "check_input E identity msg =
     bind (case validateAddresses (InFrom msg) (InTo msg) of None \<Rightarrow> ret () | Some e \<Rightarrow> throw (err 400 e)) (\<lambda>_.
     bind (resolveParent E identity (InParent msg)) (\<lambda>parent.
     bind (validatePidRelations (map_option fst parent) (InTopic msg)) (\<lambda>_. ret parent)))"

definition Create :: "env \<Rightarrow> string \<Rightarrow> messageInput option \<Rightarrow> (response, response) act" where
  "Create E identity body = (case body of None \<Rightarrow> throw (err 400 ''invalid request body'')
     | Some msg \<Rightarrow>
       bind (unless (sameAddr (InFrom msg) identity) (err 403 ''from address must match authenticated user'')) (\<lambda>_.
       bind (unless (InTo msg \<noteq> []) (err 400 ''to list must not be empty'')) (\<lambda>_.
       bind (check_input E identity msg) (\<lambda>parent.
       bind (unless (int (length (InData msg)) \<le> MaxDataSize E) (err 413 ''message data exceeds maximum size'')) (\<lambda>_.
       bind (validateParent E (map_option fst parent)) (\<lambda>_.
       bind (or_fail (stmt E (insert_message (new_message (InVersion msg) (map_option fst parent)
            (case parent of None \<Rightarrow> None | Some (_, h) \<Rightarrow> hex_decode h) (InNoReply msg) (InImportant msg) (InTerminal msg)
            (InFrom msg) (InTopic msg) (InType msg) (int (length (InData msg)))))) (err 500 ''failed to create message'')) (\<lambda>i.
       bind (saveMessageData E (InFrom msg) i (mimeToExt E (InType msg)) (InData msg)) (\<lambda>saved. case saved of
         None \<Rightarrow> bind (sql_exec E (\<lambda>d. d\<lparr>msgs := delete_where (\<lambda>m. m_id m = i) (msgs d)\<rparr>)) (\<lambda>_.
                 throw (err 500 ''failed to save message data''))
       | Some path \<Rightarrow>
         bind (add_rollback [path]) (\<lambda>_.
         bind (or_fail (sql_exec E (set_path i path)) (err 500 ''failed to save message'')) (\<lambda>_.
         bind (insert_recipients E i (InTo msg) (err 500 ''failed to save recipients'')) (\<lambda>_.
         ret (201, JObj [(''id'', JInt i)]))))))))))))"

definition set_draft :: "int \<Rightarrow> messageInput \<Rightarrow> (int \<times> string) option \<Rightarrow> string \<Rightarrow> database \<Rightarrow> database" where
  "set_draft i msg parent path d = d\<lparr>msgs := update_where (\<lambda>m. m_id m = i) (\<lambda>m. m\<lparr>m_version := InVersion msg,
     m_pid := map_option fst parent, m_no_reply := InNoReply msg, m_important := InImportant msg, m_deflate := False,
     m_terminal := InTerminal msg, m_topic := InTopic msg, m_type := InType msg, m_size := int (length (InData msg)),
     m_path := path, m_psha256 := (case parent of None \<Rightarrow> None | Some (_, h) \<Rightarrow> hex_decode h)\<rparr>) (msgs d)\<rparr>"

definition Update :: "env \<Rightarrow> string \<Rightarrow> string \<Rightarrow> messageInput option \<Rightarrow> (response, response) act" where
  "Update E identity param body =
     bind (resolveID E param) (\<lambda>i.
     bind (require_message E i) (\<lambda>(existing, oldPath).
     bind (unless (sameAddr (From existing) identity) (err 403 ''only the owner may update a message'')) (\<lambda>_.
     bind (unless (Time existing = None) (err 403 ''sent messages are immutable'')) (\<lambda>_.
     case body of None \<Rightarrow> throw (err 400 ''invalid request body'')
     | Some msg \<Rightarrow>
       bind (unless (sameAddr (InFrom msg) identity) (err 403 ''from address must match authenticated user'')) (\<lambda>_.
       bind (check_input E identity msg) (\<lambda>parent.
       bind (validateParent E (map_option fst parent)) (\<lambda>_.
       bind (unless (int (length (InData msg)) \<le> MaxDataSize E) (err 413 ''message data exceeds maximum size'')) (\<lambda>_.
       bind (or_fail (sql_query E (\<lambda>d. sum_list (map at_size (att_rows d i)))) (err 500 ''failed to check message size'')) (\<lambda>total.
       bind (unless (wrap64 (int (length (InData msg)) + total) \<le> MaxMsgSize E) (err 413 ''total message size exceeds limit'')) (\<lambda>_.
       bind (saveMessageData E (InFrom msg) i (mimeToExt E (InType msg)) (InData msg)) (\<lambda>saved. case saved of
         None \<Rightarrow> throw (err 500 ''failed to save message data'')
       | Some path \<Rightarrow>
         bind (add_rollback [path]) (\<lambda>_.
         bind (or_fail (sql_exec E (set_draft i msg parent path)) (err 500 ''failed to update message'')) (\<lambda>_.
         bind (or_fail (sql_exec E (\<lambda>d. d\<lparr>tos := delete_where (\<lambda>r. t_msg r = i) (tos d)\<rparr>)) (err 500 ''failed to update recipients'')) (\<lambda>_.
         bind (insert_recipients E i (InTo msg) (err 500 ''failed to update recipients'')) (\<lambda>_.
         bind (add_commit (if oldPath \<noteq> [] then [DRemove oldPath] else [])) (\<lambda>_.
         ret (200, JObj [(''id'', JInt i)])))))))))))))))))"

subsection \<open>Reading\<close>

definition read_time :: "database \<Rightarrow> int \<Rightarrow> string \<Rightarrow> sql_error + time option" where
  "read_time d i addr = (case (scalar (map t_read (filter (\<lambda>r. ToLower (t_addr r) = addr) (to_rows d i))),
       scalar (map a_read (filter (\<lambda>r. ToLower (a_addr r) = addr) (addto_rows d i)))) of
     (Inl e, _) \<Rightarrow> Inl e
   | (Inr (Some (Some t)), _) \<Rightarrow> Inr (Some t)
   | (_, Inl e) \<Rightarrow> Inl e
   | (_, Inr (Some t)) \<Rightarrow> Inr t
   | (_, Inr None) \<Rightarrow> Inr None)"

definition query_read_time :: "env \<Rightarrow> int \<Rightarrow> string \<Rightarrow> (response, sql_error + time option) act" where
  "query_read_time E i addr = stmt E (\<lambda>d. map_sum id (\<lambda>t. (t, d)) (read_time d i addr))"

definition with_time_read :: "sql_error + time option \<Rightarrow> message \<Rightarrow> message" where
  "with_time_read q msg = (case q of Inl _ \<Rightarrow> msg | Inr t \<Rightarrow> msg\<lparr>TimeRead := t, Read := (t \<noteq> None)\<rparr>)"

text \<open>\<open>Get\<close>: the guards in their order, then the parts computed once access is certain.\<close>

definition Get :: "env \<Rightarrow> string \<Rightarrow> string \<Rightarrow> (response, message) act" where
  "Get E identity param = (let addrs = visibleAddrs identity in
     bind (resolveID E param) (\<lambda>i.
     bind (require_message E i) (\<lambda>(msg, path).
     bind (unless (\<not> draftHidden addrs (From msg) (Time msg)) not_found) (\<lambda>_.
     let isSender = isRecipient addrs (From msg) in
     bind (unless (isSender \<or> anyRecipient addrs (To msg) \<or> anyAddToContains addrs (AddTo msg)) (err 403 ''access denied'')) (\<lambda>_.
     bind (or_fail (trashStateQ E (hd addrs) i) (err 500 ''failed to retrieve message'')) (\<lambda>state.
     bind (unless (state \<noteq> Some Purged) not_found) (\<lambda>_.
     bind get_world (\<lambda>w.
     bind (loadReactions E [i]) (\<lambda>rs.
     let msg1 = msg\<lparr>Trash := map_option trash_text state, ShortText := extractShortText E (files w) path (Type msg),
          MsgReaction := message_reaction E (files w) msg path, Reactions := rs i\<rparr> in
     if isSender then ret msg1
     else bind (query_read_time E i (hd addrs)) (\<lambda>q. ret (with_time_read q msg1)))))))))))"

definition access_rows :: "database \<Rightarrow> int \<Rightarrow> string \<Rightarrow> nat" where
  "access_rows d i addr = length (filter (\<lambda>r. ToLower (t_addr r) = addr) (to_rows d i))
     + length (filter (\<lambda>r. ToLower (a_addr r) = addr) (addto_rows d i))"

text \<open>The path of the file sent; gin answers 404 itself if it is gone.\<close>

definition DownloadData :: "env \<Rightarrow> string \<Rightarrow> string \<Rightarrow> (response, string) act" where
  "DownloadData E identity param = (let addrs = visibleAddrs identity in
     bind (resolveID E param) (\<lambda>i.
     bind (require_row ''failed to retrieve message'' (sql_query E (\<lambda>d. find_msg d i))) (\<lambda>m.
     bind (if draftHidden addrs (m_from m) (m_time m) then ret True else purgedFor E (hd addrs) i) (\<lambda>hidden.
     bind (unless (\<not> hidden) not_found) (\<lambda>_.
     bind (if isRecipient addrs (m_from m) then ret ()
       else bind (sql_query E (\<lambda>d. access_rows d i (hd addrs))) (\<lambda>q. case q of
            Inl _ \<Rightarrow> throw (err 403 ''access denied'')
          | Inr n \<Rightarrow> unless (n \<noteq> 0) (err 403 ''access denied''))) (\<lambda>_.
     bind (unless (m_path m \<noteq> []) (err 404 ''message data not available'')) (\<lambda>_.
     case safeDataPath (e_cwd E) (m_path m) (DataDir E) of None \<Rightarrow> throw (err 403 ''access denied'')
     | Some p \<Rightarrow> ret p)))))))"

subsection \<open>Deleting\<close>

definition delete_draft :: "env \<Rightarrow> int \<Rightarrow> (response, response) act" where
  "delete_draft E i =
     bind (sql_query E (\<lambda>d. map at_path (att_rows d i))) (\<lambda>q.
     bind (add_commit (case q of Inl _ \<Rightarrow> [] | Inr ps \<Rightarrow> map DRemove ps)) (\<lambda>_.
     bind (sql_exec E (\<lambda>d. d\<lparr>atts := delete_where (\<lambda>a. at_msg a = i) (atts d)\<rparr>)) (\<lambda>_.
     bind (sql_exec E (\<lambda>d. d\<lparr>tos := delete_where (\<lambda>r. t_msg r = i) (tos d)\<rparr>)) (\<lambda>_.
     bind (sql_exec E (\<lambda>d. d\<lparr>addtos := delete_where (\<lambda>r. a_msg r = i) (addtos d)\<rparr>)) (\<lambda>_.
     bind (or_fail (sql_exec E (\<lambda>d. d\<lparr>notifies := delete_where (\<lambda>n. in_batches d i (n_batch n)) (notifies d)\<rparr>))
        (err 500 ''failed to delete notifications'')) (\<lambda>_.
     bind (or_fail (sql_exec E (\<lambda>d. d\<lparr>batches := delete_where (\<lambda>b. b_msg b = i) (batches d)\<rparr>))
        (err 500 ''failed to delete batches'')) (\<lambda>_.
     bind (sql_query E (\<lambda>d. map_option m_path (find_msg d i))) (\<lambda>p.
     bind (or_fail (sql_exec E (remove_row i)) (err 500 ''failed to delete message'')) (\<lambda>_.
     bind (add_commit (case p of Inr (Some path) \<Rightarrow> if path \<noteq> [] then [DRemove path] else [] | _ \<Rightarrow> [])) (\<lambda>_.
     ret (204, JNull)))))))))))"

definition Delete :: "env \<Rightarrow> string \<Rightarrow> string \<Rightarrow> string \<Rightarrow> string \<Rightarrow> (response, response) act" where
  "Delete E identity param thread_q permanent_q =
     bind (resolveID E param) (\<lambda>i.
     bind (require_message E i) (\<lambda>(existing, _).
     if Time existing \<noteq> None then trashSent E identity i thread_q permanent_q
     else bind (unless (sameAddr (From existing) identity) (err 403 ''only the owner may delete a message'')) (\<lambda>_.
       delete_draft E i)))"

subsection \<open>Sending\<close>

definition Send :: "env \<Rightarrow> string \<Rightarrow> string \<Rightarrow> (response, response) act" where
  "Send E identity param =
     bind (resolveID E param) (\<lambda>i.
     bind (require_message E i) (\<lambda>(existing, _).
     bind (unless (sameAddr (From existing) identity) (err 403 ''only the owner may send a message'')) (\<lambda>_.
     bind (unless (Time existing = None) (err 409 ''message already sent'')) (\<lambda>_.
     bind (unless (sendableProblems existing = []) (err 400 (''message is not sendable: '' @ Join (sendableProblems existing) ''; ''))) (\<lambda>_.
     bind (case PID existing of None \<Rightarrow> ret ()
       | Some pid \<Rightarrow> check_reply_domains E (remoteRecipientDomains (To existing) (AddTo existing) (LocalDomain E)) pid
           (\<lambda>why. err 409 (''reply cannot be accepted by recipient host(s): '' @ why @
             '' - add the recipients to the parent message (add-to) or start a new thread with them''))) (\<lambda>_.
     bind (messageStoredSize E i) (\<lambda>s. case s of None \<Rightarrow> throw (err 500 ''failed to retrieve message'')
     | Some sz \<Rightarrow>
       bind (checkSendQuota E (From existing) sz) (\<lambda>_.
       bind (clock E) (\<lambda>now.
       bind get_world (\<lambda>w. bind (unless (intx w) (err 500 ''send requires a message transaction'')) (\<lambda>_.
       bind (finalize E i now (err 500 ''failed to finalize message'')) (\<lambda>hash.
       bind (add_commit ([DRecordSend (From existing) now sz, DResolve False i (To existing)]
           @ map (\<lambda>b. DResolve True i (BatchTo b)) (AddTo existing))) (\<lambda>_.
       ret (200, JObj [(''id'', JInt i), (''time'', JTime now), (''sha256'', JStr (hex_encode hash))]))))))))))))))"

subsection \<open>Reading state\<close>

definition is_reader :: "database \<Rightarrow> int \<Rightarrow> string \<Rightarrow> bool" where
  "is_reader d i addr \<longleftrightarrow> access_rows d i addr \<noteq> 0 \<and> list_ex (\<lambda>m. m_id m = i \<and> m_time m \<noteq> None) (msgs d)"

definition set_read_to :: "int \<Rightarrow> string \<Rightarrow> time \<Rightarrow> database \<Rightarrow> database" where
  "set_read_to i addr now d = d\<lparr>tos := update_where (\<lambda>r. t_msg r = i \<and> ToLower (t_addr r) = addr \<and> t_read r = None)
     (\<lambda>r. r\<lparr>t_read := Some now\<rparr>) (tos d)\<rparr>"

definition set_read_addto :: "int \<Rightarrow> string \<Rightarrow> time \<Rightarrow> database \<Rightarrow> database" where
  "set_read_addto i addr now d = d\<lparr>addtos := update_where (\<lambda>r. a_msg r = i \<and> ToLower (a_addr r) = addr \<and> a_read r = None)
     (\<lambda>r. r\<lparr>a_read := Some now\<rparr>) (addtos d)\<rparr>"

definition read_json :: "int \<Rightarrow> time \<Rightarrow> response" where
  "read_json i t = (200, JObj [(''id'', JInt i), (''time_read'', JTime t)])"

definition mark_lookup :: "env \<Rightarrow> int \<Rightarrow> string \<Rightarrow> (response, sql_error + (time option \<times> bool)) act" where
  "mark_lookup E i addr = stmt E (\<lambda>d. case read_time d i addr of Inl e \<Rightarrow> Inl e | Inr t \<Rightarrow> Inr ((t, is_reader d i addr), d))"

definition mark_write :: "env \<Rightarrow> int \<Rightarrow> string \<Rightarrow> time \<Rightarrow> (response, response) act" where
  "mark_write E i identity now = (let addr = ToLower identity; fail = err 500 ''failed to mark message read'' in
     bind (or_fail (sql_exec E (set_read_to i addr now)) fail) (\<lambda>_.
     bind (or_fail (sql_exec E (set_read_addto i addr now)) fail) (\<lambda>_.
     bind (sql_exec E (notify ''msg_read'' (Itoa i @ '','' @ identity))) (\<lambda>_.
     ret (read_json i now)))))"

definition MarkRead :: "env \<Rightarrow> string \<Rightarrow> string \<Rightarrow> (response, response) act" where
  "MarkRead E identity param =
     bind (resolveID E param) (\<lambda>i.
     bind (or_fail (mark_lookup E i (ToLower identity)) (err 500 ''failed to mark message read'')) (\<lambda>(existing, recipient).
     bind (if \<not> recipient then ret True else purgedFor E identity i) (\<lambda>hidden.
     bind (unless (\<not> hidden) not_found) (\<lambda>_.
     case existing of Some t \<Rightarrow> ret (read_json i t)
     | None \<Rightarrow> bind (clock E) (\<lambda>now. mark_write E i identity now)))))"

subsection \<open>Adding recipients\<close>

definition insert_addto :: "env \<Rightarrow> int \<Rightarrow> int \<Rightarrow> string \<Rightarrow> database \<Rightarrow> database" where
  "insert_addto E i b addr d = (if list_ex (\<lambda>r. e_addr_key E (a_addr r) = e_addr_key E addr) (addto_rows d i) then d
     else d\<lparr>addtos := addtos d @ [\<lparr>a_id = next_id d, a_msg = i, a_batch = b, a_addr = addr, a_delivered = None,
            a_code = None, a_read = None\<rparr>], next_id := next_id d + 1\<rparr>)"

definition insert_batch :: "int \<Rightarrow> string \<Rightarrow> time \<Rightarrow> database \<Rightarrow> int \<times> database" where
  "insert_batch i from_addr now d = (next_id d, d\<lparr>batches := batches d @ [\<lparr>b_id = next_id d, b_msg = i, b_from = from_addr,
     b_time = now, b_sha256 = None\<rparr>], next_id := next_id d + 1\<rparr>)"

definition notify_domains :: "env \<Rightarrow> int \<Rightarrow> string list \<Rightarrow> database \<Rightarrow> string list" where
  "notify_domains E i new_domains d = remdups (filter (\<lambda>x. x \<noteq> ToLower (LocalDomain E) \<and> x \<notin> set new_domains)
     (map (\<lambda>a. ToLower (split_part a (CHR ''@'') 3))
       (map m_from (filter (\<lambda>m. m_id m = i) (msgs d)) @ map t_addr (to_rows d i))))"

definition insert_notifies :: "env \<Rightarrow> int \<Rightarrow> int \<Rightarrow> string list \<Rightarrow> database \<Rightarrow> database" where
  "insert_notifies E i b new_domains d = d\<lparr>notifies := notifies d
     @ map (\<lambda>x. \<lparr>n_batch = b, n_domain = x, n_time = None, n_code = None\<rparr>) (notify_domains E i new_domains d)\<rparr>"

definition finalize_batch :: "env \<Rightarrow> int \<Rightarrow> int \<Rightarrow> (response, string) act" where
  "finalize_batch E i b w = (if aborted w then (Inl (err 500 ''failed to finalize add-to batch''), w)
     else (case e_finalize_batch E (db w) i b of None \<Rightarrow> (Inl (err 500 ''failed to finalize add-to batch''), w)
       | Some (hash, d) \<Rightarrow> (Inr hash, w\<lparr>db := d\<rparr>)))"

text \<open>The guards of \<open>AddRecipients\<close>: what must hold of the message, the caller and the addresses.\<close>

definition add_guard :: "env \<Rightarrow> string \<Rightarrow> int \<Rightarrow> string list \<Rightarrow> (response, msg_row) act" where
  "add_guard E identity i addrs =
     bind (unless (addrs \<noteq> []) (err 400 ''add_to list must not be empty'')) (\<lambda>_.
     bind (case find (\<lambda>a. \<not> IsValidAddr a) addrs of None \<Rightarrow> ret ()
       | Some a \<Rightarrow> throw (err 400 (''invalid add_to address: '' @ a))) (\<lambda>_.
     bind (require_row ''failed to retrieve message'' (sql_query E (\<lambda>d. find_msg d i))) (\<lambda>m.
     bind (if draftHidden [identity] (m_from m) (m_time m) then ret True else purgedFor E identity i) (\<lambda>hidden.
     bind (unless (\<not> hidden) not_found) (\<lambda>_.
     bind (unless (\<not> m_terminal m) (err 409 ''message is terminal; recipients cannot be added to it'')) (\<lambda>_.
     bind (if sameAddr (m_from m) identity then ret ()
       else bind (sql_query E (\<lambda>d. list_ex (\<lambda>r. ToLower (t_addr r) = ToLower identity) (to_rows d i))) (\<lambda>q. case q of
            Inl _ \<Rightarrow> throw (err 403 ''only existing participants may add recipients'')
          | Inr b \<Rightarrow> unless b (err 403 ''only existing participants may add recipients''))) (\<lambda>_.
     bind (case checkDistinctRecipients addrs [] of None \<Rightarrow> ret () | Some e \<Rightarrow> throw (err 400 e)) (\<lambda>_.
     bind (or_fail (sql_query E (\<lambda>d. list_ex (\<lambda>r. ToLower (a_addr r) \<in> ToLower ` set addrs) (addto_rows d i)))
        (err 500 ''failed to add recipients'')) (\<lambda>already.
     bind (unless (\<not> already) (err 400 ''address(es) already added to this message'')) (\<lambda>_.
     ret m))))))))))"

definition add_batch :: "env \<Rightarrow> string \<Rightarrow> int \<Rightarrow> string list \<Rightarrow> (response, int \<times> string) act" where
  "add_batch E identity i addrs = (let fail = err 500 ''failed to add recipients'' in
     bind (or_fail (sql_query E (\<lambda>_. ())) fail) (\<lambda>_.
     bind (clock E) (\<lambda>now.
     bind (or_fail (stmt E (\<lambda>d. Inr (insert_batch i identity now d))) fail) (\<lambda>b.
     bind (each (\<lambda>a. or_fail (sql_exec E (insert_addto E i b a)) fail) addrs) (\<lambda>_.
     bind (or_fail (sql_exec E (insert_notifies E i b (map (\<lambda>a. ToLower (addr_domain a)) addrs))) fail) (\<lambda>_.
     bind (finalize_batch E i b) (\<lambda>hash.
     bind (or_fail (sql_query E (\<lambda>_. ())) fail) (\<lambda>_. ret (b, hash)))))))))"

definition AddRecipients :: "env \<Rightarrow> string \<Rightarrow> string \<Rightarrow> string list option \<Rightarrow> (response, response) act" where
  "AddRecipients E identity param body =
     bind (resolveID E param) (\<lambda>i.
     case body of None \<Rightarrow> throw (err 400 ''invalid request body'')
     | Some addrs \<Rightarrow>
       bind (add_guard E identity i addrs) (\<lambda>m.
       bind (add_batch E identity i addrs) (\<lambda>(b, hash).
       bind (add_commit (if m_time m \<noteq> None then [DResolve True i addrs] else [])) (\<lambda>_.
       ret (200, JObj [(''id'', JInt i), (''added'', JInt (int (length addrs))), (''batch_id'', JInt b),
         (''sha256'', if hash = [] then JNull else JStr (hex_encode hash))])))))"

subsection \<open>Lists\<close>

text \<open>One row of a list query: the message, when the caller read it, and where it stands in their trash.\<close>

type_synonym list_row = "msg_row \<times> time option \<times> trash_state option"

definition state_if :: "bool \<Rightarrow> database \<Rightarrow> string \<Rightarrow> int \<Rightarrow> trash_state option" where
  "state_if has d addr i = (if has then fmsg_api_trash_state d addr i else None)"

definition page_of :: "int \<Rightarrow> int \<Rightarrow> msg_row list \<Rightarrow> msg_row list" where
  "page_of limit offset ms = take (nat limit) (drop (nat offset) (sort_key (\<lambda>m. - m_id m) ms))"

definition listed_messages :: "database \<Rightarrow> string \<Rightarrow> list_mode \<Rightarrow> bool \<Rightarrow> msg_row list" where
  "listed_messages d addr mode has = filter (\<lambda>m. m_time m \<noteq> None \<and> receives d addr (m_id m)
     \<and> listed mode (state_if has d addr (m_id m))) (msgs d)"

definition sent_messages :: "database \<Rightarrow> string \<Rightarrow> list_mode \<Rightarrow> bool \<Rightarrow> msg_row list" where
  "sent_messages d addr mode has = filter (\<lambda>m. ToLower (m_from m) = addr
     \<and> listed mode (state_if (has \<and> m_time m \<noteq> None) d addr (m_id m))) (msgs d)"

fun with_read :: "database \<Rightarrow> string \<Rightarrow> bool \<Rightarrow> msg_row list \<Rightarrow> sql_error + list_row list" where
  "with_read d addr has [] = Inr []"
| "with_read d addr has (m # ms) = (case read_time d (m_id m) addr of Inl e \<Rightarrow> Inl e
     | Inr t \<Rightarrow> (case with_read d addr has ms of Inl e \<Rightarrow> Inl e
        | Inr rest \<Rightarrow> Inr ((m, t, state_if has d addr (m_id m)) # rest)))"

definition item_of :: "env \<Rightarrow> (string \<rightharpoonup> string) \<Rightarrow> (int \<Rightarrow> string list) \<Rightarrow> (int \<Rightarrow> RecipientDelivery list)
    \<Rightarrow> (int \<Rightarrow> AddToBatch list) \<Rightarrow> (int \<Rightarrow> Attachment list) \<Rightarrow> list_row \<Rightarrow> list_item" where
  "item_of E stored toMap dlMap adMap atMap r = (case r of (m, t, state) \<Rightarrow> (let i = m_id m in
     message.extend ((row_message m (toMap i) (dlMap i) (adMap i) (atMap i))\<lparr>
        ShortText := extractShortText E stored (m_path m) (m_type m), Read := (t \<noteq> None), TimeRead := t,
        Trash := map_option trash_text state\<rparr>)
       \<lparr>ItemID = i, dataPath = m_path m, purged = False\<rparr>))"

definition load_page :: "env \<Rightarrow> list_row list \<Rightarrow> (response, list_item list) act" where
  "load_page E rows = (if rows = [] then ret []
     else bind get_world (\<lambda>w.
       bind (loadRecipients E) (\<lambda>(toMap, dlMap).
       bind (loadAddToBatches E) (\<lambda>adMap.
       bind (loadAttachments E) (\<lambda>atMap.
       populateListReactions E (map (item_of E (files w) toMap dlMap adMap atMap) rows))))))"

definition List_messages :: "env \<Rightarrow> string \<Rightarrow> string \<Rightarrow> string \<Rightarrow> string option \<Rightarrow> (response, list_item list) act" where
  "List_messages E identity limit_q offset_q trash_q = (let addr = hd (visibleAddrs identity); fail = err 500 ''failed to list messages'' in
     bind (parseLimitOffset limit_q offset_q) (\<lambda>(limit, offset).
     bind (trashListFilter trash_q) (\<lambda>mode.
     bind (or_fail (hasTrash E addr) fail) (\<lambda>has.
     bind (or_fail (stmt E (\<lambda>d. map_sum id (\<lambda>rs. (rs, d))
        (with_read d addr has (page_of limit offset (listed_messages d addr mode has))))) fail) (\<lambda>rows.
     load_page E rows)))))"

definition Sent :: "env \<Rightarrow> string \<Rightarrow> string \<Rightarrow> string \<Rightarrow> string option \<Rightarrow> (response, list_item list) act" where
  "Sent E identity limit_q offset_q trash_q = (let addr = hd (visibleAddrs identity); fail = err 500 ''failed to list sent messages'' in
     bind (unless (identity \<noteq> []) (err 401 ''unauthorized'')) (\<lambda>_.
     bind (parseLimitOffset limit_q offset_q) (\<lambda>(limit, offset).
     bind (trashListFilter trash_q) (\<lambda>mode.
     bind (or_fail (hasTrash E addr) fail) (\<lambda>has.
     bind (or_fail (sql_query E (\<lambda>d. map (\<lambda>m. (m, None, state_if (has \<and> m_time m \<noteq> None) d addr (m_id m)))
        (page_of limit offset (sent_messages d addr mode has)))) fail) (\<lambda>rows.
     load_page E rows))))))"

definition visible_messages :: "database \<Rightarrow> string \<Rightarrow> list_mode \<Rightarrow> bool \<Rightarrow> msg_row list" where
  "visible_messages d addr mode has = filter (\<lambda>m. m_time m \<noteq> None \<and> (ToLower (m_from m) = addr \<or> receives d addr (m_id m))
     \<and> listed mode (state_if has d addr (m_id m))) (msgs d)"

definition thread_tops :: "msg_row list \<Rightarrow> msg_row list" where
  "thread_tops vis = filter (\<lambda>v. m_pid v = None \<or> \<not> list_ex (\<lambda>p. Some (m_id p) = m_pid v) vis) vis"

definition Count :: "env \<Rightarrow> string \<Rightarrow> string option \<Rightarrow> (response, nat) act" where
  "Count E identity trash_q = (let addr = hd (visibleAddrs identity); fail = err 500 ''failed to count threads'' in
     bind (trashListFilter trash_q) (\<lambda>mode.
     bind (or_fail (hasTrash E addr) fail) (\<lambda>has.
     or_fail (sql_query E (\<lambda>d. length (thread_tops (visible_messages d addr mode has)))) fail)))"

subsection \<open>The item of a WebSocket event\<close>

definition messageItemFor :: "env \<Rightarrow> int \<Rightarrow> string \<Rightarrow> (response, list_item option) act" where
  "messageItemFor E i recipient = bind (fetchMessage E i) (\<lambda>r. case r of
     Inl _ \<Rightarrow> ret None
   | Inr None \<Rightarrow> ret None
   | Inr (Some (msg, path)) \<Rightarrow>
       bind get_world (\<lambda>w.
       bind (loadReactions E [i]) (\<lambda>rs.
       bind (query_read_time E i (ToLower recipient)) (\<lambda>q.
       bind (trashStateQ E recipient i) (\<lambda>st. case st of
         Inl _ \<Rightarrow> ret None
       | Inr state \<Rightarrow>
         let t = (case q of Inl _ \<Rightarrow> None | Inr t \<Rightarrow> t) in
         ret (Some (message.extend (msg\<lparr>ShortText := extractShortText E (files w) path (Type msg),
             MsgReaction := message_reaction E (files w) msg path, Reactions := rs i, TimeRead := t, Read := (t \<noteq> None),
             Trash := (if state = Some Purged then None else map_option trash_text state)\<rparr>)
           \<lparr>ItemID = i, dataPath = path, purged = (state = Some Purged)\<rparr>)))))))"

subsection \<open>Who may read\<close>

lemma visible_own: "hd (visibleAddrs identity) = ToLower identity"
  by (simp add: visibleAddrs_def)

lemma isRecipient_visible: "isRecipient (visibleAddrs identity) addr \<longleftrightarrow> sameAddr addr identity"
  by (simp add: isRecipient_iff visibleAddrs_def sameAddr_iff_lower eq_commute)

lemma anyRecipient_visible:
  "anyRecipient (visibleAddrs identity) to \<longleftrightarrow> isRecipient to identity"
  "anyAddToContains (visibleAddrs identity) bs \<longleftrightarrow> addToContains bs identity"
  by (simp_all add: anyRecipient_def anyAddToContains_def addToContains_def visibleAddrs_def isRecipient_iff sameAddr_iff_lower)

lemma draftHidden_visible: "draftHidden (visibleAddrs identity) from_addr t \<longleftrightarrow> t = None \<and> \<not> sameAddr from_addr identity"
  by (simp add: draftHidden_def isRecipient_visible)

lemma with_time_read_fields:
  "From (with_time_read q m) = From m" "Topic (with_time_read q m) = Topic m" "Time (with_time_read q m) = Time m"
  "Trash (with_time_read q m) = Trash m"
  by (simp_all add: with_time_read_def split: sum.splits)

lemma Get_Inr:
  assumes "Get E identity param w = (Inr msg, w1)"
  shows "\<exists>i w0 m. resolveID E param w = (Inr i, w0) \<and> find_msg (db w) i = Some m
    \<and> (sameAddr (m_from m) identity \<or> (m_time m \<noteq> None
        \<and> (isRecipient (map t_addr (to_rows (db w) i)) identity \<or> addToContains (batches_of (db w) i) identity)))
    \<and> fmsg_api_trash_state (db w) (ToLower identity) i \<noteq> Some Purged
    \<and> From msg = m_from m \<and> Topic msg = m_topic m \<and> Time msg = m_time m
    \<and> Trash msg = map_option trash_text (fmsg_api_trash_state (db w) (ToLower identity) i)"
proof -
  from assms [unfolded Get_def Let_def run_Inr visible_own isRecipient_visible anyRecipient_visible draftHidden_visible]
  obtain i w0 s p w2 w3 state rs w4 where r: "resolveID E param w = (Inr i, w0)" and m: "require_message E i w0 = (Inr (s, p), w2)"
    and g: "\<not> (Time s = None \<and> \<not> sameAddr (From s) identity)"
      "sameAddr (From s) identity \<or> isRecipient (To s) identity \<or> addToContains (AddTo s) identity"
    and t: "trashStateQ E (ToLower identity) i w2 = (Inr (Inr state), w3)"
    and st: "state \<noteq> Some Purged"
    and rest: "(if sameAddr (From s) identity then ret (s\<lparr>Trash := map_option trash_text state,
          ShortText := extractShortText E (files w3) p (Type s),
          MsgReaction := message_reaction E (files w3) s p, Reactions := rs i\<rparr>)
       else bind (query_read_time E i (ToLower identity)) (\<lambda>q. ret (with_time_read q (s\<lparr>Trash := map_option trash_text state,
          ShortText := extractShortText E (files w3) p (Type s),
          MsgReaction := message_reaction E (files w3) s p, Reactions := rs i\<rparr>)))) w4 = (Inr msg, w1)"
    by blast
  have d: "db w2 = db w" using same_db [OF keeps_resolveID r] same_db [OF keeps_require_message m] by simp
  have state: "state = fmsg_api_trash_state (db w) (ToLower identity) i"
    using t d by (simp add: trashStateQ_Inr)
  have "From msg = From s \<and> Topic msg = Topic s \<and> Time msg = Time s \<and> Trash msg = map_option trash_text state"
    using rest by (auto simp: bind_Inr ret_eq with_time_read_fields split: if_split_asm)
  moreover from require_message_Inr [OF m] same_db [OF keeps_resolveID r]
  obtain row to dl ad at where "find_msg (db w) i = Some row" "s = row_message row to dl ad at"
    "to = map t_addr (to_rows (db w) i) \<or> to = []" "ad = batches_of (db w) i \<or> ad = []" by auto
  ultimately show ?thesis using r g st state
    by (intro exI [of _ i] exI [of _ w0] exI [of _ row])
      (auto simp: row_message_def isRecipient_def addToContains_def)
qed

text \<open>C2: a message is shown only to those it belongs to: its sender, or, once it is sent, a recipient or an
  added recipient; never to someone who deleted it for good.  What is shown is the row, and the state in
  the caller's own trash.\<close>

theorem Get_access:
  assumes "Get E identity param w = (Inr msg, w1)"
  shows "\<exists>i w0 m. resolveID E param w = (Inr i, w0) \<and> find_msg (db w) i = Some m
    \<and> (sameAddr (m_from m) identity \<or> (m_time m \<noteq> None
        \<and> (isRecipient (map t_addr (to_rows (db w) i)) identity \<or> addToContains (batches_of (db w) i) identity)))
    \<and> fmsg_api_trash_state (db w) (ToLower identity) i \<noteq> Some Purged
    \<and> From msg = m_from m \<and> Topic msg = m_topic m \<and> Time msg = m_time m
    \<and> Trash msg = map_option trash_text (fmsg_api_trash_state (db w) (ToLower identity) i)"
  using assms by (rule Get_Inr)

theorem Get_access_witness:
  "\<exists>msg. fst (Get example_env ''@Al@ex.org'' ''1'' trash_world) = Inr msg \<and> From msg = ''@al@ex.org'' \<and> Trash msg = None"
proof -
  let ?r = "Get example_env ''@Al@ex.org'' ''1'' trash_world"
  have "case fst ?r of Inr x \<Rightarrow> True | Inl _ \<Rightarrow> False" by code_simp
  then obtain msg where run: "?r = (Inr msg, snd ?r)" by (cases ?r) (auto split: sum.splits)
  have "fst (resolveID example_env ''1'' trash_world) = Inr 1" by code_simp
  moreover have "find_msg (db trash_world) 1 = Some (msgs thread_db ! 0)"
    by (simp add: trash_world_def thread_db_def find_msg_def)
  moreover have "fmsg_api_trash_state (db trash_world) (ToLower ''@Al@ex.org'') 1 = None" by code_simp
  ultimately have "From msg = ''@al@ex.org'' \<and> Trash msg = None"
    using Get_access [OF run] by (auto simp: thread_db_def)
  then show ?thesis by (subst run) simp
qed

lemma access_rows_pos:
  "access_rows d i (ToLower identity) \<noteq> 0 \<longleftrightarrow>
     isRecipient (map t_addr (to_rows d i)) identity \<or> isRecipient (map a_addr (addto_rows d i)) identity"
  by (auto simp: access_rows_def isRecipient_iff sameAddr_iff_lower filter_empty_conv)

lemma require_row_query_Inr:
  "require_row msg (sql_query E (\<lambda>d. find_msg d i)) w = (Inr m, w2) \<longleftrightarrow>
     \<not> aborted w \<and> \<not> e_fail E (tick w) \<and> find_msg (db w) i = Some m \<and> w2 = w\<lparr>tick := Suc (tick w)\<rparr>"
  by (auto simp: require_row_Inr sql_query_Inr)

lemma DownloadData_access:
  assumes "DownloadData E identity param w = (Inr p, w1)"
  shows "\<exists>i w0 m. resolveID E param w = (Inr i, w0) \<and> find_msg (db w) i = Some m
    \<and> (sameAddr (m_from m) identity \<or> (m_time m \<noteq> None \<and> access_rows (db w) i (ToLower identity) \<noteq> 0))
    \<and> safeDataPath (e_cwd E) (m_path m) (DataDir E) = Some p"
proof -
  from assms [unfolded DownloadData_def Let_def run_Inr visible_own isRecipient_visible draftHidden_visible require_row_query_Inr ret_eq]
  obtain i w0 m hidden w2 w3 u where r: "resolveID E param w = (Inr i, w0)" and f: "find_msg (db w0) i = Some m"
    and h: "(if m_time m = None \<and> \<not> sameAddr (m_from m) identity then ret True else purgedFor E (ToLower identity) i)
        (w0\<lparr>tick := Suc (tick w0)\<rparr>) = (Inr hidden, w2)" "\<not> hidden"
    and c: "(if sameAddr (m_from m) identity then ret () else bind (sql_query E (\<lambda>d. access_rows d i (ToLower identity)))
        (\<lambda>q. case q of Inl _ \<Rightarrow> throw (err 403 ''access denied'') | Inr n \<Rightarrow> unless (n \<noteq> 0) (err 403 ''access denied''))) w2 = (Inr u, w3)"
    and p: "safeDataPath (e_cwd E) (m_path m) (DataDir E) = Some p"
    by blast
  have nd: "m_time m \<noteq> None \<or> sameAddr (m_from m) identity" using h by (auto simp: ret_eq split: if_splits)
  have d0: "db w0 = db w" by (rule same_db [OF keeps_resolveID r])
  have d2: "db w2 = db w"
    using h(1) d0 by (auto simp: purgedFor_def trashStateQ_def act_defs Let_def split: if_splits)
  have "sameAddr (m_from m) identity \<or> access_rows (db w2) i (ToLower identity) \<noteq> 0"
    using c by (auto simp: bind_Inr case_sum_throw unless_Inr sql_query_def stmt_def Let_def throw_eq split: if_splits)
  with nd f p r d0 d2 show ?thesis by (intro exI [of _ i] exI [of _ w0] exI [of _ m]) auto
qed

lemma mark_lookup_Inr:
  "mark_lookup E i addr w = (Inr (Inr (t, rc)), w2) \<longleftrightarrow> \<not> aborted w \<and> \<not> e_fail E (tick w)
     \<and> read_time (db w) i addr = Inr t \<and> rc = is_reader (db w) i addr \<and> w2 = w\<lparr>tick := Suc (tick w)\<rparr>"
  by (auto simp: mark_lookup_def stmt_Inr split: sum.splits)

lemma MarkRead_run:
  assumes "MarkRead E identity param w = (Inr resp, w1)"
  obtains i w0 t w2 where "resolveID E param w = (Inr i, w0)" and "read_time (db w0) i (ToLower identity) = Inr t"
    and "is_reader (db w0) i (ToLower identity)" and "\<not> aborted w0" and "\<not> e_fail E (tick w0)"
    and "purgedFor E identity i (w0\<lparr>tick := Suc (tick w0)\<rparr>) = (Inr False, w2)"
    and "(case t of Some x \<Rightarrow> ret (read_json i x) | None \<Rightarrow> bind (clock E) (mark_write E i identity)) w2 = (Inr resp, w1)"
proof -
  from assms [unfolded MarkRead_def run_Inr mark_lookup_Inr]
  obtain i w0 t hidden w2 where "resolveID E param w = (Inr i, w0)" "read_time (db w0) i (ToLower identity) = Inr t"
     "\<not> aborted w0" "\<not> e_fail E (tick w0)"
    and h: "(if \<not> is_reader (db w0) i (ToLower identity) then ret True else purgedFor E identity i) (w0\<lparr>tick := Suc (tick w0)\<rparr>) = (Inr hidden, w2)"
    "\<not> hidden" and "(case t of None \<Rightarrow> bind (clock E) (mark_write E i identity) | Some x \<Rightarrow> ret (read_json i x)) w2 = (Inr resp, w1)"
    by blast
  moreover have "is_reader (db w0) i (ToLower identity)" and "purgedFor E identity i (w0\<lparr>tick := Suc (tick w0)\<rparr>) = (Inr False, w2)"
    using h by (auto simp: ret_eq split: if_splits)
  ultimately show thesis using that by blast
qed

subsection \<open>Marking as read\<close>

lemma trash_state_cong:
  assumes "msgs d1 = msgs d" and "trash d1 = trash d"
  shows "fmsg_api_trash_state d1 a i = fmsg_api_trash_state d a i"
proof -
  have "ancestors d1 n j = ancestors d n j" for n j
    by (induction n arbitrary: j) (simp_all add: find_msg_def assms split: option.splits)
  then have "marks d1 a i = marks d a i" by (simp add: marks_def assms)
  then show ?thesis by (simp add: fmsg_api_trash_state_def)
qed

lemma resolveID_again:
  assumes "resolveID E param w = (Inr i, w0)" and "msgs (db w1) = msgs (db w)" and "\<forall>n. \<not> e_fail E n" and "\<not> aborted w1"
  shows "\<exists>w2. resolveID E param w1 = (Inr i, w2) \<and> db w2 = db w1 \<and> \<not> aborted w2"
  using assms by (auto simp: resolveID_def parseID_def require_row_def act_defs Let_def split: option.splits if_splits)

lemma purgedFor_runs:
  assumes "\<forall>n. \<not> e_fail E n" and "\<not> aborted w"
  shows "purgedFor E a i w = (Inr (fmsg_api_trash_state (db w) (ToLower a) i = Some Purged), w\<lparr>tick := Suc (tick w)\<rparr>)"
  using assms trash_shortcut [of "db w" "ToLower a" i]
  by (simp add: purgedFor_def trashStateQ_def act_defs Let_def)

lemma scalar_cases: "scalar xs = Inr None \<longleftrightarrow> xs = []" "scalar xs = Inr (Some x) \<longleftrightarrow> xs = [x]"
  by (auto simp: scalar_def split: list.splits)

text \<open>The read times of an address after it marked a message as read.\<close>

lemma read_rows_update:
  "map t_read (filter (\<lambda>r. ToLower (t_addr r) = a) (to_rows (set_read_to i a now d) i))
     = map (\<lambda>t. case t of None \<Rightarrow> Some now | Some x \<Rightarrow> Some x) (map t_read (filter (\<lambda>r. ToLower (t_addr r) = a) (to_rows d i)))"
  "map a_read (filter (\<lambda>r. ToLower (a_addr r) = a) (addto_rows (set_read_addto i a now d) i))
     = map (\<lambda>t. case t of None \<Rightarrow> Some now | Some x \<Rightarrow> Some x) (map a_read (filter (\<lambda>r. ToLower (a_addr r) = a) (addto_rows d i)))"
proof -
  have "map t_read (filter (\<lambda>r. ToLower (t_addr r) = a) (filter (\<lambda>r. t_msg r = i)
      (update_where (\<lambda>r. t_msg r = i \<and> ToLower (t_addr r) = a \<and> t_read r = None) (\<lambda>r. r\<lparr>t_read := Some now\<rparr>) xs)))
    = map (\<lambda>t. case t of None \<Rightarrow> Some now | Some x \<Rightarrow> Some x)
        (map t_read (filter (\<lambda>r. ToLower (t_addr r) = a) (filter (\<lambda>r. t_msg r = i) xs)))" for xs
    by (induction xs) (auto simp: update_where_def)
  then show "map t_read (filter (\<lambda>r. ToLower (t_addr r) = a) (to_rows (set_read_to i a now d) i))
     = map (\<lambda>t. case t of None \<Rightarrow> Some now | Some x \<Rightarrow> Some x) (map t_read (filter (\<lambda>r. ToLower (t_addr r) = a) (to_rows d i)))"
    by (simp add: to_rows_def set_read_to_def)
  have "map a_read (filter (\<lambda>r. ToLower (a_addr r) = a) (filter (\<lambda>r. a_msg r = i)
      (update_where (\<lambda>r. a_msg r = i \<and> ToLower (a_addr r) = a \<and> a_read r = None) (\<lambda>r. r\<lparr>a_read := Some now\<rparr>) xs)))
    = map (\<lambda>t. case t of None \<Rightarrow> Some now | Some x \<Rightarrow> Some x)
        (map a_read (filter (\<lambda>r. ToLower (a_addr r) = a) (filter (\<lambda>r. a_msg r = i) xs)))" for xs
    by (induction xs) (auto simp: update_where_def)
  then show "map a_read (filter (\<lambda>r. ToLower (a_addr r) = a) (addto_rows (set_read_addto i a now d) i))
     = map (\<lambda>t. case t of None \<Rightarrow> Some now | Some x \<Rightarrow> Some x) (map a_read (filter (\<lambda>r. ToLower (a_addr r) = a) (addto_rows d i)))"
    by (simp add: addto_rows_def set_read_addto_def)
qed

lemma access_rows_length:
  "access_rows d i a = length (map t_read (filter (\<lambda>r. ToLower (t_addr r) = a) (to_rows d i)))
     + length (map a_read (filter (\<lambda>r. ToLower (a_addr r) = a) (addto_rows d i)))"
  by (simp add: access_rows_def)

lemma read_time_after:
  assumes "read_time d i a = Inr None" and "access_rows d i a \<noteq> 0"
    and "tos d1 = tos (set_read_to i a now d)" and "addtos d1 = addtos (set_read_addto i a now d)"
  shows "read_time d1 i a = Inr (Some now) \<and> access_rows d1 i a \<noteq> 0"
proof -
  let ?t = "map t_read (filter (\<lambda>r. ToLower (t_addr r) = a) (to_rows d i))"
  let ?b = "map a_read (filter (\<lambda>r. ToLower (a_addr r) = a) (addto_rows d i))"
  have rows: "map t_read (filter (\<lambda>r. ToLower (t_addr r) = a) (to_rows d1 i)) = map (\<lambda>t. case t of None \<Rightarrow> Some now | Some x \<Rightarrow> Some x) ?t"
    "map a_read (filter (\<lambda>r. ToLower (a_addr r) = a) (addto_rows d1 i)) = map (\<lambda>t. case t of None \<Rightarrow> Some now | Some x \<Rightarrow> Some x) ?b"
    unfolding read_rows_update [symmetric] by (simp_all add: to_rows_def addto_rows_def assms(3,4))
  have "scalar ?t = Inr None \<or> scalar ?t = Inr (Some None)" and "scalar ?b = Inr None \<or> scalar ?b = Inr (Some None)"
    using assms(1) by (auto simp: read_time_def split: sum.splits option.splits)
  then have "?t = [] \<or> ?t = [None]" and "?b = [] \<or> ?b = [None]" by (simp_all only: scalar_cases)
  moreover have "?t \<noteq> [] \<or> ?b \<noteq> []" using assms(2) unfolding access_rows_length by auto
  ultimately show ?thesis unfolding read_time_def access_rows_length rows by (auto simp: scalar_def)
qed

text \<open>Marking a message as read is idempotent: a second request answers with the time of the first and
  changes nothing.\<close>

theorem MarkRead_idempotent:
  assumes "MarkRead E identity param w = (Inr resp, w1)" and "\<forall>n. \<not> e_fail E n" and "\<not> aborted w1"
  shows "fst (MarkRead E identity param w1) = Inr resp \<and> db (snd (MarkRead E identity param w1)) = db w1"
proof -
  let ?a = "ToLower identity"
  from assms(1) obtain i w0 t w2 where r: "resolveID E param w = (Inr i, w0)" and rt: "read_time (db w0) i ?a = Inr t"
    and rd: "is_reader (db w0) i ?a" and na: "\<not> aborted w0"
    and pf: "purgedFor E identity i (w0\<lparr>tick := Suc (tick w0)\<rparr>) = (Inr False, w2)"
    and run: "(case t of Some x \<Rightarrow> ret (read_json i x) | None \<Rightarrow> bind (clock E) (mark_write E i identity)) w2 = (Inr resp, w1)"
    by (rule MarkRead_run)
  have d0: "db w0 = db w" by (rule same_db [OF keeps_resolveID r])
  have w2: "w2 = w0\<lparr>tick := Suc (Suc (tick w0))\<rparr>" and np: "fmsg_api_trash_state (db w0) ?a i \<noteq> Some Purged"
    using pf purgedFor_runs [OF assms(2), of "w0\<lparr>tick := Suc (tick w0)\<rparr>" identity i] na by auto
  have "\<exists>x. resp = read_json i x \<and> read_time (db w1) i ?a = Inr (Some x) \<and> is_reader (db w1) i ?a
      \<and> msgs (db w1) = msgs (db w) \<and> trash (db w1) = trash (db w)"
  proof (cases t)
    case (Some x)
    with run w2 rt rd d0 show ?thesis by (auto simp: ret_eq)
  next
    case None
    let ?now = "e_now E (tick w2)"
    from None run w2 na assms(2) have resp: "resp = read_json i ?now"
      and t1: "tos (db w1) = tos (set_read_to i ?a ?now (db w0))" and b1: "addtos (db w1) = addtos (set_read_addto i ?a ?now (db w0))"
      and m1: "msgs (db w1) = msgs (db w0)" "trash (db w1) = trash (db w0)"
      by (auto simp: mark_write_def act_defs Let_def set_read_to_def set_read_addto_def notify_def)
    from rd have "access_rows (db w0) i ?a \<noteq> 0" by (simp add: is_reader_def)
    from read_time_after [OF rt [unfolded None] this t1 b1] resp m1 rd d0 show ?thesis by (auto simp: is_reader_def)
  qed
  then obtain x where x: "resp = read_json i x" "read_time (db w1) i ?a = Inr (Some x)" "is_reader (db w1) i ?a"
    "msgs (db w1) = msgs (db w)" "trash (db w1) = trash (db w)" by blast
  obtain v where v: "resolveID E param w1 = (Inr i, v)" "db v = db w1" "\<not> aborted v"
    using resolveID_again [OF r x(4) assms(2,3)] by blast
  have "fmsg_api_trash_state (db v) ?a i \<noteq> Some Purged"
    using np trash_state_cong [of "db v" "db w0" ?a i] v(2) x(4,5) d0 by simp
  then have "purgedFor E identity i (v\<lparr>tick := Suc (tick v)\<rparr>) = (Inr False, v\<lparr>tick := Suc (Suc (tick v))\<rparr>)"
    using purgedFor_runs [OF assms(2), of "v\<lparr>tick := Suc (tick v)\<rparr>" identity i] v(3) by simp
  then have "MarkRead E identity param w1 = (Inr resp, v\<lparr>tick := Suc (Suc (tick v))\<rparr>)"
    unfolding MarkRead_def run_Inr mark_lookup_Inr using v x assms(2)
    by (intro exI [of _ i] exI [of _ v] exI [of _ "Some x"] exI [of _ True] exI [of _ "v\<lparr>tick := Suc (tick v)\<rparr>"] exI [of _ False]
        exI [of _ "v\<lparr>tick := Suc (Suc (tick v))\<rparr>"] conjI) (auto simp: ret_eq)
  then show ?thesis using v(2) by simp
qed

theorem MarkRead_idempotent_witness:
  "fst (MarkRead example_env ''@Bo@ex.org'' ''1'' (snd (MarkRead example_env ''@Bo@ex.org'' ''1'' trash_world))) = Inr (read_json 1 0)"
proof -
  let ?r = "MarkRead example_env ''@Bo@ex.org'' ''1'' trash_world"
  have "fst ?r = Inr (read_json 1 0)" by code_simp
  then have run: "?r = (Inr (read_json 1 0), snd ?r)" by (metis prod.collapse)
  have "\<not> aborted (snd ?r)" by code_simp
  with MarkRead_idempotent [OF run] show ?thesis by (simp add: example_env_runs)
qed

subsection \<open>Adding recipients: properties\<close>

lemma each_exec_run:
  "each (\<lambda>x. or_fail (sql_exec E (f x)) e) xs w = (Inr u, w1) \<Longrightarrow>
     db w1 = fold f xs (db w) \<and> on_commit w1 = on_commit w \<and> on_rollback w1 = on_rollback w \<and> files w1 = files w"
  by (induction xs arbitrary: w) (auto simp: act_Inr)

lemma purgedFor_state:
  "purgedFor E a i w = (Inr b, w1) \<Longrightarrow> db w1 = db w \<and> on_commit w1 = on_commit w \<and> on_rollback w1 = on_rollback w \<and> files w1 = files w"
  by (auto simp: purgedFor_def trashStateQ_def act_defs Let_def split: if_splits)

lemma add_guard_Inr:
  assumes "add_guard E identity i addrs w = (Inr m, w1)"
  shows "addrs \<noteq> [] \<and> (\<forall>a \<in> set addrs. IsValidAddr a) \<and> find_msg (db w) i = Some m
    \<and> (m_time m \<noteq> None \<or> sameAddr (m_from m) identity) \<and> \<not> m_terminal m
    \<and> (sameAddr (m_from m) identity \<or> isRecipient (map t_addr (to_rows (db w) i)) identity)
    \<and> distinct (map ToLower addrs)
    \<and> (\<forall>r \<in> set (addto_rows (db w) i). ToLower (a_addr r) \<notin> ToLower ` set addrs)
    \<and> db w1 = db w \<and> on_commit w1 = on_commit w"
proof -
  from assms [unfolded add_guard_def run_Inr require_row_query_Inr ret_eq]
  obtain hidden w2 w3 u where ne: "addrs \<noteq> []" and v: "find (\<lambda>a. \<not> IsValidAddr a) addrs = None"
    and f: "find_msg (db w) i = Some m"
    and h: "(if draftHidden [identity] (m_from m) (m_time m) then ret True else purgedFor E identity i)
        (w\<lparr>tick := Suc (tick w)\<rparr>) = (Inr hidden, w2)" "\<not> hidden"
    and tm: "\<not> m_terminal m"
    and c: "(if sameAddr (m_from m) identity then ret () else bind (sql_query E (\<lambda>d. list_ex (\<lambda>r. ToLower (t_addr r) = ToLower identity) (to_rows d i)))
        (\<lambda>q. case q of Inl _ \<Rightarrow> throw (err 403 ''only existing participants may add recipients'')
          | Inr b \<Rightarrow> unless b (err 403 ''only existing participants may add recipients''))) w2 = (Inr u, w3)"
    and dd: "checkDistinctRecipients addrs [] = None"
    and al: "\<not> list_ex (\<lambda>r. ToLower (a_addr r) \<in> ToLower ` set addrs) (addto_rows (db w3) i)" "w1 = w3\<lparr>tick := Suc (tick w3)\<rparr>"
    unfolding sql_query_Inr by clarify (rule that, (assumption | simp)+)
  have w2: "db w2 = db w \<and> on_commit w2 = on_commit w" and nd: "m_time m \<noteq> None \<or> sameAddr (m_from m) identity"
    using h by (auto simp: ret_eq draftHidden_own dest: purgedFor_state split: if_splits)
  have w3: "db w3 = db w2 \<and> on_commit w3 = on_commit w2"
    and p: "sameAddr (m_from m) identity \<or> isRecipient (map t_addr (to_rows (db w2) i)) identity"
    using c by (auto simp: bind_Inr case_sum_throw unless_Inr ret_eq sql_query_def stmt_def Let_def throw_eq list_ex_iff
        isRecipient_iff sameAddr_iff_lower split: if_splits)
  from al have w1: "db w1 = db w3 \<and> on_commit w1 = on_commit w3"
    and na: "\<forall>r \<in> set (addto_rows (db w3) i). ToLower (a_addr r) \<notin> ToLower ` set addrs"
    by (auto simp: sql_query_Inr list_ex_iff)
  from dd have "distinct (map ToLower addrs)" by (simp add: checkDistinctRecipients_ok)
  with ne v f nd tm p na w1 w2 w3 show ?thesis by (simp add: find_None_all)
qed

definition fresh_addtos :: "int \<Rightarrow> int \<Rightarrow> string list \<Rightarrow> addto_row list \<Rightarrow> bool" where
  "fresh_addtos i b addrs rs \<longleftrightarrow> map a_addr rs = addrs \<and> (\<forall>r \<in> set rs. a_msg r = i \<and> a_batch r = b
     \<and> a_delivered r = None \<and> a_code r = None \<and> a_read r = None)"

lemma insert_addtos:
  assumes "\<forall>a b. e_addr_key E a = e_addr_key E b \<longrightarrow> ToLower a = ToLower b"
    and "distinct (map ToLower addrs)" and "\<forall>r \<in> set (addto_rows d i). ToLower (a_addr r) \<notin> ToLower ` set addrs"
  shows "\<exists>rs. addtos (fold (insert_addto E i b) addrs d) = addtos d @ rs \<and> fresh_addtos i b addrs rs
    \<and> msgs (fold (insert_addto E i b) addrs d) = msgs d \<and> tos (fold (insert_addto E i b) addrs d) = tos d"
  using assms(2,3)
proof (induction addrs arbitrary: d)
  case Nil
  then show ?case by (simp add: fresh_addtos_def)
next
  case (Cons a addrs)
  let ?r = "\<lparr>a_id = next_id d, a_msg = i, a_batch = b, a_addr = a, a_delivered = None, a_code = None, a_read = None\<rparr>"
  have ins: "insert_addto E i b a d = d\<lparr>addtos := addtos d @ [?r], next_id := next_id d + 1\<rparr>"
  proof -
    have "e_addr_key E (a_addr r) \<noteq> e_addr_key E a" if "r \<in> set (addto_rows d i)" for r
      using Cons.prems(2) assms(1) that by (metis image_eqI list.set_intros(1))
    then show ?thesis unfolding insert_addto_def list_ex_iff by auto
  qed
  have "\<forall>r \<in> set (addto_rows (insert_addto E i b a d) i). ToLower (a_addr r) \<notin> ToLower ` set addrs"
    using Cons.prems by (auto simp: ins addto_rows_def)
  with Cons.IH [of "insert_addto E i b a d"] Cons.prems(1) obtain rs where
    "addtos (fold (insert_addto E i b) addrs (insert_addto E i b a d)) = addtos (insert_addto E i b a d) @ rs"
    "fresh_addtos i b addrs rs" "msgs (fold (insert_addto E i b) addrs (insert_addto E i b a d)) = msgs (insert_addto E i b a d)"
    "tos (fold (insert_addto E i b) addrs (insert_addto E i b a d)) = tos (insert_addto E i b a d)" by auto
  then show ?case by (intro exI [of _ "?r # rs"]) (simp add: ins fresh_addtos_def)
qed

lemma finalize_batch_Inr:
  "finalize_batch E i b w = (Inr hash, w1) \<longleftrightarrow> \<not> aborted w \<and> (\<exists>d. e_finalize_batch E (db w) i b = Some (hash, d) \<and> w1 = w\<lparr>db := d\<rparr>)"
  by (auto simp: finalize_batch_def split: option.splits prod.splits)

text \<open>C20: recipients are added only to a non-terminal message by its sender or one of its recipients, and a draft
  only by its sender.  Every address asked for becomes one undelivered recipient of the new batch, in order:
  none is dropped as a duplicate, so no batch is left without recipients.  Local delivery follows the
  commit exactly if the message is sent.  (The table's unique key must not be coarser than the
  case-insensitive address.)\<close>

theorem AddRecipients_spec:
  assumes "AddRecipients E identity param (Some addrs) w = (Inr resp, w1)"
    and "\<forall>a b. e_addr_key E a = e_addr_key E b \<longrightarrow> ToLower a = ToLower b"
  shows "\<exists>i w0 m b hash d rs. resolveID E param w = (Inr i, w0) \<and> find_msg (db w) i = Some m \<and> \<not> m_terminal m
    \<and> (sameAddr (m_from m) identity \<or> (m_time m \<noteq> None \<and> isRecipient (map t_addr (to_rows (db w) i)) identity))
    \<and> addrs \<noteq> [] \<and> (\<forall>a \<in> set addrs. IsValidAddr a)
    \<and> e_finalize_batch E d i b = Some (hash, db w1) \<and> addtos d = addtos (db w) @ rs \<and> fresh_addtos i b addrs rs
    \<and> msgs d = msgs (db w) \<and> tos d = tos (db w)
    \<and> on_commit w1 = on_commit w0 @ (if m_time m \<noteq> None then [DResolve True i addrs] else [])"
proof -
  from assms(1) [unfolded AddRecipients_def run_Inr option.case ret_eq] obtain i w0 m w2 b hash w3 w4 u where
    r: "resolveID E param w = (Inr i, w0)" and g: "add_guard E identity i addrs w0 = (Inr m, w2)"
    and bt: "add_batch E identity i addrs w2 = (Inr (b, hash), w3)"
    and c: "add_commit (if m_time m \<noteq> None then [DResolve True i addrs] else []) w3 = (Inr u :: response + unit, w1)" by blast
  have d0: "db w0 = db w" by (rule same_db [OF keeps_resolveID r])
  note g' = add_guard_Inr [OF g]
  from bt [unfolded add_batch_def Let_def run_Inr ret_eq] obtain b1 v1 u1 v2 u2 v3 v4 u5 v0 now vc where
    q0: "sql_query E (\<lambda>_. ()) w2 = (Inr (Inr ()) :: response + _, v0)" and cl: "clock E v0 = (Inr now :: response + _, vc)"
    and ib: "stmt E (\<lambda>d. Inr (insert_batch i identity now d)) vc = (Inr (Inr b) :: response + _, v1)"
    and ins: "each (\<lambda>a. or_fail (sql_exec E (insert_addto E i b a)) (err 500 ''failed to add recipients'')) addrs v1 = (Inr u1, v2)"
    and nt: "sql_exec E (insert_notifies E i b (map (\<lambda>a. ToLower (addr_domain a)) addrs)) v2 = (Inr (Inr u2) :: response + _, v3)"
    and fb: "finalize_batch E i b v3 = (Inr hash, v4)"
    and cm: "sql_query E (\<lambda>_. ()) v4 = (Inr (Inr u5) :: response + _, w3)"
    by auto
  have v1: "addtos (db v1) = addtos (db w)" "msgs (db v1) = msgs (db w)" "tos (db v1) = tos (db w)" "on_commit v1 = on_commit w0"
    using q0 cl ib g' d0 by (auto simp: sql_query_Inr clock_Inr stmt_Inr insert_batch_def)
  then have rows: "addto_rows (db v1) i = addto_rows (db w0) i" using d0 by (simp add: addto_rows_def)
  note ex = each_exec_run [OF ins]
  from insert_addtos [OF assms(2), of addrs "db v1" i b] g' rows obtain rs where
    "addtos (db v2) = addtos (db v1) @ rs" "fresh_addtos i b addrs rs" "msgs (db v2) = msgs (db v1)" "tos (db v2) = tos (db v1)"
    using ex by auto
  moreover have "addtos (db v3) = addtos (db v2)" "msgs (db v3) = msgs (db v2)" "tos (db v3) = tos (db v2)" "on_commit v3 = on_commit v2"
    using nt by (auto simp: sql_exec_Inr insert_notifies_def)
  moreover obtain d where "e_finalize_batch E (db v3) i b = Some (hash, d)" "v4 = v3\<lparr>db := d\<rparr>"
    using fb by (auto simp: finalize_batch_Inr)
  moreover have "db w1 = d" "on_commit w1 = on_commit w0 @ (if m_time m \<noteq> None then [DResolve True i addrs] else [])"
    using c cm calculation v1 ex by (auto simp: add_commit_def sql_query_Inr)
  ultimately show ?thesis using r g' d0 v1
    by (intro exI [of _ i] exI [of _ w0] exI [of _ m] exI [of _ b] exI [of _ hash] exI [of _ "db v3"] exI [of _ rs]) auto
qed

definition batch_env :: env where
  "batch_env = example_env\<lparr>e_finalize_batch := (\<lambda>d i b. Some (''h'', d))\<rparr>"

theorem AddRecipients_spec_witness:
  "map a_addr (addtos (db (snd (AddRecipients batch_env ''@Al@ex.org'' ''1'' (Some [''@cy@ex.org'', ''@Di@ex.org'']) trash_world))))
    = [''@cy@ex.org'', ''@Di@ex.org'']"
proof -
  let ?r = "AddRecipients batch_env ''@Al@ex.org'' ''1'' (Some [''@cy@ex.org'', ''@Di@ex.org'']) trash_world"
  have "case fst ?r of Inr x \<Rightarrow> True | Inl _ \<Rightarrow> False" by code_simp
  then obtain resp where run: "?r = (Inr resp, snd ?r)" by (cases ?r) (auto split: sum.splits)
  have k: "\<forall>a b. e_addr_key batch_env a = e_addr_key batch_env b \<longrightarrow> ToLower a = ToLower b"
    by (simp add: batch_env_def example_env_def)
  from AddRecipients_spec [OF run k] obtain i b hash d rs where
    f: "e_finalize_batch batch_env d i b = Some (hash, db (snd ?r))"
    and a: "addtos d = addtos (db trash_world) @ rs" "fresh_addtos i b [''@cy@ex.org'', ''@Di@ex.org''] rs" by blast
  from f have "db (snd ?r) = d" by (simp add: batch_env_def)
  with a show ?thesis by (simp add: trash_world_def thread_db_def empty_db_def fresh_addtos_def)
qed

end
