(* ===== verification/Attachments.thy ===== *)
theory Attachments
  imports Messages
begin

text \<open>
  Attachments (\<open>src/internal/handlers/attachments.go\<close>): upload to a draft, download, and deletion from
  a draft.  The file of a request is its name and content, \<open>None\<close> where the form field is missing.
  Upload and deletion run inside \<open>atomic\<close>; a nested transaction is a savepoint of it, and every failure
  ends the request with an error, which rolls all of it back.
\<close>

subsection \<open>File names\<close>

text \<open>\<open>filepath.Base\<close>, \<open>Ext\<close>, \<open>Clean\<close> and \<open>Join\<close> of two elements (the first one not empty).\<close>

definition Base :: "string \<Rightarrow> string" where
  "Base p = (if p = [] then ''.'' else
     (let t = last (Split CHR ''/'' (TrimRightChar CHR ''/'' p)) in if t = [] then ''/'' else t))"

definition Ext :: "string \<Rightarrow> string" where
  "Ext p = (case CutLast (last (Split CHR ''/'' p)) CHR ''.'' of None \<Rightarrow> [] | Some (a, b) \<Rightarrow> CHR ''.'' # b)"

definition TrimSuffix :: "string \<Rightarrow> string \<Rightarrow> string" where
  "TrimSuffix s x = (if HasSuffix s x then take (length s - length x) s else s)"

definition Clean :: "string \<Rightarrow> string" where
  "Clean p = (if HasPrefix p ''/'' then ''/'' @ Join (clean_parts True [] (Split CHR ''/'' p)) ''/''
     else (let ps = clean_parts False [] (Split CHR ''/'' p) in if ps = [] then ''.'' else Join ps ''/''))"

definition JoinPath :: "string \<Rightarrow> string \<Rightarrow> string" where
  "JoinPath dir name = (if name = [] then Clean dir else Clean (dir @ ''/'' @ name))"

text \<open>The candidates for a file name: the name itself, then with \<open>_1\<close>, \<open>_2\<close> and so on before its
  extension.  The search goes on for as long as \<open>os.Stat\<close> says anything but that there is no such entry.\<close>

definition candidate :: "string \<Rightarrow> string \<Rightarrow> nat \<Rightarrow> string" where
  "candidate dir name i = (if i = 0 then JoinPath dir name
     else JoinPath dir (TrimSuffix name (Ext name) @ ''_'' @ Itoa (int i) @ Ext name))"

partial_function (option) first_free :: "(string \<Rightarrow> bool) \<Rightarrow> (nat \<Rightarrow> string) \<Rightarrow> nat \<Rightarrow> string option" where
  [code]: "first_free taken cand i = (if taken (cand i) then first_free taken cand (Suc i) else Some (cand i))"

text \<open>The outcomes of \<open>os.Stat\<close>: an entry, an error that is \<open>os.IsNotExist\<close>, or another error (a name that is
  too long, a directory that may not be searched, a failing disk).  Entries are the stored files, and the
  message's directory and its parent, which are the only directories a candidate can name (for the names
  \<open>/\<close> and \<open>..\<close>); which paths fail otherwise is the environment's \<open>e_stat\<close>.\<close>

datatype stat_outcome = StatEntry | StatNotExist | StatError

definition os_Stat :: "env \<Rightarrow> world \<Rightarrow> string \<Rightarrow> string \<Rightarrow> stat_outcome" where
  "os_Stat E w dir p = (if e_stat E (tick w) p then StatError
     else if p \<in> {JoinPath dir ''/'', JoinPath dir ''..''} \<or> files w p \<noteq> None then StatEntry
     else StatNotExist)"

definition resolveFilePath :: "(string \<Rightarrow> stat_outcome) \<Rightarrow> string \<Rightarrow> string \<Rightarrow> string option" where
  "resolveFilePath stat dir name = first_free (\<lambda>p. stat p \<noteq> StatNotExist) (candidate dir name) 0"

subsection \<open>Handlers\<close>

text \<open>A row for a new attachment, and the insertion that replaces the size and path of one of that
  name.\<close>

definition put_attachment :: "env \<Rightarrow> int \<Rightarrow> string \<Rightarrow> int \<Rightarrow> string \<Rightarrow> database \<Rightarrow> database" where
  "put_attachment E i name sz path d = (if list_ex (\<lambda>a. at_filename a = name) (att_rows d i)
     then d\<lparr>atts := update_where (\<lambda>a. at_msg a = i \<and> at_filename a = name) (\<lambda>a. a\<lparr>at_size := sz, at_path := path\<rparr>) (atts d)\<rparr>
     else (case e_att_defaults E of (pos, type, flags) \<Rightarrow> d\<lparr>atts := atts d @ [\<lparr>at_msg = i, at_position = pos,
        at_type = type, at_filename = name, at_size = sz, at_flags = flags, at_path = path\<rparr>]\<rparr>))"

text \<open>Writing the upload: the file is read up to one byte over the limit.  The result is the number of
  bytes written; on a failure nothing is left.\<close>

definition write_upload :: "env \<Rightarrow> string \<Rightarrow> string \<Rightarrow> (response, int) act" where
  "write_upload E path content = (let written = take (nat (MaxAttachSize E + 1)) content in
     bind (create_file E path written) (\<lambda>opened.
     bind (unless opened (err 500 ''failed to save attachment'')) (\<lambda>_.
     bind (io_step E) (\<lambda>copied.
     if \<not> copied then bind (remove_file E path) (\<lambda>_. throw (err 500 ''failed to write attachment''))
     else if MaxAttachSize E < int (length written)
       then bind (remove_file E path) (\<lambda>_. throw (err 413 ''attachment exceeds maximum size''))
     else ret (int (length written))))))"

text \<open>An error after the file was written removes it at once.\<close>

definition or_remove :: "env \<Rightarrow> string \<Rightarrow> (response, 'a) act \<Rightarrow> (response, 'a) act" where
  "or_remove E path m = bind (attempt m) (\<lambda>r. case r of
     Inl e \<Rightarrow> bind (remove_file E path) (\<lambda>_. throw e) | Inr a \<Rightarrow> ret a)"

definition record_upload :: "env \<Rightarrow> int \<Rightarrow> string \<Rightarrow> int \<Rightarrow> string \<Rightarrow> (response, unit) act" where
  "record_upload E i name written path =
     bind (or_fail (sql_query E (\<lambda>_. ())) (err 500 ''failed to record attachment'')) (\<lambda>_.
     bind (or_fail (sql_query E (\<lambda>d. stored_size d i)) (err 500 ''failed to check message size'')) (\<lambda>total. case total of
       None \<Rightarrow> throw (err 500 ''failed to check message size'')
     | Some t \<Rightarrow>
       bind (unless (wrap64 (t + written) \<le> MaxMsgSize E) (err 413 ''total message size exceeds limit'')) (\<lambda>_.
       bind (or_fail (sql_exec E (put_attachment E i name written path)) (err 500 ''failed to record attachment'')) (\<lambda>_.
       or_fail (sql_query E (\<lambda>_. ())) (err 500 ''failed to record attachment'')))))"

text \<open>A search for a name that never ends is a request that is never answered: nothing it did is committed.
  Its stand-in is a failure, so that its transaction counts as rolled back.\<close>

definition unanswered :: response where
  "unanswered = err 500 []"

definition save_upload :: "env \<Rightarrow> string \<Rightarrow> int \<Rightarrow> string \<Rightarrow> string \<Rightarrow> (response, response) act" where
  "save_upload E fromAddr i name content = (let dir = msgDataDir (DataDir E) fromAddr i in
     bind (io_step E) (\<lambda>made.
     bind (unless made (err 500 ''failed to prepare storage'')) (\<lambda>_.
     bind get_world (\<lambda>w. case resolveFilePath (os_Stat E w dir) dir name of
       None \<Rightarrow> throw unanswered
     | Some path \<Rightarrow>
       bind (write_upload E path content) (\<lambda>written.
       bind (add_rollback [path]) (\<lambda>_.
       bind (or_remove E path (record_upload E i name written path)) (\<lambda>_.
       ret (201, JObj [(''filename'', JStr name), (''size'', JInt written)]))))))))"

definition Upload :: "env \<Rightarrow> string \<Rightarrow> string \<Rightarrow> (string \<times> string) option \<Rightarrow> (response, response) act" where
  "Upload E identity param file =
     bind (resolveID E param) (\<lambda>i.
     bind (require_row ''failed to retrieve message'' (sql_query E (\<lambda>d. find_msg d i))) (\<lambda>m.
     bind (unless (m_from m = identity) (err 403 ''only the owner may upload attachments'')) (\<lambda>_.
     bind (unless (m_time m = None) (err 403 ''attachments cannot be added to a sent message'')) (\<lambda>_.
     case file of None \<Rightarrow> throw (err 400 ''file field required'')
     | Some (filename, content) \<Rightarrow>
       bind (unless (Base filename \<noteq> ''.'' \<and> Base filename \<noteq> []) (err 400 ''invalid filename'')) (\<lambda>_.
       save_upload E (m_from m) i (Base filename) content)))))"

definition find_att :: "database \<Rightarrow> int \<Rightarrow> string \<Rightarrow> att_row option" where
  "find_att d i name = find (\<lambda>a. at_filename a = name) (att_rows d i)"

definition require_att :: "env \<Rightarrow> int \<Rightarrow> string \<Rightarrow> (response, att_row) act" where
  "require_att E i name = bind (or_fail (sql_query E (\<lambda>d. find_att d i name)) (err 500 ''failed to retrieve attachment'')) (\<lambda>r.
     case r of None \<Rightarrow> throw (err 404 ''attachment not found'') | Some a \<Rightarrow> ret a)"

definition inside_data_dir :: "env \<Rightarrow> string \<Rightarrow> bool" where
  "inside_data_dir E p \<longleftrightarrow> HasPrefix p (Clean (DataDir E) @ ''/'')"

text \<open>The path of the file sent.\<close>

definition Download :: "env \<Rightarrow> string \<Rightarrow> string \<Rightarrow> string \<Rightarrow> (response, string) act" where
  "Download E identity param file_param = (let name = Base file_param in
     bind (resolveID E param) (\<lambda>i.
     bind (unless (name \<noteq> ''.'' \<and> name \<noteq> [] \<and> \<not> ContainsChar name CHR ''/'' \<and> \<not> ContainsChar name CHR 0x5C)
        (err 400 ''invalid filename'')) (\<lambda>_.
     bind (require_row ''failed to retrieve message'' (sql_query E (\<lambda>d. find_msg d i))) (\<lambda>m.
     bind (if draftHidden [identity] (m_from m) (m_time m) then ret True else purgedFor E identity i) (\<lambda>hidden.
     bind (unless (\<not> hidden) not_found) (\<lambda>_.
     bind (if m_from m = identity then ret ()
       else bind (sql_query E (\<lambda>d. access_rows d i (ToLower identity))) (\<lambda>q. case q of
            Inl _ \<Rightarrow> throw (err 403 ''access denied'')
          | Inr n \<Rightarrow> unless (n \<noteq> 0) (err 403 ''access denied''))) (\<lambda>_.
     bind (require_att E i name) (\<lambda>a.
     bind (unless (inside_data_dir E (Clean (at_path a))) (err 403 ''access denied'')) (\<lambda>_.
     ret (Clean (at_path a)))))))))))"

definition DeleteAttachment :: "env \<Rightarrow> string \<Rightarrow> string \<Rightarrow> string \<Rightarrow> (response, response) act" where
  "DeleteAttachment E identity param file_param = (let name = Base file_param in
     bind (resolveID E param) (\<lambda>i.
     bind (unless (name \<noteq> ''.'' \<and> name \<noteq> []) (err 400 ''invalid filename'')) (\<lambda>_.
     bind (require_row ''failed to retrieve message'' (sql_query E (\<lambda>d. find_msg d i))) (\<lambda>m.
     bind (unless (m_from m = identity) (err 403 ''only the owner may delete attachments'')) (\<lambda>_.
     bind (unless (m_time m = None) (err 403 ''attachments of a sent message cannot be deleted'')) (\<lambda>_.
     bind (require_att E i name) (\<lambda>a.
     bind (or_fail (sql_exec E (\<lambda>d. d\<lparr>atts := delete_where (\<lambda>x. at_msg x = i \<and> at_filename x = name) (atts d)\<rparr>))
        (err 500 ''failed to delete attachment'')) (\<lambda>_.
     bind (add_commit (if inside_data_dir E (Clean (at_path a)) then [DRemove (Clean (at_path a))] else [])) (\<lambda>_.
     ret (204, JNull))))))))))"

subsection \<open>The search for a free name ends\<close>

lemma Split_append_last: "c \<notin> set t \<Longrightarrow> Split c (s @ t) = butlast (Split c s) @ [last (Split c s) @ t]"
proof (induction s)
  case Nil
  then show ?case by (simp add: Split_no_sep)
next
  case (Cons x s)
  then show ?case by (cases "Split c s") (auto simp: Split_nonempty)
qed

lemma clean_parts_snoc:
  assumes "z \<noteq> []" and "z \<noteq> ''.''" and "z \<noteq> ''..''"
  shows "clean_parts r st (ps @ [z]) = clean_parts r st ps @ [z]"
  using assms by (induction r st ps rule: clean_parts.induct) (auto split: list.splits)

lemma Join_snoc: "Join (xs @ [z]) sep = (if xs = [] then z else Join xs sep @ sep @ z)"
proof (induction xs)
  case (Cons x xs)
  then show ?case by (cases xs) auto
qed simp

lemma nat_digits_inj: "nat_digits m = nat_digits n \<Longrightarrow> m = n"
  using digits_val_nat_digits by metis

lemma Itoa_nat_inj: "Itoa (int i) = Itoa (int j) \<Longrightarrow> i = j"
  by (auto simp: Itoa_def dest: nat_digits_inj)

lemma Ext_no_slash: "CHR ''/'' \<notin> set (Ext p)"
proof (cases "CutLast (last (Split CHR ''/'' p)) CHR ''.''")
  case None
  then show ?thesis by (simp add: Ext_def)
next
  case (Some ab)
  obtain a b where ab: "ab = (a, b)" by (cases ab)
  from CutLast_Some [OF Some [unfolded ab]] have "set b \<subseteq> set (last (Split CHR ''/'' p))" by auto
  moreover have "CHR ''/'' \<notin> set (last (Split CHR ''/'' p))"
    by (rule Split_parts_no_sep [of _ _ p]) simp
  ultimately show ?thesis using Some ab by (auto simp: Ext_def)
qed

lemma Itoa_nat_digits: "CHR ''/'' \<notin> set (Itoa (int i))"
  using nat_digits_digits [of i] by (auto simp: Itoa_def list_all_iff is_digit_def)

text \<open>The numbered candidates differ in their last part only.\<close>

lemma candidate_form:
  "\<exists>pre cs. \<forall>i > 0. candidate dir name i = pre @ (if cs = [] then [] else Join cs ''/'' @ ''/'')
     @ last (Split CHR ''/'' (dir @ ''/'' @ TrimSuffix name (Ext name))) @ ''_'' @ Itoa (int i) @ Ext name"
proof -
  let ?b = "dir @ ''/'' @ TrimSuffix name (Ext name)"
  let ?rooted = "HasPrefix (dir @ ''/'') ''/''"
  let ?cs = "clean_parts ?rooted [] (butlast (Split CHR ''/'' ?b))"
  have "candidate dir name i = (if ?rooted then ''/'' else []) @ (if ?cs = [] then [] else Join ?cs ''/'' @ ''/'')
      @ last (Split CHR ''/'' ?b) @ ''_'' @ Itoa (int i) @ Ext name" if "i > 0" for i
  proof -
    let ?t = "''_'' @ Itoa (int i) @ Ext name"
    let ?z = "last (Split CHR ''/'' ?b) @ ?t"
    have z: "?z \<noteq> []" "?z \<noteq> ''.''" "?z \<noteq> ''..''"
      by (auto simp: append_eq_Cons_conv)
    have s: "Split CHR ''/'' (?b @ ?t) = butlast (Split CHR ''/'' ?b) @ [?z]"
      by (rule Split_append_last) (simp add: Ext_no_slash Itoa_nat_digits)
    have r: "HasPrefix (?b @ ?t) ''/'' = ?rooted" by (cases dir) (simp_all add: HasPrefix_def)
    have "candidate dir name i = Clean (?b @ ?t)" using that by (simp add: candidate_def JoinPath_def)
    also have "\<dots> = (if ?rooted then ''/'' else []) @ Join (?cs @ [?z]) ''/''"
      unfolding Clean_def r s clean_parts_snoc [OF z] Let_def by (cases ?rooted) simp_all
    finally show ?thesis by (simp add: Join_snoc)
  qed
  then show ?thesis by blast
qed

lemma candidate_inj: "0 < i \<Longrightarrow> 0 < j \<Longrightarrow> candidate dir name i = candidate dir name j \<Longrightarrow> i = j"
  using candidate_form [of dir name] Itoa_nat_inj by (elim exE) (auto split: if_splits)

lemma first_free_least:
  "\<not> taken (cand (i + n)) \<Longrightarrow> \<exists>k. i \<le> k \<and> k \<le> i + n \<and> first_free taken cand i = Some (cand k)
     \<and> \<not> taken (cand k) \<and> (\<forall>j. i \<le> j \<longrightarrow> j < k \<longrightarrow> taken (cand j))"
proof (induction n arbitrary: i)
  case 0
  then show ?case by (subst first_free.simps) auto
next
  case (Suc n)
  show ?case
  proof (cases "taken (cand i)")
    case True
    from Suc.prems Suc.IH [of "Suc i"] obtain k where k: "Suc i \<le> k" "k \<le> Suc i + n"
      "first_free taken cand (Suc i) = Some (cand k)" "\<not> taken (cand k)" "\<forall>j. Suc i \<le> j \<longrightarrow> j < k \<longrightarrow> taken (cand j)"
      by auto
    have "\<forall>j. i \<le> j \<longrightarrow> j < k \<longrightarrow> taken (cand j)" using k(5) True by (metis le_eq_less_or_eq Suc_leI)
    with k True show ?thesis by (subst first_free.simps) (intro exI [of _ k], simp)
  next
    case False
    then show ?thesis by (subst first_free.simps) (intro exI [of _ i], simp)
  qed
qed

lemma first_free_Some:
  "first_free taken cand i = Some y \<Longrightarrow> \<exists>k \<ge> i. y = cand k \<and> \<not> taken (cand k)"
  by (erule first_free.raw_induct [where P = "\<lambda>t c j y. \<exists>k \<ge> j. y = c k \<and> \<not> t (c k)", rotated])
    (force split: if_splits dest: Suc_leD)

lemma Split_sep: "Split c (p @ [c]) = Split c p @ [[]]"
  by (induction p) (auto split: list.splits)

lemma last_Split_sep: "last (Split c (p @ [c])) = []"
  by (simp add: Split_sep)

lemma TrimRightChar_none: "z \<noteq> [] \<Longrightarrow> c \<notin> set z \<Longrightarrow> TrimRightChar c (p @ z) = p @ z"
  by (cases z rule: rev_cases) (auto simp: TrimRightChar_def)

lemma Base_append_slash: "z \<noteq> [] \<Longrightarrow> CHR ''/'' \<notin> set z \<Longrightarrow> Base (p @ ''/'' @ z) = z"
  using TrimRightChar_none [of z "CHR ''/''" "p @ ''/''"] Split_append_last [of "CHR ''/''" z "p @ ''/''"]
  by (simp add: Base_def last_Split_sep)

lemma Base_plain: "z \<noteq> [] \<Longrightarrow> CHR ''/'' \<notin> set z \<Longrightarrow> Base z = z"
  using TrimRightChar_none [of z "CHR ''/''" "[]"] by (simp add: Base_def Split_no_sep)

lemma Base_JoinPath:
  assumes "z \<noteq> []" and "z \<noteq> ''.''" and "z \<noteq> ''..''" and "CHR ''/'' \<notin> set z"
  shows "Base (JoinPath dir z) = z"
proof -
  let ?p = "dir @ ''/'' @ z"
  let ?cs = "clean_parts (HasPrefix ?p ''/'') [] (butlast (Split CHR ''/'' (dir @ ''/'')))"
  have "Split CHR ''/'' ?p = butlast (Split CHR ''/'' (dir @ ''/'')) @ [z]"
    using Split_append_last [OF assms(4), of "dir @ ''/''"] by (simp add: last_Split_sep)
  then have j: "JoinPath dir z = (if HasPrefix ?p ''/'' then ''/'' else []) @ Join (?cs @ [z]) ''/''"
    using assms(1) clean_parts_snoc [OF assms(1-3)] by (auto simp: JoinPath_def Clean_def Let_def)
  show ?thesis
  proof (cases "?cs = []")
    case True
    then show ?thesis unfolding j using Base_append_slash [OF assms(1,4), of "[]"] Base_plain [OF assms(1,4)] by auto
  next
    case False
    then show ?thesis unfolding j Join_snoc
      using Base_append_slash [OF assms(1,4), of "(if HasPrefix ?p ''/'' then ''/'' else []) @ Join ?cs ''/''"] by simp
  qed
qed

lemma Base_candidate:
  assumes "2 < length name" and "CHR ''/'' \<notin> set name"
  shows "length name \<le> length (Base (candidate dir name i))"
proof (cases "i = 0")
  case True
  from assms have "name \<noteq> []" "name \<noteq> ''.''" "name \<noteq> ''..''" by auto
  with True assms(2) show ?thesis by (simp add: candidate_def Base_JoinPath)
next
  case False
  let ?z = "TrimSuffix name (Ext name) @ ''_'' @ Itoa (int i) @ Ext name"
  have l: "length name \<le> length (TrimSuffix name (Ext name)) + length (Ext name)"
    by (cases "HasSuffix name (Ext name)") (auto simp: TrimSuffix_def min_def intro: diff_le_self)
  have "set (TrimSuffix name (Ext name)) \<subseteq> set name" by (auto simp: TrimSuffix_def dest: in_set_takeD)
  then have "CHR ''/'' \<notin> set ?z" using assms(2) Ext_no_slash Itoa_nat_digits by auto
  moreover have "?z \<noteq> []" "?z \<noteq> ''.''" "?z \<noteq> ''..''" by (auto simp: append_eq_Cons_conv)
  ultimately have "Base (candidate dir name i) = ?z" using False Base_JoinPath [of ?z dir] by (simp add: candidate_def)
  with l show ?thesis by simp
qed

lemma resolveFilePath_first:
  "resolveFilePath stat dir name = Some path \<longleftrightarrow> (\<exists>k. path = candidate dir name k \<and> stat (candidate dir name k) = StatNotExist
     \<and> (\<forall>j < k. stat (candidate dir name j) \<noteq> StatNotExist))"
proof -
  let ?t = "\<lambda>p. stat p \<noteq> StatNotExist"
  have least: "\<exists>k \<le> n. resolveFilePath stat dir name = Some (candidate dir name k) \<and> \<not> ?t (candidate dir name k)
      \<and> (\<forall>j < k. ?t (candidate dir name j))" if "\<not> ?t (candidate dir name n)" for n
    using first_free_least [of ?t "candidate dir name" 0 n] that by (auto simp: resolveFilePath_def)
  show ?thesis
  proof
    assume r: "resolveFilePath stat dir name = Some path"
    then obtain n where "\<not> ?t (candidate dir name n)" using first_free_Some [of ?t "candidate dir name" 0 path] by (auto simp: resolveFilePath_def)
    from least [OF this] r show "\<exists>k. path = candidate dir name k \<and> stat (candidate dir name k) = StatNotExist
     \<and> (\<forall>j < k. stat (candidate dir name j) \<noteq> StatNotExist)" by auto
  next
    assume "\<exists>k. path = candidate dir name k \<and> stat (candidate dir name k) = StatNotExist
     \<and> (\<forall>j < k. stat (candidate dir name j) \<noteq> StatNotExist)"
    then obtain k where k: "path = candidate dir name k" "\<not> ?t (candidate dir name k)" "\<forall>j < k. ?t (candidate dir name j)" by auto
    from least [OF k(2)] obtain k2 where k2: "k2 \<le> k" "resolveFilePath stat dir name = Some (candidate dir name k2)"
      "\<not> ?t (candidate dir name k2)" by blast
    have "\<not> k2 < k" using k(3) k2(3) by blast
    with k2(1,2) k(1) show "resolveFilePath stat dir name = Some path" by simp
  qed
qed

lemma resolveFilePath_None:
  "resolveFilePath stat dir name = None \<longleftrightarrow> (\<forall>k. stat (candidate dir name k) \<noteq> StatNotExist)"
proof
  assume none: "resolveFilePath stat dir name = None"
  show "\<forall>k. stat (candidate dir name k) \<noteq> StatNotExist"
  proof (intro allI notI)
    fix k
    assume "stat (candidate dir name k) = StatNotExist"
    with first_free_least [of "\<lambda>p. stat p \<noteq> StatNotExist" "candidate dir name" 0 k] none
    show False by (auto simp: resolveFilePath_def)
  qed
next
  assume "\<forall>k. stat (candidate dir name k) \<noteq> StatNotExist"
  then show "resolveFilePath stat dir name = None"
    using resolveFilePath_first [of stat dir name] by (cases "resolveFilePath stat dir name") auto
qed

text \<open>C40: what the search for a collision-free file name comes to.  It returns the first candidate of which
  \<open>os.Stat\<close> says that it does not exist, so an upload never overwrites a file, and it never returns exactly
  when there is no such candidate.  With finitely many files and finitely many paths on which \<open>os.Stat\<close> fails
  otherwise, some numbered name is free and the search returns.  But where the file system refuses names
  over a limit (Linux refuses more than 255 bytes) a name over it is refused with every number, and that
  error is not \<open>os.IsNotExist\<close>: the search, and with it the upload, never ends.\<close>

theorem resolveFilePath_returns:
  fixes E :: env and w :: world and dir name :: string
  defines "found \<equiv> resolveFilePath (os_Stat E w dir) dir name"
    and "free \<equiv> \<lambda>k. os_Stat E w dir (candidate dir name k) = StatNotExist"
  shows "(\<forall>path. found = Some path \<longleftrightarrow> (\<exists>k. path = candidate dir name k \<and> free k \<and> (\<forall>j < k. \<not> free j)))
    \<and> (\<forall>path. found = Some path \<longrightarrow> files w path = None)
    \<and> (found = None \<longleftrightarrow> (\<forall>k. \<not> free k))
    \<and> (finite (dom (files w)) \<and> finite {p. e_stat E (tick w) p} \<longrightarrow> found \<noteq> None)
    \<and> (\<forall>limit \<ge> 2. (\<forall>p. limit < length (Base p) \<longrightarrow> e_stat E (tick w) p) \<and> limit < length name \<and> CHR ''/'' \<notin> set name
        \<longrightarrow> found = None)"
proof (intro conjI)
  show first: "\<forall>path. found = Some path \<longleftrightarrow> (\<exists>k. path = candidate dir name k \<and> free k \<and> (\<forall>j < k. \<not> free j))"
    unfolding found_def free_def resolveFilePath_first by blast
  show none: "found = None \<longleftrightarrow> (\<forall>k. \<not> free k)"
    unfolding found_def free_def resolveFilePath_None by blast
  show "\<forall>path. found = Some path \<longrightarrow> files w path = None"
    using first by (auto simp: free_def os_Stat_def split: if_splits)
  show "finite (dom (files w)) \<and> finite {p. e_stat E (tick w) p} \<longrightarrow> found \<noteq> None"
  proof (intro impI notI)
    assume f: "finite (dom (files w)) \<and> finite {p. e_stat E (tick w) p}" and "found = None"
    with none have "candidate dir name ` {0<..} \<subseteq> dom (files w) \<union> {p. e_stat E (tick w) p} \<union> {JoinPath dir ''/'', JoinPath dir ''..''}"
      by (auto simp: free_def os_Stat_def split: if_splits)
    moreover have "inj_on (candidate dir name) {0<..}" by (auto intro!: inj_onI candidate_inj)
    ultimately show False using f infinite_Ioi [of "0 :: nat"]
      by (meson finite_Un finite.intros finite_subset finite_imageD)
  qed
  show "\<forall>limit \<ge> 2. (\<forall>p. limit < length (Base p) \<longrightarrow> e_stat E (tick w) p) \<and> limit < length name \<and> CHR ''/'' \<notin> set name
      \<longrightarrow> found = None"
  proof (intro allI impI)
    fix limit :: nat
    assume "2 \<le> limit" and a: "(\<forall>p. limit < length (Base p) \<longrightarrow> e_stat E (tick w) p) \<and> limit < length name \<and> CHR ''/'' \<notin> set name"
    then have "limit < length (Base (candidate dir name k))" for k
      using Base_candidate [of name dir k] by linarith
    with a have "e_stat E (tick w) (candidate dir name k)" for k by blast
    then show "found = None" unfolding none free_def by (simp add: os_Stat_def)
  qed
qed

text \<open>A world with two files, in an environment that refuses file names of more than 255 bytes.\<close>

theorem resolveFilePath_returns_witness:
  "resolveFilePath (os_Stat example_env (example_world\<lparr>files := [''/d/a.b'' \<mapsto> ''x'', ''/d/a_1.b'' \<mapsto> ''y'']\<rparr>) ''/d'') ''/d'' ''a.b'' \<noteq> None
   \<and> resolveFilePath (os_Stat (example_env\<lparr>e_stat := \<lambda>_ p. 255 < length (Base p)\<rparr>) example_world ''/d'') ''/d'' (replicate 256 CHR ''n'') = None"
proof -
  let ?w = "example_world\<lparr>files := [''/d/a.b'' \<mapsto> ''x'', ''/d/a_1.b'' \<mapsto> ''y'']\<rparr>"
  let ?E = "example_env\<lparr>e_stat := \<lambda>_ p. 255 < length (Base p)\<rparr>"
  have "finite (dom (files ?w)) \<and> finite {p. e_stat example_env (tick ?w) p}" by (simp add: example_env_def)
  with resolveFilePath_returns [where E = example_env and w = ?w and dir = "''/d''" and name = "''a.b''"]
  have returns: "resolveFilePath (os_Stat example_env ?w ''/d'') ''/d'' ''a.b'' \<noteq> None" by argo
  have "(2 :: nat) \<le> 255 \<and> (\<forall>p. 255 < length (Base p) \<longrightarrow> e_stat ?E (tick example_world) p)
      \<and> 255 < length (replicate 256 CHR ''n'') \<and> CHR ''/'' \<notin> set (replicate 256 CHR ''n'')"
    by (auto dest: in_set_replicate [THEN iffD1])
  with resolveFilePath_returns [where E = ?E and w = example_world and dir = "''/d''" and name = "replicate 256 CHR ''n''"]
  have "resolveFilePath (os_Stat ?E example_world ''/d'') ''/d'' (replicate 256 CHR ''n'') = None" by blast
  with returns show ?thesis by blast
qed

subsection \<open>Uploading\<close>

lemma write_upload_Inr:
  assumes "write_upload E path content w = (Inr n, w1)" and "0 \<le> MaxAttachSize E"
  shows "files w path = None \<and> n = int (length content) \<and> n \<le> MaxAttachSize E \<and> files w1 = (files w)(path \<mapsto> content)
    \<and> db w1 = db w \<and> on_commit w1 = on_commit w \<and> on_rollback w1 = on_rollback w"
proof -
  let ?c = "take (nat (MaxAttachSize E + 1)) content"
  from assms(1) have f: "files w path = None" "n = int (length ?c)" "n \<le> MaxAttachSize E"
    "w1 = w\<lparr>tick := Suc (Suc (tick w)), files := (files w)(path \<mapsto> ?c)\<rparr>"
    by (auto simp: write_upload_def Let_def bind_def create_file_def io_step_def unless_def ret_def throw_def remove_file_def
        split: if_splits)
  have "length content \<le> nat (MaxAttachSize E + 1)" using f(2,3) assms(2) by (simp add: min_def split: if_splits)
  then have "?c = content" by simp
  with f show ?thesis by simp
qed

lemma or_remove_Inr: "or_remove E path m w = (Inr a, w1) \<longleftrightarrow> m w = (Inr a, w1)"
  by (auto simp: or_remove_def bind_def attempt_def remove_file_def throw_def ret_def split: prod.splits sum.splits)

lemma record_upload_Inr:
  assumes "record_upload E i name written path w = (Inr u, w1)"
  shows "\<exists>t. stored_size (db w) i = Some t \<and> wrap64 (t + written) \<le> MaxMsgSize E \<and> files w1 = files w
    \<and> db w1 = put_attachment E i name written path (db w) \<and> on_commit w1 = on_commit w \<and> on_rollback w1 = on_rollback w"
  using assms by (auto simp: record_upload_def run_Inr sql_query_Inr sql_exec_Inr)

lemma put_attachment_sizes:
  assumes "\<forall>a \<in> set (att_rows d i). 0 \<le> at_size a" and "0 \<le> n"
  shows "sum_list (map at_size (att_rows (put_attachment E i name n path d) i)) \<le> sum_list (map at_size (att_rows d i)) + n
    \<or> \<not> distinct (map at_filename (att_rows d i))"
proof (cases "list_ex (\<lambda>a. at_filename a = name) (att_rows d i)")
  case True
  have rows: "att_rows (put_attachment E i name n path d) i
      = update_where (\<lambda>a. at_filename a = name) (\<lambda>a. a\<lparr>at_size := n, at_path := path\<rparr>) (att_rows d i)"
    using True by (simp add: put_attachment_def att_rows_def filter_update_where) (auto simp: update_where_def)
  have main: "sum_list (map at_size (update_where (\<lambda>a. at_filename a = name) (\<lambda>a. a\<lparr>at_size := n, at_path := path\<rparr>) rs))
      \<le> sum_list (map at_size rs) + (if list_ex (\<lambda>a. at_filename a = name) rs then n else 0)"
    if "distinct (map at_filename rs)" "\<forall>a \<in> set rs. 0 \<le> at_size a" for rs :: "att_row list"
    using that
  proof (induction rs)
    case (Cons a rs)
    then show ?case
    proof (cases "at_filename a = name")
      case True
      with Cons.prems have "at_filename x \<noteq> name" if "x \<in> set rs" for x
        using that by (metis distinct.simps(2) imageI list.set_map list.simps(9))
      then have "update_where (\<lambda>a. at_filename a = name) (\<lambda>a. a\<lparr>at_size := n, at_path := path\<rparr>) rs = rs"
        by (rule update_where_none)
      with Cons.prems True show ?thesis by (simp add: update_where_def)
    qed (auto simp: update_where_def)
  qed (simp add: update_where_def)
  from main [of "att_rows d i"] rows assms(1) True show ?thesis by (cases "distinct (map at_filename (att_rows d i))") simp_all
next
  case False
  then show ?thesis by (auto simp: put_attachment_def att_rows_def split: prod.splits)
qed

text \<open>C24: an upload goes only to the caller's own draft and stays within the limits.  A successful one stores
  the whole content in a new file, overwriting none, under the limit of an attachment; the message's body
  and attachments together stay under the limit of a message.  Nothing else of the tables changes.\<close>

theorem Upload_spec:
  assumes "Upload E identity param (Some (filename, content)) w = (Inr resp, w1)"
    and "0 \<le> MaxAttachSize E" and "MaxAttachSize E < 2 ^ 62"
    and "\<And>i t. stored_size (db w) i = Some t \<Longrightarrow> t < 2 ^ 62"
    and "\<forall>a \<in> set (atts (db w)). 0 \<le> at_size a"
    and "\<And>i. distinct (map at_filename (att_rows (db w) i))"
  shows "\<exists>i w0 m path. resolveID E param w = (Inr i, w0) \<and> find_msg (db w) i = Some m \<and> m_from m = identity \<and> m_time m = None
    \<and> files w path = None \<and> files w1 = (files w)(path \<mapsto> content) \<and> on_rollback w1 = on_rollback w0 @ [path]
    \<and> int (length content) \<le> MaxAttachSize E
    \<and> db w1 = put_attachment E i (Base filename) (int (length content)) path (db w)
    \<and> m_size m + sum_list (map at_size (att_rows (db w1) i)) \<le> MaxMsgSize E"
proof -
  from assms(1) [unfolded Upload_def run_Inr option.case prod.case]
  obtain i w0 m w2 where r: "resolveID E param w = (Inr i, w0)"
    and m: "require_row ''failed to retrieve message'' (sql_query E (\<lambda>d. find_msg d i)) w0 = (Inr m, w2)"
    and own: "m_from m = identity" "m_time m = None"
    and save: "save_upload E (m_from m) i (Base filename) content w2 = (Inr resp, w1)" by blast
  have w2: "find_msg (db w) i = Some m" "db w2 = db w" "files w2 = files w" "on_rollback w2 = on_rollback w0"
    using m same_db [OF keeps_resolveID r] resolveID_state [of E param w] r by (auto simp: require_row_query_Inr)
  from save [unfolded save_upload_def Let_def run_Inr option.case or_remove_Inr] obtain w3 path n w4 w5 u where
    io: "io_step E w2 = (Inr True :: response + bool, w3)"
    and path: "resolveFilePath (os_Stat E w3 (msgDataDir (DataDir E) (m_from m) i)) (msgDataDir (DataDir E) (m_from m) i) (Base filename) = Some path"
    and wr: "write_upload E path content w3 = (Inr n, w4)"
    and rec: "record_upload E i (Base filename) n path (w4\<lparr>on_rollback := on_rollback w4 @ [path]\<rparr>) = (Inr u, w5)"
    and fin: "ret (201, JObj [(''filename'', JStr (Base filename)), (''size'', JInt n)]) w5 = (Inr resp :: response + response, w1)"
    by (auto simp: add_rollback_def)
  have w3: "db w3 = db w" "files w3 = files w" "on_rollback w3 = on_rollback w0"
    using io w2 by (auto simp: io_step_def)
  note wr1 = write_upload_Inr [OF wr assms(2)]
  from record_upload_Inr [OF rec] obtain t where t: "stored_size (db w4) i = Some t" "wrap64 (t + n) \<le> MaxMsgSize E"
    "files w5 = files w4" "db w5 = put_attachment E i (Base filename) n path (db w4)" "on_rollback w5 = on_rollback w4 @ [path]"
    by auto
  have t1: "stored_size (db w) i = Some t" "t = m_size m + sum_list (map at_size (att_rows (db w) i))" "- (2 ^ 63) \<le> t"
    using t(1) wr1 w3 w2(1) by (auto simp: stored_size_def Let_def split: if_splits)
  have "wrap64 (t + n) = t + n" using t1(3) assms(3) assms(4) [OF t1(1)] wr1 by (intro wrap64_id) auto
  moreover have "sum_list (map at_size (att_rows (put_attachment E i (Base filename) n path (db w)) i))
      \<le> sum_list (map at_size (att_rows (db w) i)) + n"
    using put_attachment_sizes [of "db w" i n E "Base filename" path] assms(5,6) wr1 by (auto simp: att_rows_def)
  ultimately have "m_size m + sum_list (map at_size (att_rows (db w1) i)) \<le> MaxMsgSize E"
    using t t1 wr1 w3 fin by (auto simp: ret_eq)
  with r w2 own wr1 w3 t fin show ?thesis by (intro exI [of _ i] exI [of _ w0] exI [of _ m] exI [of _ path]) (auto simp: ret_eq)
qed

definition draft_world :: world where
  "draft_world = example_world\<lparr>db := empty_db\<lparr>msgs := [new_message 1 None None False False False ''@al@ex.org'' [] ''text/plain'' 5 7]\<rparr>\<rparr>"

theorem Upload_spec_witness:
  "fst (Upload example_env ''@al@ex.org'' ''7'' (Some (''a/b.txt'', ''hello'')) draft_world)
      = Inr (201, JObj [(''filename'', JStr ''b.txt''), (''size'', JInt 5)])
   \<and> 5 + sum_list (map at_size (att_rows (db (snd (Upload example_env ''@al@ex.org'' ''7''
        (Some (''a/b.txt'', ''hello'')) draft_world))) 7)) \<le> MaxMsgSize example_env"
proof -
  let ?r = "Upload example_env ''@al@ex.org'' ''7'' (Some (''a/b.txt'', ''hello'')) draft_world"
  have out: "fst ?r = Inr (201, JObj [(''filename'', JStr ''b.txt''), (''size'', JInt 5)])" by code_simp
  then have run: "?r = (Inr (201, JObj [(''filename'', JStr ''b.txt''), (''size'', JInt 5)]), snd ?r)" by (metis prod.collapse)
  have "fst (resolveID example_env ''7'' draft_world) = Inr 7" by code_simp
  moreover have "find_msg (db draft_world) 7 = Some (msgs (db draft_world) ! 0)" by (simp add: draft_world_def find_msg_def new_message_def)
  moreover have "m_size (msgs (db draft_world) ! 0) = 5" by (simp add: draft_world_def new_message_def)
  moreover have "MaxAttachSize example_env = 1000" by (simp add: example_env_def)
  moreover have "t < 2 ^ 62" if "stored_size (db draft_world) i = Some t" for i t
    using that by (auto simp: draft_world_def stored_size_def find_msg_def att_rows_def new_message_def empty_db_def split: if_splits)
  moreover have "atts (db draft_world) = []" by (simp add: draft_world_def empty_db_def)
  ultimately have "5 + sum_list (map at_size (att_rows (db (snd ?r)) 7)) \<le> MaxMsgSize example_env"
    using Upload_spec [OF run] by (auto simp: att_rows_def)
  with out show ?thesis by simp
qed

subsection \<open>Downloading\<close>

lemma Split_Join: "ps \<noteq> [] \<Longrightarrow> \<forall>p \<in> set ps. c \<notin> set p \<Longrightarrow> Split c (Join ps [c]) = ps"
  by (induction ps "[c]" rule: Join.induct) (simp_all add: Split_no_sep Split_append_sep)

lemma clean_parts_from: "set (clean_parts r st ps) \<subseteq> set st \<union> set ps \<union> {''..''}"
  by (induction r st ps rule: clean_parts.induct) (auto split: list.splits if_splits)

lemma clean_parts_nonempty: "[] \<notin> set st \<Longrightarrow> [] \<notin> set (clean_parts r st ps)"
  by (induction r st ps rule: clean_parts.induct) (auto split: list.splits)

lemma Clean_relative: "\<not> HasPrefix p ''/'' \<Longrightarrow> \<not> HasPrefix (Clean p) ''/''"
proof -
  assume rel: "\<not> HasPrefix p ''/''"
  let ?ps = "clean_parts False [] (Split CHR ''/'' p)"
  show ?thesis
  proof (cases ?ps)
    case Nil
    with rel show ?thesis by (simp add: Clean_def HasPrefix_def)
  next
    case (Cons q qs)
    then have "q \<in> set ?ps" by simp
    then have q: "q \<noteq> []" "CHR ''/'' \<notin> set q"
      using clean_parts_nonempty [of "[]" False "Split CHR ''/'' p"] clean_parts_from [of False "[]" "Split CHR ''/'' p"]
        Split_parts_no_sep [of q "CHR ''/''" p] by auto
    then have "hd q \<noteq> CHR ''/''" by (cases q) auto
    with Cons rel q show ?thesis by (cases q; cases qs) (auto simp: Clean_def HasPrefix_def Let_def)
  qed
qed

lemma Clean_no_dots: "HasPrefix (Clean p) ''/'' \<Longrightarrow> ''..'' \<notin> set (Split CHR ''/'' (Clean p))"
proof -
  assume "HasPrefix (Clean p) ''/''"
  with Clean_relative have r: "HasPrefix p ''/''" by blast
  let ?ps = "clean_parts True [] (Split CHR ''/'' p)"
  have no: "\<forall>q \<in> set ?ps. CHR ''/'' \<notin> set q"
    using clean_parts_from [of True "[]" "Split CHR ''/'' p"] Split_parts_no_sep [of _ "CHR ''/''" p] by auto
  have "set (Split CHR ''/'' (Clean p)) \<subseteq> {[]} \<union> set ?ps"
    using Split_Join [OF _ no] r by (cases "?ps = []") (auto simp: Clean_def)
  with clean_parts_rooted [of "[]" "Split CHR ''/'' p"] show ?thesis by auto
qed

lemma purgedFor_Inr:
  "purgedFor E a i w = (Inr b, w1) \<Longrightarrow> \<not> aborted w \<Longrightarrow> db w1 = db w \<and> aborted w1 = (intx w \<and> e_fail E (tick w))
     \<and> b = (\<not> e_fail E (tick w) \<and> fmsg_api_trash_state (db w) (ToLower a) i = Some Purged)"
  using trash_shortcut [of "db w" "ToLower a" i]
  by (auto simp: purgedFor_def trashStateQ_def act_defs Let_def split: if_splits)

text \<open>C25: an attachment is served only to those who may read its message, and only from the data directory:
  the caller sent the message, or it is sent and they are a recipient; the file is the one stored for that
  name, and lies below the data directory with no \<open>..\<close> left in its path.  This holds whatever fails.  A
  message that the caller deleted for good serves no attachment either, unless the one statement that looks
  that up failed: \<open>purgedFor\<close> logs such an error and goes on as if nothing had been deleted.\<close>

theorem Download_access:
  assumes "Download E identity param file_param w = (Inr path, w1)"
    and "HasPrefix (DataDir E) ''/''"
  shows "\<exists>i w0 m a. resolveID E param w = (Inr i, w0) \<and> find_msg (db w) i = Some m
    \<and> (m_from m = identity \<or> (m_time m \<noteq> None \<or> sameAddr (m_from m) identity)
        \<and> (isRecipient (map t_addr (to_rows (db w) i)) identity \<or> isRecipient (map a_addr (addto_rows (db w) i)) identity))
    \<and> (fmsg_api_trash_state (db w) (ToLower identity) i = Some Purged \<longrightarrow> e_fail E (Suc (tick w0)))
    \<and> find_att (db w) i (Base file_param) = Some a \<and> path = Clean (at_path a)
    \<and> (\<exists>rest. path = Clean (DataDir E) @ ''/'' @ rest) \<and> ''..'' \<notin> set (Split CHR ''/'' path)"
proof -
  from assms(1) [unfolded Download_def Let_def run_Inr]
  obtain i w0 m w2 w3 w4 a w5 where r: "resolveID E param w = (Inr i, w0)"
    and m: "require_row ''failed to retrieve message'' (sql_query E (\<lambda>d. find_msg d i)) w0 = (Inr m, w2)"
    and h: "(if draftHidden [identity] (m_from m) (m_time m) then ret True else purgedFor E identity i) w2 = (Inr False, w3)"
    and acc: "(if m_from m = identity then ret () else bind (sql_query E (\<lambda>d. access_rows d i (ToLower identity))) (\<lambda>q. case q of
            Inl _ \<Rightarrow> throw (err 403 ''access denied'')
          | Inr n \<Rightarrow> unless (n \<noteq> 0) (err 403 ''access denied''))) w3 = (Inr () :: response + unit, w4)"
    and a: "require_att E i (Base file_param) w4 = (Inr a, w5)"
    and ins: "inside_data_dir E (Clean (at_path a))" and p: "ret (Clean (at_path a)) w5 = (Inr path :: response + string, w1)"
    by auto
  have d2: "db w2 = db w" "find_msg (db w) i = Some m" "\<not> aborted w2" "tick w2 = Suc (tick w0)"
    using m same_db [OF keeps_resolveID r] by (auto simp: require_row_query_Inr)
  from h have hid: "\<not> draftHidden [identity] (m_from m) (m_time m)" and pf: "purgedFor E identity i w2 = (Inr False, w3)"
    by (auto simp: ret_eq split: if_splits)
  note look = purgedFor_Inr [OF pf d2(3), unfolded d2]
  from acc have ac: "m_from m = identity \<or> access_rows (db w3) i (ToLower identity) \<noteq> 0" "db w4 = db w3"
    by (auto simp: ret_eq bind_Inr sql_query_def stmt_def Let_def unless_Inr throw_eq split: if_splits sum.splits)
  from a have at: "find_att (db w4) i (Base file_param) = Some a"
    by (auto simp: require_att_def run_Inr sql_query_Inr ret_eq)
  from ins obtain rest where rest: "Clean (at_path a) = Clean (DataDir E) @ ''/'' @ rest"
    by (auto simp: inside_data_dir_def HasPrefix_iff)
  from assms(2) have "HasPrefix (Clean (DataDir E)) ''/''" by (simp add: Clean_def HasPrefix_def)
  with rest have "HasPrefix (Clean (at_path a)) ''/''" by (cases "Clean (DataDir E)") (auto simp: HasPrefix_def)
  note dots = Clean_no_dots [OF this]
  have who: "m_from m = identity \<or> isRecipient (map t_addr (to_rows (db w) i)) identity
      \<or> isRecipient (map a_addr (addto_rows (db w) i)) identity"
    using ac(1) look access_rows_pos [of "db w" i identity] by auto
  have "m_time m \<noteq> None \<or> sameAddr (m_from m) identity"
    using hid by (auto simp: draftHidden_def isRecipient_iff sameAddr_iff_lower)
  with dots who rest p r d2 look ac at show ?thesis
    by (intro exI [of _ i] exI [of _ w0] exI [of _ m] exI [of _ a]) (auto simp: ret_eq)
qed

definition att_world :: world where
  "att_world = draft_world\<lparr>db := (db draft_world)\<lparr>atts := [\<lparr>at_msg = 7, at_position = 0, at_type = [],
     at_filename = ''b.txt'', at_size = 5, at_flags = 0, at_path = ''/d/ex.org/./b.txt''\<rparr>]\<rparr>\<rparr>"

theorem Download_access_witness:
  "fst (Download example_env ''@al@ex.org'' ''7'' ''b.txt'' att_world) = Inr ''/d/ex.org/b.txt''
   \<and> ''..'' \<notin> set (Split CHR ''/'' ''/d/ex.org/b.txt'')"
proof -
  let ?r = "Download example_env ''@al@ex.org'' ''7'' ''b.txt'' att_world"
  have out: "fst ?r = Inr ''/d/ex.org/b.txt''" by code_simp
  then have run: "?r = (Inr ''/d/ex.org/b.txt'', snd ?r)" by (metis prod.collapse)
  have "HasPrefix (DataDir example_env) ''/''" by (simp add: example_env_def HasPrefix_def)
  from Download_access [OF run this] out show ?thesis by blast
qed

end
