(* ===== verification/Thread.thy ===== *)
theory Thread
  imports Attachments "HOL-Library.List_Lexorder" "HOL-Library.Char_ord"
begin

text \<open>
  Threads (\<open>src/internal/handlers/thread.go\<close>): the direct lineage of a message, from the root of its
  thread down to the message itself, as plain text (\<open>ThreadText\<close>) and as structured messages with their
  bodies (\<open>ThreadMessages\<close>).  The walk up the parents is bounded by \<open>threadMaxHops\<close>.
\<close>

subsection \<open>Times as text\<close>

text \<open>\<open>time.Unix(sec, 0).UTC().Format(time.RFC3339)\<close>, with the date from the day number in the proleptic
  Gregorian calendar (eras of 400 years that begin in March).\<close>

definition pad :: "nat \<Rightarrow> int \<Rightarrow> string" where
  "pad n i = (let ds = nat_digits (nat \<bar>i\<bar>) in (if i < 0 then ''-'' else []) @ replicate (n - length ds) CHR ''0'' @ ds)"

definition civil :: "int \<Rightarrow> int \<times> int \<times> int" where
  "civil days = (let z = days + 719468; era = z div 146097; doe = z mod 146097;
     yoe = (doe - doe div 1460 + doe div 36524 - doe div 146096) div 365;
     doy = doe - (365 * yoe + yoe div 4 - yoe div 100);
     mp = (5 * doy + 2) div 153;
     day = doy - (153 * mp + 2) div 5 + 1;
     month = (if mp < 10 then mp + 3 else mp - 9)
   in (yoe + era * 400 + (if month \<le> 2 then 1 else 0), month, day))"

definition format_rfc3339 :: "int \<Rightarrow> string" where
  "format_rfc3339 sec = (case civil (sec div 86400) of (y, m, d) \<Rightarrow> let s = sec mod 86400 in
     pad 4 y @ ''-'' @ pad 2 m @ ''-'' @ pad 2 d @ ''T'' @ pad 2 (s div 3600) @ '':'' @ pad 2 (s div 60 mod 60)
       @ '':'' @ pad 2 (s mod 60) @ ''Z'')"

text \<open>\<open>int64\<close> of a number of seconds truncates towards zero.\<close>

definition seconds_of :: "time \<Rightarrow> int" where
  "seconds_of t = (if 0 \<le> t then t div 1000000 else - ((- t) div 1000000))"

subsection \<open>Data\<close>

definition threadMaxHops :: nat where
  "threadMaxHops = 100"

definition defaultThreadTextBytes :: int where
  "defaultThreadTextBytes = 32 * 2 ^ 20"

record threadBody =
  TbType :: string
  TbSize :: int
  TbText :: "string option"
  TbDownload :: string
  TbCacheKey :: string
  TbCacheable :: bool

record threadAttachment =
  TaPosition :: int
  TaType :: string
  TaFilename :: string
  TaSize :: int
  TaDownload :: string
  TaCacheKey :: string
  TaCacheable :: bool

record threadMessage =
  TmSHA256 :: "string option"
  TmPSHA256 :: "string option"
  TmID :: int
  Visible :: bool
  TmVersion :: int
  TmPID :: "int option"
  TmNoReply :: bool
  TmImportant :: bool
  TmDeflate :: bool
  TmTerminal :: bool
  TmFrom :: string
  TmTo :: "string list"
  TmAddTo :: "AddToBatch list"
  TmTime :: "time option"
  TmTopic :: string
  TmType :: string
  TmSize :: int
  MessageSHA256 :: string
  TmTrash :: "string option"
  Body :: "threadBody option"
  TmAttachments :: "threadAttachment list"
  TmPath :: string

record threadMessagesResponse =
  RootID :: int
  TriggerID :: int
  Complete :: bool
  ThreadMsgs :: "threadMessage list"

text \<open>A message of the thread the caller may not see: only its id, every other field at its zero value.\<close>

definition hidden_message :: "int \<Rightarrow> threadMessage" where
  "hidden_message i = \<lparr>TmSHA256 = None, TmPSHA256 = None, TmID = i, Visible = False, TmVersion = 0, TmPID = None,
     TmNoReply = False, TmImportant = False, TmDeflate = False, TmTerminal = False, TmFrom = [], TmTo = [], TmAddTo = [],
     TmTime = None, TmTopic = [], TmType = [], TmSize = 0, MessageSHA256 = [], TmTrash = None, Body = None,
     TmAttachments = [], TmPath = []\<rparr>"

record threadEntry =
  TeID :: int
  TeFrom :: string
  TimeSent :: "time option"
  TeType :: string
  TeSize :: int
  TeBody :: string
  Readable :: bool
  Text :: bool

subsection \<open>The lineage\<close>

text \<open>A message and its ancestors, at most \<open>n\<close> steps up, the message first.\<close>

fun lineage :: "database \<Rightarrow> nat \<Rightarrow> int \<Rightarrow> msg_row list" where
  "lineage d 0 i = opt_list (find_msg d i)"
| "lineage d (Suc n) i = (case find_msg d i of None \<Rightarrow> []
     | Some m \<Rightarrow> m # (case m_pid m of None \<Rightarrow> [] | Some p \<Rightarrow> lineage d n p))"

definition participant_row :: "database \<Rightarrow> string \<Rightarrow> msg_row \<Rightarrow> bool" where
  "participant_row d addr m \<longleftrightarrow> ToLower (m_from m) = addr \<or> m_time m \<noteq> None \<and> receives d addr (m_id m)"

definition readable :: "database \<Rightarrow> string \<Rightarrow> bool \<Rightarrow> msg_row \<Rightarrow> bool" where
  "readable d addr has m \<longleftrightarrow> participant_row d addr m
     \<and> (\<not> has \<or> fmsg_api_trash_state d addr (m_id m) \<noteq> Some Purged)"

definition isTextType :: "string \<Rightarrow> bool" where
  "isTextType mimeType = (let t = ToLower (TrimSpace (hd (SplitN2 mimeType CHR '';''))) in
     HasPrefix t ''text/'' \<or> t = ''application/json'' \<or> HasSuffix t ''+json'')"

definition thread_state :: "env \<Rightarrow> string \<Rightarrow> string \<Rightarrow> (response, int \<times> bool) act" where
  "thread_state E addr param =
     bind (resolveID E param) (\<lambda>i.
     bind (or_fail (hasTrash E addr) (err 500 ''failed to retrieve thread'')) (\<lambda>has.
     bind (if has then purgedFor E addr i else ret False) (\<lambda>hidden.
     bind (unless (\<not> hidden) not_found) (\<lambda>_. ret (i, has)))))"

subsection \<open>The text of a thread\<close>

definition entry_text :: "threadEntry \<Rightarrow> string" where
  "entry_text e = (if \<not> Readable e then ''--- hidden ---'' @ [CHR 10] @ ''[message not visible to you]''
     else ''--- '' @ TeFrom e @ '' '' @ (case TimeSent e of None \<Rightarrow> ''draft'' | Some t \<Rightarrow> format_rfc3339 (seconds_of t))
       @ '' ---'' @ [CHR 10]
       @ (if \<not> Text e then ''[non-text message: '' @ TeType e @ '', '' @ Itoa (TeSize e) @ '' bytes]''
          else TrimRightChar (CHR 10) (TeBody e)))"

definition renderThreadText :: "threadEntry list \<Rightarrow> string" where
  "renderThreadText es = Join (map entry_text es) [CHR 10, CHR 10] @ [CHR 10]"

definition entry_of :: "database \<Rightarrow> string \<Rightarrow> bool \<Rightarrow> msg_row \<Rightarrow> threadEntry \<times> string" where
  "entry_of d addr has m = (\<lparr>TeID = m_id m, TeFrom = m_from m, TimeSent = m_time m, TeType = m_type m, TeSize = m_size m,
     TeBody = [], Readable = readable d addr has m, Text = False\<rparr>, m_path m)"

definition load_entry :: "env \<Rightarrow> (string \<rightharpoonup> string) \<Rightarrow> threadEntry \<times> string \<Rightarrow> threadEntry" where
  "load_entry E stored ep = (case ep of (e, path) \<Rightarrow>
     if \<not> Readable e \<or> \<not> isTextType (TeType e) \<or> path = [] then e
     else (case safeDataPath (e_cwd E) path (DataDir E) of None \<Rightarrow> e
      | Some p \<Rightarrow> (case stored p of None \<Rightarrow> e | Some content \<Rightarrow> e\<lparr>TeBody := content, Text := True\<rparr>)))"

definition ThreadText :: "env \<Rightarrow> string \<Rightarrow> string \<Rightarrow> (response, string) act" where
  "ThreadText E identity param = (let addr = hd (visibleAddrs identity) in
     bind (thread_state E addr param) (\<lambda>(i, has).
     bind (or_fail (sql_query E (\<lambda>d. map (entry_of d addr has) (rev (lineage d threadMaxHops i))))
        (err 500 ''failed to retrieve thread'')) (\<lambda>entries.
     bind (unless (entries \<noteq> []) not_found) (\<lambda>_.
     bind (unless (Readable (fst (last entries)))
        (if TimeSent (fst (last entries)) = None then not_found else err 403 ''access denied'')) (\<lambda>_.
     bind get_world (\<lambda>w. ret (renderThreadText (map (load_entry E (files w)) entries))))))))"

subsection \<open>The messages of a thread\<close>

definition partCacheKey :: "env \<Rightarrow> string \<Rightarrow> bool \<Rightarrow> int \<Rightarrow> string \<Rightarrow> string" where
  "partCacheKey E messageHash body position filename = (if messageHash = [] then []
     else if body then ''sha256:'' @ messageHash @ '':body''
     else ''sha256:'' @ messageHash @ '':attachment:'' @ Itoa position @ '':'' @ e_escape E filename)"

definition threadDownloadPath :: "env \<Rightarrow> int \<Rightarrow> string \<Rightarrow> string" where
  "threadDownloadPath E i filename = (if filename = [] then ''/fmsg/'' @ Itoa i @ ''/data''
     else ''/fmsg/'' @ Itoa i @ ''/attach/'' @ e_escape E filename)"

text \<open>The body of one visible message: its text when it is a text type that is valid UTF-8.  The result is
  the error message, or the bytes of text so far and the message.\<close>

definition body_of :: "env \<Rightarrow> threadMessage \<Rightarrow> threadBody" where
  "body_of E m = (let key = partCacheKey E (MessageSHA256 m) True 0 [] in
     \<lparr>TbType = TmType m, TbSize = TmSize m, TbText = None, TbDownload = threadDownloadPath E (TmID m) [],
      TbCacheKey = key, TbCacheable = (key \<noteq> [])\<rparr>)"

fun populateThreadBodies :: "env \<Rightarrow> (string \<rightharpoonup> string) \<Rightarrow> int \<Rightarrow> int \<Rightarrow> threadMessage list \<Rightarrow> string + threadMessage list" where
  "populateThreadBodies E stored maxTextBytes textBytes [] = Inr []"
| "populateThreadBodies E stored maxTextBytes textBytes (m # ms) =
     (if \<not> Visible m then map_sum id ((#) m) (populateThreadBodies E stored maxTextBytes textBytes ms)
      else if \<not> isTextType (TmType m) then
        map_sum id ((#) (m\<lparr>Body := Some (body_of E m)\<rparr>)) (populateThreadBodies E stored maxTextBytes textBytes ms)
      else (let total = wrap64 (textBytes + TmSize m) in
        if maxTextBytes < total then Inl (''thread text exceeds '' @ Itoa maxTextBytes @ '' bytes'')
        else (case safeDataPath (e_cwd E) (TmPath m) (DataDir E) of
            None \<Rightarrow> Inl (''message '' @ Itoa (TmID m) @ '' has an invalid data path'')
          | Some p \<Rightarrow> (case stored p of
              None \<Rightarrow> Inl (''read message '' @ Itoa (TmID m) @ '' body: open '' @ p @ '': no such file or directory'')
            | Some raw \<Rightarrow> map_sum id ((#) (m\<lparr>Body := Some (if utf8_valid raw
                  then (body_of E m)\<lparr>TbText := Some raw, TbDownload := []\<rparr> else body_of E m)\<rparr>))
                (populateThreadBodies E stored maxTextBytes total ms)))))"

definition chain_message :: "database \<Rightarrow> string \<Rightarrow> bool \<Rightarrow> msg_row \<Rightarrow> threadMessage" where
  "chain_message d addr has m = (let hash = map_option hex_encode (m_sha256 m);
       state = (if has then fmsg_api_trash_state d addr (m_id m) else None);
       visible = (participant_row d addr m \<and> state \<noteq> Some Purged) in
     (hidden_message (m_id m))\<lparr>TmSHA256 := hash, TmPSHA256 := map_option hex_encode (m_psha256 m), Visible := visible,
       TmVersion := m_version m, TmPID := m_pid m, TmNoReply := m_no_reply m, TmImportant := m_important m,
       TmDeflate := m_deflate m, TmTerminal := m_terminal m, TmFrom := m_from m, TmTime := m_time m,
       TmTopic := m_topic m, TmType := m_type m, TmSize := m_size m,
       MessageSHA256 := (case hash of None \<Rightarrow> [] | Some h \<Rightarrow> h),
       TmTrash := (if visible then map_option trash_text state else None), TmPath := m_path m\<rparr>)"

text \<open>The recipients, add-to batches and attachments of the visible messages, with three queries.\<close>

definition thread_batch :: "database \<Rightarrow> batch_row \<Rightarrow> AddToBatch" where
  "thread_batch d b = (batch_of d b)\<lparr>BatchToDelivery := []\<rparr>"

definition thread_attachment :: "env \<Rightarrow> threadMessage \<Rightarrow> att_row \<Rightarrow> threadAttachment" where
  "thread_attachment E m a = (let key = partCacheKey E (MessageSHA256 m) False (at_position a) (at_filename a) in
     \<lparr>TaPosition = at_position a, TaType = at_type a, TaFilename = at_filename a, TaSize = at_size a,
      TaDownload = threadDownloadPath E (TmID m) (at_filename a), TaCacheKey = key, TaCacheable = (key \<noteq> [])\<rparr>)"

text \<open>By position, then by file name (in byte order; the database's collation may differ).\<close>

definition att_order :: "att_row list \<Rightarrow> att_row list" where
  "att_order as = sort_key at_position (sort_key at_filename as)"

definition relate :: "env \<Rightarrow> database \<Rightarrow> threadMessage \<Rightarrow> threadMessage" where
  "relate E d m = (if \<not> Visible m then m else m\<lparr>
     TmTo := map t_addr (sort_key t_id (to_rows d (TmID m))),
     TmAddTo := map (thread_batch d) (sort_key b_id (filter (\<lambda>b. b_msg b = TmID m) (batches d))),
     TmAttachments := map (thread_attachment E m) (att_order (att_rows d (TmID m)))\<rparr>)"

definition loadThreadRelations :: "env \<Rightarrow> threadMessage list \<Rightarrow> (response, threadMessage list) act" where
  "loadThreadRelations E ms = (let fail = err 500 ''failed to retrieve thread'' in
     if \<not> list_ex Visible ms then ret ms
     else bind (or_fail (sql_query E (\<lambda>_. ())) fail) (\<lambda>_.
          bind (or_fail (sql_query E (\<lambda>_. ())) fail) (\<lambda>_.
          or_fail (sql_query E (\<lambda>d. map (relate E d) ms)) fail)))"

definition thread_error :: "string \<Rightarrow> response" where
  "thread_error e = (if Contains e ''exceeds''
     then (413, JObj [(''error'', JStr e), (''code'', JStr ''thread_too_large'')])
     else (500, JObj [(''error'', JStr ''thread data is unavailable''), (''code'', JStr ''thread_data_unavailable'')]))"

definition ThreadMessages :: "env \<Rightarrow> string \<Rightarrow> string \<Rightarrow> (response, threadMessagesResponse) act" where
  "ThreadMessages E identity param = (let addr = hd (visibleAddrs identity); fail = err 500 ''failed to retrieve thread'' in
     bind (thread_state E addr param) (\<lambda>(i, has).
     bind (or_fail (sql_query E (\<lambda>_. ())) fail) (\<lambda>_.
     bind (or_fail (sql_query E (\<lambda>d. map (chain_message d addr has) (rev (lineage d (threadMaxHops - 1) i)))) fail) (\<lambda>ms.
     bind (unless (ms \<noteq> []) not_found) (\<lambda>_.
     bind (unless (Visible (last ms)) (if TmTime (last ms) = None then not_found else err 403 ''access denied'')) (\<lambda>_.
     bind (unless (\<not> (length ms = threadMaxHops \<and> TmPID (hd ms) \<noteq> None))
        (422, JObj [(''error'', JStr ''thread exceeds maximum ancestry''), (''code'', JStr ''thread_too_deep'')])) (\<lambda>_.
     bind (loadThreadRelations E ms) (\<lambda>ms1.
     bind (or_fail (sql_query E (\<lambda>_. ())) fail) (\<lambda>_.
     bind get_world (\<lambda>w.
     case populateThreadBodies E (files w) defaultThreadTextBytes 0 ms1 of
       Inl e \<Rightarrow> throw (thread_error e)
     | Inr ms2 \<Rightarrow> ret \<lparr>RootID = TmID (hd ms2), TriggerID = i, Complete = list_all Visible ms2,
         ThreadMsgs = map (\<lambda>m. if Visible m then m else hidden_message (TmID m)) ms2\<rparr>))))))))))"

subsection \<open>What is shown\<close>

lemma lineage_first: "lineage d n i \<noteq> [] \<longleftrightarrow> find_msg d i \<noteq> None" "lineage d n i \<noteq> [] \<Longrightarrow> m_id (hd (lineage d n i)) = i"
  by (cases n; auto simp: opt_list_def find_msg_def split: option.splits dest: find_Some_mem)+

lemma lineage_linked: "successively (\<lambda>a b. m_pid a = Some (m_id b)) (lineage d n i)"
proof (induction d n i rule: lineage.induct)
  case (1 d i)
  then show ?case by (simp add: opt_list_def split: option.splits)
next
  case (2 d n i)
  show ?case
  proof (cases "find_msg d i")
    case (Some m)
    show ?thesis
    proof (cases "m_pid m")
      case p: (Some p)
      from 2 [OF Some p] lineage_first(2) [of d n p] Some p show ?thesis
        by (cases "lineage d n p") auto
    qed (simp add: Some)
  qed simp
qed

text \<open>A lineage that is not cut off ends at a root.\<close>

lemma lineage_root:
  assumes "\<forall>m \<in> set (msgs d). \<forall>p. m_pid m = Some p \<longrightarrow> find_msg d p \<noteq> None" and "find_msg d i \<noteq> None"
    and "length (lineage d n i) \<le> n"
  shows "m_pid (last (lineage d n i)) = None"
  using assms
proof (induction d n i rule: lineage.induct)
  case (1 d i)
  then show ?case by (simp add: opt_list_def split: option.splits)
next
  case (2 d n i)
  then obtain m where m: "find_msg d i = Some m" by auto
  then have "m \<in> set (msgs d)" by (auto simp: find_msg_def dest: find_Some_mem)
  with 2 m lineage_first(1) [of d n] show ?case by (auto split: option.splits)
qed

lemma lineage_length: "length (lineage d n i) \<le> Suc n"
  by (induction d n i rule: lineage.induct) (auto simp: opt_list_def split: option.splits)

lemma populate_shape:
  "populateThreadBodies E stored mx t ms = Inr ms2 \<Longrightarrow>
     map (\<lambda>m. m\<lparr>Body := None\<rparr>) ms2 = map (\<lambda>m. m\<lparr>Body := None\<rparr>) ms"
  by (induction E stored mx t ms arbitrary: ms2 rule: populateThreadBodies.induct)
    (auto simp: Let_def map_sum_def split: if_splits option.splits sum.splits)

lemma relate_fields [simp]: "Visible (relate E d m) = Visible m" "TmID (relate E d m) = TmID m"
  "TmPID (relate E d m) = TmPID m" "TmFrom (relate E d m) = TmFrom m" "TmTime (relate E d m) = TmTime m"
  by (simp_all add: relate_def)

lemma loadThreadRelations_Inr:
  assumes "loadThreadRelations E ms w = (Inr ms1, w1)"
  shows "db w1 = db w \<and> length ms1 = length ms \<and> (\<forall>k < length ms. Visible (ms1 ! k) = Visible (ms ! k) \<and> TmID (ms1 ! k) = TmID (ms ! k)
    \<and> TmPID (ms1 ! k) = TmPID (ms ! k) \<and> TmFrom (ms1 ! k) = TmFrom (ms ! k) \<and> TmTime (ms1 ! k) = TmTime (ms ! k))"
  using assms by (auto simp: loadThreadRelations_def Let_def run_Inr sql_query_Inr ret_eq split: if_splits)

lemma chain_message_fields: "Visible (chain_message d addr (has_trash d addr) m) = readable d addr (has_trash d addr) m"
  "TmID (chain_message d addr has m) = m_id m" "TmPID (chain_message d addr has m) = m_pid m"
  "TmFrom (chain_message d addr has m) = m_from m" "TmTime (chain_message d addr has m) = m_time m"
  by (auto simp: chain_message_def readable_def Let_def hidden_message_def)

lemma thread_state_Inr:
  assumes "thread_state E addr param w = (Inr (i, has), w1)"
  shows "\<exists>w0. resolveID E param w = (Inr i, w0) \<and> has = has_trash (db w) (ToLower addr) \<and> db w1 = db w"
proof -
  from assms [unfolded thread_state_def run_Inr] obtain w0 w2 hid w3 where r: "resolveID E param w = (Inr i, w0)"
    and h: "hasTrash E addr w0 = (Inr (Inr has), w2)" and p: "(if has then purgedFor E addr i else ret False) w2 = (Inr hid, w3)"
    and w1: "w1 = w3" by (auto simp: ret_eq)
  have "db w3 = db w2" using p purgedFor_state by (auto simp: ret_eq split: if_splits)
  with r h w1 same_db [OF keeps_resolveID r] show ?thesis by (auto simp: hasTrash_def sql_query_Inr)
qed

text \<open>What a successful response is made of: the rows of the lineage, with nothing changed but the bodies and
  relations filled in, and the unreadable ones replaced.\<close>

lemma ThreadMessages_Inr:
  assumes "ThreadMessages E identity param w = (Inr resp, w1)"
  obtains i w0 ms2 where "resolveID E param w = (Inr i, w0)" and "lineage (db w) 99 i \<noteq> []"
    and "length ms2 = length (lineage (db w) 99 i)"
    and "\<forall>k < length (lineage (db w) 99 i).
      Visible (ms2 ! k) = readable (db w) (ToLower identity) (has_trash (db w) (ToLower identity)) (rev (lineage (db w) 99 i) ! k)
      \<and> TmID (ms2 ! k) = m_id (rev (lineage (db w) 99 i) ! k) \<and> TmFrom (ms2 ! k) = m_from (rev (lineage (db w) 99 i) ! k)"
    and "readable (db w) (ToLower identity) (has_trash (db w) (ToLower identity)) (hd (lineage (db w) 99 i))"
    and "length (lineage (db w) 99 i) = 100 \<longrightarrow> m_pid (last (lineage (db w) 99 i)) = None"
    and "resp = \<lparr>RootID = TmID (hd ms2), TriggerID = i, Complete = list_all Visible ms2,
         ThreadMsgs = map (\<lambda>m. if Visible m then m else hidden_message (TmID m)) ms2\<rparr>"
proof -
  let ?a = "ToLower identity"
  let ?has = "has_trash (db w) ?a"
  from assms [unfolded ThreadMessages_def Let_def run_Inr visible_own]
  obtain i has w2 ms w3 ms1 w4 w5 fl where st: "thread_state E ?a param w = (Inr (i, has), w2)"
    and ms: "ms = map (chain_message (db w2) ?a has) (rev (lineage (db w2) (threadMaxHops - 1) i))"
    and ne: "ms \<noteq> []" and vis: "Visible (last ms)" and deep: "\<not> (length ms = threadMaxHops \<and> TmPID (hd ms) \<noteq> None)"
    and rel: "loadThreadRelations E ms w3 = (Inr ms1, w4)"
    and fin: "(case populateThreadBodies E fl defaultThreadTextBytes 0 ms1 of
       Inl e \<Rightarrow> throw (thread_error e)
     | Inr ms2 \<Rightarrow> ret \<lparr>RootID = TmID (hd ms2), TriggerID = i, Complete = list_all Visible ms2,
         ThreadMsgs = map (\<lambda>m. if Visible m then m else hidden_message (TmID m)) ms2\<rparr>) w5 = (Inr resp :: response + threadMessagesResponse, w1)"
    by (auto simp: sql_query_Inr)
  from thread_state_Inr [OF st] obtain w0 where r: "resolveID E param w = (Inr i, w0)" and has: "has = ?has" "db w2 = db w" by auto
  let ?rows = "rev (lineage (db w) 99 i)"
  have ms': "ms = map (chain_message (db w) ?a ?has) ?rows" using ms has by (simp add: threadMaxHops_def)
  from fin obtain ms2 where pop: "populateThreadBodies E fl defaultThreadTextBytes 0 ms1 = Inr ms2"
    and resp: "resp = \<lparr>RootID = TmID (hd ms2), TriggerID = i, Complete = list_all Visible ms2,
         ThreadMsgs = map (\<lambda>m. if Visible m then m else hidden_message (TmID m)) ms2\<rparr>"
    by (auto simp: ret_eq throw_eq split: sum.splits)
  have len: "length ms2 = length ?rows" "length ms1 = length ?rows"
    using arg_cong [OF populate_shape [OF pop], of length] loadThreadRelations_Inr [OF rel] ms' by auto
  have nth: "Visible (ms2 ! k) = readable (db w) ?a ?has (?rows ! k) \<and> TmID (ms2 ! k) = m_id (?rows ! k)
      \<and> TmFrom (ms2 ! k) = m_from (?rows ! k)" if k: "k < length ?rows" for k
  proof -
    have "(ms2 ! k)\<lparr>Body := None\<rparr> = (ms1 ! k)\<lparr>Body := None\<rparr>"
      using arg_cong [OF populate_shape [OF pop], of "\<lambda>l. l ! k"] k len by simp
    from arg_cong [OF this, of Visible] arg_cong [OF this, of TmID] arg_cong [OF this, of TmFrom]
    show ?thesis using loadThreadRelations_Inr [OF rel] k len ms' by (simp add: chain_message_fields)
  qed
  have rne: "?rows \<noteq> []" using ne ms' by simp
  then have v: "readable (db w) ?a ?has (hd (lineage (db w) 99 i))"
    using vis ms' by (simp add: last_map chain_message_fields last_rev)
  have root: "m_pid (last (lineage (db w) 99 i)) = None" if "length (lineage (db w) 99 i) = 100"
    using that deep ms' rne by (simp add: threadMaxHops_def hd_map chain_message_fields hd_rev)
  show thesis by (rule that [OF r _ _ _ v _ resp]) (use rne len(1) nth root in simp_all)
qed

text \<open>C23: the thread is the whole lineage and hides what is not the caller's.  The messages returned are the
  requested one and its ancestors, each the parent of the next, from a root that has no parent; the
  requested one is readable by the caller; and of every message the caller may not read (it was not sent
  to them, is someone else's draft, or they purged it) nothing but the id is given.\<close>

theorem ThreadMessages_spec:
  assumes "ThreadMessages E identity param w = (Inr resp, w1)"
    and "\<forall>m \<in> set (msgs (db w)). \<forall>p. m_pid m = Some p \<longrightarrow> find_msg (db w) p \<noteq> None"
  shows "\<exists>i w0 rows. resolveID E param w = (Inr i, w0) \<and> rows = rev (lineage (db w) 99 i)
    \<and> rows \<noteq> [] \<and> successively (\<lambda>a b. m_pid b = Some (m_id a)) rows \<and> m_pid (hd rows) = None \<and> m_id (last rows) = i
    \<and> TriggerID resp = i \<and> RootID resp = m_id (hd rows) \<and> length (ThreadMsgs resp) = length rows
    \<and> readable (db w) (ToLower identity) (has_trash (db w) (ToLower identity)) (last rows)
    \<and> (\<forall>k < length rows. if readable (db w) (ToLower identity) (has_trash (db w) (ToLower identity)) (rows ! k)
         then Visible (ThreadMsgs resp ! k) \<and> TmID (ThreadMsgs resp ! k) = m_id (rows ! k) \<and> TmFrom (ThreadMsgs resp ! k) = m_from (rows ! k)
         else ThreadMsgs resp ! k = hidden_message (m_id (rows ! k)))
    \<and> (Complete resp \<longleftrightarrow> (\<forall>r \<in> set rows. readable (db w) (ToLower identity) (has_trash (db w) (ToLower identity)) r))"
proof -
  let ?a = "ToLower identity"
  let ?has = "has_trash (db w) ?a"
  from assms(1) obtain i w0 ms2 where r: "resolveID E param w = (Inr i, w0)" and ne: "lineage (db w) 99 i \<noteq> []"
    and len: "length ms2 = length (lineage (db w) 99 i)"
    and nth: "\<forall>k < length (lineage (db w) 99 i). Visible (ms2 ! k) = readable (db w) ?a ?has (rev (lineage (db w) 99 i) ! k)
      \<and> TmID (ms2 ! k) = m_id (rev (lineage (db w) 99 i) ! k) \<and> TmFrom (ms2 ! k) = m_from (rev (lineage (db w) 99 i) ! k)"
    and vis: "readable (db w) ?a ?has (hd (lineage (db w) 99 i))"
    and deep: "length (lineage (db w) 99 i) = 100 \<longrightarrow> m_pid (last (lineage (db w) 99 i)) = None"
    and resp: "resp = \<lparr>RootID = TmID (hd ms2), TriggerID = i, Complete = list_all Visible ms2,
         ThreadMsgs = map (\<lambda>m. if Visible m then m else hidden_message (TmID m)) ms2\<rparr>"
    by (rule ThreadMessages_Inr)
  let ?rows = "rev (lineage (db w) 99 i)"
  have rne: "?rows \<noteq> []" using ne by simp
  then have found: "find_msg (db w) i \<noteq> None" using lineage_first(1) [of "db w" 99 i] by simp
  have last: "m_id (last ?rows) = i" using lineage_first(2) [of "db w" 99 i] rne by (simp add: last_rev)
  have root: "m_pid (hd ?rows) = None"
  proof (cases "length ?rows = 100")
    case True
    with deep ne show ?thesis by (simp add: hd_rev)
  next
    case False
    then have "length (lineage (db w) 99 i) \<le> 99" using lineage_length [of "db w" 99 i] by simp
    from lineage_root [OF assms(2) found this] rne show ?thesis by (simp add: hd_rev)
  qed
  have "readable (db w) ?a ?has (last ?rows)" using vis ne by (simp add: last_rev)
  moreover have "RootID resp = m_id (hd ?rows)" using nth [rule_format, of 0] rne len resp by (simp add: hd_conv_nth length_greater_0_conv [symmetric] del: length_greater_0_conv)
  moreover have "Complete resp \<longleftrightarrow> (\<forall>r \<in> set ?rows. readable (db w) ?a ?has r)"
    unfolding all_set_conv_all_nth [of ?rows] using nth len resp by (simp add: list_all_length)
  moreover have "successively (\<lambda>a b. m_pid b = Some (m_id a)) ?rows"
    using lineage_linked [of "db w" 99 i] by (simp add: successively_rev)
  moreover have "\<forall>k < length ?rows. if readable (db w) ?a ?has (?rows ! k)
         then Visible (ThreadMsgs resp ! k) \<and> TmID (ThreadMsgs resp ! k) = m_id (?rows ! k) \<and> TmFrom (ThreadMsgs resp ! k) = m_from (?rows ! k)
         else ThreadMsgs resp ! k = hidden_message (m_id (?rows ! k))"
    using nth len resp by simp
  ultimately show ?thesis using r rne root last len resp by (intro exI [of _ i] exI [of _ w0] exI [of _ ?rows]) simp
qed

definition thread_world :: world where
  "thread_world = trash_world\<lparr>files := [''/d/1'' \<mapsto> ''hi'', ''/d/2'' \<mapsto> ''yo!'']\<rparr>"

theorem ThreadMessages_spec_witness:
  "\<exists>resp. fst (ThreadMessages example_env ''@al@ex.org'' ''2'' thread_world) = Inr resp \<and> TriggerID resp = 2
    \<and> m_pid (hd (rev (lineage (db thread_world) 99 2))) = None"
proof -
  let ?r = "ThreadMessages example_env ''@al@ex.org'' ''2'' thread_world"
  have "case fst ?r of Inr x \<Rightarrow> True | Inl _ \<Rightarrow> False" by code_simp
  then obtain resp where run: "?r = (Inr resp, snd ?r)" by (cases ?r) (auto split: sum.splits)
  have "\<forall>m \<in> set (msgs (db thread_world)). \<forall>p. m_pid m = Some p \<longrightarrow> find_msg (db thread_world) p \<noteq> None"
    by (simp add: thread_world_def trash_world_def thread_db_def find_msg_def)
  from ThreadMessages_spec [OF run this] have "\<exists>i. fst (resolveID example_env ''2'' thread_world) = Inr i \<and> TriggerID resp = i
     \<and> m_pid (hd (rev (lineage (db thread_world) 99 i))) = None" by (elim exE conjE) simp
  moreover have "fst (resolveID example_env ''2'' thread_world) = Inr 2" by code_simp
  ultimately show ?thesis by (subst run) auto
qed

end
