(* ===== verification/Indicators.thy ===== *)
theory Indicators
  imports Thread "HOL-Library.AList"
begin

text \<open>
  Indicators (\<open>src/internal/handlers/indicators.go\<close>): a participant's short-lived emoji on a message,
  such as composing a reply.  Nothing is stored: an indicator is published on the NOTIFY channel
  \<open>indicator\<close>.  The throttle is the map \<open>throttled\<close> of the state; times are microseconds.

  \<open>marshal_indicator\<close> is what \<open>json.Marshal\<close> writes for the payload and \<open>unmarshal_indicator\<close> what
  \<open>json.Unmarshal\<close> reads from one.
\<close>

subsection \<open>The payload\<close>

record Indicator =
  IndID :: int
  RootID :: int
  IndFrom :: string
  IndEmoji :: string
  TTL :: int

record indicateInput =
  InEmoji :: "string option"
  InTTL :: "int option"

definition IndicatorChannel :: string where "IndicatorChannel = ''indicator''"
definition indicatorTTLMax :: int where "indicatorTTLMax = 120"
definition indicatorTTLDefault :: int where "indicatorTTLDefault = 6"
definition indicatorMinInterval :: time where "indicatorMinInterval = 1000000"

definition marshal_indicator :: "Indicator \<Rightarrow> string" where
  "marshal_indicator ind = ''{'' @ json_key ''id'' @ Itoa (IndID ind)
     @ (if RootID ind = 0 then [] else '','' @ json_key ''root_id'' @ Itoa (RootID ind))
     @ '','' @ json_key ''from'' @ json_quote (IndFrom ind)
     @ '','' @ json_key ''emoji'' @ json_quote (IndEmoji ind)
     @ '','' @ json_key ''ttl'' @ Itoa (TTL ind) @ ''}''"

text \<open>What the hub reads from a payload.\<close>

definition indicator_type :: gotype where
  "indicator_type = GoStruct [(''id'', GoInt), (''root_id'', GoInt), (''from'', GoString), (''emoji'', GoString), (''ttl'', GoInt)]"

definition unmarshal_indicator :: "string \<Rightarrow> Indicator option" where
  "unmarshal_indicator payload = map_option (\<lambda>v. \<lparr>IndID = go_int (go_field ''id'' v),
       RootID = go_int (go_field ''root_id'' v), IndFrom = go_string (go_field ''from'' v),
       IndEmoji = go_string (go_field ''emoji'' v), TTL = go_int (go_field ''ttl'' v)\<rparr>)
     (Unmarshal indicator_type payload)"

subsection \<open>The throttle\<close>

type_synonym throttle_map = "(string \<times> time) list"

definition allow :: "throttle_map \<Rightarrow> string \<Rightarrow> time \<Rightarrow> bool \<times> throttle_map" where
  "allow last_map k now = (case map_of last_map k of
     Some prev \<Rightarrow> if now - prev < indicatorMinInterval then (False, last_map)
       else (True, AList.update k now (if 10000 < length last_map
          then filter (\<lambda>(_, v). \<not> indicatorMinInterval \<le> now - v) last_map else last_map))
   | None \<Rightarrow> (True, AList.update k now (if 10000 < length last_map
          then filter (\<lambda>(_, v). \<not> indicatorMinInterval \<le> now - v) last_map else last_map)))"

definition throttle_allow :: "env \<Rightarrow> string \<Rightarrow> ('e, bool) act" where
  "throttle_allow E k = bind (clock E) (\<lambda>now w.
     (case allow (throttled w) k now of (ok, m) \<Rightarrow> (Inr ok, w\<lparr>throttled := m\<rparr>)))"

subsection \<open>Setting an indicator\<close>

text \<open>The body is what \<open>ShouldBindJSON\<close> decoded, or the text of its error.\<close>

definition indicator_of :: "env \<Rightarrow> string \<Rightarrow> int \<Rightarrow> string + indicateInput \<Rightarrow> (response, Indicator) act" where
  "indicator_of E identity i body = (case body of Inl why \<Rightarrow> throw (err 400 why)
     | Inr inp \<Rightarrow>
       bind (case InTTL inp of None \<Rightarrow> ret indicatorTTLDefault
         | Some t \<Rightarrow> if t < 0 then throw (err 400 ''ttl must be 0 to clear, or 1 to 120 seconds'')
                    else ret (min t indicatorTTLMax)) (\<lambda>ttl.
       let e = (case InEmoji inp of None \<Rightarrow> [] | Some e \<Rightarrow> e) in
       bind (unless (\<not> (e \<noteq> [] \<and> \<not> IsSingle (e_rgi E) e))
         (err 400 ''emoji must be a single emoji, or empty to clear'')) (\<lambda>_.
       ret (if e = [] \<or> ttl = 0
         then \<lparr>IndID = i, RootID = 0, IndFrom = identity, IndEmoji = [], TTL = 0\<rparr>
         else \<lparr>IndID = i, RootID = 0, IndFrom = identity, IndEmoji = e, TTL = ttl\<rparr>))))"

definition indicate_guard :: "env \<Rightarrow> string \<Rightarrow> int \<Rightarrow> (response, unit) act" where
  "indicate_guard E identity i =
     bind (require_message E i) (\<lambda>(subject, _).
     bind (if draftHidden [identity] (From subject) (Time subject) then ret True else purgedFor E identity i) (\<lambda>hidden.
     bind (unless (\<not> hidden) not_found) (\<lambda>_.
     bind (unless (EqualFold (From subject) identity \<or> isRecipient (To subject) identity \<or> addToContains (AddTo subject) identity)
       (err 403 ''only participants may show an indicator on a message'')) (\<lambda>_.
     bind (unless (Time subject \<noteq> None) (err 409 ''cannot show an indicator on a draft'')) (\<lambda>_.
     unless (\<not> Terminal subject) (err 409 ''message is terminal; it cannot be replied to''))))))"

definition Indicate :: "env \<Rightarrow> string \<Rightarrow> string \<Rightarrow> string + indicateInput \<Rightarrow> (response, response) act" where
  "Indicate E identity param body =
     bind (resolveID E param) (\<lambda>i.
     bind (indicator_of E identity i body) (\<lambda>ind.
     bind (indicate_guard E identity i) (\<lambda>_.
     bind (if IndEmoji ind \<noteq> [] then throttle_allow E (ToLower identity @ ''|'' @ Itoa i) else ret True) (\<lambda>go.
     if \<not> go then ret (202, JNull)
     else bind (or_fail (sql_exec E (notify IndicatorChannel (marshal_indicator ind))) (err 500 ''failed to publish indicator'')) (\<lambda>_.
       ret (202, JNull))))))"

subsection \<open>Who sees it\<close>

definition audience_addrs :: "database \<Rightarrow> int \<Rightarrow> string list" where
  "audience_addrs d i = remdups (map m_from (filter (\<lambda>m. m_id m = i) (msgs d)) @ map t_addr (to_rows d i)
     @ map b_from (filter (\<lambda>b. b_msg b = i) (batches d)) @ map a_addr (addto_rows d i))"

definition thread_root :: "database \<Rightarrow> int \<Rightarrow> int" where
  "thread_root d i = (case rev (lineage d 10000 i) of [] \<Rightarrow> 0 | m # _ \<Rightarrow> m_id m)"

definition indicatorAudience :: "env \<Rightarrow> int \<Rightarrow> ('e, (string list \<times> int) option) act" where
  "indicatorAudience E i =
     bind (sql_query E (\<lambda>d. audience_addrs d i)) (\<lambda>q. case q of Inl _ \<Rightarrow> ret None
     | Inr addrs \<Rightarrow> bind (sql_query E (\<lambda>d. thread_root d i)) (\<lambda>r. case r of Inl _ \<Rightarrow> ret None
       | Inr root \<Rightarrow> ret (Some (addrs, if root = 0 then i else root))))"

subsection \<open>A payload is read back\<close>

definition in_int64 :: "int \<Rightarrow> bool" where
  "in_int64 i \<longleftrightarrow> - (2 ^ 63) \<le> i \<and> i < 2 ^ 63"

lemma ParseInt_in_int64: "in_int64 i \<Longrightarrow> ParseInt (Itoa i) = Some i"
  by (simp add: in_int64_def ParseInt_Itoa)

definition indicator_json :: "Indicator \<Rightarrow> jval" where
  "indicator_json ind = VObj ([(''id'', VNum (Itoa (IndID ind)))]
     @ (if RootID ind = 0 then [] else [(''root_id'', VNum (Itoa (RootID ind)))])
     @ [(''from'', VStr (IndFrom ind)), (''emoji'', VStr (IndEmoji ind)), (''ttl'', VNum (Itoa (TTL ind)))])"

lemma indicator_keys: "plain_name ''id''" "plain_name ''root_id''" "plain_name ''from''" "plain_name ''emoji''" "plain_name ''ttl''"
  by (simp_all add: plain_name_def)

lemma marshal_print: "marshal_indicator ind = print_json (indicator_json ind)"
  by (simp add: marshal_indicator_def indicator_json_def json_key_def indicator_keys json_quote_plain)

lemma indicator_json_ok:
  assumes "utf8_valid (IndFrom ind)" and "utf8_valid (IndEmoji ind)"
  shows "json_ok (indicator_json ind)"
proof -
  note indicator_keys [THEN utf8_valid_plain]
  with assms show ?thesis by (simp add: indicator_json_def lex_number_Itoa)
qed

lemma indicator_json_depth: "int (json_depth (indicator_json ind)) \<le> maxNestingDepth"
  by (simp add: indicator_json_def maxNestingDepth_def)

theorem indicator_roundtrip:
  assumes "utf8_valid (IndFrom ind)" and "utf8_valid (IndEmoji ind)"
    and "in_int64 (IndID ind)" and "in_int64 (RootID ind)" and "in_int64 (TTL ind)"
  shows "unmarshal_indicator (marshal_indicator ind) = Some ind"
proof -
  have "decode_into indicator_type (zero_value indicator_type) (indicator_json ind)
      = Some (OfStruct [(''id'', OfInt (IndID ind)), (''root_id'', OfInt (RootID ind)), (''from'', OfString (IndFrom ind)),
          (''emoji'', OfString (IndEmoji ind)), (''ttl'', OfInt (TTL ind))])"
    using assms(3-5) by (simp add: indicator_type_def indicator_json_def ParseInt_in_int64 field_of_def get_field_def
        set_field_def members_of_def)
  then show ?thesis
    using parse_whole_print [OF indicator_json_ok [OF assms(1,2)] indicator_json_depth]
    by (simp add: unmarshal_indicator_def Unmarshal_def marshal_print go_access members_of_def)
qed

subsection \<open>The throttle holds back what comes too soon, and only that\<close>

primrec accepted :: "throttle_map \<Rightarrow> (string \<times> time) list \<Rightarrow> bool list" where
  "accepted m [] = []"
| "accepted m (c # cs) = (case allow m (fst c) (snd c) of (ok, m1) \<Rightarrow> ok # accepted m1 cs)"

lemma allow_distinct: "distinct (map fst m) \<Longrightarrow> allow m k t = (ok, m1) \<Longrightarrow> distinct (map fst m1)"
  by (auto simp: allow_def distinct_update distinct_map_filter split: option.splits if_splits)

lemma allow_refused: "allow m k t = (False, m1) \<Longrightarrow> m1 = m \<and> (\<exists>v. map_of m k = Some v \<and> t - v < indicatorMinInterval)"
  by (auto simp: allow_def split: option.splits if_splits)

lemma allow_accepted:
  assumes "allow m k t = (True, m1)"
  shows "map_of m1 k = Some t" and "\<And>v. map_of m k = Some v \<Longrightarrow> indicatorMinInterval \<le> t - v"
  using assms by (auto simp: allow_def update_conv' split: option.splits if_splits)

lemma allow_other:
  assumes "allow m k t = (ok, m1)" and "distinct (map fst m)" and "k' \<noteq> k"
  shows "map_of m k' = Some v \<Longrightarrow> map_of m1 k' = Some v \<or> indicatorMinInterval \<le> t - v"
    and "map_of m1 k' = Some v \<Longrightarrow> map_of m k' = Some v"
  using assms
  by (auto simp: allow_def update_conv' split: option.splits if_splits
      simp: distinct_map_filter)

lemma accepted_later:
  assumes "distinct (map fst m)" and "sorted (map snd cs)"
    and "(\<exists>v. map_of m k = Some v \<and> t \<le> v) \<or> (\<forall>c \<in> set cs. indicatorMinInterval \<le> snd c - t)"
    and "j < length cs" and "fst (cs ! j) = k" and "accepted m cs ! j"
  shows "indicatorMinInterval \<le> snd (cs ! j) - t"
  using assms
proof (induction cs arbitrary: m j)
  case Nil
  then show ?case by simp
next
  case (Cons c cs)
  obtain ok m1 where a: "allow m (fst c) (snd c) = (ok, m1)" by fastforce
  have pos: "0 \<le> indicatorMinInterval" by (simp add: indicatorMinInterval_def)
  show ?case
  proof (cases j)
    case 0
    with Cons.prems a have "ok" and "fst c = k" by simp_all
    with Cons.prems(3) a show ?thesis
      using 0 allow_accepted(2) [of m k "snd c" m1] by (auto simp: add.commute)
  next
    case (Suc n)
    have known: "(\<exists>v. map_of m1 k = Some v \<and> t \<le> v) \<or> (\<forall>d \<in> set cs. indicatorMinInterval \<le> snd d - t)"
    proof (cases "\<forall>d \<in> set (c # cs). indicatorMinInterval \<le> snd d - t")
      case True
      then show ?thesis by simp
    next
      case False
      with Cons.prems(3) obtain v where v: "map_of m k = Some v" "t \<le> v" by blast
      show ?thesis
      proof (cases "fst c = k")
        case True
        with a v allow_accepted [of m k "snd c" m1] allow_refused [of m k "snd c" m1] pos show ?thesis
          by (cases ok) fastforce+
      next
        case False
        from allow_other(1) [OF a Cons.prems(1) False [symmetric] v(1)] v(2) show ?thesis
          using Cons.prems(2) by fastforce
      qed
    qed
    show ?thesis
      using Cons.IH [OF allow_distinct [OF Cons.prems(1) a] _ known, of n] Cons.prems Suc a by simp
  qed
qed

lemma accepted_spacing:
  assumes "distinct (map fst m)" and "sorted (map snd cs)" and "i < j" and "j < length cs"
    and "fst (cs ! i) = fst (cs ! j)" and "accepted m cs ! i" and "accepted m cs ! j"
  shows "indicatorMinInterval \<le> snd (cs ! j) - snd (cs ! i)"
  using assms
proof (induction cs arbitrary: m i j)
  case Nil
  then show ?case by simp
next
  case (Cons c cs)
  obtain ok m1 where a: "allow m (fst c) (snd c) = (ok, m1)" by fastforce
  note d = allow_distinct [OF Cons.prems(1) a]
  obtain l where j: "j = Suc l" using Cons.prems(3) by (cases j) auto
  show ?case
  proof (cases i)
    case 0
    with Cons.prems a have "allow m (fst c) (snd c) = (True, m1)" by simp
    from allow_accepted(1) [OF this] show ?thesis
      using accepted_later [OF d, of cs "fst c" "snd c" l] Cons.prems 0 j a by auto
  next
    case (Suc n)
    with Cons.IH [OF d, of n l] Cons.prems j a show ?thesis by simp
  qed
qed

lemma accepted_refused:
  assumes "distinct (map fst m)" and "j < length cs" and "\<not> accepted m cs ! j"
  shows "(\<exists>v. map_of m (fst (cs ! j)) = Some v \<and> snd (cs ! j) - v < indicatorMinInterval)
    \<or> (\<exists>i < j. accepted m cs ! i \<and> fst (cs ! i) = fst (cs ! j) \<and> snd (cs ! j) - snd (cs ! i) < indicatorMinInterval)"
  using assms
proof (induction cs arbitrary: m j)
  case Nil
  then show ?case by simp
next
  case (Cons c cs)
  obtain ok m1 where a: "allow m (fst c) (snd c) = (ok, m1)" by fastforce
  show ?case
  proof (cases j)
    case 0
    with Cons.prems a have "\<not> ok" by simp
    with a 0 show ?thesis using allow_refused [of m "fst c" "snd c" m1] by auto
  next
    case (Suc l)
    let ?k = "fst (cs ! l)"
    from Cons.IH [OF allow_distinct [OF Cons.prems(1) a], of l] Cons.prems Suc a
    consider v where "map_of m1 ?k = Some v" "snd (cs ! l) - v < indicatorMinInterval"
      | i where "i < l" "accepted m1 cs ! i" "fst (cs ! i) = ?k" "snd (cs ! l) - snd (cs ! i) < indicatorMinInterval"
      by auto
    then show ?thesis
    proof cases
      case 1
      show ?thesis
      proof (cases "fst c = ?k \<and> ok")
        case True
        with a 1 allow_accepted(1) [of m ?k "snd c" m1] have "v = snd c" by simp
        with True 1 a Suc show ?thesis by (intro disjI2 exI [of _ 0]) simp
      next
        case False
        with a 1 allow_refused [of m "fst c" "snd c" m1] allow_other(2) [OF a Cons.prems(1), of ?k v]
        show ?thesis using Suc by (cases ok) auto
      qed
    next
      case (2 i)
      with a Suc show ?thesis by (intro disjI2 exI [of _ "Suc i"]) simp
    qed
  qed
qed

text \<open>C28: of the indicators one address sets on one message, in the order of their times, any two that are let
  through are at least a second apart, also across the pruning of the map; and one is held back only if
  one let through was less than a second before it.\<close>

theorem throttle_spec:
  assumes "sorted (map snd calls)" and "j < length calls"
  shows "accepted [] calls ! j \<longleftrightarrow> (\<forall>i < j. accepted [] calls ! i \<and> fst (calls ! i) = fst (calls ! j)
     \<longrightarrow> indicatorMinInterval \<le> snd (calls ! j) - snd (calls ! i))"
  using accepted_spacing [of "[]" calls _ j] accepted_refused [of "[]" j calls] assms by fastforce

theorem throttle_spec_witness:
  "\<not> accepted [] [(''a|1'', 0), (''b|1'', 5), (''a|1'', 999999)] ! 2"
proof -
  have "\<not> (\<forall>i < 2. accepted [] [(''a|1'', 0), (''b|1'', 5), (''a|1'', 999999)] ! i
     \<and> fst ([(''a|1'', 0 :: time), (''b|1'', 5), (''a|1'', 999999)] ! i) = fst ([(''a|1'', 0 :: time), (''b|1'', 5), (''a|1'', 999999)] ! 2)
     \<longrightarrow> indicatorMinInterval \<le> snd ([(''a|1'', 0 :: time), (''b|1'', 5), (''a|1'', 999999)] ! 2)
          - snd ([(''a|1'', 0 :: time), (''b|1'', 5), (''a|1'', 999999)] ! i))"
    by (intro notI, drule spec [of _ 0]) (simp add: allow_def indicatorMinInterval_def)
  with throttle_spec [of "[(''a|1'', 0), (''b|1'', 5), (''a|1'', 999999)]" 2] show ?thesis by simp
qed

subsection \<open>What setting an indicator does\<close>

text \<open>The indicator that a body sets: it is cleared where the emoji is missing or empty or the time is 0, and names
  the body's emoji otherwise, for the time asked for, which is 6 seconds where it is left out and never more
  than 120.\<close>

definition sets_indicator :: "env \<Rightarrow> string \<Rightarrow> int \<Rightarrow> indicateInput \<Rightarrow> Indicator \<Rightarrow> bool" where
  "sets_indicator E identity i inp ind \<longleftrightarrow> IndID ind = i \<and> RootID ind = 0 \<and> IndFrom ind = identity
     \<and> (\<forall>t. InTTL inp = Some t \<longrightarrow> 0 \<le> t) \<and> (\<forall>e. InEmoji inp = Some e \<longrightarrow> e = [] \<or> IsSingle (e_rgi E) e)
     \<and> (if InEmoji inp \<in> {None, Some []} \<or> InTTL inp = Some 0 then IndEmoji ind = [] \<and> TTL ind = 0
        else InEmoji inp = Some (IndEmoji ind)
          \<and> TTL ind = (case InTTL inp of None \<Rightarrow> 6 | Some t \<Rightarrow> if t \<le> 120 then t else 120))"

lemma indicator_of_Inr:
  assumes "indicator_of E identity i body w = (Inr ind, w1)"
  shows "w1 = w \<and> (\<exists>inp. body = Inr inp \<and> sets_indicator E identity i inp ind)"
  using assms
  by (auto simp: indicator_of_def sets_indicator_def Let_def act_defs indicatorTTLMax_def indicatorTTLDefault_def min_def
      split: sum.splits option.splits if_splits)

lemma sets_indicator_bounds:
  assumes "sets_indicator E identity i inp ind"
  shows "IndEmoji ind = [] \<and> TTL ind = 0 \<or> IsSingle (e_rgi E) (IndEmoji ind) \<and> 1 \<le> TTL ind \<and> TTL ind \<le> 120"
  using assms by (auto simp: sets_indicator_def split: if_splits option.splits)

lemma allow_iff: "fst (allow m k t) \<longleftrightarrow> (\<forall>v. map_of m k = Some v \<longrightarrow> indicatorMinInterval \<le> t - v)"
  by (auto simp: allow_def split: option.splits)

lemma throttled_resolveID: "resolveID E s w = (r, w1) \<Longrightarrow> throttled w1 = throttled w"
  by (auto simp: resolveID_def parseID_def require_row_def act_defs Let_def split: option.splits sum.splits if_splits prod.splits)

lemma throttled_purgedFor: "purgedFor E a i w = (Inr b, w1) \<Longrightarrow> throttled w1 = throttled w \<and> tick w1 = Suc (tick w)"
  by (auto simp: purgedFor_def trashStateQ_def act_defs Let_def split: if_splits)

lemma throttled_require_message: "require_message E i w = (Inr r, w1) \<Longrightarrow> throttled w1 = throttled w"
  by (cases r) (auto simp: require_message_def require_row_Inr fetchMessage_def loadRecipients_def loadAddToBatches_def
      loadAttachments_def act_defs Let_def split: option.splits if_splits)

text \<open>The message is looked up with four statements; the first may not fail, and a failure of the others leaves the
  transaction, if any, aborted.\<close>

lemma require_message_ticks:
  "require_message E i w = (Inr r, w1) \<Longrightarrow> tick w \<le> tick w1 \<and> \<not> aborted w \<and> (aborted w1 \<longrightarrow> (\<exists>n \<in> {tick w..<tick w1}. e_fail E n))"
  by (cases r) (auto simp: require_message_def require_row_Inr fetchMessage_def loadRecipients_def loadAddToBatches_def
      loadAttachments_def act_defs Let_def atLeastLessThanSuc split: option.splits if_splits)

lemma indicate_guard_Inr:
  assumes "indicate_guard E identity i w = (Inr u, w1)"
  shows "\<exists>m. find_msg (db w) i = Some m \<and> m_time m \<noteq> None \<and> \<not> m_terminal m \<and> db w1 = db w
    \<and> throttled w1 = throttled w \<and> tick w \<le> tick w1
    \<and> (sameAddr (m_from m) identity \<or> isRecipient (map t_addr (to_rows (db w) i)) identity
        \<or> addToContains (batches_of (db w) i) identity)
    \<and> (fmsg_api_trash_state (db w) (ToLower identity) i = Some Purged \<longrightarrow> (\<exists>n \<in> {tick w..<tick w1}. e_fail E n))"
proof -
  from assms [unfolded indicate_guard_def run_Inr] obtain s p w2 hidden where
    m: "require_message E i w = (Inr (s, p), w2)"
    and h: "(if draftHidden [identity] (From s) (Time s) then ret True else purgedFor E identity i) w2 = (Inr hidden, w1)"
      "\<not> hidden"
    and g: "EqualFold (From s) identity \<or> isRecipient (To s) identity \<or> addToContains (AddTo s) identity"
      "Time s \<noteq> None" "\<not> Terminal s"
    by auto
  from require_message_Inr [OF m] obtain r to dl ad at where r: "find_msg (db w) i = Some r" "s = row_message r to dl ad at"
    "to = map t_addr (to_rows (db w) i) \<or> to = []" "ad = batches_of (db w) i \<or> ad = []" and d: "db w2 = db w" by blast
  have pg: "purgedFor E identity i w2 = (Inr False, w1)"
    using h g(2) by (auto simp: ret_eq draftHidden_own split: if_splits)
  have w1: "db w1 = db w2" "tick w1 = Suc (tick w2)" "throttled w1 = throttled w2"
    using pg throttled_purgedFor by (auto dest: purgedFor_state)
  note ticks = require_message_ticks [OF m]
  have "fmsg_api_trash_state (db w) (ToLower identity) i = Some Purged \<Longrightarrow>
      \<exists>n \<in> {tick w..<tick w1}. e_fail E n"
    using purgedFor_Inr [OF pg] ticks w1(2) d by (cases "aborted w2") (auto simp: atLeastLessThanSuc)
  then show ?thesis using r g w1 d throttled_require_message [OF m] ticks
    by (auto simp: row_message_def isRecipient_def addToContains_def EqualFold_def sameAddr_iff_lower)
qed

text \<open>What became of the event: \<open>k\<close> is the tick at which the throttle reads the clock.\<close>

definition indicator_outcome :: "env \<Rightarrow> string \<Rightarrow> Indicator \<Rightarrow> world \<Rightarrow> nat \<Rightarrow> world \<Rightarrow> bool" where
  "indicator_outcome E k ind w n w1 \<longleftrightarrow>
     (if IndEmoji ind = [] then db w1 = notify IndicatorChannel (marshal_indicator ind) (db w) \<and> throttled w1 = throttled w
      else if \<forall>v. map_of (throttled w) k = Some v \<longrightarrow> indicatorMinInterval \<le> e_now E n - v
        then db w1 = notify IndicatorChannel (marshal_indicator ind) (db w) \<and> map_of (throttled w1) k = Some (e_now E n)
          \<and> tick w1 = Suc (Suc n)
      else db w1 = db w \<and> throttled w1 = throttled w \<and> tick w1 = Suc n)"

lemma indicate_publish:
  assumes t: "(if IndEmoji ind \<noteq> [] then throttle_allow E k else ret True) w2 = (Inr go :: response + _, w3)"
    and e: "(if \<not> go then ret (202, JNull) else bind (or_fail (sql_exec E (notify IndicatorChannel (marshal_indicator ind)))
        (err 500 ''failed to publish indicator'')) (\<lambda>_. ret (202, JNull))) w3 = (Inr resp, w1)"
  shows "resp = (202, JNull) \<and> indicator_outcome E k ind w2 (tick w2) w1"
proof (cases "IndEmoji ind = []")
  case True
  with t e show ?thesis by (auto simp: run_Inr sql_exec_Inr ret_eq indicator_outcome_def)
next
  case False
  let ?now = "e_now E (tick w2)"
  obtain m where al: "allow (throttled w2) k ?now = (go, m)" and w3: "w3 = w2\<lparr>tick := Suc (tick w2), throttled := m\<rparr>"
    using t False by (auto simp: throttle_allow_def bind_Inr clock_Inr split: prod.splits)
  have go: "go \<longleftrightarrow> (\<forall>v. map_of (throttled w2) k = Some v \<longrightarrow> indicatorMinInterval \<le> ?now - v)"
    using allow_iff [of "throttled w2" k ?now] al by simp
  show ?thesis
  proof (cases go)
    case True
    with e w3 have "resp = (202, JNull)" "db w1 = notify IndicatorChannel (marshal_indicator ind) (db w2)"
      "throttled w1 = m" "tick w1 = Suc (Suc (tick w2))"
      by (auto simp: run_Inr sql_exec_Inr ret_eq)
    with False True go al allow_accepted(1) [of "throttled w2" k ?now m] show ?thesis by (simp add: indicator_outcome_def)
  next
    case held: False
    with al allow_refused [of "throttled w2" k ?now m] have "m = throttled w2" by simp
    with e w3 held have "resp = (202, JNull)" "db w1 = db w2" "throttled w1 = throttled w2" "tick w1 = Suc (tick w2)"
      by (auto simp: ret_eq)
    with False held go show ?thesis by (simp add: indicator_outcome_def)
  qed
qed

lemma Indicate_Inr:
  assumes "Indicate E identity param body w = (Inr resp, w1)"
  shows "\<exists>i w0 m inp ind n. resp = (202, JNull) \<and> resolveID E param w = (Inr i, w0) \<and> find_msg (db w) i = Some m
    \<and> m_time m \<noteq> None \<and> \<not> m_terminal m
    \<and> (sameAddr (m_from m) identity \<or> isRecipient (map t_addr (to_rows (db w) i)) identity
        \<or> addToContains (batches_of (db w) i) identity)
    \<and> (fmsg_api_trash_state (db w) (ToLower identity) i = Some Purged \<longrightarrow> (\<exists>k \<in> {tick w0..<n}. e_fail E k))
    \<and> body = Inr inp \<and> sets_indicator E identity i inp ind
    \<and> indicator_outcome E (ToLower identity @ ''|'' @ Itoa i) ind w n w1"
proof -
  from assms [unfolded Indicate_def run_Inr] obtain i w0 ind u w2 go w3 where r: "resolveID E param w = (Inr i, w0)"
    and n: "indicator_of E identity i body w0 = (Inr ind, w0)" and g: "indicate_guard E identity i w0 = (Inr u, w2)"
    and t: "(if IndEmoji ind \<noteq> [] then throttle_allow E (ToLower identity @ ''|'' @ Itoa i) else ret True) w2 = (Inr go :: response + _, w3)"
    and e: "(if \<not> go then ret (202, JNull) else bind (or_fail (sql_exec E (notify IndicatorChannel (marshal_indicator ind)))
        (err 500 ''failed to publish indicator'')) (\<lambda>_. ret (202, JNull))) w3 = (Inr resp, w1)"
    using indicator_of_Inr by blast
  have d0: "db w0 = db w" by (rule same_db [OF keeps_resolveID r])
  have th: "throttled w0 = throttled w" by (rule throttled_resolveID [OF r])
  from indicate_guard_Inr [OF g, unfolded d0 th] obtain m where m: "find_msg (db w) i = Some m" "m_time m \<noteq> None" "\<not> m_terminal m"
    "db w2 = db w" "throttled w2 = throttled w"
    "sameAddr (m_from m) identity \<or> isRecipient (map t_addr (to_rows (db w) i)) identity \<or> addToContains (batches_of (db w) i) identity"
    "fmsg_api_trash_state (db w) (ToLower identity) i = Some Purged \<longrightarrow> (\<exists>k \<in> {tick w0..<tick w2}. e_fail E k)"
    by blast
  from indicate_publish [OF t e] m(4,5) have out: "resp = (202, JNull)"
    "indicator_outcome E (ToLower identity @ ''|'' @ Itoa i) ind w (tick w2) w1"
    by (simp_all add: indicator_outcome_def)
  from indicator_of_Inr [OF n] obtain inp where inp: "body = Inr inp" "sets_indicator E identity i inp ind" by blast
  show ?thesis
    by (intro exI [of _ i] exI [of _ w0] exI [of _ m] exI [of _ inp] exI [of _ ind] exI [of _ "tick w2"] conjI)
      (use r m out inp in blast)+
qed

text \<open>C29: an indicator is taken only from a participant of a sent, non-terminal message.  Nobody who deleted the
  message for good sets one either, unless a statement of the check failed (\<open>purgedFor\<close> goes on as if nothing
  had been deleted).  The body decides the indicator to the letter: without an emoji or with time 0 it
  clears the state (time 0), otherwise it names the body's one emoji for 1 to 120 seconds, 6 where no time is given.
  A clear is always published.  Another is published exactly if the throttle, reading the clock at tick \<open>n\<close>,
  remembers none that the same address set on the same message less than a second before, and it is then
  remembered with that time; held back, it changes nothing.  Publishing is one event on the
  indicator channel that carries exactly that indicator; no table changes.\<close>

theorem Indicate_spec:
  assumes "Indicate E identity param body w = (Inr resp, w1)"
  shows "\<exists>i w0 m inp ind n. resp = (202, JNull) \<and> resolveID E param w = (Inr i, w0) \<and> find_msg (db w) i = Some m
    \<and> m_time m \<noteq> None \<and> \<not> m_terminal m
    \<and> (sameAddr (m_from m) identity \<or> isRecipient (map t_addr (to_rows (db w) i)) identity
        \<or> addToContains (batches_of (db w) i) identity)
    \<and> (fmsg_api_trash_state (db w) (ToLower identity) i = Some Purged \<longrightarrow> (\<exists>k \<in> {tick w0..<n}. e_fail E k))
    \<and> body = Inr inp \<and> sets_indicator E identity i inp ind
    \<and> (if IndEmoji ind = [] then db w1 = notify IndicatorChannel (marshal_indicator ind) (db w) \<and> throttled w1 = throttled w
       else if \<forall>v. map_of (throttled w) (ToLower identity @ ''|'' @ Itoa i) = Some v \<longrightarrow> indicatorMinInterval \<le> e_now E n - v
         then db w1 = notify IndicatorChannel (marshal_indicator ind) (db w)
           \<and> map_of (throttled w1) (ToLower identity @ ''|'' @ Itoa i) = Some (e_now E n) \<and> tick w1 = Suc (Suc n)
       else db w1 = db w \<and> throttled w1 = throttled w \<and> tick w1 = Suc n)"
  using Indicate_Inr [OF assms] unfolding indicator_outcome_def .

definition thinking_body :: "string + indicateInput" where
  "thinking_body = Inr \<lparr>InEmoji = None, InTTL = Some 500\<rparr>"

lemma example_indicate:
  "fst (Indicate example_env ''@Al@ex.org'' ''1'' thinking_body trash_world) = Inr (202, JNull)"
  by code_simp

theorem Indicate_spec_witness:
  "noted (db (snd (Indicate example_env ''@Al@ex.org'' ''1'' thinking_body trash_world)))
     = noted (db trash_world) @ [(IndicatorChannel,
         marshal_indicator \<lparr>IndID = 1, RootID = 0, IndFrom = ''@Al@ex.org'', IndEmoji = [], TTL = 0\<rparr>)]"
proof -
  let ?r = "Indicate example_env ''@Al@ex.org'' ''1'' thinking_body trash_world"
  have run: "?r = (Inr (202, JNull), snd ?r)" using example_indicate by (metis prod.collapse)
  have i: "fst (resolveID example_env ''1'' trash_world) = Inr 1" by code_simp
  from Indicate_spec [OF run] i obtain ind where ind: "sets_indicator example_env ''@Al@ex.org'' 1 \<lparr>InEmoji = None, InTTL = Some 500\<rparr> ind"
    and out: "IndEmoji ind = [] \<longrightarrow> db (snd ?r) = notify IndicatorChannel (marshal_indicator ind) (db trash_world)"
    by (auto simp: thinking_body_def split: if_splits)
  from ind have "ind = \<lparr>IndID = 1, RootID = 0, IndFrom = ''@Al@ex.org'', IndEmoji = [], TTL = 0\<rparr>"
    by (simp add: sets_indicator_def)
  with out show ?thesis by (simp add: notify_def)
qed

end
