(* ===== verification/Hub.thy ===== *)
theory Hub
  imports Indicators Auth "HOL-Library.Sublist"
begin

text \<open>
  The WebSocket hub (\<open>src/internal/handlers/hub.go\<close>, \<open>ws.go\<close>): the registry of connected clients, the
  routing of database notifications to them, the bounded queue of a client, and the authentication of a
  connection.  How connections, the listener and the writers interleave is theory \<open>HubRuns\<close>.

  A frame is kept as its envelope, not as its JSON text.  Two simplifications: the registry is read once for
  an indicator, where the code reads it once for each participant, and the clients of an address are listed
  in the order they connected, where the code ranges over a map.
\<close>

subsection \<open>Frames and clients\<close>

definition eventNewMsg :: string where "eventNewMsg = ''new_msg''"
definition eventDelivered :: string where "eventDelivered = ''delivered''"
definition eventRecipientsAdded :: string where "eventRecipientsAdded = ''recipients_added''"
definition eventReaction :: string where "eventReaction = ''reaction''"
definition eventRead :: string where "eventRead = ''read''"
definition eventTrash :: string where "eventTrash = ''trash''"
definition eventIndicator :: string where "eventIndicator = ''indicator''"

text \<open>\<open>DataGone\<close> is \<open>trashGone\<close>, whose trash state is always \<open>purged\<close>.\<close>

datatype ws_data = DataItem list_item | DataGone int | DataIndicator Indicator

record wsEnvelope =
  EvType :: string
  EvData :: ws_data

definition wsSendBuffer :: nat where "wsSendBuffer = 16"

text \<open>\<open>cl_offered\<close> is a history variable: every frame \<open>Hub.send\<close> tried to queue on the client.\<close>

record wsClient =
  cl_addr :: string
  cl_send :: "wsEnvelope list"
  cl_open :: bool
  cl_writer :: bool
  cl_written :: "wsEnvelope list"
  cl_offered :: "wsEnvelope list"

definition new_client :: "string \<Rightarrow> wsClient" where
  "new_client addr = \<lparr>cl_addr = addr, cl_send = [], cl_open = True, cl_writer = True, cl_written = [], cl_offered = []\<rparr>"

definition close_client :: "wsClient \<Rightarrow> wsClient" where
  "close_client c = c\<lparr>cl_open := False\<rparr>"

definition send_one :: "wsEnvelope \<Rightarrow> wsClient \<Rightarrow> wsClient" where
  "send_one f c = (let c1 = c\<lparr>cl_offered := cl_offered c @ [f]\<rparr> in
     if length (cl_send c) < wsSendBuffer then c1\<lparr>cl_send := cl_send c @ [f]\<rparr> else close_client c1)"

subsection \<open>The registry\<close>

type_synonym registry = "string \<rightharpoonup> nat list"

definition Register :: "registry \<Rightarrow> string \<Rightarrow> nat \<Rightarrow> registry" where
  "Register r addr n = (let ns = (case r addr of None \<Rightarrow> [] | Some ns \<Rightarrow> ns) in
     r(addr \<mapsto> (if n \<in> set ns then ns else ns @ [n])))"

definition Unregister :: "registry \<Rightarrow> string \<Rightarrow> nat \<Rightarrow> registry" where
  "Unregister r addr n = (case r addr of None \<Rightarrow> r
     | Some ns \<Rightarrow> (let rest = removeAll n ns in if rest = [] then r(addr := None) else r(addr \<mapsto> rest)))"

definition clientsOf :: "registry \<Rightarrow> string \<Rightarrow> nat list" where
  "clientsOf r addr = (case r (ToLower addr) of None \<Rightarrow> [] | Some ns \<Rightarrow> ns)"

subsection \<open>Routing\<close>

definition parseNotifyPayload :: "string \<Rightarrow> (int \<times> string) option" where
  "parseNotifyPayload payload = (case Cut payload (CHR '','') of (before, after, ok) \<Rightarrow>
     if \<not> ok then None
     else (case ParseInt before of None \<Rightarrow> None
       | Some i \<Rightarrow> if after = [] then None else Some (i, after)))"

text \<open>What a notification comes to: the clients to send to and the frame, or nothing.\<close>

type_synonym outgoing = "(nat list \<times> wsEnvelope) option"

definition dispatch :: "env \<Rightarrow> registry \<Rightarrow> int \<Rightarrow> string \<Rightarrow> string \<Rightarrow> (response, outgoing) act" where
  "dispatch E r i addr eventType = (let clients = clientsOf r addr in
     if clients = [] then ret None
     else bind (messageItemFor E i addr) (\<lambda>item. case item of None \<Rightarrow> ret None
       | Some it \<Rightarrow> if purged it then ret None
           else ret (Some (clients, \<lparr>EvType = eventType, EvData = DataItem it\<rparr>))))"

definition dispatchTrash :: "env \<Rightarrow> registry \<Rightarrow> int \<Rightarrow> string \<Rightarrow> (response, outgoing) act" where
  "dispatchTrash E r i addr = (let clients = clientsOf r addr; gone = \<lparr>EvType = eventTrash, EvData = DataGone i\<rparr> in
     if clients = [] then ret None
     else bind (messageItemFor E i addr) (\<lambda>item. case item of None \<Rightarrow> ret (Some (clients, gone))
       | Some it \<Rightarrow> if purged it then ret (Some (clients, gone))
           else ret (Some (clients, \<lparr>EvType = eventTrash, EvData = DataItem it\<rparr>))))"

text \<open>The first result is the Web Push started for a new message (\<open>notifyPush\<close>).\<close>

definition route :: "env \<Rightarrow> registry \<Rightarrow> string \<Rightarrow> int \<Rightarrow> string \<Rightarrow> (response, (int \<times> string) option \<times> outgoing) act" where
  "route E r channel i addr = (let plain_event = (\<lambda>m. bind m (\<lambda>out. ret (None, out))) in
     if channel = ''new_msg'' then
       bind (reactionSubject E i) (\<lambda>s. case s of
         Some subject \<Rightarrow> plain_event (dispatch E r subject addr eventReaction)
       | None \<Rightarrow> bind (dispatch E r i addr eventNewMsg) (\<lambda>out. ret (Some (i, addr), out)))
     else if channel = ''delivered'' then plain_event (dispatch E r i addr eventDelivered)
     else if channel = ''msg_read'' then plain_event (dispatch E r i addr eventRead)
     else if channel = ''msg_trash'' then plain_event (dispatchTrash E r i addr)
     else if channel = ''recipients_added'' then plain_event (dispatch E r i addr eventRecipientsAdded)
     else ret (None, None))"

text \<open>The clients of the participants, each address once and never the indicating one.\<close>

fun audience_clients :: "registry \<Rightarrow> string list \<Rightarrow> string list \<Rightarrow> nat list" where
  "audience_clients r seen [] = []"
| "audience_clients r seen (a # as) = (if ToLower a \<in> set seen then audience_clients r seen as
     else clientsOf r a @ audience_clients r (ToLower a # seen) as)"

definition routeIndicator :: "env \<Rightarrow> registry \<Rightarrow> string \<Rightarrow> (response, outgoing) act" where
  "routeIndicator E r payload = (case unmarshal_indicator payload of None \<Rightarrow> ret None
     | Some ind \<Rightarrow>
       if IndID ind \<le> 0 \<or> IndFrom ind = [] then ret None
       else bind (indicatorAudience E (IndID ind)) (\<lambda>au. case au of None \<Rightarrow> ret None
         | Some (addrs, root) \<Rightarrow>
           (let clients = audience_clients r [ToLower (IndFrom ind)] addrs in
            if clients = [] then ret None
            else ret (Some (clients, \<lparr>EvType = eventIndicator, EvData = DataIndicator (ind\<lparr>RootID := root\<rparr>)\<rparr>)))))"

definition handle_notification :: "env \<Rightarrow> registry \<Rightarrow> string \<Rightarrow> string
    \<Rightarrow> (response, (int \<times> string) option \<times> outgoing) act" where
  "handle_notification E r channel payload =
     (if channel = IndicatorChannel then bind (routeIndicator E r payload) (\<lambda>out. ret (None, out))
      else (case parseNotifyPayload payload of None \<Rightarrow> ret (None, None)
        | Some (i, addr) \<Rightarrow> route E r channel i addr))"

subsection \<open>Listening\<close>

definition listen_channels :: "string list" where
  "listen_channels = [''new_msg'', ''delivered'', ''recipients_added'', ''msg_read'', ''msg_trash'', IndicatorChannel]"

text \<open>\<open>Run\<close>: the waits between the attempts to listen, in seconds, from whether each attempt got as far as
  listening (\<open>onConnected\<close>) before it ended.\<close>

definition maxBackoff :: int where "maxBackoff = 30"

fun run_waits :: "int \<Rightarrow> bool list \<Rightarrow> int list" where
  "run_waits backoff [] = []"
| "run_waits backoff (connected # rest) = (let b = (if connected then 1 else backoff) in
     b # run_waits (if b < maxBackoff then 2 * b else b) rest)"

subsection \<open>Connecting\<close>

record ws_request =
  q_access_token :: string
  q_authorization :: string
  q_act_as_header :: string
  q_act_as :: string
  q_origin :: string
  q_client_ip :: string

definition CheckOrigin :: "string list \<Rightarrow> string \<Rightarrow> bool" where
  "CheckOrigin allowedOrigins origin \<longleftrightarrow> origin = [] \<or> allowedOrigins = [] \<or> origin \<in> set allowedOrigins"

definition actAsParam :: "ws_request \<Rightarrow> string" where
  "actAsParam q = (if q_act_as_header q \<noteq> [] then q_act_as_header q else q_act_as q)"

definition bearerToken :: "string \<Rightarrow> string" where
  "bearerToken header = (if length header \<le> 7 \<or> \<not> EqualFold (take 7 header) ''Bearer '' then []
     else TrimSpace (drop 7 header))"

text \<open>\<open>upgrade\<close> is the handshake of the WebSocket library, told what \<open>CheckOrigin\<close> said: \<open>None\<close> when the
  connection is open, otherwise the response it wrote.  The result is the client's address, and when its
  connection ends by itself.\<close>

definition Connect :: "env \<Rightarrow> verifier \<Rightarrow> (bool \<Rightarrow> response option) \<Rightarrow> string list \<Rightarrow> ws_request
    \<Rightarrow> (response, string \<times> time option) act" where
  "Connect E v upgrade allowedOrigins q =
     (let tok = (if q_access_token q \<noteq> [] then q_access_token q else bearerToken (q_authorization q)) in
      bind (unless (tok \<noteq> []) (err 401 ''missing access token'')) (\<lambda>_.
      bind (attempt (AuthenticateRequest E v tok (q_client_ip q) (actAsParam q))) (\<lambda>r. case r of
        Inl (status, msg) \<Rightarrow> throw (err status msg)
      | Inr res \<Rightarrow>
        (case CheckScope res ''GET'' ''/fmsg/ws'' of Some (status, msg) \<Rightarrow> throw (err status msg)
         | None \<Rightarrow>
           (case upgrade (CheckOrigin allowedOrigins (q_origin q)) of Some resp \<Rightarrow> throw resp
            | None \<Rightarrow> ret (ToLower (Addr res), Expires res))))))"

subsection \<open>What a frame may hold\<close>

text \<open>A notification as the hub handles it: its channel, its payload, and the state it found the tables in.\<close>

type_synonym notification = "string \<times> string \<times> world"

text \<open>The event a notification about message \<open>i\<close> leads to, and the message \<open>j\<close> it shows: the message itself,
  or for a new message that is a reaction its subject.  A reaction is taken for a new message only where the
  one statement that looks for its subject failed.\<close>

definition item_event :: "env \<Rightarrow> string \<Rightarrow> int \<Rightarrow> world \<Rightarrow> string \<Rightarrow> int \<Rightarrow> bool" where
  "item_event E ch i w ev j \<longleftrightarrow>
     ch = ''new_msg'' \<and> ev = eventReaction \<and> subject_of E (files w) (db w) i = Some j
     \<or> ch = ''new_msg'' \<and> ev = eventNewMsg \<and> j = i \<and> (subject_of E (files w) (db w) i = None \<or> e_fail E (tick w))
     \<or> (ch, ev) \<in> {(''delivered'', eventDelivered), (''msg_read'', eventRead), (''msg_trash'', eventTrash),
          (''recipients_added'', eventRecipientsAdded)} \<and> j = i"

text \<open>What a client of address \<open>a\<close> may be sent for a notification.  A message, if the notification names \<open>a\<close>, with
  the event of its channel, as the tables had it: never one that \<open>a\<close> had deleted for good, and with \<open>a\<close>'s own
  trash state.  The end of a message, only for \<open>a\<close>'s own trash notification and only if \<open>a\<close> had deleted it for
  good or it was no more (or a statement failed).  An indicator, exactly the one of the payload with the first
  message of its thread, only if \<open>a\<close> took part in its message and did not set it.\<close>

definition frame_for :: "env \<Rightarrow> string \<Rightarrow> notification \<Rightarrow> wsEnvelope \<Rightarrow> bool" where
  "frame_for E a nt f \<longleftrightarrow> (case nt of (ch, payload, w) \<Rightarrow> (case EvData f of
     DataItem it \<Rightarrow> (\<exists>i addr m. parseNotifyPayload payload = Some (i, addr) \<and> ToLower addr = a
        \<and> item_event E ch i w (EvType f) (ItemID it)
        \<and> find_msg (db w) (ItemID it) = Some m \<and> From it = m_from m \<and> Topic it = m_topic m
        \<and> fmsg_api_trash_state (db w) a (ItemID it) \<noteq> Some Purged
        \<and> Trash it = map_option trash_text (fmsg_api_trash_state (db w) a (ItemID it)))
   | DataGone i \<Rightarrow> ch = ''msg_trash'' \<and> EvType f = eventTrash
        \<and> (\<exists>addr. parseNotifyPayload payload = Some (i, addr) \<and> ToLower addr = a)
        \<and> (fmsg_api_trash_state (db w) a i = Some Purged \<or> find_msg (db w) i = None \<or> (\<exists>n \<ge> tick w. e_fail E n))
   | DataIndicator ind \<Rightarrow> ch = IndicatorChannel \<and> EvType f = eventIndicator
        \<and> (\<exists>ind0. unmarshal_indicator payload = Some ind0 \<and> ind = ind0\<lparr>RootID :=
              if thread_root (db w) (IndID ind0) = 0 then IndID ind0 else thread_root (db w) (IndID ind0)\<rparr>)
        \<and> ToLower (IndFrom ind) \<noteq> a \<and> a \<in> ToLower ` set (audience_addrs (db w) (IndID ind))))"

lemma keeps_loadReactions [keeps_intros]: "keeps (\<lambda>w. P (db w)) (loadReactions E is)"
  unfolding loadReactions_def loadReactionRows_def by (intro keeps_intros)

lemma keeps_query_read_time [keeps_intros]: "keeps (\<lambda>w. P (db w)) (query_read_time E i a)"
  unfolding query_read_time_def
proof (rule keeps_stmt)
  fix d x d1
  assume "P d" and "map_sum id (\<lambda>t. (t, d)) (read_time d i a) = Inr (x, d1)"
  then show "P d1" by (cases "read_time d i a") auto
qed

lemma messageItemFor_Inr:
  assumes "messageItemFor E i addr w = (Inr (Some it), w1)"
  shows "\<exists>m. find_msg (db w) i = Some m \<and> ItemID it = i \<and> From it = m_from m \<and> Topic it = m_topic m
    \<and> (purged it \<longleftrightarrow> fmsg_api_trash_state (db w) (ToLower addr) i = Some Purged)
    \<and> (\<not> purged it \<longrightarrow> Trash it = map_option trash_text (fmsg_api_trash_state (db w) (ToLower addr) i))
    \<and> db w1 = db w"
proof -
  from assms obtain fm w2 where f: "fetchMessage E i w = (Inr fm, w2)"
    and k: "(case fm of Inl _ \<Rightarrow> ret None | Inr None \<Rightarrow> ret None
      | Inr (Some (msg, path)) \<Rightarrow> bind get_world (\<lambda>w. bind (loadReactions E [i]) (\<lambda>rs.
         bind (query_read_time E i (ToLower addr)) (\<lambda>q. bind (trashStateQ E addr i) (\<lambda>st. case st of Inl _ \<Rightarrow> ret None
           | Inr state \<Rightarrow> let t = (case q of Inl _ \<Rightarrow> None | Inr t \<Rightarrow> t) in
             ret (Some (message.extend (msg\<lparr>ShortText := extractShortText E (files w) path (Type msg),
             MsgReaction := message_reaction E (files w) msg path, Reactions := rs i, TimeRead := t, Read := (t \<noteq> None),
             Trash := (if state = Some Purged then None else map_option trash_text state)\<rparr>)
           \<lparr>ItemID = i, dataPath = path, purged = (state = Some Purged)\<rparr>))))))) w2 = (Inr (Some it), w1)"
    by (auto simp: messageItemFor_def bind_Inr)
  from k obtain msg path where fm: "fm = Inr (Some (msg, path))"
    by (auto simp: ret_eq split: sum.splits option.splits prod.splits)
  with f have rm: "require_message E i w = (Inr (msg, path), w2)" by (simp add: require_message_def require_row_Inr)
  from require_message_Inr [OF this] obtain r to dl ad at where r: "find_msg (db w) i = Some r" "msg = row_message r to dl ad at"
    and d: "db w2 = db w" by blast
  define items where "items = (\<lambda>rs :: int \<Rightarrow> Reaction list. \<lambda>t state. message.extend (msg\<lparr>ShortText := extractShortText E (files w2) path (Type msg),
             MsgReaction := message_reaction E (files w2) msg path, Reactions := rs i, TimeRead := t, Read := (t \<noteq> None),
             Trash := (if state = Some Purged then None else map_option trash_text state)\<rparr>)
           \<lparr>ItemID = i, dataPath = path, purged = (state = Some Purged)\<rparr>)"
  from k [unfolded fm sum.case option.case prod.case run_Inr Let_def, folded items_def] obtain rs w3 q w4 st0 w5 where
    l: "loadReactions E [i] w2 = (Inr rs, w3)" and q: "query_read_time E i (ToLower addr) w3 = (Inr q, w4)"
    and t0: "trashStateQ E addr i w4 = (Inr st0, w5)"
    and k2: "(case st0 of Inl _ \<Rightarrow> ret None | Inr state \<Rightarrow> ret (Some (items rs (case q of Inl _ \<Rightarrow> None | Inr t \<Rightarrow> t) state))) w5
       = (Inr (Some it) :: response + _, w1)"
    unfolding items_def by blast
  from k2 obtain st where st0: "st0 = Inr st" and it: "it = items rs (case q of Inl _ \<Rightarrow> None | Inr t \<Rightarrow> t) st" and w5: "w1 = w5"
    by (auto simp: ret_eq split: sum.splits)
  have d4: "db w4 = db w"
    using same_db [OF keeps_loadReactions l] same_db [OF keeps_query_read_time q] d by simp
  from t0 st0 d4 have "st = fmsg_api_trash_state (db w) (ToLower addr) i" "db w5 = db w" by (simp_all add: trashStateQ_Inr)
  with r it w5 show ?thesis by (simp add: items_def row_message_def message.extend_def)
qed

text \<open>Outside a transaction a failed statement leaves no trace but its tick.\<close>

definition pooled :: "nat \<Rightarrow> world \<Rightarrow> bool" where
  "pooled k w \<longleftrightarrow> \<not> intx w \<and> \<not> aborted w \<and> k \<le> tick w"

lemma pooled_fetchMessage:
  "fetchMessage E i w = (Inr r, w1) \<Longrightarrow> pooled k w \<Longrightarrow> pooled k w1 \<and> db w1 = db w
     \<and> (r \<in> {Inl SqlFailed, Inr None} \<longrightarrow> e_fail E (tick w) \<or> find_msg (db w) i = None) \<and> (\<exists>x. r = Inr x \<or> r = Inl SqlFailed)"
  by (auto simp: fetchMessage_def loadRecipients_def loadAddToBatches_def loadAttachments_def pooled_def act_defs Let_def
      split: option.splits if_splits)

lemma pooled_loadReactions: "loadReactions E is w = (Inr r, w1) \<Longrightarrow> pooled k w \<Longrightarrow> pooled k w1"
  by (auto simp: loadReactions_def loadReactionRows_def pooled_def act_defs Let_def split: if_splits)

lemma pooled_query_read_time: "query_read_time E i a w = (Inr r, w1) \<Longrightarrow> pooled k w \<Longrightarrow> pooled k w1"
  by (auto simp: query_read_time_def pooled_def stmt_def Let_def split: if_splits sum.splits prod.splits)

lemma pooled_trashStateQ: "trashStateQ E a i w = (Inr (Inl e), w1) \<Longrightarrow> pooled k w \<Longrightarrow> e_fail E (tick w)"
  by (auto simp: trashStateQ_def pooled_def act_defs Let_def split: if_splits)

lemma messageItemFor_None:
  assumes "messageItemFor E i addr w = (Inr None, w1)" and "pooled k w"
  shows "find_msg (db w) i = None \<or> (\<exists>n \<ge> k. e_fail E n)"
proof -
  from assms(1) [unfolded messageItemFor_def bind_Inr] obtain fm w2 where f: "fetchMessage E i w = (Inr fm, w2)"
    and rest: "(case fm of Inl _ \<Rightarrow> ret None | Inr None \<Rightarrow> ret None
      | Inr (Some (msg, path)) \<Rightarrow> bind get_world (\<lambda>w. bind (loadReactions E [i]) (\<lambda>rs.
         bind (query_read_time E i (ToLower addr)) (\<lambda>q. bind (trashStateQ E addr i) (\<lambda>st. case st of Inl _ \<Rightarrow> ret None
           | Inr state \<Rightarrow> let t = (case q of Inl _ \<Rightarrow> None | Inr t \<Rightarrow> t) in
             ret (Some (message.extend (msg\<lparr>ShortText := extractShortText E (files w) path (Type msg),
             MsgReaction := message_reaction E (files w) msg path, Reactions := rs i, TimeRead := t, Read := (t \<noteq> None),
             Trash := (if state = Some Purged then None else map_option trash_text state)\<rparr>)
           \<lparr>ItemID = i, dataPath = path, purged = (state = Some Purged)\<rparr>))))))) w2 = (Inr None, w1)"
    by blast
  note F = pooled_fetchMessage [OF f assms(2)]
  show ?thesis
  proof (cases "fm \<in> {Inl SqlFailed, Inr None}")
    case True
    with F assms(2) show ?thesis by (auto simp: pooled_def)
  next
    case False
    from F obtain x where "fm = Inr x \<or> fm = Inl SqlFailed" by blast
    with False have x: "fm = Inr x" "x \<noteq> None" by auto
    then obtain msg path where fm: "fm = Inr (Some (msg, path))" by (cases x) auto
    define item where "item = (\<lambda>rs :: int \<Rightarrow> Reaction list. \<lambda>t state. message.extend (msg\<lparr>ShortText := extractShortText E (files w2) path (Type msg),
             MsgReaction := message_reaction E (files w2) msg path, Reactions := rs i, TimeRead := t, Read := (t \<noteq> None),
             Trash := (if state = Some Purged then None else map_option trash_text state)\<rparr>)
           \<lparr>ItemID = i, dataPath = path, purged = (state = Some Purged)\<rparr>)"
    from rest [unfolded fm sum.case option.case prod.case run_Inr Let_def] obtain rs w3 q w4 st w5 where
      l: "loadReactions E [i] w2 = (Inr rs, w3)" and q: "query_read_time E i (ToLower addr) w3 = (Inr q, w4)"
      and t: "trashStateQ E addr i w4 = (Inr st, w5)"
      and n: "(case st of Inl _ \<Rightarrow> ret None | Inr state \<Rightarrow> ret (Some (item rs (case q of Inl _ \<Rightarrow> None | Inr t \<Rightarrow> t) state))) w5
        = (Inr None :: response + _, w1)"
      unfolding item_def by blast
    have p: "pooled k w4" using pooled_query_read_time [OF q] pooled_loadReactions [OF l] F by blast
    from n obtain e where "st = Inl e" by (cases st) (auto simp: ret_eq)
    with pooled_trashStateQ [OF _ p] t have "e_fail E (tick w4)" by blast
    with p show ?thesis by (auto simp: pooled_def)
  qed
qed

subsection \<open>What a notification leads to\<close>

definition outgoing_ok :: "env \<Rightarrow> registry \<Rightarrow> notification \<Rightarrow> outgoing \<Rightarrow> bool" where
  "outgoing_ok E r nt out \<longleftrightarrow> (case out of None \<Rightarrow> True
     | Some (ns, f) \<Rightarrow> (\<forall>n \<in> set ns. \<exists>a as. r a = Some as \<and> n \<in> set as \<and> frame_for E a nt f))"

lemma clientsOf_registry: "n \<in> set (clientsOf r addr) \<Longrightarrow> \<exists>ns. r (ToLower addr) = Some ns \<and> n \<in> set ns"
  by (cases "r (ToLower addr)") (simp_all add: clientsOf_def)

lemma outgoing_clients:
  "frame_for E (ToLower addr) nt f \<Longrightarrow> outgoing_ok E r nt (Some (clientsOf r addr, f))"
  unfolding outgoing_ok_def using clientsOf_registry [of _ r addr] by fastforce

lemma item_frame:
  assumes "messageItemFor E j addr w2 = (Inr (Some it), w1)" and "\<not> purged it" and "db w2 = db w"
    and "parseNotifyPayload payload = Some (i, addr)" and "item_event E ch i w ev j"
  shows "frame_for E (ToLower addr) (ch, payload, w) \<lparr>EvType = ev, EvData = DataItem it\<rparr>"
  using messageItemFor_Inr [OF assms(1)] assms(2-5) by (auto simp: frame_for_def)

lemma dispatch_ok:
  assumes "dispatch E r j addr ev w2 = (Inr out, w1)" and "db w2 = db w"
    and "parseNotifyPayload payload = Some (i, addr)" and "item_event E ch i w ev j"
  shows "outgoing_ok E r (ch, payload, w) out"
proof (cases out)
  case None
  then show ?thesis by (simp add: outgoing_ok_def)
next
  case (Some p)
  with assms(1) obtain it w3 where "messageItemFor E j addr w2 = (Inr (Some it), w3)" "\<not> purged it"
    "p = (clientsOf r addr, \<lparr>EvType = ev, EvData = DataItem it\<rparr>)"
    by (auto simp: dispatch_def Let_def bind_Inr ret_eq split: option.splits if_splits)
  with item_frame [OF _ _ assms(2-4)] outgoing_clients Some show ?thesis by blast
qed

lemma dispatchTrash_ok:
  assumes "dispatchTrash E r i addr w = (Inr out, w1)" and "parseNotifyPayload payload = Some (i, addr)"
    and "pooled (tick w) w"
  shows "outgoing_ok E r (''msg_trash'', payload, w) out"
proof (cases out)
  case None
  then show ?thesis by (simp add: outgoing_ok_def)
next
  case (Some p)
  let ?gone = "\<lparr>EvType = eventTrash, EvData = DataGone i\<rparr>"
  from assms(1) Some obtain item w3 where m: "messageItemFor E i addr w = (Inr item, w3)"
    and p: "p = (clientsOf r addr, (case item of None \<Rightarrow> ?gone | Some it \<Rightarrow>
        if purged it then ?gone else \<lparr>EvType = eventTrash, EvData = DataItem it\<rparr>))"
    by (auto simp: dispatchTrash_def Let_def bind_Inr ret_eq split: option.splits if_splits)
  have "frame_for E (ToLower addr) (''msg_trash'', payload, w) (snd p)"
  proof (cases item)
    case None
    with messageItemFor_None [of E i addr w w3 "tick w"] m p assms(2,3) show ?thesis by (auto simp: frame_for_def)
  next
    case (Some it)
    show ?thesis
    proof (cases "purged it")
      case True
      with messageItemFor_Inr [OF m [unfolded Some]] p Some assms(2) show ?thesis by (auto simp: frame_for_def)
    next
      case False
      with p Some item_frame [OF m [unfolded Some] False refl assms(2), of "''msg_trash''" eventTrash] show ?thesis
        by (simp add: item_event_def)
    qed
  qed
  with Some p outgoing_clients [of E addr "(''msg_trash'', payload, w)" "snd p" r] show ?thesis by simp
qed

lemma audience_clients_registry:
  "n \<in> set (audience_clients r seen as) \<Longrightarrow>
     \<exists>a \<in> set as. ToLower a \<notin> set seen \<and> n \<in> set (clientsOf r a)"
  by (induction as arbitrary: seen) (fastforce split: if_splits)+

lemma indicatorAudience_Inr:
  "indicatorAudience E i w = (Inr (Some (addrs, root)), w1) \<Longrightarrow> addrs = audience_addrs (db w) i
     \<and> root = (if thread_root (db w) i = 0 then i else thread_root (db w) i)"
  by (auto simp: indicatorAudience_def act_defs Let_def split: if_splits)

lemma routeIndicator_ok:
  assumes "routeIndicator E r payload w = (Inr out, w1)"
  shows "outgoing_ok E r (IndicatorChannel, payload, w) out"
proof (cases out)
  case None
  then show ?thesis by (simp add: outgoing_ok_def)
next
  case (Some p)
  from assms [unfolded Some routeIndicator_def] obtain ind where ind: "unmarshal_indicator payload = Some ind"
    and "bind (indicatorAudience E (IndID ind)) (\<lambda>au. case au of None \<Rightarrow> ret None
         | Some (addrs, root) \<Rightarrow>
           (let clients = audience_clients r [ToLower (IndFrom ind)] addrs in
            if clients = [] then ret None
            else ret (Some (clients, \<lparr>EvType = eventIndicator, EvData = DataIndicator (ind\<lparr>RootID := root\<rparr>)\<rparr>)))) w
       = (Inr (Some p) :: response + _, w1)"
    by (auto simp: ret_eq split: option.splits if_splits)
  then obtain au w2 where au: "indicatorAudience E (IndID ind) w = (Inr au :: response + _, w2)"
    and k: "(case au of None \<Rightarrow> ret None
         | Some (addrs, root) \<Rightarrow>
           (let clients = audience_clients r [ToLower (IndFrom ind)] addrs in
            if clients = [] then ret None
            else ret (Some (clients, \<lparr>EvType = eventIndicator, EvData = DataIndicator (ind\<lparr>RootID := root\<rparr>)\<rparr>)))) w2
       = (Inr (Some p) :: response + _, w1)"
    unfolding bind_Inr by blast
  from k obtain addrs root where "au = Some (addrs, root)"
    and p: "p = (audience_clients r [ToLower (IndFrom ind)] addrs, \<lparr>EvType = eventIndicator, EvData = DataIndicator (ind\<lparr>RootID := root\<rparr>)\<rparr>)"
    by (cases au) (auto simp: Let_def ret_eq split: if_splits prod.splits)
  with au have "indicatorAudience E (IndID ind) w = (Inr (Some (addrs, root)) :: response + _, w2)" by simp
  from indicatorAudience_Inr [OF this] have a: "addrs = audience_addrs (db w) (IndID ind)"
    "root = (if thread_root (db w) (IndID ind) = 0 then IndID ind else thread_root (db w) (IndID ind))" by blast+
  show ?thesis unfolding outgoing_ok_def Some option.case p prod.case
  proof
    fix n
    assume "n \<in> set (audience_clients r [ToLower (IndFrom ind)] addrs)"
    then obtain b where b: "b \<in> set addrs" "ToLower b \<noteq> ToLower (IndFrom ind)" "n \<in> set (clientsOf r b)"
      using audience_clients_registry by fastforce
    from clientsOf_registry [OF b(3)] obtain ns where "r (ToLower b) = Some ns" "n \<in> set ns" by blast
    moreover have "frame_for E (ToLower b) (IndicatorChannel, payload, w)
        \<lparr>EvType = eventIndicator, EvData = DataIndicator (ind\<lparr>RootID := root\<rparr>)\<rparr>"
      using a b ind by (auto simp: frame_for_def)
    ultimately show "\<exists>a as. r a = Some as \<and> n \<in> set as
      \<and> frame_for E a (IndicatorChannel, payload, w) \<lparr>EvType = eventIndicator, EvData = DataIndicator (ind\<lparr>RootID := root\<rparr>)\<rparr>" by blast
  qed
qed

lemma reactionSubject_Inr:
  assumes "reactionSubject E i w = (Inr s, w1)"
  shows "db w1 = db w \<and> (s = None \<longrightarrow> subject_of E (files w) (db w) i = None \<or> aborted w \<or> e_fail E (tick w))
    \<and> (s \<noteq> None \<longrightarrow> subject_of E (files w) (db w) i = s)"
  using assms by (auto simp: reactionSubject_def act_defs Let_def split: if_splits)

lemma route_ok:
  assumes "route E r ch i addr w = (Inr (push, out), w1)" and "parseNotifyPayload payload = Some (i, addr)"
    and "pooled (tick w) w"
  shows "outgoing_ok E r (ch, payload, w) out"
proof (cases "ch = ''new_msg''")
  case True
  with assms(1) obtain s w2 where s: "reactionSubject E i w = (Inr s, w2)"
    and run: "\<exists>w3. dispatch E r (case s of Some j \<Rightarrow> j | None \<Rightarrow> i) addr (case s of Some _ \<Rightarrow> eventReaction | None \<Rightarrow> eventNewMsg) w2
        = (Inr out, w3)"
    by (auto simp: route_def Let_def bind_Inr ret_eq split: option.splits)
  have "item_event E ch i w (case s of Some _ \<Rightarrow> eventReaction | None \<Rightarrow> eventNewMsg) (case s of Some j \<Rightarrow> j | None \<Rightarrow> i)"
    using reactionSubject_Inr [OF s] assms(3) True by (auto simp: item_event_def pooled_def split: option.split)
  with run dispatch_ok [OF _ _ assms(2)] reactionSubject_Inr [OF s] show ?thesis by blast
next
  case new: False
  have d: "outgoing_ok E r (ch, payload, w) out" if "dispatch E r i addr ev w = (Inr out, w1)" and "item_event E ch i w ev i" for ev
    using dispatch_ok [OF that(1) refl assms(2) that(2)] .
  show ?thesis
  proof (cases "ch = ''msg_trash''")
    case True
    with assms(1) have "dispatchTrash E r i addr w = (Inr out, w1)" by (auto simp: route_def Let_def bind_Inr ret_eq)
    from dispatchTrash_ok [OF this assms(2,3)] True show ?thesis by simp
  next
    case False
    note run = assms(1) [unfolded route_def Let_def if_not_P [OF new] if_not_P [OF False]]
    consider "ch = ''delivered''" | "ch = ''msg_read''" | "ch = ''recipients_added''"
      | "ch \<notin> {''delivered'', ''msg_read'', ''recipients_added''}" by blast
    then show ?thesis
    proof cases
      case 1
      with run d [of eventDelivered] show ?thesis by (simp add: bind_Inr ret_eq item_event_def)
    next
      case 2
      with run d [of eventRead] show ?thesis by (simp add: bind_Inr ret_eq item_event_def)
    next
      case 3
      with run d [of eventRecipientsAdded] show ?thesis by (simp add: bind_Inr ret_eq item_event_def)
    next
      case 4
      with run show ?thesis by (simp add: ret_eq outgoing_ok_def)
    qed
  qed
qed

lemma handle_ok:
  assumes "handle_notification E r channel payload w = (Inr (push, out), w1)" and "pooled (tick w) w"
  shows "outgoing_ok E r (channel, payload, w) out"
proof (cases "channel = IndicatorChannel")
  case True
  with assms(1) have "\<exists>w2. routeIndicator E r payload w = (Inr out, w2)"
    by (auto simp: handle_notification_def bind_Inr ret_eq)
  with True routeIndicator_ok show ?thesis by blast
next
  case False
  show ?thesis
  proof (cases "parseNotifyPayload payload")
    case None
    with False assms(1) show ?thesis by (auto simp: handle_notification_def ret_eq outgoing_ok_def)
  next
    case (Some ia)
    with False assms(1) route_ok [OF _ _ assms(2)] show ?thesis by (cases ia) (auto simp: handle_notification_def)
  qed
qed

subsection \<open>The registry is the set of connected clients\<close>

text \<open>Sets of values under keys, emptied and filled one value at a time, and what a list of such operations
  comes to.\<close>

locale keyed_sets =
  fixes none :: 'r
    and put :: "'r \<Rightarrow> 'k \<Rightarrow> 'v \<Rightarrow> 'r"
    and take_out :: "'r \<Rightarrow> 'k \<Rightarrow> 'v \<Rightarrow> 'r"
    and members :: "'r \<Rightarrow> 'k \<Rightarrow> 'v set"
  assumes members_none: "members none k = {}"
    and members_put: "members (put r k x) j = (if j = k then insert x (members r k) else members r j)"
    and members_take_out: "members (take_out r k x) j = (if j = k then members r k - {x} else members r j)"
begin

definition pairs :: "'r \<Rightarrow> ('k \<times> 'v) set" where
  "pairs r = {(k, x). x \<in> members r k}"

lemma pairs_none: "pairs none = {}"
  by (simp add: pairs_def members_none)

lemma pairs_put: "pairs (put r k x) = insert (k, x) (pairs r)"
  by (auto simp: pairs_def members_put split: if_splits)

lemma pairs_take_out: "pairs (take_out r k x) = pairs r - {(k, x)}"
  by (auto simp: pairs_def members_take_out split: if_splits)

lemma pairs_run:
  "pairs (foldl (\<lambda>r (add, k, x). if add then put r k x else take_out r k x) r evs)
     = foldl (\<lambda>S (add, k, x). if add then insert (k, x) S else S - {(k, x)}) (pairs r) evs"
  by (induction evs arbitrary: r) (auto simp: pairs_put pairs_take_out)

lemma members_run:
  "x \<in> members (foldl (\<lambda>r (add, k, x). if add then put r k x else take_out r k x) none evs) k
     \<longleftrightarrow> (k, x) \<in> foldl (\<lambda>S (add, k, x). if add then insert (k, x) S else S - {(k, x)}) {} evs"
  unfolding pairs_run [of none evs, unfolded pairs_none, symmetric] by (simp add: pairs_def)

end

definition registered :: "registry \<Rightarrow> string \<Rightarrow> nat set" where
  "registered r a = (case r a of None \<Rightarrow> {} | Some ns \<Rightarrow> set ns)"

interpretation reg: keyed_sets "Map.empty :: registry" Register Unregister registered
proof unfold_locales
  show "registered Map.empty k = {}" for k by (simp add: registered_def)
  show "registered (Register r k x) j = (if j = k then insert x (registered r k) else registered r j)" for r k x j
    by (auto simp: registered_def Register_def Let_def split: option.splits)
  show "registered (Unregister r k x) j = (if j = k then registered r k - {x} else registered r j)" for r k x j
  proof (cases "r k")
    case None
    then show ?thesis by (simp add: registered_def Unregister_def)
  next
    case (Some ns)
    have e: "set ns - {x} = {}" if "removeAll x ns = []" using that set_removeAll [of x ns] by simp
    from Some e show ?thesis by (auto simp: registered_def Unregister_def Let_def split: if_splits)
  qed
qed

text \<open>The connections (\<open>True\<close>) and disconnections of a running hub.\<close>

definition registry_run :: "(bool \<times> string \<times> nat) list \<Rightarrow> registry" where
  "registry_run evs = foldl (\<lambda>r (add, a, n). if add then Register r a n else Unregister r a n) Map.empty evs"

definition connected_run :: "(bool \<times> string \<times> nat) list \<Rightarrow> (string \<times> nat) set" where
  "connected_run evs = foldl (\<lambda>S (add, a, n). if add then insert (a, n) S else S - {(a, n)}) {} evs"

text \<open>The registry refines the set of connected clients: after any connections and disconnections, the
  clients found for an address, in any case, are exactly those that connected under it and have not left.\<close>

theorem registry_refines:
  "n \<in> set (clientsOf (registry_run evs) addr) \<longleftrightarrow> (ToLower addr, n) \<in> connected_run evs"
proof -
  have "set (clientsOf r addr) = registered r (ToLower addr)" for r
    by (simp add: clientsOf_def registered_def split: option.splits)
  with reg.members_run [of n evs "ToLower addr"] show ?thesis by (simp add: registry_run_def connected_run_def)
qed

subsection \<open>Notifications\<close>

lemma parse_notify:
  assumes "- (2 ^ 63) \<le> i" and "i < 2 ^ 63" and "addr \<noteq> []"
  shows "parseNotifyPayload (Itoa i @ '','' @ addr) = Some (i, addr)"
  using assms Itoa_no_comma [of i]
  by (simp add: parseNotifyPayload_def Cut_def takeWhile_append_found dropWhile_append_found ParseInt_Itoa)

text \<open>What a mailbox change publishes is what the hub understands: the payloads \<open>notifyTrash\<close> commits are
  read back as the message and the address they were written for, and where no statement fails there is one
  for every message.\<close>

theorem notify_roundtrip:
  assumes "notifyTrash E addr ms w = (Inr u, w1)" and "addr \<noteq> []"
    and "\<forall>i \<in> set ms. - (2 ^ 63) \<le> i \<and> i < 2 ^ 63"
  shows "\<exists>ps. noted (db w1) = noted (db w) @ map (Pair ''msg_trash'') ps
    \<and> (\<forall>p \<in> set ps. \<exists>i \<in> set ms. parseNotifyPayload p = Some (i, addr))
    \<and> ((\<forall>n. \<not> e_fail E n) \<and> \<not> aborted w \<longrightarrow> map parseNotifyPayload ps = map (\<lambda>i. Some (i, addr)) ms)"
  using assms
proof (induction ms arbitrary: w)
  case Nil
  then show ?case by (auto simp: notifyTrash_def ret_def)
next
  case (Cons i ms)
  obtain w2 where run: "notifyTrash E addr ms w2 = (Inr u, w1)"
    and w2: "db w2 = notify ''msg_trash'' (Itoa i @ '','' @ addr) (db w) \<or> db w2 = db w \<and> ((\<exists>n. e_fail E n) \<or> aborted w)"
    and ab: "(\<forall>n. \<not> e_fail E n) \<and> \<not> aborted w \<longrightarrow> \<not> aborted w2"
  proof -
    let ?ex = "sql_exec E (notify ''msg_trash'' (Itoa i @ '','' @ addr)) w :: (response + _) \<times> _"
    from Cons.prems(1) obtain r w2 where ex: "?ex = (Inr r, w2)" and rest: "notifyTrash E addr ms w2 = (Inr u, w1)"
      unfolding notifyTrash_def each.simps bind_Inr ret_eq by blast
    from ex have "db w2 = notify ''msg_trash'' (Itoa i @ '','' @ addr) (db w) \<or> db w2 = db w \<and> ((\<exists>n. e_fail E n) \<or> aborted w)"
      "(\<forall>n. \<not> e_fail E n) \<and> \<not> aborted w \<longrightarrow> \<not> aborted w2"
      by (auto simp: sql_exec_def stmt_def Let_def split: if_splits)
    with rest show ?thesis by (rule that)
  qed
  have p: "parseNotifyPayload (Itoa i @ '','' @ addr) = Some (i, addr)"
    using Cons.prems(2,3) by (intro parse_notify) auto
  from Cons.IH [OF run Cons.prems(2)] Cons.prems(3) obtain ps where ps: "noted (db w1) = noted (db w2) @ map (Pair ''msg_trash'') ps"
    "\<forall>p \<in> set ps. \<exists>i \<in> set ms. parseNotifyPayload p = Some (i, addr)"
    "(\<forall>n. \<not> e_fail E n) \<and> \<not> aborted w2 \<longrightarrow> map parseNotifyPayload ps = map (\<lambda>i. Some (i, addr)) ms" by auto
  from w2 show ?case
  proof
    assume "db w2 = notify ''msg_trash'' (Itoa i @ '','' @ addr) (db w)"
    with ps p ab show ?thesis by (intro exI [of _ "(Itoa i @ '','' @ addr) # ps"]) (auto simp: notify_def)
  next
    assume "db w2 = db w \<and> ((\<exists>n. e_fail E n) \<or> aborted w)"
    with ps show ?thesis by (intro exI [of _ ps]) auto
  qed
qed

theorem notify_roundtrip_witness:
  "\<exists>ps. noted (db (snd (notifyTrash example_env ''@al@ex.org'' [7, 8] trash_world))) = map (Pair ''msg_trash'') ps
    \<and> map parseNotifyPayload ps = [Some (7, ''@al@ex.org''), Some (8, ''@al@ex.org'')]"
proof -
  let ?r = "notifyTrash example_env ''@al@ex.org'' [7, 8] trash_world"
  have "fst ?r = Inr ()" and n: "noted (db trash_world) = []" "\<not> aborted trash_world" by code_simp+
  then have run: "?r = (Inr (), snd ?r)" by (metis prod.collapse)
  show ?thesis using notify_roundtrip [OF run] n example_env_runs by auto
qed

text \<open>A new message that is a reaction is never announced as a new message and starts no Web Push: its
  subject is sent as a reaction event.  Any other new message starts a Web Push, also when nobody is
  connected, and is sent as a new message.\<close>

theorem route_new_message:
  assumes "route E r ''new_msg'' i addr w = (Inr (push, out), w1)"
  shows "\<exists>s w0. reactionSubject E i w = (Inr s, w0) \<and> (case s of
      None \<Rightarrow> push = Some (i, addr) \<and> (\<forall>ns f. out = Some (ns, f) \<longrightarrow> ns = clientsOf r addr \<and> EvType f = eventNewMsg
          \<and> (\<exists>it. EvData f = DataItem it \<and> ItemID it = i))
    | Some subject \<Rightarrow> push = None \<and> (\<forall>ns f. out = Some (ns, f) \<longrightarrow> ns = clientsOf r addr \<and> EvType f = eventReaction
          \<and> (\<exists>it. EvData f = DataItem it \<and> ItemID it = subject)))"
proof -
  have d: "ns = clientsOf r addr \<and> EvType f = ev \<and> (\<exists>it. EvData f = DataItem it \<and> ItemID it = j)"
    if "dispatch E r j addr ev w0 = (Inr (Some (ns, f)), w1)" for j ev w0 ns f
    using that messageItemFor_Inr
    by (fastforce simp: dispatch_def Let_def bind_Inr ret_eq split: option.splits if_splits)
  from assms [unfolded route_def Let_def] obtain s w0 where s: "reactionSubject E i w = (Inr s, w0)"
    and k: "(case s of Some subject \<Rightarrow> bind (dispatch E r subject addr eventReaction) (\<lambda>out. ret (None, out))
       | None \<Rightarrow> bind (dispatch E r i addr eventNewMsg) (\<lambda>out. ret (Some (i, addr), out))) w0 = (Inr (push, out), w1)"
    by (auto simp: bind_Inr)
  from k d show ?thesis using s by (cases s) (auto simp: bind_Inr ret_eq)
qed

text \<open>The waits between attempts to listen stay between 1 and 32 seconds, double with every attempt that
  does not get through, and start over at 1 when one does.  (They pass \<open>maxBackoff\<close>, which is 30 seconds.)\<close>

theorem run_waits_spec:
  "list_all (\<lambda>b. 1 \<le> b \<and> b \<le> 32) (run_waits 1 attempts)
    \<and> run_waits 1 (replicate n False) = map (\<lambda>k. min (2 ^ k) 32) [0..<n]
    \<and> run_waits b (True # attempts) = run_waits 1 (True # attempts)"
proof -
  have "list_all (\<lambda>b. 1 \<le> b \<and> b \<le> 32) (run_waits b attempts)" if "\<exists>k \<le> 5. b = 2 ^ k" for b
    using that
  proof (induction attempts arbitrary: b)
    case Nil
    show ?case by simp
  next
    case (Cons c cs)
    have step: "\<exists>k \<le> 5. (if x < maxBackoff then 2 * x else x) = 2 ^ k" if x: "\<exists>k \<le> 5. x = 2 ^ k" for x
    proof -
      from x obtain k where k: "k \<le> 5" "x = 2 ^ k" by blast
      then have "k \<in> {0, 1, 2, 3, 4, 5}" by auto
      with k show ?thesis by (auto simp: maxBackoff_def intro: exI [of _ "Suc k"])
    qed
    have one: "\<exists>k \<le> 5. (1 :: int) = 2 ^ k" by (intro exI [of _ 0]) simp
    have le: "1 \<le> b \<and> b \<le> 32"
      using Cons.prems power_increasing [of _ 5 "2 :: int"] by auto
    show ?case using Cons.IH [OF step [OF Cons.prems]] Cons.IH [OF step [OF one]] le by (simp add: Let_def)
  qed
  from this [of 1] have "list_all (\<lambda>b. 1 \<le> b \<and> b \<le> 32) (run_waits 1 attempts)"
    by (metis le0 power_0)
  moreover have "run_waits (min (2 ^ m) 32) (replicate n False) = map (\<lambda>k. min (2 ^ k) 32) [m..<m + n]" for m
  proof (induction n arbitrary: m)
    case 0
    show ?case by simp
  next
    case (Suc n)
    have nxt: "(if min (2 ^ m) 32 < maxBackoff then 2 * min (2 ^ m) 32 else min (2 ^ m) 32) = (min (2 ^ Suc m) 32 :: int)"
    proof (cases "m \<le> 4")
      case True
      then have "m \<in> {0, 1, 2, 3, 4}" by auto
      then show ?thesis by (auto simp: maxBackoff_def)
    next
      case False
      then have "(2 :: int) ^ 5 \<le> 2 ^ m" by (intro power_increasing) auto
      then show ?thesis by (simp add: maxBackoff_def)
    qed
    have up: "[m..<m + Suc n] = m # [Suc m..<Suc m + n]" by (simp add: upt_rec)
    show ?case using Suc [of "Suc m"] nxt unfolding up by (simp add: Let_def)
  qed
  from this [of 0] have "run_waits 1 (replicate n False) = map (\<lambda>k. min (2 ^ k) 32) [0..<n]" by simp
  ultimately show ?thesis by simp
qed

theorem route_new_message_witness:
  "\<exists>out. fst (route example_env [''@bo@ex.org'' \<mapsto> [3]] ''new_msg'' 1 ''@Bo@ex.org'' trash_world) = Inr (Some (1, ''@Bo@ex.org''), out)
     \<and> (\<forall>ns f. out = Some (ns, f) \<longrightarrow> ns = [3] \<and> EvType f = eventNewMsg)"
proof -
  let ?r = "route example_env [''@bo@ex.org'' \<mapsto> [3]] ''new_msg'' 1 ''@Bo@ex.org'' trash_world"
  have "case fst ?r of Inr (push, _) \<Rightarrow> push = Some (1, ''@Bo@ex.org'') | Inl _ \<Rightarrow> False" by code_simp
  then obtain out w1 where r: "?r = (Inr (Some (1, ''@Bo@ex.org''), out), w1)"
    by (cases ?r) (auto split: sum.splits)
  have c: "clientsOf [''@bo@ex.org'' \<mapsto> [3]] ''@Bo@ex.org'' = [3]" by code_simp
  from route_new_message [OF r] obtain s w0 where "case s of None \<Rightarrow> (\<forall>ns f. out = Some (ns, f) \<longrightarrow> ns = [3] \<and> EvType f = eventNewMsg)
    | Some x \<Rightarrow> False" unfolding c by (auto split: option.splits)
  then have "\<forall>ns f. out = Some (ns, f) \<longrightarrow> ns = [3] \<and> EvType f = eventNewMsg" by (cases s) auto
  with r show ?thesis by auto
qed

end
