(* ===== verification/Config.thy ===== *)
theory Config
  imports Hub SubAccounts
begin

text \<open>
  Start-up and configuration: the environment variables and the settings built from them
  (\<open>src/cmd/fmsg-webapi/main.go\<close>), CORS and the fixed response headers
  (\<open>src/internal/middleware/cors.go\<close>, \<open>headers.go\<close>), and the health check
  (\<open>src/internal/handlers/health.go\<close>).

  The environment is a function from names to values, empty where a variable is not set.  A setting that
  makes the program exit is \<open>None\<close>.
\<close>

subsection \<open>Environment variables\<close>

type_synonym environ = "string \<Rightarrow> string"

definition mustEnv :: "environ \<Rightarrow> string \<Rightarrow> string option" where
  "mustEnv env k = (if env k = [] then None else Some (env k))"

definition parseCSV :: "string \<Rightarrow> string list" where
  "parseCSV s = (if s = [] then [] else filter (\<lambda>v. v \<noteq> []) (map TrimSpace (Split (CHR '','') s)))"

definition envOrDefault :: "environ \<Rightarrow> string \<Rightarrow> string \<Rightarrow> string" where
  "envOrDefault env k defaultValue = (if env k \<noteq> [] then env k else defaultValue)"

definition envOrDefaultInt :: "environ \<Rightarrow> string \<Rightarrow> int \<Rightarrow> int option" where
  "envOrDefaultInt env k defaultValue = (if env k \<noteq> [] then ParseInt (env k) else Some defaultValue)"

text \<open>\<open>parse\<close> is \<open>time.ParseDuration\<close>.\<close>

definition envOrDefaultDuration :: "(string \<Rightarrow> time option) \<Rightarrow> environ \<Rightarrow> string \<Rightarrow> time \<Rightarrow> time option" where
  "envOrDefaultDuration parse env k defaultValue = (if env k \<noteq> [] then parse (env k) else Some defaultValue)"

text \<open>A size given in megabytes, as a 64-bit product.\<close>

definition megabytes :: "int \<Rightarrow> int" where
  "megabytes n = wrap64 (wrap64 (n * 1024) * 1024)"

record limits =
  lim_data :: int
  lim_attach :: int
  lim_msg :: int
  lim_short :: int
  lim_retry :: int

definition read_limits :: "environ \<Rightarrow> limits option" where
  "read_limits env = (case (envOrDefaultInt env ''FMSG_API_MAX_DATA_SIZE'' 10, envOrDefaultInt env ''FMSG_API_MAX_ATTACH_SIZE'' 10,
        envOrDefaultInt env ''FMSG_API_MAX_MSG_SIZE'' 20, envOrDefaultInt env ''FMSG_API_SHORT_TEXT_SIZE'' 768,
        envOrDefaultInt env ''FMSG_RETRY_MAX_AGE'' 86400) of
     (Some d, Some a, Some m, Some s, Some r) \<Rightarrow>
       if r \<le> 0 then None
       else Some \<lparr>lim_data = megabytes d, lim_attach = megabytes a, lim_msg = megabytes m, lim_short = s, lim_retry = r\<rparr>
   | _ \<Rightarrow> None)"

definition tls_enabled :: "environ \<Rightarrow> bool option" where
  "tls_enabled env = (let cert = env ''FMSG_TLS_CERT''; key = env ''FMSG_TLS_KEY'' in
     if (cert \<noteq> []) \<noteq> (key \<noteq> []) then None else Some (cert \<noteq> [] \<and> key \<noteq> []))"

definition push_enabled :: "environ \<Rightarrow> bool" where
  "push_enabled env \<longleftrightarrow> env ''FMSG_VAPID_PUBLIC_KEY'' \<noteq> [] \<and> env ''FMSG_VAPID_PRIVATE_KEY'' \<noteq> [] \<and> env ''FMSG_VAPID_SUBJECT'' \<noteq> []"

text \<open>\<open>buildJWTConfig\<close> followed by \<open>NewVerifier\<close>.  \<open>fetch\<close> gets the provider's key set from its URL, as the
  parser of the tokens it signs; \<open>api\<close> is the parser of first-party tokens where they are enabled.\<close>

definition buildJWTConfig :: "(string \<Rightarrow> claims jwt_parser option) \<Rightarrow> string \<Rightarrow> string \<Rightarrow> string \<Rightarrow> string \<Rightarrow> string
    \<Rightarrow> token_claims jwt_parser option \<Rightarrow> claims jwt_parser option option" where
  "buildJWTConfig fetch jwksURL issuer audience oauthAudience addressClaim api =
     (if jwksURL \<noteq> [] then
        if issuer = [] \<or> addressClaim = [] then None
        else if oauthAudience \<noteq> [] \<and> (audience = [] \<or> audience = oauthAudience) then None
        else (case fetch jwksURL of None \<Rightarrow> None | Some parse \<Rightarrow> Some (Some parse))
      else if api = None then None else Some None)"

subsection \<open>CORS and headers\<close>

record CORSConfig =
  AllowedOrigins :: "string list"
  AllowedMethods :: "string list"
  AllowedHeaders :: "string list"
  MaxAge :: int

definition DefaultCORSConfig :: CORSConfig where
  "DefaultCORSConfig = \<lparr>AllowedOrigins = [], AllowedMethods = [''GET'', ''POST'', ''PUT'', ''PATCH'', ''DELETE'', ''OPTIONS''],
     AllowedHeaders = [''Authorization'', ''Content-Type'', ''X-FMSG-Act-As''], MaxAge = 600\<rparr>"

definition trimmedOrigins :: "CORSConfig \<Rightarrow> string list" where
  "trimmedOrigins cfg = filter (\<lambda>v. v \<noteq> []) (map TrimSpace (AllowedOrigins cfg))"

text \<open>What the middleware does: the headers it adds to the response, and the status it ends the request with,
  if it does.\<close>

definition NewCORS :: "CORSConfig \<Rightarrow> string \<Rightarrow> string \<Rightarrow> (string \<times> string) list \<times> nat option" where
  "NewCORS cfg meth origin =
     (let allowAny = (trimmedOrigins cfg = [''*'']);
          vary = [(''Vary'', ''Origin'')] in
      if trimmedOrigins cfg = [] \<or> origin = [] then ([], None)
      else if origin \<notin> set (trimmedOrigins cfg) \<and> \<not> allowAny then (vary, None)
      else (let allow_origin = [(''Access-Control-Allow-Origin'', if allowAny then ''*'' else origin)] in
        if meth = ''OPTIONS'' then
          (vary @ allow_origin @ [(''Vary'', ''Access-Control-Request-Method''), (''Vary'', ''Access-Control-Request-Headers'')]
             @ (if Join (AllowedMethods cfg) '', '' \<noteq> [] then [(''Access-Control-Allow-Methods'', Join (AllowedMethods cfg) '', '')] else [])
             @ (if Join (AllowedHeaders cfg) '', '' \<noteq> [] then [(''Access-Control-Allow-Headers'', Join (AllowedHeaders cfg) '', '')] else [])
             @ (if 0 < MaxAge cfg then [(''Access-Control-Max-Age'', Itoa (MaxAge cfg))] else []), Some 204)
        else (vary @ allow_origin, None)))"

definition SecurityHeaders :: "(string \<times> string) list" where
  "SecurityHeaders = [(''X-Content-Type-Options'', ''nosniff'')]"

definition Healthz :: "env \<Rightarrow> (response, nat \<times> string) act" where
  "Healthz E = bind (sql_query E (\<lambda>_. ())) (\<lambda>r. case r of
     Inl _ \<Rightarrow> ret (503, ''database unavailable'') | Inr _ \<Rightarrow> ret (200, ''ok''))"

subsection \<open>Properties\<close>

lemma CORS_origin:
  "(''Access-Control-Allow-Origin'', v) \<in> set (fst (NewCORS cfg meth origin)) \<longleftrightarrow> origin \<noteq> []
     \<and> (if trimmedOrigins cfg = [''*''] then v = ''*'' else v = origin \<and> origin \<in> set (trimmedOrigins cfg))"
  by (cases "trimmedOrigins cfg = []"; cases "trimmedOrigins cfg = [''*'']") (simp_all add: NewCORS_def Let_def)

lemma CORS_status:
  "snd (NewCORS cfg meth origin) = (if meth = ''OPTIONS'' \<and> origin \<noteq> [] \<and> (trimmedOrigins cfg = [''*''] \<or> origin \<in> set (trimmedOrigins cfg))
     then Some 204 else None)"
  by (cases "trimmedOrigins cfg = []"; cases "trimmedOrigins cfg = [''*'']") (simp_all add: NewCORS_def Let_def)

text \<open>A response names an allowed origin only as configured: the request's own origin where it is listed
  (trimmed), or \<open>*\<close> where \<open>*\<close> is the only entry.  A request without an origin is not touched, and the only
  request answered here is an allowed preflight, so no other one is kept from authentication.\<close>

theorem NewCORS_spec:
  "((''Access-Control-Allow-Origin'', v) \<in> set (fst (NewCORS cfg meth origin)) \<longleftrightarrow> origin \<noteq> []
     \<and> (if trimmedOrigins cfg = [''*''] then v = ''*'' else v = origin \<and> origin \<in> set (trimmedOrigins cfg)))
   \<and> NewCORS cfg meth [] = ([], None)
   \<and> snd (NewCORS cfg meth origin) = (if meth = ''OPTIONS'' \<and> origin \<noteq> []
        \<and> (trimmedOrigins cfg = [''*''] \<or> origin \<in> set (trimmedOrigins cfg)) then Some 204 else None)"
  using CORS_origin CORS_status by (simp add: NewCORS_def Let_def)

lemma dropWhile_fixed: "xs = [] \<or> \<not> P (hd xs) \<Longrightarrow> dropWhile P xs = xs"
  by (cases xs) auto

lemma TrimSpace_idem: "TrimSpace (TrimSpace s) = TrimSpace s"
proof -
  define t where "t = dropWhile is_space s"
  define u where "u = rev (dropWhile is_space (rev t))"
  have "u = [] \<or> \<not> is_space (hd u)"
  proof (cases u)
    case (Cons c cs)
    obtain p where "rev t = p @ dropWhile is_space (rev t)" by (metis takeWhile_dropWhile_id)
    then have "t = u @ rev p" by (metis rev_append rev_rev_ident u_def)
    with Cons have "hd t = c" "t \<noteq> []" by auto
    with Cons hd_dropWhile [of is_space s] show ?thesis by (simp add: t_def)
  qed simp
  then have "dropWhile is_space u = u" by (rule dropWhile_fixed)
  then have "TrimSpace u = rev (dropWhile is_space (rev u))" by (simp add: TrimSpace_def)
  moreover have "TrimSpace s = u" by (simp add: TrimSpace_def u_def t_def)
  ultimately show ?thesis by (simp add: u_def dropWhile_idem)
qed

lemma trimmed_parseCSV: "trimmedOrigins (DefaultCORSConfig\<lparr>AllowedOrigins := parseCSV raw\<rparr>) = parseCSV raw"
proof -
  have "map TrimSpace (parseCSV raw) = parseCSV raw"
    by (rule map_idI) (auto simp: parseCSV_def TrimSpace_idem split: if_splits)
  moreover have "filter (\<lambda>v. v \<noteq> []) (parseCSV raw) = parseCSV raw" by (simp add: parseCSV_def)
  ultimately show ?thesis by (simp add: trimmedOrigins_def)
qed

text \<open>The two uses of the configured origins agree, with one exception: a browser origin may open a
  WebSocket exactly if CORS lets it read responses, but a lone \<open>*\<close> opens CORS to every origin and the
  WebSocket to none.\<close>

theorem origins_agree:
  assumes "parseCSV raw \<noteq> []" and "origin \<noteq> []" and "origin \<noteq> ''*''"
  shows "CheckOrigin (parseCSV raw) origin \<longleftrightarrow> parseCSV raw \<noteq> [''*'']
     \<and> (\<exists>v. (''Access-Control-Allow-Origin'', v)
          \<in> set (fst (NewCORS (DefaultCORSConfig\<lparr>AllowedOrigins := parseCSV raw\<rparr>) meth origin)))"
  using assms unfolding CORS_origin trimmed_parseCSV CheckOrigin_def by auto

theorem origins_agree_witness:
  "\<not> CheckOrigin (parseCSV ''*'') ''https://a''"
proof -
  have "parseCSV ''*'' = [''*'']" by code_simp
  with origins_agree [of "''*''" "''https://a''"] show ?thesis by simp
qed

text \<open>Settings \<open>buildJWTConfig\<close> accepts never stop the server later: the verifier is built from them, with the
  provider's tokens and the first-party tokens that are configured.\<close>

theorem buildJWTConfig_verifier:
  assumes "buildJWTConfig fetch jwksURL issuer audience oauthAudience addressClaim api = Some idp"
    and "api \<noteq> None \<longrightarrow> keys \<noteq> None"
  shows "\<exists>v. NewVerifier idp issuer addressClaim audience oauthAudience api keys = Some v \<and> v_idp v = idp \<and> v_api v = api
     \<and> (v_idp v \<noteq> None \<longleftrightarrow> jwksURL \<noteq> [])"
  using assms by (auto simp: buildJWTConfig_def NewVerifier_def split: if_splits option.splits)

theorem buildJWTConfig_verifier_witness:
  "\<exists>v. NewVerifier (Some (\<lambda>_. example_claims)) ''iss'' ''addr'' ''api'' ''oauth'' None None = Some v \<and> v_idp v = Some (\<lambda>_. example_claims)"
proof -
  have "buildJWTConfig (\<lambda>_. Some (\<lambda>_. example_claims)) ''https://idp/jwks'' ''iss'' ''api'' ''oauth'' ''addr'' None = Some (Some (\<lambda>_. example_claims))"
    by (simp add: buildJWTConfig_def)
  from buildJWTConfig_verifier [OF this, of None] show ?thesis by auto
qed

end
