(* ===== verification/CommandLine.thy ===== *)
theory CommandLine
  imports Config
begin

text \<open>
  The \<open>api-key\<close> command (\<open>src/cmd/fmsg-webapi/apikey_cli.go\<close>): creating and rotating the grants of an owner
  from the host.  A failed command prints its error and exits with status 1, which is the response \<open>cli_err\<close>;
  a successful one gives the lines it prints.  The flags are the fields of \<open>cli_opts\<close>, empty where left out.
\<close>

record cli_opts =
  opt_owner :: string
  opt_agent :: string
  opt_addr :: string
  opt_display :: string
  opt_cidr :: string
  opt_expires :: string

definition cli_err :: "string \<Rightarrow> response" where
  "cli_err msg = (1, JStr msg)"

definition cli_store :: "(store_error, 'a) act \<Rightarrow> (response, 'a) act" where
  "cli_store m = on_store_error m (\<lambda>_. cli_err ''store error'')"

definition printCLIKey :: "string \<Rightarrow> string \<Rightarrow> string \<Rightarrow> api_key \<Rightarrow> string list" where
  "printCLIKey owner agent subAddr key = [''owner='' @ owner, ''agent='' @ agent, ''sub_addr='' @ subAddr,
     ''key_id='' @ ID key, ''api_key='' @ Value key]"

definition cli_cidrs :: "string \<Rightarrow> string list" where
  "cli_cidrs raw = (if TrimSpace raw = [] then [] else map TrimSpace (Split (CHR '','') raw))"

definition prepareCLIGrantInputs :: "env \<Rightarrow> cli_opts \<Rightarrow> (response, string list \<times> time \<times> api_key \<times> string) act" where
  "prepareCLIGrantInputs E opts =
     bind (unless (IsValidAddr (opt_owner opts)) (cli_err ''owner must be an fmsg address'')) (\<lambda>_.
     bind (unless (ValidateAgent (e_letter E) (opt_agent opts)) (cli_err ''invalid agent'')) (\<lambda>_.
     bind (case e_rfc3339 E (opt_expires opts) of None \<Rightarrow> throw (cli_err ''expires must be a future RFC3339 timestamp'')
       | Some t \<Rightarrow> bind (clock E) (\<lambda>now. if now < t then ret t else throw (cli_err ''expires must be a future RFC3339 timestamp''))) (\<lambda>expires.
     let allowed = cli_cidrs (opt_cidr opts) in
     bind (unless (allowed = [] \<or> ValidateCIDRs (e_prefix E) allowed) (cli_err ''invalid CIDR'')) (\<lambda>_.
     bind (newPlaintextKey E) (\<lambda>k. case k of None \<Rightarrow> throw (cli_err ''failed to generate api key'')
       | Some (key, hash) \<Rightarrow> ret (allowed, expires, key, hash))))))"

definition prepareCLIKeyInputs :: "env \<Rightarrow> cli_opts \<Rightarrow> (response, string \<times> string list \<times> time \<times> api_key \<times> string) act" where
  "prepareCLIKeyInputs E opts = bind (prepareCLIGrantInputs E opts) (\<lambda>(allowed, expires, key, hash).
     case DeriveSubAccountAddr (e_letter E) (opt_owner opts) (opt_agent opts) of
       None \<Rightarrow> throw (cli_err ''invalid agent'')
     | Some subAddr \<Rightarrow> ret (subAddr, allowed, expires, key, hash))"

definition requireAcceptingCLIAddress :: "env \<Rightarrow> string \<Rightarrow> (response, unit) act" where
  "requireAcceptingCLIAddress E addr = bind (CheckFmsgID E addr) (\<lambda>r. case r of
     None \<Rightarrow> throw (cli_err ''checking address in fmsgid'')
   | Some (code, accepting) \<Rightarrow>
       bind (unless (code \<noteq> 404) (cli_err ''not found in fmsgid'')) (\<lambda>_.
       bind (unless (code = 200) (cli_err ''unexpected status'')) (\<lambda>_.
       unless accepting (cli_err ''not accepting new messages''))))"

text \<open>\<open>db.New\<close> opens the pool and pings it, which runs a statement; either may fail.\<close>

definition db_New :: "env \<Rightarrow> ('e, sql_error + unit) act" where
  "db_New E = sql_query E (\<lambda>_. ())"

definition connect_db :: "env \<Rightarrow> (response, unit) act" where
  "connect_db E = or_fail (db_New E) (cli_err ''failed to connect to database'')"

definition runAPIKeyCreate :: "env \<Rightarrow> cli_opts \<Rightarrow> (response, string list) act" where
  "runAPIKeyCreate E opts =
     bind (prepareCLIKeyInputs E opts) (\<lambda>(subAddr, allowed, expires, key, hash).
     bind (unless (allowed \<noteq> []) (cli_err ''cidr is required for create'')) (\<lambda>_.
     bind (requireAcceptingCLIAddress E (opt_owner opts)) (\<lambda>_.
     bind (RegisterLinkedFmsgID E subAddr (opt_owner opts)) (\<lambda>r. case r of
       Inl _ \<Rightarrow> throw (cli_err ''registering derived address with fmsgid'')
     | Inr reinstated \<Rightarrow>
       bind (undo_unless_granted E reinstated subAddr
         (bind (requireAcceptingCLIAddress E subAddr) (\<lambda>_.
          bind (connect_db E) (\<lambda>_.
          cli_store (Store_Create E (opt_owner opts) (opt_agent opts) subAddr (ID key) hash allowed expires))))) (\<lambda>_.
       ret (printCLIKey (opt_owner opts) (opt_agent opts) subAddr key
         @ [''reinstated='' @ (if reinstated then ''true'' else ''false'')]))))))"

definition update_cli_cidrs :: "env \<Rightarrow> cli_opts \<Rightarrow> string list \<Rightarrow> (response, unit) act" where
  "update_cli_cidrs E opts allowed = (if TrimSpace (opt_cidr opts) \<noteq> []
     then bind (cli_store (UpdateCIDRs E (opt_owner opts) (opt_agent opts) allowed)) (\<lambda>_. ret ()) else ret ())"

definition runAPIKeyRotate :: "env \<Rightarrow> cli_opts \<Rightarrow> (response, string list) act" where
  "runAPIKeyRotate E opts =
     bind (prepareCLIKeyInputs E opts) (\<lambda>(subAddr, allowed, expires, key, hash).
     bind (connect_db E) (\<lambda>_.
     bind (cli_store (RotateKey E (opt_owner opts) (opt_agent opts) (ID key) hash expires)) (\<lambda>gotSubAddr.
     bind (unless (EqualFold gotSubAddr subAddr) (cli_err ''stored sub-account address does not match derived address'')) (\<lambda>_.
     bind (update_cli_cidrs E opts allowed) (\<lambda>_.
     ret (printCLIKey (opt_owner opts) (opt_agent opts) subAddr key))))))"

definition runAPIKeyCreateDelegation :: "env \<Rightarrow> cli_opts \<Rightarrow> (response, string list) act" where
  "runAPIKeyCreateDelegation E opts =
     bind (prepareCLIGrantInputs E opts) (\<lambda>(allowed, expires, key, hash).
     bind (unless (allowed \<noteq> []) (cli_err ''cidr is required for create-delegation'')) (\<lambda>_.
     bind (unless (IsValidAddr (opt_addr opts)) (cli_err ''addr must be an fmsg address'')) (\<lambda>_.
     bind (requireAcceptingCLIAddress E (opt_owner opts)) (\<lambda>_.
     bind (requireAcceptingCLIAddress E (opt_addr opts)) (\<lambda>_.
     bind (connect_db E) (\<lambda>_.
     bind (cli_store (CreateDelegated E (opt_owner opts) (opt_agent opts) (opt_addr opts) (opt_display opts) (ID key) hash allowed expires)) (\<lambda>_.
     ret (printCLIKey (opt_owner opts) (opt_agent opts) (opt_addr opts) key))))))))"

definition runAPIKeyRotateDelegation :: "env \<Rightarrow> cli_opts \<Rightarrow> (response, string list) act" where
  "runAPIKeyRotateDelegation E opts =
     bind (prepareCLIGrantInputs E opts) (\<lambda>(allowed, expires, key, hash).
     bind (connect_db E) (\<lambda>_.
     bind (cli_store (RotateKey E (opt_owner opts) (opt_agent opts) (ID key) hash expires)) (\<lambda>subAddr.
     bind (update_cli_cidrs E opts allowed) (\<lambda>_.
     ret (printCLIKey (opt_owner opts) (opt_agent opts) subAddr key)))))"

definition runAPIKeyCLI :: "env \<Rightarrow> string option \<Rightarrow> cli_opts \<Rightarrow> (response, string list) act" where
  "runAPIKeyCLI E command opts = (case command of None \<Rightarrow> throw (cli_err ''usage'')
     | Some c \<Rightarrow>
       if c = ''create'' then runAPIKeyCreate E opts
       else if c = ''rotate'' then runAPIKeyRotate E opts
       else if c = ''create-delegation'' then runAPIKeyCreateDelegation E opts
       else if c = ''rotate-delegation'' then runAPIKeyRotateDelegation E opts
       else throw (cli_err ''unknown api-key command''))"

subsection \<open>Properties\<close>

lemma prepare_Inr:
  assumes "prepareCLIGrantInputs E opts w = (Inr (allowed, expires, key, hash), w1)"
  shows "allowed = cli_cidrs (opt_cidr opts) \<and> e_rfc3339 E (opt_expires opts) = Some expires \<and> IsValidAddr (opt_owner opts)
    \<and> ValidateAgent (e_letter E) (opt_agent opts) \<and> (\<exists>w0. newPlaintextKey E w0 = (Inr (Some (key, hash)), w1))"
  using assms by (auto simp: prepareCLIGrantInputs_def run_Inr ret_eq throw_eq Let_def split: option.splits if_splits)

lemma prepare_key_Inr:
  assumes "prepareCLIKeyInputs E opts w = (Inr (subAddr, allowed, expires, key, hash), w1)"
  shows "DeriveSubAccountAddr (e_letter E) (opt_owner opts) (opt_agent opts) = Some subAddr
    \<and> prepareCLIGrantInputs E opts w = (Inr (allowed, expires, key, hash), w1)"
  using assms by (auto simp: prepareCLIKeyInputs_def run_Inr ret_eq throw_eq split: option.splits)

text \<open>C39: the key that \<open>api-key create\<close> prints works: as long as the tables stay as they are, the exchange accepts
  it until the expiry asked for, from every allowed address, as the derived address of the owner.\<close>

theorem cli_create_works:
  assumes "runAPIKeyCreate E opts w = (Inr out, w2)"
    and "\<And>t n b. e_random E t n = Some b \<Longrightarrow> length b = n" and "\<forall>n. \<not> e_fail E n"
  shows "\<exists>sub ex (key :: api_key) cs. DeriveSubAccountAddr (e_letter E) (opt_owner opts) (opt_agent opts) = Some sub
    \<and> ''api_key='' @ Value key \<in> set out \<and> ''sub_addr='' @ sub \<in> set out
    \<and> e_rfc3339 E (opt_expires opts) = Some ex \<and> cast_cidrs E (cli_cidrs (opt_cidr opts)) = Some cs
    \<and> (\<forall>w3 ip. db w3 = db w2 \<and> \<not> aborted w3 \<and> e_now E (Suc (tick w3)) \<le> ex \<and> remoteAllowed E ip cs = None
        \<longrightarrow> (\<exists>w4. ValidateAPIKey E (Value key) ip w3 = (Inr \<lparr>ident_OwnerAddr = opt_owner opts,
               ident_SubAddr = sub, ident_KeyID = ID key\<rparr>, w4)))"
proof -
  from assms(1) [unfolded runAPIKeyCreate_def run_Inr] obtain sub allowed ex key hash w1 w3 w5 r where
    p: "prepareCLIKeyInputs E opts w = (Inr (sub, allowed, ex, key, hash), w1)"
    and r: "RegisterLinkedFmsgID E sub (opt_owner opts) w3 = (Inr r, w5)"
    and k: "(case r of Inl _ \<Rightarrow> throw (cli_err ''registering derived address with fmsgid'')
     | Inr reinstated \<Rightarrow>
       bind (undo_unless_granted E reinstated sub
         (bind (requireAcceptingCLIAddress E sub) (\<lambda>_.
          bind (connect_db E) (\<lambda>_.
          cli_store (Store_Create E (opt_owner opts) (opt_agent opts) sub (ID key) hash allowed ex))))) (\<lambda>_.
       ret (printCLIKey (opt_owner opts) (opt_agent opts) sub key
         @ [''reinstated='' @ (if reinstated then ''true'' else ''false'')]))) w5 = (Inr out, w2)"
    by blast
  from k obtain b where b: "r = Inr b" by (cases r) (auto simp: throw_eq)
  from k [unfolded b sum.case bind_Inr undo_Inr ret_eq] obtain w6 where
    st: "Store_Create E (opt_owner opts) (opt_agent opts) sub (ID key) hash allowed ex w6 = (Inr (), w2)"
    and out: "out = printCLIKey (opt_owner opts) (opt_agent opts) sub key @ [''reinstated='' @ (if b then ''true'' else ''false'')]"
    by (auto simp: cli_store_def on_store_error_Inr)
  from prepare_key_Inr [OF p] have d: "DeriveSubAccountAddr (e_letter E) (opt_owner opts) (opt_agent opts) = Some sub"
    and g: "prepareCLIGrantInputs E opts w = (Inr (allowed, ex, key, hash), w1)" by simp_all
  from prepare_Inr [OF g] obtain w0 where al: "allowed = cli_cidrs (opt_cidr opts)" "e_rfc3339 E (opt_expires opts) = Some ex"
    and key: "newPlaintextKey E w0 = (Inr (Some (key, hash)), w1)" by blast
  have "opt_agent opts \<noteq> []" using d by (auto simp: DeriveSubAccountAddr_Some dest: ValidateAgent_chars)
  from stored_key_works [OF key st _ assms(3) this] assms(2) obtain cs where cs: "cast_cidrs E allowed = Some cs"
    "\<forall>w3 ip. db w3 = db w2 \<and> \<not> aborted w3 \<and> e_now E (Suc (tick w3)) \<le> ex \<and> remoteAllowed E ip cs = None
        \<longrightarrow> (\<exists>w4. ValidateAPIKey E (Value key) ip w3 = (Inr \<lparr>ident_OwnerAddr = opt_owner opts,
               ident_SubAddr = sub, ident_KeyID = ID key\<rparr>, w4))" by blast
  show ?thesis
    by (rule exI [of _ sub], rule exI [of _ ex], rule exI [of _ key], rule exI [of _ cs])
      (use d al out cs in \<open>simp add: printCLIKey_def\<close>)
qed

definition bot_opts :: cli_opts where
  "bot_opts = \<lparr>opt_owner = ''@al@ex.org'', opt_agent = ''bot'', opt_addr = [], opt_display = [], opt_cidr = ''10.0.0.0/8'', opt_expires = ''9''\<rparr>"

theorem cli_create_works_witness:
  "\<exists>out w2. runAPIKeyCreate grant_env bot_opts example_world = (Inr out, w2)
    \<and> (\<exists>sub (key :: api_key). DeriveSubAccountAddr (e_letter grant_env) ''@al@ex.org'' ''bot'' = Some sub
        \<and> ''api_key='' @ Value key \<in> set out)"
proof -
  let ?r = "runAPIKeyCreate grant_env bot_opts example_world"
  have "(case fst ?r of Inr _ \<Rightarrow> True | Inl _ \<Rightarrow> False)" by code_simp
  then obtain out w2 where run: "?r = (Inr out, w2)"
    by (cases ?r; cases "fst ?r") auto
  have e: "\<And>t n b. e_random grant_env t n = Some b \<Longrightarrow> length b = n" "\<forall>n. \<not> e_fail grant_env n"
    by (auto simp: grant_env_def id_env_def example_env_def)
  have o: "opt_owner bot_opts = ''@al@ex.org''" "opt_agent bot_opts = ''bot''" by (simp_all add: bot_opts_def)
  have "\<exists>sub (key :: api_key). DeriveSubAccountAddr (e_letter grant_env) ''@al@ex.org'' ''bot'' = Some sub
        \<and> ''api_key='' @ Value key \<in> set out"
    using cli_create_works [OF run] e unfolding o by blast
  with run show ?thesis by blast
qed

end
