(* ===== verification/HubRuns.thy ===== *)
theory HubRuns
  imports Hub
begin

text \<open>
  The running hub (\<open>src/internal/handlers/hub.go\<close>, \<open>ws.go\<close>).  One goroutine listens; every client has its own
  reader and writer.  \<open>hub_step\<close> interleaves them: a connection opens or ends, the listener takes a
  notification and later queues its frame on one client after the other, a writer writes, fails or stops.
  The tables a notification is handled on are any tables, read outside any transaction.
\<close>

subsection \<open>The steps of the running hub\<close>

text \<open>\<open>h_pending\<close> is what is left of the loop of \<open>Hub.send\<close>; \<open>h_pushed\<close> lists the Web Pushes started.  \<open>h_log\<close> is
  a history variable: every notification handled so far.\<close>

record hub_state =
  h_registry :: registry
  h_clients :: "nat \<rightharpoonup> wsClient"
  h_pending :: "(nat \<times> wsEnvelope) list"
  h_pushed :: "(int \<times> string) list"
  h_log :: "notification list"

definition NewHub :: hub_state where
  "NewHub = \<lparr>h_registry = Map.empty, h_clients = Map.empty, h_pending = [], h_pushed = [], h_log = []\<rparr>"

definition set_client :: "hub_state \<Rightarrow> nat \<Rightarrow> wsClient \<Rightarrow> hub_state" where
  "set_client s n c = s\<lparr>h_clients := (h_clients s)(n \<mapsto> c)\<rparr>"

inductive hub_step :: "env \<Rightarrow> verifier \<Rightarrow> (bool \<Rightarrow> response option) \<Rightarrow> string list
    \<Rightarrow> hub_state \<Rightarrow> hub_state \<Rightarrow> bool" for E v upgrade allowed where
  Connected: "Connect E v upgrade allowed q w = (Inr (addr, expires), w1) \<Longrightarrow> h_clients s n = None \<Longrightarrow>
     hub_step E v upgrade allowed s
       (set_client (s\<lparr>h_registry := Register (h_registry s) addr n\<rparr>) n (new_client addr))"
| Disconnected: "h_clients s n = Some c \<Longrightarrow>
     hub_step E v upgrade allowed s (s\<lparr>h_registry := Unregister (h_registry s) (cl_addr c) n\<rparr>)"
| Closed: "h_clients s n = Some c \<Longrightarrow> hub_step E v upgrade allowed s (set_client s n (close_client c))"
| Written: "h_clients s n = Some c \<Longrightarrow> cl_writer c \<Longrightarrow> cl_open c \<Longrightarrow> cl_send c = f # rest \<Longrightarrow>
     hub_step E v upgrade allowed s
       (set_client s n (c\<lparr>cl_send := rest, cl_written := cl_written c @ [f]\<rparr>))"
| WriteFailed: "h_clients s n = Some c \<Longrightarrow> cl_writer c \<Longrightarrow> cl_send c = f # rest \<Longrightarrow>
     hub_step E v upgrade allowed s (set_client s n (c\<lparr>cl_send := rest, cl_writer := False\<rparr>))"
| Stopped: "h_clients s n = Some c \<Longrightarrow> cl_writer c \<Longrightarrow>
     hub_step E v upgrade allowed s (set_client s n (c\<lparr>cl_writer := False\<rparr>))"
| Notified: "h_pending s = [] \<Longrightarrow> \<not> intx w \<Longrightarrow> \<not> aborted w \<Longrightarrow>
     handle_notification E (h_registry s) channel payload w = (Inr (push, out), w1) \<Longrightarrow>
     hub_step E v upgrade allowed s
       (s\<lparr>h_pending := (case out of None \<Rightarrow> [] | Some (ns, f) \<Rightarrow> map (\<lambda>n. (n, f)) ns),
          h_pushed := h_pushed s @ opt_list push, h_log := h_log s @ [(channel, payload, w)]\<rparr>)"
| Offered: "h_pending s = (n, f) # rest \<Longrightarrow> h_clients s n = Some c \<Longrightarrow>
     hub_step E v upgrade allowed s (set_client (s\<lparr>h_pending := rest\<rparr>) n (send_one f c))"

inductive hub_reachable :: "env \<Rightarrow> verifier \<Rightarrow> (bool \<Rightarrow> response option) \<Rightarrow> string list
    \<Rightarrow> hub_state \<Rightarrow> bool" for E v upgrade allowed where
  Start: "hub_reachable E v upgrade allowed NewHub"
| Next: "hub_reachable E v upgrade allowed s \<Longrightarrow> hub_step E v upgrade allowed s s1
     \<Longrightarrow> hub_reachable E v upgrade allowed s1"

inductive_cases hub_stepE: "hub_step E v upgrade allowed s s1"

subsection \<open>Who may connect\<close>

definition authenticated :: "env \<Rightarrow> verifier \<Rightarrow> string \<Rightarrow> bool" where
  "authenticated E v a \<longleftrightarrow> (\<exists>tok ip act w w1 res. AuthenticateRequest E v tok ip act w = (Inr res, w1)
     \<and> CheckScope res ''GET'' ''/fmsg/ws'' = None \<and> a = ToLower (Addr res))"

lemma attempt_Inr: "attempt m w = (Inr r, w2) \<longleftrightarrow> m w = (r, w2)"
  by (simp add: attempt_def split: prod.splits)

lemma Connect_Inr:
  assumes "Connect E v upgrade allowed q w = (Inr (addr, expires), w1)"
  shows "\<exists>tok res. tok \<noteq> [] \<and> AuthenticateRequest E v tok (q_client_ip q) (actAsParam q) w = (Inr res, w1)
     \<and> (tok = q_access_token q \<or> tok = bearerToken (q_authorization q))
     \<and> CheckScope res ''GET'' ''/fmsg/ws'' = None \<and> upgrade (CheckOrigin allowed (q_origin q)) = None
     \<and> addr = ToLower (Addr res) \<and> expires = Expires res"
proof -
  define tok where "tok = (if q_access_token q \<noteq> [] then q_access_token q else bearerToken (q_authorization q))"
  from assms [unfolded Connect_def Let_def run_Inr, folded tok_def] obtain r w2 where tok: "tok \<noteq> []"
    and a: "attempt (AuthenticateRequest E v tok (q_client_ip q) (actAsParam q)) w = (Inr r :: response + _, w2)"
    and k: "(case r of Inl (status, msg) \<Rightarrow> throw (err status msg) | Inr res \<Rightarrow>
        (case CheckScope res ''GET'' ''/fmsg/ws'' of Some (status, msg) \<Rightarrow> throw (err status msg)
         | None \<Rightarrow> (case upgrade (CheckOrigin allowed (q_origin q)) of Some resp \<Rightarrow> throw resp
            | None \<Rightarrow> ret (ToLower (Addr res), Expires res)))) w2 = (Inr (addr, expires), w1)"
    by blast
  have "\<exists>res. r = Inr res" using k by (cases r) (simp_all add: throw_eq split: prod.splits)
  then obtain res where r: "r = Inr res" by blast
  then have sc: "CheckScope res ''GET'' ''/fmsg/ws'' = None"
    using k by (cases "CheckScope res ''GET'' ''/fmsg/ws''") (simp_all add: throw_eq split: prod.splits)
  have k2: "(case upgrade (CheckOrigin allowed (q_origin q)) of Some resp \<Rightarrow> throw resp
      | None \<Rightarrow> ret (ToLower (Addr res), Expires res)) w2 = (Inr (addr, expires), w1)"
    using k [unfolded r sum.case sc option.case] by simp
  then have up: "upgrade (CheckOrigin allowed (q_origin q)) = None"
    by (cases "upgrade (CheckOrigin allowed (q_origin q))") (simp_all add: throw_eq)
  from k2 [unfolded up option.case ret_eq] r sc up
  have res: "r = Inr res" "CheckScope res ''GET'' ''/fmsg/ws'' = None" "upgrade (CheckOrigin allowed (q_origin q)) = None"
    "addr = ToLower (Addr res)" "expires = Expires res" "w1 = w2" by blast+
  have "AuthenticateRequest E v tok (q_client_ip q) (actAsParam q) w = (Inr res, w1)"
    using a unfolding attempt_Inr res(1,6) .
  moreover have "tok = q_access_token q \<or> tok = bearerToken (q_authorization q)" by (simp add: tok_def)
  ultimately show ?thesis using tok res
    by (intro exI [of _ tok] exI [of _ res]) blast
qed

subsection \<open>The invariant of the hub\<close>

text \<open>A frame for an address goes back to a notification that was handled.\<close>

definition announced :: "env \<Rightarrow> notification list \<Rightarrow> string \<Rightarrow> wsEnvelope \<Rightarrow> bool" where
  "announced E log a f \<longleftrightarrow> (\<exists>nt \<in> set log. frame_for E a nt f)"

lemma announced_more: "announced E log a f \<Longrightarrow> announced E (log @ more_log) a f"
  by (auto simp: announced_def)

definition client_ok :: "env \<Rightarrow> verifier \<Rightarrow> notification list \<Rightarrow> wsClient \<Rightarrow> bool" where
  "client_ok E v log c \<longleftrightarrow> authenticated E v (cl_addr c) \<and> length (cl_send c) \<le> wsSendBuffer
     \<and> (\<forall>f \<in> set (cl_written c @ cl_send c). announced E log (cl_addr c) f)
     \<and> prefix (cl_written c) (cl_offered c)
     \<and> (cl_open c \<and> cl_writer c \<longrightarrow> cl_offered c = cl_written c @ cl_send c)"

definition registry_ok :: "registry \<Rightarrow> (nat \<rightharpoonup> wsClient) \<Rightarrow> bool" where
  "registry_ok r cs \<longleftrightarrow> (\<forall>a ns. r a = Some ns \<longrightarrow> ns \<noteq> [] \<and> distinct ns
     \<and> (\<forall>n \<in> set ns. \<exists>c. cs n = Some c \<and> cl_addr c = a))"

definition hub_ok :: "env \<Rightarrow> verifier \<Rightarrow> hub_state \<Rightarrow> bool" where
  "hub_ok E v s \<longleftrightarrow> registry_ok (h_registry s) (h_clients s)
     \<and> (\<forall>n c. h_clients s n = Some c \<longrightarrow> client_ok E v (h_log s) c)
     \<and> (\<forall>(n, f) \<in> set (h_pending s). \<exists>c. h_clients s n = Some c \<and> announced E (h_log s) (cl_addr c) f)"

lemma client_ok_more: "client_ok E v log c \<Longrightarrow> client_ok E v (log @ more_log) c"
  by (auto simp: client_ok_def dest: announced_more)

lemma registry_ok_Register:
  assumes "registry_ok r cs" and "cs n = None"
  shows "registry_ok (Register r a n) (cs(n \<mapsto> new_client a))"
proof -
  have "n \<notin> set ns" if "r b = Some ns" for b ns
    using assms that by (force simp: registry_ok_def)
  with assms show ?thesis
    by (fastforce simp: registry_ok_def Register_def Let_def new_client_def split: option.splits if_splits)
qed

lemma registry_ok_Unregister: "registry_ok r cs \<Longrightarrow> registry_ok (Unregister r a n) cs"
  by (auto simp: registry_ok_def Unregister_def Let_def distinct_removeAll split: option.splits if_splits)

lemma registry_ok_update: "registry_ok r cs \<Longrightarrow> cs n = Some c \<Longrightarrow> cl_addr c1 = cl_addr c \<Longrightarrow> registry_ok r (cs(n \<mapsto> c1))"
  by (fastforce simp: registry_ok_def)

lemma hub_ok_set_client:
  assumes "hub_ok E v s" and "h_clients s n = Some c" and "cl_addr c1 = cl_addr c" and "client_ok E v (h_log s) c1"
  shows "hub_ok E v (set_client s n c1)"
proof -
  have "\<exists>x. ((h_clients s)(n \<mapsto> c1)) m = Some x \<and> announced E (h_log s) (cl_addr x) f" if "(m, f) \<in> set (h_pending s)" for m f
    using assms(1-3) that by (force simp: hub_ok_def)
  with assms registry_ok_update [of "h_registry s" "h_clients s" n c c1] show ?thesis
    by (auto simp: hub_ok_def set_client_def)
qed

lemma send_one_ok:
  assumes "client_ok E v log c" and "announced E log (cl_addr c) f"
  shows "client_ok E v log (send_one f c)" "cl_addr (send_one f c) = cl_addr c"
  using assms by (auto simp: client_ok_def send_one_def close_client_def Let_def)

lemma hub_step_ok:
  assumes "hub_step E v upgrade allowed s s1" and "hub_ok E v s"
  shows "hub_ok E v s1"
  using assms(1)
proof (cases rule: hub_step.cases)
  case (Connected q w addr expires w1 n)
  from Connect_Inr [OF Connected(2)] have "client_ok E v (h_log s) (new_client addr)"
    unfolding client_ok_def new_client_def authenticated_def wsSendBuffer_def by auto metis+
  with Connected assms(2) registry_ok_Register [of "h_registry s" "h_clients s" n addr] show ?thesis
    by (fastforce simp: hub_ok_def set_client_def)
next
  case (Disconnected n c)
  with assms(2) registry_ok_Unregister show ?thesis by (auto simp: hub_ok_def)
next
  case (Closed n c)
  moreover from this assms(2) have "client_ok E v (h_log s) (close_client c)" by (auto simp: hub_ok_def client_ok_def close_client_def)
  ultimately show ?thesis using hub_ok_set_client [OF assms(2)] by (simp add: close_client_def)
next
  case (Written n c f rest)
  from Written assms(2) have "client_ok E v (h_log s) (c\<lparr>cl_send := rest, cl_written := cl_written c @ [f]\<rparr>)"
    by (fastforce simp: hub_ok_def client_ok_def)
  with Written hub_ok_set_client [OF assms(2)] show ?thesis by simp
next
  case (WriteFailed n c f rest)
  from WriteFailed assms(2) have "client_ok E v (h_log s) (c\<lparr>cl_send := rest, cl_writer := False\<rparr>)"
    by (fastforce simp: hub_ok_def client_ok_def)
  with WriteFailed hub_ok_set_client [OF assms(2)] show ?thesis by simp
next
  case (Stopped n c)
  from Stopped assms(2) have "client_ok E v (h_log s) (c\<lparr>cl_writer := False\<rparr>)" by (auto simp: hub_ok_def client_ok_def)
  with Stopped hub_ok_set_client [OF assms(2)] show ?thesis by simp
next
  case (Notified w channel payload push out w1)
  let ?log = "h_log s @ [(channel, payload, w)]"
  from handle_ok [OF Notified(5)] Notified(3,4) have out: "outgoing_ok E (h_registry s) (channel, payload, w) out"
    by (simp add: pooled_def)
  have "\<exists>c. h_clients s n = Some c \<and> announced E ?log (cl_addr c) f" if "out = Some (ns, f)" "n \<in> set ns" for ns f n
  proof -
    from out that obtain a as where "h_registry s a = Some as" "n \<in> set as" and f: "frame_for E a (channel, payload, w) f"
      by (auto simp: outgoing_ok_def)
    with assms(2) have "\<exists>c. h_clients s n = Some c \<and> cl_addr c = a" by (simp add: hub_ok_def registry_ok_def)
    with f show ?thesis by (auto simp: announced_def)
  qed
  moreover have "client_ok E v ?log c" if "h_clients s n = Some c" for n c
    using assms(2) that client_ok_more by (auto simp: hub_ok_def)
  ultimately show ?thesis using Notified(1) assms(2) by (auto simp: hub_ok_def split: option.splits)
next
  case (Offered n f rest c)
  let ?s = "s\<lparr>h_pending := rest\<rparr>"
  have "hub_ok E v ?s" using assms(2) Offered(2) by (auto simp: hub_ok_def)
  moreover have "client_ok E v (h_log s) c" "announced E (h_log s) (cl_addr c) f" using assms(2) Offered by (auto simp: hub_ok_def)
  ultimately show ?thesis using hub_ok_set_client [of E v ?s n c "send_one f c"] send_one_ok [of E v "h_log s" c f] Offered by simp
qed

lemma hub_reachable_ok: "hub_reachable E v upgrade allowed s \<Longrightarrow> hub_ok E v s"
proof (induction rule: hub_reachable.induct)
  case Start
  show ?case by (simp add: NewHub_def hub_ok_def registry_ok_def)
next
  case (Next s s1)
  then show ?case by (blast intro: hub_step_ok)
qed

subsection \<open>Every run of the hub\<close>

text \<open>C27: a connection is opened only for a token that authenticates and may use the route, and from an allowed
  origin (the handshake refuses one \<open>CheckOrigin\<close> rejects).  It belongs to the lower-cased address the request
  runs as.  A delegated token's connection ends when the token does, at the expiry of the claims that were
  parsed; that of an owner session or an API token has no end of its own.\<close>

theorem Connect_spec:
  assumes "Connect E v upgrade allowed q w = (Inr (addr, expires), w1)" and "upgrade False \<noteq> None"
  shows "\<exists>tok res. tok \<noteq> [] \<and> (tok = q_access_token q \<or> tok = bearerToken (q_authorization q))
    \<and> AuthenticateRequest E v tok (q_client_ip q) (actAsParam q) w = (Inr res, w1)
    \<and> (AuthType res = AuthTypeOAuth \<longrightarrow> ScopeRead \<in> set (Scopes res))
    \<and> (q_origin q = [] \<or> allowed = [] \<or> q_origin q \<in> set allowed)
    \<and> addr = ToLower (Addr res)
    \<and> (if AuthType res = AuthTypeOAuth
        then \<exists>parse c. v_idp v = Some parse \<and> parse (e_now E (tick w)) tok = Some c \<and> expires = cl_exp c
        else expires = None)"
proof -
  from Connect_Inr [OF assms(1)] obtain tok res where c: "tok \<noteq> []" "tok = q_access_token q \<or> tok = bearerToken (q_authorization q)"
    "AuthenticateRequest E v tok (q_client_ip q) (actAsParam q) w = (Inr res, w1)"
    "CheckScope res ''GET'' ''/fmsg/ws'' = None" "upgrade (CheckOrigin allowed (q_origin q)) = None"
    "addr = ToLower (Addr res)" "expires = Expires res" by blast
  have "CheckOrigin allowed (q_origin q)" using c(5) assms(2) by (cases "CheckOrigin allowed (q_origin q)") auto
  moreover have "OAuthRouteScope ''GET'' ''/fmsg/ws'' = Some ScopeRead"
    by (simp add: OAuthRouteScope_def oauthRouteScopes_def)
  then have "AuthType res = AuthTypeOAuth \<longrightarrow> ScopeRead \<in> set (Scopes res)"
    using c(4) by (auto simp: CheckScope_def AllowsRoute_def split: if_splits)
  moreover have "if AuthType res = AuthTypeOAuth
      then \<exists>parse cl. v_idp v = Some parse \<and> parse (e_now E (tick w)) tok = Some cl \<and> expires = cl_exp cl
      else expires = None"
    using request_expires [OF c(3)] c(7) by auto
  ultimately show ?thesis using c unfolding CheckOrigin_def
    by (intro exI [of _ tok] exI [of _ res]) blast
qed

text \<open>C11: in every run of the hub, whatever the order of connections, notifications and writes, a client was
  authenticated for its address, and every frame written to it goes back to a notification the hub handled
  and holds what that notification and the tables it found allow this address to see.  A message comes
  from a notification that names the address, with the event of its channel and the address's own trash
  state, and is not one the address had deleted for good.  A reaction comes as its subject.  A message is
  announced as gone only to the address whose trash notification it is.  An indicator is the one of the payload, on a message
  the address took part in and set by another.\<close>

theorem hub_frames:
  assumes "hub_reachable E v upgrade allowed s" and "h_clients s n = Some c"
  shows "authenticated E v (cl_addr c)
    \<and> (\<forall>f \<in> set (cl_written c). \<exists>nt \<in> set (h_log s). frame_for E (cl_addr c) nt f)"
  using hub_reachable_ok [OF assms(1)] assms(2) by (auto simp: hub_ok_def client_ok_def announced_def)

text \<open>C12: frames reach a client in the order the hub sent them, without a gap, and none is missing while the
  connection is open: what was sent is what was written, then what is queued, and at most 16 frames are
  queued.  A frame that does not fit closes the connection.\<close>

theorem hub_in_order:
  assumes "hub_reachable E v upgrade allowed s" and "h_clients s n = Some c"
  shows "length (cl_send c) \<le> 16 \<and> prefix (cl_written c) (cl_offered c)
    \<and> (cl_open c \<and> cl_writer c \<longrightarrow> cl_offered c = cl_written c @ cl_send c)
    \<and> (length (cl_send c) = 16 \<longrightarrow> \<not> cl_open (send_one f c))"
  using hub_reachable_ok [OF assms(1)] assms(2)
  by (auto simp: hub_ok_def client_ok_def wsSendBuffer_def send_one_def close_client_def Let_def)

text \<open>The registry is well formed in every run: no address without clients, no client twice, and only
  clients of that address, so a notification for an address never reaches another one's connection; the
  frames still to be queued are for connected clients whose address may see them.\<close>

theorem hub_registry:
  assumes "hub_reachable E v upgrade allowed s"
  shows "registry_ok (h_registry s) (h_clients s)
    \<and> list_all (\<lambda>(n, f). \<exists>c. h_clients s n = Some c \<and> announced E (h_log s) (cl_addr c) f) (h_pending s)"
  using hub_reachable_ok [OF assms] by (auto simp: hub_ok_def list_all_iff)

lemma drain:
  assumes "h_clients s n = Some c" and "cl_open c" and "cl_writer c"
  shows "\<exists>s1 c1. (hub_step E v upgrade allowed)\<^sup>*\<^sup>* s s1 \<and> h_clients s1 n = Some c1
    \<and> cl_written c1 = cl_written c @ cl_send c \<and> cl_send c1 = []"
  using assms
proof (induction "cl_send c" arbitrary: s c)
  case Nil
  then show ?case by (intro exI [of _ s] exI [of _ c]) simp
next
  case (Cons f fs)
  let ?c = "c\<lparr>cl_send := fs, cl_written := cl_written c @ [f]\<rparr>"
  have step: "hub_step E v upgrade allowed s (set_client s n ?c)"
    using Cons by (intro hub_step.Written) auto
  have "\<exists>s1 c1. (hub_step E v upgrade allowed)\<^sup>*\<^sup>* (set_client s n ?c) s1 \<and> h_clients s1 n = Some c1
    \<and> cl_written c1 = cl_written ?c @ cl_send ?c \<and> cl_send c1 = []"
    using Cons.prems by (intro Cons.hyps(1)) (simp_all add: set_client_def)
  with step Cons.hyps(2) [symmetric] show ?case
    by (auto intro: converse_rtranclp_into_rtranclp)
qed

text \<open>C26: while a connection is open and its writer runs, the hub can go on to write every frame it sent to the
  client, in order: nothing is stuck or lost.\<close>

theorem hub_delivers:
  assumes "hub_reachable E v upgrade allowed s" and "h_clients s n = Some c" and "cl_open c" and "cl_writer c"
  shows "\<exists>s1 c1. (hub_step E v upgrade allowed)\<^sup>*\<^sup>* s s1 \<and> h_clients s1 n = Some c1 \<and> cl_written c1 = cl_offered c"
  using hub_reachable_ok [OF assms(1)] assms(2-4) drain [OF assms(2-4), of E v upgrade allowed]
  by (fastforce simp: hub_ok_def client_ok_def)

subsection \<open>An example run\<close>

definition example_upgrade :: "bool \<Rightarrow> response option" where
  "example_upgrade ok = (if ok then None else Some (403, JNull))"

definition example_request :: ws_request where
  "example_request = \<lparr>q_access_token = ''del'', q_authorization = [], q_act_as_header = [], q_act_as = [],
     q_origin = ''https://a'', q_client_ip = ''10.1.1.1''\<rparr>"

definition example_indicator :: Indicator where
  "example_indicator = \<lparr>IndID = 1, RootID = 0, IndFrom = ''@Bo@ex.org'', IndEmoji = ''+'', TTL = 6\<rparr>"

definition example_payload :: string where
  "example_payload = marshal_indicator example_indicator"

lemma example_payload_read: "unmarshal_indicator example_payload = Some example_indicator"
proof -
  have "utf8_valid ''@Bo@ex.org''" "utf8_valid ''+''" by (rule utf8_valid_plain; simp add: plain_name_def)+
  then show ?thesis unfolding example_payload_def
    by (intro indicator_roundtrip) (simp_all add: example_indicator_def in_int64_def)
qed

lemma example_connect:
  "\<exists>w1. Connect id_env example_verifier example_upgrade [''https://a''] example_request grant_world
     = (Inr (''@al@ex.org'', Some 7), w1)"
proof -
  have v: "IsValidAddr ''@al@ex.org''" by (simp add: IsValidAddr_def ContainsChar_def)
  obtain w1 where w1: "require_identity id_env ''@al@ex.org'' (grant_world\<lparr>tick := Suc (tick grant_world)\<rparr>) = (Inr (), w1)"
    using id_env_accepts [OF v, of "grant_world\<lparr>tick := Suc (tick grant_world)\<rparr>"] by (auto simp: grant_world_def example_world_def)
  have f: "Fields ''fmsg:read'' = [''fmsg:read'']" by (simp add: Fields_def is_space_def)
  let ?res = "\<lparr>Addr = ''@al@ex.org'', AuthOwner = ''@al@ex.org'', AuthType = AuthTypeOAuth,
    Scopes = [''fmsg:read''], Expires = Some 7\<rparr>"
  have c: "example_claims ''del'' = Some \<lparr>cl_map = [(''addr'', JStr ''@al@ex.org''), (''scope'', JStr ''fmsg:read'')],
       cl_aud = Some [''oauth''], cl_exp = Some 7\<rparr>" by (simp add: example_claims_def)
  have a: "AuthenticateRequest id_env example_verifier ''del'' ''10.1.1.1'' [] grant_world = (Inr ?res, w1)"
    using w1 f by (simp add: AuthenticateRequest_def Let_def example_verifier_def try_mode_def
        authenticateIdP_def idp_session_def ParseWithClaims_eq c classifyAudience_def claim_string_def claim_def idp_result_def
        parseScopes_def delegatedIdentities_def TrimSpace_def act_defs)
  have s: "CheckScope ?res ''GET'' ''/fmsg/ws'' = None" by code_simp
  have l: "ToLower ''@al@ex.org'' = ''@al@ex.org''" by code_simp
  show ?thesis using a s l
    by (simp add: Connect_def example_request_def actAsParam_def bind_def attempt_def unless_def ret_def
        example_upgrade_def CheckOrigin_def Let_def)
qed

text \<open>One client of \<open>@al@ex.org\<close>, and an indicator of \<open>@Bo@ex.org\<close> written to it.\<close>

definition example_client :: wsClient where
  "example_client = (let f = \<lparr>EvType = eventIndicator, EvData = DataIndicator (example_indicator\<lparr>RootID := 1\<rparr>)\<rparr> in
     (new_client ''@al@ex.org'')\<lparr>cl_written := [f], cl_offered := [f]\<rparr>)"

lemma example_hub:
  "\<exists>s. hub_reachable id_env example_verifier example_upgrade [''https://a''] s
     \<and> h_clients s 0 = Some example_client \<and> h_log s = [(IndicatorChannel, example_payload, trash_world)]"
proof -
  let ?step = "hub_step id_env example_verifier example_upgrade [''https://a'']"
  let ?reach = "hub_reachable id_env example_verifier example_upgrade [''https://a'']"
  let ?f = "\<lparr>EvType = eventIndicator, EvData = DataIndicator (example_indicator\<lparr>RootID := 1\<rparr>)\<rparr>"
  define s1 where "s1 = set_client (NewHub\<lparr>h_registry := Register (h_registry NewHub) ''@al@ex.org'' 0\<rparr>) 0 (new_client ''@al@ex.org'')"
  obtain w1 where "Connect id_env example_verifier example_upgrade [''https://a''] example_request grant_world
     = (Inr (''@al@ex.org'', Some 7), w1)" using example_connect by blast
  then have "?step NewHub s1" unfolding s1_def by (rule hub_step.Connected) (simp add: NewHub_def)
  then have r1: "?reach s1" by (rule hub_reachable.Next [OF hub_reachable.Start])
  have reg: "h_registry s1 = [''@al@ex.org'' \<mapsto> [0]]"
    by (simp add: s1_def NewHub_def set_client_def Register_def)
  define s2 where "s2 = s1\<lparr>h_pending := [(0, ?f)], h_log := [(IndicatorChannel, example_payload, trash_world)]\<rparr>"
  have "fst (handle_notification id_env [''@al@ex.org'' \<mapsto> [0]] IndicatorChannel example_payload trash_world)
      = Inr (None, Some ([0], ?f))"
    unfolding handle_notification_def routeIndicator_def example_payload_read option.case by code_simp
  then have h: "handle_notification id_env (h_registry s1) IndicatorChannel example_payload trash_world
      = (Inr (None, Some ([0], ?f)), snd (handle_notification id_env (h_registry s1) IndicatorChannel example_payload trash_world))"
    unfolding reg by (metis prod.collapse)
  have pending: "h_pending s1 = []" by (simp add: s1_def NewHub_def set_client_def)
  have pool: "\<not> intx trash_world" "\<not> aborted trash_world" by code_simp+
  from hub_step.Notified [OF pending pool h] have "?step s1 s2"
    by (simp add: s2_def opt_list_def s1_def NewHub_def set_client_def)
  with r1 have r2: "?reach s2" by (rule hub_reachable.Next)
  define s3 where "s3 = set_client (s2\<lparr>h_pending := []\<rparr>) 0 (send_one ?f (new_client ''@al@ex.org''))"
  have "?step s2 s3" unfolding s3_def by (rule hub_step.Offered) (simp_all add: s2_def s1_def set_client_def)
  with r2 have r3: "?reach s3" by (rule hub_reachable.Next)
  define c3 where "c3 = (new_client ''@al@ex.org'')\<lparr>cl_send := [?f], cl_offered := [?f]\<rparr>"
  have c3: "h_clients s3 0 = Some c3" "cl_writer c3" "cl_open c3" "cl_send c3 = [?f]"
    by (simp_all add: c3_def s3_def set_client_def send_one_def new_client_def wsSendBuffer_def Let_def)
  have "?step s3 (set_client s3 0 (c3\<lparr>cl_send := [], cl_written := cl_written c3 @ [?f]\<rparr>))"
    using c3 by (rule hub_step.Written)
  with r3 have "?reach (set_client s3 0 (c3\<lparr>cl_send := [], cl_written := cl_written c3 @ [?f]\<rparr>))"
    by (rule hub_reachable.Next)
  moreover have "c3\<lparr>cl_send := [], cl_written := cl_written c3 @ [?f]\<rparr> = example_client"
    by (simp add: c3_def example_client_def new_client_def Let_def)
  ultimately show ?thesis
    by (intro exI [of _ "set_client s3 0 example_client"]) (simp add: set_client_def s3_def s2_def)
qed

theorem Connect_spec_witness:
  "\<exists>tok res w1. AuthenticateRequest id_env example_verifier tok ''10.1.1.1'' (actAsParam example_request) grant_world = (Inr res, w1)
     \<and> (AuthType res = AuthTypeOAuth \<longrightarrow> ScopeRead \<in> set (Scopes res)) \<and> ''@al@ex.org'' = ToLower (Addr res)
     \<and> (\<exists>c. example_claims tok = Some c \<and> cl_exp c = Some 7)"
proof -
  obtain w1 where c: "Connect id_env example_verifier example_upgrade [''https://a''] example_request grant_world
     = (Inr (''@al@ex.org'', Some 7), w1)" using example_connect by blast
  have "example_upgrade False \<noteq> None" and "q_client_ip example_request = ''10.1.1.1''"
    by (simp_all add: example_upgrade_def example_request_def)
  moreover have "v_idp example_verifier = Some (\<lambda>_. example_claims)" by (simp add: example_verifier_def)
  ultimately show ?thesis using Connect_spec [OF c] by (fastforce split: if_splits)
qed

theorem hub_frames_witness:
  "\<exists>f. f \<in> set (cl_written example_client)
     \<and> frame_for id_env (cl_addr example_client) (IndicatorChannel, example_payload, trash_world) f"
proof -
  obtain s where s: "hub_reachable id_env example_verifier example_upgrade [''https://a''] s"
    "h_clients s 0 = Some example_client" "h_log s = [(IndicatorChannel, example_payload, trash_world)]" using example_hub by blast
  from hub_frames [OF s(1,2)] s(3) show ?thesis by (simp add: example_client_def Let_def)
qed

theorem hub_in_order_witness:
  "cl_open example_client \<and> cl_writer example_client \<and> cl_offered example_client = cl_written example_client @ cl_send example_client"
proof -
  obtain s where "hub_reachable id_env example_verifier example_upgrade [''https://a''] s"
    "h_clients s 0 = Some example_client" using example_hub by blast
  from hub_in_order [OF this] show ?thesis by (simp add: example_client_def new_client_def Let_def)
qed

theorem hub_registry_witness:
  "\<exists>s :: hub_state. h_clients s 0 = Some example_client \<and> registry_ok (h_registry s) (h_clients s)"
proof -
  obtain s where r: "hub_reachable id_env example_verifier example_upgrade [''https://a''] s"
    and c: "h_clients s 0 = Some example_client" using example_hub by blast
  from hub_registry [OF r] c show ?thesis by blast
qed

theorem hub_delivers_witness:
  "\<exists>s s1 c1. (hub_step id_env example_verifier example_upgrade [''https://a''])\<^sup>*\<^sup>* s s1
     \<and> h_clients s1 0 = Some c1 \<and> cl_written c1 = cl_offered example_client"
proof -
  obtain s where r: "hub_reachable id_env example_verifier example_upgrade [''https://a''] s"
    and c: "h_clients s 0 = Some example_client" using example_hub by blast
  have "cl_open example_client" "cl_writer example_client" by (simp_all add: example_client_def new_client_def Let_def)
  from hub_delivers [OF r c this] show ?thesis by blast
qed

end
