(* ===== verification/Push.thy ===== *)
theory Push
  imports HubRuns
begin

text \<open>
  Web Push (\<open>src/internal/handlers/push.go\<close>): the subscriptions, kept by address and endpoint, and the push
  sent to each of them for a new message.  The transport (\<open>webpush-go\<close>, which encrypts and posts a push)
  is the parameter \<open>send\<close>: the status the push service answers, or \<open>None\<close> for a failure, at a given tick.
  A push is kept as its fields, not as its JSON text.
\<close>

subsection \<open>Subscriptions\<close>

record pushSubscriptionInput =
  Endpoint :: string
  P256dh :: string
  KeysAuth :: string

record pushPayload =
  Title :: string
  Body :: string
  ThreadID :: int
  URL :: string
  Tag :: string
  Icon :: string

definition push_key :: "push_row \<Rightarrow> string \<times> string" where
  "push_key p = (p_addr p, p_endpoint p)"

definition upsert_push :: "push_row \<Rightarrow> database \<Rightarrow> database" where
  "upsert_push p d = d\<lparr>pushes := (if list_ex (\<lambda>q. push_key q = push_key p) (pushes d)
     then update_where (\<lambda>q. push_key q = push_key p) (\<lambda>q. q\<lparr>p_key := p_key p, p_auth := p_auth p\<rparr>) (pushes d)
     else pushes d @ [p])\<rparr>"

definition delete_push :: "string \<Rightarrow> string \<Rightarrow> database \<Rightarrow> database" where
  "delete_push addr endpoint d = d\<lparr>pushes := delete_where (\<lambda>q. p_addr q = addr \<and> p_endpoint q = endpoint) (pushes d)\<rparr>"

text \<open>The body is what \<open>ShouldBindJSON\<close> decoded, or the text of its error.\<close>

definition Subscribe :: "env \<Rightarrow> string \<Rightarrow> string + pushSubscriptionInput \<Rightarrow> (response, response) act" where
  "Subscribe E identity body = (case body of Inl why \<Rightarrow> throw (err 400 why)
     | Inr inp \<Rightarrow>
       bind (unless (Endpoint inp \<noteq> [] \<and> P256dh inp \<noteq> [] \<and> KeysAuth inp \<noteq> [])
         (err 400 ''endpoint, keys.p256dh and keys.auth are required'')) (\<lambda>_.
       bind (or_fail (sql_exec E (upsert_push \<lparr>p_addr = identity, p_endpoint = Endpoint inp, p_key = P256dh inp,
           p_auth = KeysAuth inp\<rparr>)) (err 500 ''failed to store subscription'')) (\<lambda>_.
       ret (201, JNull))))"

definition Unsubscribe :: "env \<Rightarrow> string \<Rightarrow> string + string \<Rightarrow> (response, response) act" where
  "Unsubscribe E identity body = (case body of Inl why \<Rightarrow> throw (err 400 why)
     | Inr endpoint \<Rightarrow>
       bind (unless (endpoint \<noteq> []) (err 400 ''endpoint is required'')) (\<lambda>_.
       bind (or_fail (sql_exec E (delete_push identity endpoint)) (err 500 ''failed to remove subscription'')) (\<lambda>_.
       ret (204, JNull))))"

subsection \<open>The root of a thread\<close>

text \<open>The recursive query has no depth limit: on a chain of parents that never ends it does not return
  (\<open>None\<close>), until the time limit of the push (\<open>pushTimeout\<close>) cancels it.  \<open>Some None\<close> is no row.\<close>

partial_function (option) root_walk :: "database \<Rightarrow> int \<Rightarrow> int option option" where
  "root_walk d i = (case find_msg d i of None \<Rightarrow> Some None
     | Some m \<Rightarrow> (case m_pid m of None \<Rightarrow> Some (Some (m_id m)) | Some p \<Rightarrow> root_walk d p))"

declare root_walk.simps [code]

definition rootMsgID :: "env \<Rightarrow> int \<Rightarrow> ('e, int option) act" where
  "rootMsgID E i = bind (sql_query E (\<lambda>d. root_walk d i)) (\<lambda>r. ret (case r of
     Inl _ \<Rightarrow> None | Inr None \<Rightarrow> None | Inr (Some None) \<Rightarrow> Some i | Inr (Some (Some root)) \<Rightarrow> Some root))"

subsection \<open>Sending\<close>

definition buildPushPayload :: "list_item \<Rightarrow> int \<Rightarrow> string \<Rightarrow> pushPayload" where
  "buildPushPayload item root iconURL = \<lparr>Title = From item, Body = ShortText item, ThreadID = root,
     URL = ''/app3.html?thread='' @ Itoa root, Tag = ''thread-'' @ Itoa root, Icon = iconURL\<rparr>"

definition shouldPrune :: "nat \<Rightarrow> bool" where
  "shouldPrune status \<longleftrightarrow> status = 404 \<or> status = 410"

type_synonym transport = "nat \<Rightarrow> pushPayload \<Rightarrow> push_row \<Rightarrow> nat option"

definition transmit :: "transport \<Rightarrow> pushPayload \<Rightarrow> push_row \<Rightarrow> ('e, nat option) act" where
  "transmit send payload sub w = (Inr (send (tick w) payload sub), w\<lparr>tick := Suc (tick w)\<rparr>)"

definition push_one :: "env \<Rightarrow> transport \<Rightarrow> pushPayload \<Rightarrow> string \<Rightarrow> push_row \<Rightarrow> ('e, push_row \<times> nat option) act" where
  "push_one E send payload addr sub = bind (transmit send payload sub) (\<lambda>st. case st of
     None \<Rightarrow> ret (sub, None)
   | Some status \<Rightarrow> if shouldPrune status
       then bind (sql_exec E (delete_push addr (p_endpoint sub))) (\<lambda>_. ret (sub, Some status))
       else ret (sub, Some status))"

text \<open>What to push and to whom, or nothing.  The query of the subscriptions fails as a whole here; the code does not ask
  \<open>rows.Err\<close>, so one that breaks off half way leaves it with the rows read until then.\<close>

definition push_plan :: "env \<Rightarrow> string \<Rightarrow> int \<Rightarrow> string \<Rightarrow> (response, (pushPayload \<times> push_row list) option) act" where
  "push_plan E iconURL i addr =
     bind (sql_query E (\<lambda>d. filter (\<lambda>p. p_addr p = addr) (pushes d))) (\<lambda>q. case q of Inl _ \<Rightarrow> ret None
     | Inr subs \<Rightarrow>
       if subs = [] then ret None
       else bind (rootMsgID E i) (\<lambda>r. case r of None \<Rightarrow> ret None
       | Some root \<Rightarrow>
         bind (messageItemFor E i addr) (\<lambda>it. case it of None \<Rightarrow> ret None
         | Some item \<Rightarrow>
           if MsgReaction item \<noteq> None then ret None
           else if purged item \<or> Trash item \<noteq> None then ret None
           else ret (Some (buildPushPayload item root iconURL, subs)))))"

text \<open>The pushes sent: the payload, and each subscription with the answer it got.\<close>

definition NotifyNewMsg :: "env \<Rightarrow> transport \<Rightarrow> string \<Rightarrow> int \<Rightarrow> string
    \<Rightarrow> (response, (pushPayload \<times> (push_row \<times> nat option) list) option) act" where
  "NotifyNewMsg E send iconURL i addr = bind (push_plan E iconURL i addr) (\<lambda>plan. case plan of
     None \<Rightarrow> ret None
   | Some (payload, subs) \<Rightarrow> bind (each_map (push_one E send payload addr) subs) (\<lambda>sent. ret (Some (payload, sent))))"

subsection \<open>The subscriptions stay unique, and are found again\<close>

definition push_store_ok :: "database \<Rightarrow> bool" where
  "push_store_ok d \<longleftrightarrow> distinct (map push_key (pushes d))"

lemma filter_update_rest:
  assumes "\<And>x. P x \<Longrightarrow> P (f x)"
  shows "filter (\<lambda>x. \<not> P x) (update_where P f xs) = filter (\<lambda>x. \<not> P x) xs"
  by (induction xs) (simp_all add: update_where_def assms)

lemma upsert_push_ok: "push_store_ok d \<Longrightarrow> push_store_ok (upsert_push p d)"
  by (auto simp: push_store_ok_def upsert_push_def list_ex_iff map_update_where push_key_def)

lemma delete_push_ok: "push_store_ok d \<Longrightarrow> push_store_ok (delete_push a e d)"
  by (simp add: push_store_ok_def delete_push_def delete_where_def distinct_map_filter)

text \<open>Subscribing stores exactly the given keys under the caller's address and endpoint, replacing what was
  there, and changes no other subscription and no other table; the pair of address and endpoint stays unique.\<close>

theorem Subscribe_spec:
  assumes "Subscribe E identity (Inr inp) w = (Inr resp, w1)" and "push_store_ok (db w)"
  shows "resp = (201, JNull) \<and> push_store_ok (db w1) \<and> db w1 = (db w)\<lparr>pushes := pushes (db w1)\<rparr>
    \<and> filter (\<lambda>p. push_key p = (identity, Endpoint inp)) (pushes (db w1))
        = [\<lparr>p_addr = identity, p_endpoint = Endpoint inp, p_key = P256dh inp, p_auth = KeysAuth inp\<rparr>]
    \<and> filter (\<lambda>p. push_key p \<noteq> (identity, Endpoint inp)) (pushes (db w1))
        = filter (\<lambda>p. push_key p \<noteq> (identity, Endpoint inp)) (pushes (db w))"
proof -
  let ?p = "\<lparr>p_addr = identity, p_endpoint = Endpoint inp, p_key = P256dh inp, p_auth = KeysAuth inp\<rparr>"
  have k: "push_key ?p = (identity, Endpoint inp)" by (simp add: push_key_def)
  from assms(1) have r: "resp = (201, JNull)" and d: "db w1 = upsert_push ?p (db w)"
    by (auto simp: Subscribe_def run_Inr sql_exec_Inr ret_eq)
  have one: "filter (\<lambda>p. push_key p = push_key ?p) (pushes (upsert_push ?p (db w))) = [?p]"
  proof (cases "list_ex (\<lambda>q. push_key q = push_key ?p) (pushes (db w))")
    case True
    then obtain q xs ys where q: "pushes (db w) = xs @ q # ys" "push_key q = push_key ?p"
      by (auto simp: list_ex_iff dest: split_list)
    with assms(2) have n: "filter (\<lambda>p. push_key p = push_key ?p) xs = []" "filter (\<lambda>p. push_key p = push_key ?p) ys = []"
      by (auto simp: push_store_ok_def filter_empty_conv image_iff)
    have eq: "q\<lparr>p_key := p_key ?p, p_auth := p_auth ?p\<rparr> = ?p" using q(2) by (cases q) (simp add: push_key_def)
    have f: "filter (\<lambda>p. push_key p = push_key ?p) (update_where (\<lambda>q. push_key q = push_key ?p) g (pushes (db w)))
      = update_where (\<lambda>q. push_key q = push_key ?p) g (filter (\<lambda>p. push_key p = push_key ?p) (pushes (db w)))"
      if "\<And>q. push_key (g q) = push_key q" for g using that by (intro filter_update_where) simp
    show ?thesis using True f [of "\<lambda>q. q\<lparr>p_key := p_key ?p, p_auth := p_auth ?p\<rparr>"] n q eq
      by (simp add: upsert_push_def push_key_def update_where_def)
  next
    case False
    then show ?thesis by (auto simp: upsert_push_def filter_empty_conv list_ex_iff)
  qed
  have rest: "filter (\<lambda>p. push_key p \<noteq> push_key ?p) (pushes (upsert_push ?p (db w)))
     = filter (\<lambda>p. push_key p \<noteq> push_key ?p) (pushes (db w))"
    using filter_update_rest [of "\<lambda>q. push_key q = push_key ?p" "\<lambda>q. q\<lparr>p_key := p_key ?p, p_auth := p_auth ?p\<rparr>"]
    by (simp add: upsert_push_def push_key_def)
  show ?thesis using r d one rest upsert_push_ok [OF assms(2), of ?p]
    unfolding k d by (simp add: upsert_push_def)
qed

theorem Subscribe_spec_witness:
  "filter (\<lambda>p. push_key p = (''@al@ex.org'', ''https://p/1''))
     (pushes (db (snd (Subscribe example_env ''@al@ex.org'' (Inr \<lparr>Endpoint = ''https://p/1'', P256dh = ''k'', KeysAuth = ''a''\<rparr>) trash_world))))
   = [\<lparr>p_addr = ''@al@ex.org'', p_endpoint = ''https://p/1'', p_key = ''k'', p_auth = ''a''\<rparr>]"
proof -
  let ?r = "Subscribe example_env ''@al@ex.org'' (Inr \<lparr>Endpoint = ''https://p/1'', P256dh = ''k'', KeysAuth = ''a''\<rparr>) trash_world"
  have "fst ?r = Inr (201, JNull)" and ok: "push_store_ok (db trash_world)" by code_simp+
  then have run: "?r = (Inr (201, JNull), snd ?r)" by (metis prod.collapse)
  from Subscribe_spec [OF run ok] show ?thesis by simp
qed

subsection \<open>The walk to the root returns\<close>

text \<open>The walk up the parents returns on every table in which a parent is older than its replies, as the id
  sequence makes it; it gives the message of the chain without a parent, or no row where the chain leaves the
  table.\<close>

theorem root_walk_returns:
  assumes "\<forall>m \<in> set (msgs d). \<forall>p. m_pid m = Some p \<longrightarrow> 0 \<le> p \<and> p < m_id m"
  shows "\<exists>r. root_walk d i = Some r \<and> (\<forall>root. r = Some root \<longrightarrow>
     (\<exists>m. find_msg d root = Some m \<and> m_pid m = None \<and> root \<in> set (ancestors d (nat i) i)))"
proof (induction "nat i" arbitrary: i rule: less_induct)
  case less
  show ?case
  proof (cases "find_msg d i")
    case None
    then show ?thesis by (subst root_walk.simps) simp
  next
    case (Some m)
    then have m: "m \<in> set (msgs d)" "m_id m = i" by (auto simp: find_msg_def dest: find_Some_mem)
    show ?thesis
    proof (cases "m_pid m")
      case None
      with Some m ancestors_hd [of d "nat i" i] show ?thesis by (subst root_walk.simps) auto
    next
      case (Some p)
      with assms m have p: "0 \<le> p" "p < i" by auto
      then have "nat p < nat i" and n: "nat i = Suc (nat (i - 1))" and le: "nat p \<le> nat (i - 1)" by auto
      have more_steps: "set (ancestors d a j) \<subseteq> set (ancestors d b j)" if "a \<le> b" for a b j
        using that
      proof (induction a arbitrary: b j)
        case 0
        then show ?case using ancestors_hd [of d b j] by auto
      next
        case (Suc a)
        then obtain b1 where "b = Suc b1" "a \<le> b1" by (cases b) auto
        with Suc.IH [of b1] show ?case by (auto split: option.splits)
      qed
      have "set (ancestors d (nat p) p) \<subseteq> set (ancestors d (nat i) i)"
        using more_steps [OF le, of p] \<open>find_msg d i = Some m\<close> Some unfolding n by auto
      with less [OF \<open>nat p < nat i\<close>] \<open>find_msg d i = Some m\<close> Some show ?thesis
        by (subst root_walk.simps) auto
    qed
  qed
qed

theorem root_walk_returns_witness: "root_walk thread_db 2 = Some (Some 1)"
proof -
  have "\<forall>m \<in> set (msgs thread_db). \<forall>p. m_pid m = Some p \<longrightarrow> 0 \<le> p \<and> p < m_id m"
    by (simp add: thread_db_def empty_db_def)
  from root_walk_returns [OF this, of 2] obtain r where "root_walk thread_db 2 = Some r" by blast
  moreover have "root_walk thread_db 2 = Some (Some 1)" by code_simp
  ultimately show ?thesis by simp
qed

subsection \<open>Who is told, and what is pruned\<close>

lemma push_one_Inr:
  assumes "push_one E send payload addr sub w = (Inr x, w1)"
  shows "\<exists>st. x = (sub, st) \<and> (db w1 = db w \<or> db w1 = delete_push addr (p_endpoint sub) (db w)
     \<and> (\<exists>s. st = Some s \<and> shouldPrune s))"
  using assms by (auto simp: push_one_def bind_Inr transmit_def ret_eq sql_exec_def stmt_def Let_def
      split: option.splits if_splits)

lemma push_each_Inr:
  assumes "each_map (push_one E send payload addr) subs w = (Inr sent, w1)"
  shows "map fst sent = subs \<and> (\<exists>gone. db w1 = (db w)\<lparr>pushes := filter (\<lambda>p. p \<notin> gone) (pushes (db w))\<rparr>
     \<and> (\<forall>p \<in> gone. p_addr p = addr \<and> (\<exists>sub s. (sub, Some s) \<in> set sent \<and> p_endpoint sub = p_endpoint p \<and> shouldPrune s)))"
  using assms
proof (induction subs arbitrary: w sent)
  case Nil
  then show ?case by (auto simp: ret_eq intro: exI [of _ "{}"])
next
  case (Cons sub subs)
  from Cons.prems obtain x w2 rest where x: "push_one E send payload addr sub w = (Inr x :: 'a + _, w2)"
    and r: "each_map (push_one E send payload addr) subs w2 = (Inr rest :: 'a + _, w1)" and s: "sent = x # rest"
    by (auto simp: bind_Inr ret_eq)
  from push_one_Inr [OF x] obtain st where st: "x = (sub, st)" and d: "db w2 = db w \<or> db w2 = delete_push addr (p_endpoint sub) (db w)
     \<and> (\<exists>s. st = Some s \<and> shouldPrune s)" by blast
  from Cons.IH [OF r] obtain gone where g: "map fst rest = subs" "db w1 = (db w2)\<lparr>pushes := filter (\<lambda>p. p \<notin> gone) (pushes (db w2))\<rparr>"
    "\<forall>p \<in> gone. p_addr p = addr \<and> (\<exists>sub s. (sub, Some s) \<in> set rest \<and> p_endpoint sub = p_endpoint p \<and> shouldPrune s)" by blast
  from d show ?case
  proof
    assume "db w2 = db w"
    with g s st show ?thesis by (intro conjI exI [of _ gone]) fastforce+
  next
    assume a: "db w2 = delete_push addr (p_endpoint sub) (db w) \<and> (\<exists>s. st = Some s \<and> shouldPrune s)"
    let ?g = "gone \<union> {p. p_addr p = addr \<and> p_endpoint p = p_endpoint sub}"
    have "db w1 = (db w)\<lparr>pushes := filter (\<lambda>p. p \<notin> ?g) (pushes (db w))\<rparr>"
      using a g(2) by (auto simp: delete_push_def delete_where_def conj_commute intro!: arg_cong2 [of _ _ _ _ pushes_update] filter_cong)
    moreover have "\<forall>p \<in> ?g. p_addr p = addr \<and> (\<exists>sub s. (sub, Some s) \<in> set sent \<and> p_endpoint sub = p_endpoint p \<and> shouldPrune s)"
    proof
      fix p
      assume "p \<in> ?g"
      then consider "p \<in> gone" | "p_addr p = addr" "p_endpoint p = p_endpoint sub" by blast
      then show "p_addr p = addr \<and> (\<exists>sub s. (sub, Some s) \<in> set sent \<and> p_endpoint sub = p_endpoint p \<and> shouldPrune s)"
      proof cases
        case 1
        with g(3) s show ?thesis by (metis list.set_intros(2))
      next
        case 2
        with a s st show ?thesis by (metis list.set_intros(1))
      qed
    qed
    ultimately have "\<exists>gone. db w1 = (db w)\<lparr>pushes := filter (\<lambda>p. p \<notin> gone) (pushes (db w))\<rparr>
     \<and> (\<forall>p \<in> gone. p_addr p = addr \<and> (\<exists>sub s. (sub, Some s) \<in> set sent \<and> p_endpoint sub = p_endpoint p \<and> shouldPrune s))"
      by (intro exI [of _ ?g] conjI)
    moreover have "map fst sent = sub # subs" using g(1) s st by simp
    ultimately show ?thesis by (intro conjI)
  qed
qed

lemma rootMsgID_Inr: "rootMsgID E i w = (Inr r, w1) \<Longrightarrow> db w1 = db w"
  by (auto simp: rootMsgID_def act_defs Let_def split: if_splits)

lemma push_plan_state: "push_plan E iconURL i addr w = (Inr p, w1) \<Longrightarrow> db w1 = db w"
proof (rule same_db)
  show "keeps (\<lambda>x. db x = db w) (push_plan E iconURL i addr)"
    unfolding push_plan_def rootMsgID_def messageItemFor_def Let_def by (intro keeps_intros keeps_if)
qed

lemma push_plan_Some:
  assumes "push_plan E iconURL i addr w = (Inr (Some (payload, subs)), w1)"
  shows "subs = filter (\<lambda>p. p_addr p = addr) (pushes (db w)) \<and> fmsg_api_trash_state (db w) (ToLower addr) i = None
    \<and> (\<exists>m. find_msg (db w) i = Some m \<and> Title payload = m_from m)"
proof -
  from assms [unfolded push_plan_def bind_Inr] obtain q w2 where
    q: "sql_query E (\<lambda>d. filter (\<lambda>p. p_addr p = addr) (pushes d)) w = (Inr q :: response + _, w2)"
    and k: "(case q of Inl _ \<Rightarrow> ret None
     | Inr subs \<Rightarrow>
       if subs = [] then ret None
       else bind (rootMsgID E i) (\<lambda>r. case r of None \<Rightarrow> ret None
       | Some root \<Rightarrow>
         bind (messageItemFor E i addr) (\<lambda>it. case it of None \<Rightarrow> ret None
         | Some item \<Rightarrow>
           if MsgReaction item \<noteq> None then ret None
           else if purged item \<or> Trash item \<noteq> None then ret None
           else ret (Some (buildPushPayload item root iconURL, subs))))) w2
      = (Inr (Some (payload, subs)) :: response + _, w1)" by blast
  from k obtain rows where s: "q = Inr rows" by (cases q) (auto simp: ret_eq)
  with q have w2: "rows = filter (\<lambda>p. p_addr p = addr) (pushes (db w))" "db w2 = db w" by (auto simp: sql_query_Inr)
  from k [unfolded s sum.case] have ne: "rows \<noteq> []" by (auto simp: ret_eq)
  from k [unfolded s sum.case if_not_P [OF ne] bind_Inr] obtain r w3 where r: "rootMsgID E i w2 = (Inr r :: response + _, w3)"
    and k3: "(case r of None \<Rightarrow> ret None
       | Some root \<Rightarrow>
         bind (messageItemFor E i addr) (\<lambda>it. case it of None \<Rightarrow> ret None
         | Some item \<Rightarrow>
           if MsgReaction item \<noteq> None then ret None
           else if purged item \<or> Trash item \<noteq> None then ret None
           else ret (Some (buildPushPayload item root iconURL, rows)))) w3
      = (Inr (Some (payload, subs)) :: response + _, w1)"
    unfolding bind_Inr by blast
  from k3 obtain root where root: "r = Some root" by (cases r) (auto simp: ret_eq)
  from k3 [unfolded root option.case bind_Inr] obtain it w4 where it: "messageItemFor E i addr w3 = (Inr it, w4)"
    and k4: "(case it of None \<Rightarrow> ret None
         | Some item \<Rightarrow>
           if MsgReaction item \<noteq> None then ret None
           else if purged item \<or> Trash item \<noteq> None then ret None
           else ret (Some (buildPushPayload item root iconURL, rows))) w4
      = (Inr (Some (payload, subs)) :: response + _, w1)" by blast
  from k4 obtain item where item: "it = Some item" "\<not> purged item" "Trash item = None" "payload = buildPushPayload item root iconURL"
    "subs = rows"
    by (cases it) (auto simp: ret_eq split: if_splits)
  from messageItemFor_Inr [OF it [unfolded item(1)]] item rootMsgID_Inr [OF r] w2 show ?thesis
    by (auto simp: buildPushPayload_def)
qed

text \<open>C30: pushes go to all the subscriptions of the address the notification names and to no other, for a message
  that exists and is not in that address's trash; they carry the message's sender.  The only thing that
  changes in the tables is that subscriptions of the address are deleted, each because the push service
  answered for its endpoint that it is gone.\<close>

theorem NotifyNewMsg_spec:
  assumes "NotifyNewMsg E send iconURL i addr w = (Inr out, w1)"
  shows "\<exists>gone. db w1 = (db w)\<lparr>pushes := filter (\<lambda>p. p \<notin> gone) (pushes (db w))\<rparr>
    \<and> (case out of None \<Rightarrow> gone = {}
     | Some (payload, sent) \<Rightarrow> map fst sent = filter (\<lambda>p. p_addr p = addr) (pushes (db w))
        \<and> fmsg_api_trash_state (db w) (ToLower addr) i = None
        \<and> (\<exists>m. find_msg (db w) i = Some m \<and> Title payload = m_from m)
        \<and> (\<forall>p \<in> gone. p_addr p = addr \<and> (\<exists>sub s. (sub, Some s) \<in> set sent \<and> p_endpoint sub = p_endpoint p \<and> shouldPrune s)))"
proof -
  from assms [unfolded NotifyNewMsg_def bind_Inr] obtain plan w2 where p: "push_plan E iconURL i addr w = (Inr plan, w2)"
    and k: "(case plan of None \<Rightarrow> ret None
   | Some (payload, subs) \<Rightarrow> bind (each_map (push_one E send payload addr) subs) (\<lambda>sent. ret (Some (payload, sent)))) w2
     = (Inr out :: response + _, w1)" by blast
  have d: "db w2 = db w" by (rule push_plan_state [OF p])
  show ?thesis
  proof (cases plan)
    case None
    with k d show ?thesis by (auto simp: ret_eq intro!: exI [of _ "{}"])
  next
    case (Some pl)
    obtain payload subs where pl: "pl = (payload, subs)" by fastforce
    from k [unfolded Some pl option.case prod.case bind_Inr ret_eq] obtain sent where
      e: "each_map (push_one E send payload addr) subs w2 = (Inr sent :: response + _, w1)" and out: "out = Some (payload, sent)" by blast
    from push_each_Inr [OF e] d obtain gone where g: "map fst sent = subs" "db w1 = (db w)\<lparr>pushes := filter (\<lambda>p. p \<notin> gone) (pushes (db w))\<rparr>"
      "\<forall>p \<in> gone. p_addr p = addr \<and> (\<exists>sub s. (sub, Some s) \<in> set sent \<and> p_endpoint sub = p_endpoint p \<and> shouldPrune s)" by auto
    from push_plan_Some [OF p [unfolded Some pl]] g show ?thesis
      unfolding out option.case prod.case by (intro exI [of _ gone]) blast
  qed
qed

definition push_world :: world where
  "push_world = trash_world\<lparr>db := thread_db\<lparr>pushes := [\<lparr>p_addr = ''@al@ex.org'', p_endpoint = ''e'', p_key = ''k'', p_auth = ''a''\<rparr>,
     \<lparr>p_addr = ''@bo@ex.org'', p_endpoint = ''e'', p_key = ''k'', p_auth = ''a''\<rparr>]\<rparr>\<rparr>"

theorem NotifyNewMsg_spec_witness:
  "map p_addr (pushes (db (snd (NotifyNewMsg example_env (\<lambda>_ _ _. Some 410) [] 2 ''@al@ex.org'' push_world)))) = [''@bo@ex.org'']"
proof -
  let ?r = "NotifyNewMsg example_env (\<lambda>_ _ _. Some 410) [] 2 ''@al@ex.org'' push_world"
  have "case fst ?r of Inr (Some _) \<Rightarrow> length (pushes (db (snd ?r))) = 1 | _ \<Rightarrow> False" by code_simp
  then obtain out where run: "?r = (Inr out, snd ?r)" and one: "length (pushes (db (snd ?r))) = 1"
    by (cases ?r) (auto split: sum.splits option.splits)
  let ?a = "\<lparr>p_addr = ''@al@ex.org'', p_endpoint = ''e'', p_key = ''k'', p_auth = ''a''\<rparr>"
  let ?b = "\<lparr>p_addr = ''@bo@ex.org'', p_endpoint = ''e'', p_key = ''k'', p_auth = ''a''\<rparr>"
  have rows: "pushes (db push_world) = [?a, ?b]" by (simp add: push_world_def)
  from NotifyNewMsg_spec [OF run] obtain gone where d: "db (snd ?r) = (db push_world)\<lparr>pushes := filter (\<lambda>p. p \<notin> gone) (pushes (db push_world))\<rparr>"
    and c: "out = None \<longrightarrow> gone = {}" "\<forall>pl sent. out = Some (pl, sent) \<longrightarrow> (\<forall>p \<in> gone. p_addr p = ''@al@ex.org'')"
    by (auto split: option.splits)
  have g: "pushes (db (snd ?r)) = filter (\<lambda>p. p \<notin> gone) [?a, ?b]" "\<forall>p \<in> gone. p_addr p = ''@al@ex.org''"
    using c by (cases out; auto simp: d rows)+
  from g(2) have "?b \<notin> gone" by auto
  with g(1) one show ?thesis by (auto split: if_splits)
qed

end
