(* ===== verification/Bodies.thy ===== *)
theory Bodies
  imports CommandLine Push
begin

text \<open>
  The request bodies: the structs the handlers bind a JSON body to with gin's \<open>ShouldBindJSON\<close>, and what a
  text is decoded to.  \<open>ShouldBindJSON\<close> is \<open>decodeJSON\<close> into a new variable (no struct has validation
  tags), so it reads the first JSON value of the body and ignores what follows.  The wording of a decoding
  error is the library's; a body that is not decoded is \<open>None\<close>, or the text the handlers answer it with.

  Shown here: the decoder reads back what a client writes for a draft, whatever else the body names.
\<close>

definition ShouldBindJSON :: "gotype \<Rightarrow> string \<Rightarrow> goval option" where
  "ShouldBindJSON t body = decodeJSON t (zero_value t) body"

definition bind_error :: string where
  "bind_error = ''invalid request body''"

definition or_error :: "'a option \<Rightarrow> string + 'a" where
  "or_error x = (case x of None \<Rightarrow> Inl bind_error | Some a \<Rightarrow> Inr a)"

subsection \<open>Messages\<close>

text \<open>\<open>models.Message\<close> without the fields that \<open>messageInput\<close> shadows (\<open>pid\<close> and \<open>add_to\<close>), then the fields
  of \<open>messageInput\<close> itself.  Every field is decoded, also those that are ignored afterwards.\<close>

definition delivery_type :: gotype where
  "delivery_type = GoStruct [(''addr'', GoString), (''time_delivered'', GoPtr GoString), (''response_code'', GoPtr GoInt)]"

definition attachment_type :: gotype where
  "attachment_type = GoStruct [(''size'', GoInt), (''filename'', GoString)]"

definition reaction_type :: gotype where
  "reaction_type = GoStruct [(''emoji'', GoString), (''from'', GoSlice GoString)]"

definition message_fields :: "(string \<times> gotype) list" where
  "message_fields = [(''sha256'', GoPtr GoString), (''psha256'', GoPtr GoString), (''version'', GoInt), (''has_pid'', GoBool),
     (''has_add_to'', GoBool), (''important'', GoBool), (''no_reply'', GoBool), (''deflate'', GoBool), (''terminal'', GoBool),
     (''from'', GoString), (''to'', GoSlice GoString), (''to_delivery'', GoSlice delivery_type), (''time'', GoPtr GoFloat),
     (''topic'', GoString), (''type'', GoString), (''size'', GoInt), (''short_text'', GoString), (''read'', GoBool),
     (''time_read'', GoPtr GoFloat), (''attachments'', GoSlice attachment_type), (''reaction'', GoPtr GoString),
     (''reactions'', GoSlice reaction_type), (''trash'', GoPtr GoString)]"

definition message_type :: gotype where
  "message_type = GoStruct (message_fields @ [(''pid'', GoRaw), (''add_to'', GoAny), (''data'', GoString)])"

text \<open>\<open>resolveParent\<close> looks at the text of \<open>pid\<close>: nothing or \<open>null\<close>, a string, or else an integer.  The text of a
  value that is not a number differs from what is printed here in white space and escapes only, and is no
  integer either way.\<close>

definition parent_of :: "goval \<Rightarrow> parent_json" where
  "parent_of v = (case v of OfRaw (Some j) \<Rightarrow>
       (case j of VNull \<Rightarrow> NoParent | VStr s \<Rightarrow> ParentString s | _ \<Rightarrow> ParentText (print_json j))
     | _ \<Rightarrow> NoParent)"

definition message_of :: "goval \<Rightarrow> messageInput" where
  "message_of v = \<lparr>InFrom = go_string (go_field ''from'' v), InTo = go_slice go_string (go_field ''to'' v),
     InVersion = go_int (go_field ''version'' v), InNoReply = go_bool (go_field ''no_reply'' v),
     InImportant = go_bool (go_field ''important'' v), InTerminal = go_bool (go_field ''terminal'' v),
     InTopic = go_string (go_field ''topic'' v), InType = go_string (go_field ''type'' v),
     InParent = parent_of (go_field ''pid'' v), InData = go_string (go_field ''data'' v)\<rparr>"

definition decode_message :: "string \<Rightarrow> messageInput option" where
  "decode_message body = map_option message_of (ShouldBindJSON message_type body)"

definition decode_recipients :: "string \<Rightarrow> string list option" where
  "decode_recipients body = map_option (\<lambda>v. go_slice go_string (go_field ''add_to'' v))
     (ShouldBindJSON (GoStruct [(''add_to'', GoSlice GoString)]) body)"

definition decode_reaction :: "string \<Rightarrow> string option option" where
  "decode_reaction body = map_option (\<lambda>v. go_ptr go_string (go_field ''emoji'' v))
     (ShouldBindJSON (GoStruct [(''emoji'', GoPtr GoString)]) body)"

definition decode_indicate :: "string \<Rightarrow> string + indicateInput" where
  "decode_indicate body = or_error (map_option
     (\<lambda>v. \<lparr>InEmoji = go_ptr go_string (go_field ''emoji'' v), InTTL = go_ptr go_int (go_field ''ttl'' v)\<rparr>)
     (ShouldBindJSON (GoStruct [(''emoji'', GoPtr GoString), (''ttl'', GoPtr GoInt)]) body))"

subsection \<open>Sub-accounts and push subscriptions\<close>

definition decode_subaccount :: "string \<Rightarrow> subAccountInput option" where
  "decode_subaccount body = map_option
     (\<lambda>v. \<lparr>in_Agent = go_string (go_field ''agent'' v), in_AllowedCIDRs = go_slice go_string (go_field ''allowed_cidrs'' v),
        in_KeyExpiresAt = go_string (go_field ''key_expires_at'' v)\<rparr>)
     (ShouldBindJSON (GoStruct [(''agent'', GoString), (''allowed_cidrs'', GoSlice GoString), (''key_expires_at'', GoString)]) body)"

definition decode_rotate :: "string \<Rightarrow> string option" where
  "decode_rotate body = map_option (\<lambda>v. go_string (go_field ''key_expires_at'' v))
     (ShouldBindJSON (GoStruct [(''key_expires_at'', GoString)]) body)"

definition decode_cidrs :: "string \<Rightarrow> string list option" where
  "decode_cidrs body = map_option (\<lambda>v. go_slice go_string (go_field ''allowed_cidrs'' v))
     (ShouldBindJSON (GoStruct [(''allowed_cidrs'', GoSlice GoString)]) body)"

definition decode_subscription :: "string \<Rightarrow> string + pushSubscriptionInput" where
  "decode_subscription body = or_error (map_option
     (\<lambda>v. let keys = go_field ''keys'' v in \<lparr>Endpoint = go_string (go_field ''endpoint'' v),
        P256dh = go_string (go_field ''p256dh'' keys), KeysAuth = go_string (go_field ''auth'' keys)\<rparr>)
     (ShouldBindJSON (GoStruct [(''endpoint'', GoString),
        (''keys'', GoStruct [(''p256dh'', GoString), (''auth'', GoString)])]) body))"

definition decode_unsubscribe :: "string \<Rightarrow> string + string" where
  "decode_unsubscribe body = or_error (map_option (\<lambda>v. go_string (go_field ''endpoint'' v))
     (ShouldBindJSON (GoStruct [(''endpoint'', GoString)]) body))"

subsection \<open>A draft is read back\<close>

definition parent_json_of :: "parent_json \<Rightarrow> jval option" where
  "parent_json_of p = (case p of NoParent \<Rightarrow> None | ParentString s \<Rightarrow> Some (VStr s) | ParentText s \<Rightarrow> Some (VNum s))"

text \<open>What a client writes for a draft, after whatever members \<open>extra\<close> that the server does not know.\<close>

definition draft_members :: "messageInput \<Rightarrow> (string \<times> jval) list" where
  "draft_members inp = [(''from'', VStr (InFrom inp)), (''to'', VArr (map VStr (InTo inp))),
     (''version'', VNum (Itoa (InVersion inp))), (''no_reply'', VBool (InNoReply inp)),
     (''important'', VBool (InImportant inp)), (''terminal'', VBool (InTerminal inp)),
     (''topic'', VStr (InTopic inp)), (''type'', VStr (InType inp)), (''data'', VStr (InData inp))]
     @ (case parent_json_of (InParent inp) of None \<Rightarrow> [] | Some j \<Rightarrow> [(''pid'', j)])"

definition draft_json :: "(string \<times> jval) list \<Rightarrow> messageInput \<Rightarrow> jval" where
  "draft_json extra inp = VObj (extra @ draft_members inp)"

definition draft_ok :: "messageInput \<Rightarrow> bool" where
  "draft_ok inp \<longleftrightarrow> list_all utf8_valid ([InFrom inp, InTopic inp, InType inp, InData inp] @ InTo inp)
     \<and> in_int64 (InVersion inp)
     \<and> (case InParent inp of NoParent \<Rightarrow> True | ParentString s \<Rightarrow> utf8_valid s | ParentText s \<Rightarrow> lex_number s = Some (s, []))"

definition unknown_member :: "gotype \<Rightarrow> string \<times> jval \<Rightarrow> bool" where
  "unknown_member t m \<longleftrightarrow> (case t of GoStruct fs \<Rightarrow> field_of fs (fst m) = None | _ \<Rightarrow> False)
     \<and> utf8_valid (fst m) \<and> json_ok (snd m) \<and> int (json_depth (snd m)) < maxNestingDepth"

lemma decode_strings: "decode_elems GoString olds (map VStr ss) = Some (map OfString ss)"
  by (induction ss arbitrary: olds) auto

lemma go_strings: "go_slice go_string (OfSlice (map OfString ss)) = ss"
  by (induction ss) (simp_all add: go_slice_def elems_of_def go_string_def)

lemma decode_unknown:
  "list_all (unknown_member (GoStruct fs)) extra \<Longrightarrow> decode_members fs vals (extra @ ms) = decode_members fs vals ms"
  by (induction extra) (auto simp: unknown_member_def)

lemma draft_decoded:
  assumes "draft_ok inp" and "list_all (unknown_member message_type) extra"
  shows "map_option message_of (decode_into message_type (zero_value message_type) (draft_json extra inp)) = Some inp"
proof -
  have v: "ParseInt (Itoa (InVersion inp)) = Some (InVersion inp)" using assms(1) by (simp add: draft_ok_def ParseInt_in_int64)
  have "map_option message_of (decode_into message_type (zero_value message_type) (VObj (draft_members inp))) = Some inp"
    using v
    by (cases "InParent inp"; simp add: message_type_def message_fields_def draft_members_def parent_json_of_def field_of_def
        get_field_def set_field_def members_of_def elems_of_def decode_strings message_of_def go_strings go_field_def
        go_string_def go_int_def go_bool_def parent_of_def)
  then show ?thesis using decode_unknown assms(2) by (simp add: draft_json_def message_type_def)
qed

lemma foldr_max_le: "(\<forall>x \<in> set xs. x \<le> b) \<Longrightarrow> foldr max xs 0 \<le> (b :: nat)"
  by (induction xs) auto

lemma strings_depth: "foldr max (map (json_depth \<circ> VStr) ss) 0 = 0"
  by (induction ss) simp_all

lemma draft_keys: "plain_name ''from''" "plain_name ''to''" "plain_name ''version''" "plain_name ''no_reply''"
  "plain_name ''important''" "plain_name ''terminal''" "plain_name ''topic''" "plain_name ''type''" "plain_name ''data''" "plain_name ''pid''"
  by (simp_all add: plain_name_def)

lemma draft_json_ok:
  assumes "draft_ok inp" and "list_all (unknown_member message_type) extra"
  shows "json_ok (draft_json extra inp)" and "int (json_depth (draft_json extra inp)) \<le> maxNestingDepth"
proof -
  note draft_keys [THEN utf8_valid_plain]
  then have "list_all (\<lambda>(k, v). utf8_valid k \<and> json_ok v) (draft_members inp)"
    using assms(1) by (cases "InParent inp") (auto simp: draft_members_def draft_ok_def parent_json_of_def lex_number_Itoa list_all_iff)
  with assms(2) show "json_ok (draft_json extra inp)" by (auto simp: draft_json_def unknown_member_def list_all_iff)
  have "\<forall>(k, v) \<in> set (draft_members inp). json_depth v \<le> 1"
    by (auto simp: draft_members_def parent_json_of_def strings_depth split: parent_json.splits)
  then have "\<forall>x \<in> set (map (\<lambda>(k, v). json_depth v) (extra @ draft_members inp)). x \<le> 9999"
    using assms(2) by (fastforce simp: unknown_member_def list_all_iff maxNestingDepth_def)
  from foldr_max_le [OF this] show "int (json_depth (draft_json extra inp)) \<le> maxNestingDepth"
    by (simp add: draft_json_def maxNestingDepth_def)
qed

theorem draft_roundtrip:
  assumes "draft_ok inp" and "list_all (unknown_member message_type) extra"
  shows "decode_message (print_json (draft_json extra inp) @ rest) = Some inp"
  using draft_decoded [OF assms] parse_print [OF draft_json_ok [OF assms], of rest]
  by (simp add: decode_message_def ShouldBindJSON_def decodeJSON_def draft_json_def)

end
