(* ===== verification/Server.thy ===== *)
theory Server
  imports Bodies
begin

text \<open>
  The server as a whole: the routes (\<open>registerRoutes\<close> of \<open>src/cmd/fmsg-webapi/main.go\<close>), the middleware that
  guards them, and the handler behind each.  A \<open>call\<close> is a request after routing: the handler it reaches
  with its path and query parameters and the text of its JSON body, which the handler binds; the file of an
  upload is taken from its form.  Finding the handler from the URL is the router's
  part (gin), so a call names its route.
\<close>

subsection \<open>Calls and routes\<close>

datatype call =
    CExchange
  | CSubList
  | CSubCreate string
  | CSubGet string
  | CSubCIDRs string string
  | CSubRotate string string
  | CSubDelete string
  | CList string string "string option"
  | CSent string string "string option"
  | CCount "string option"
  | CCreate string
  | CGet string
  | CUpdate string string
  | CDelete string string string
  | CSend string
  | CMarkRead string
  | CRestore string string
  | CAddRecipients string string
  | CReact string string
  | CIndicate string string
  | CData string
  | CThreadText string
  | CThreadMessages string
  | CUpload string "(string \<times> string) option"
  | CDownload string string
  | CDeleteAttachment string string
  | CSubscribe string
  | CUnsubscribe string
  | CWebSocket ws_request

fun route_of :: "call \<Rightarrow> string \<times> string" where
  "route_of CExchange = (''POST'', ''/fmsg/token'')"
| "route_of CSubList = (''GET'', ''/fmsg/sub-accounts'')"
| "route_of (CSubCreate _) = (''POST'', ''/fmsg/sub-accounts'')"
| "route_of (CSubGet _) = (''GET'', ''/fmsg/sub-accounts/:agent'')"
| "route_of (CSubCIDRs _ _) = (''PATCH'', ''/fmsg/sub-accounts/:agent'')"
| "route_of (CSubRotate _ _) = (''POST'', ''/fmsg/sub-accounts/:agent/rotate-key'')"
| "route_of (CSubDelete _) = (''DELETE'', ''/fmsg/sub-accounts/:agent'')"
| "route_of (CList _ _ _) = (''GET'', ''/fmsg'')"
| "route_of (CSent _ _ _) = (''GET'', ''/fmsg/sent'')"
| "route_of (CCount _) = (''GET'', ''/fmsg/count'')"
| "route_of (CCreate _) = (''POST'', ''/fmsg'')"
| "route_of (CGet _) = (''GET'', ''/fmsg/:id'')"
| "route_of (CUpdate _ _) = (''PUT'', ''/fmsg/:id'')"
| "route_of (CDelete _ _ _) = (''DELETE'', ''/fmsg/:id'')"
| "route_of (CSend _) = (''POST'', ''/fmsg/:id/send'')"
| "route_of (CMarkRead _) = (''POST'', ''/fmsg/:id/read'')"
| "route_of (CRestore _ _) = (''POST'', ''/fmsg/:id/restore'')"
| "route_of (CAddRecipients _ _) = (''POST'', ''/fmsg/:id/add-to'')"
| "route_of (CReact _ _) = (''POST'', ''/fmsg/:id/react'')"
| "route_of (CIndicate _ _) = (''POST'', ''/fmsg/:id/indicate'')"
| "route_of (CData _) = (''GET'', ''/fmsg/:id/data'')"
| "route_of (CThreadText _) = (''GET'', ''/fmsg/:id/thread'')"
| "route_of (CThreadMessages _) = (''GET'', ''/fmsg/:id/thread/messages'')"
| "route_of (CUpload _ _) = (''POST'', ''/fmsg/:id/attach'')"
| "route_of (CDownload _ _) = (''GET'', ''/fmsg/:id/attach/:filename'')"
| "route_of (CDeleteAttachment _ _) = (''DELETE'', ''/fmsg/:id/attach/:filename'')"
| "route_of (CSubscribe _) = (''POST'', ''/fmsg/push/subscribe'')"
| "route_of (CUnsubscribe _) = (''DELETE'', ''/fmsg/push/subscribe'')"
| "route_of (CWebSocket _) = (''GET'', ''/fmsg/ws'')"

definition registerRoutes :: "bool \<Rightarrow> bool \<Rightarrow> (string \<times> string) list" where
  "registerRoutes tokens push =
     (if tokens then [(''POST'', ''/fmsg/token'')] else [])
     @ (if tokens then [(''GET'', ''/fmsg/sub-accounts''), (''POST'', ''/fmsg/sub-accounts''),
          (''GET'', ''/fmsg/sub-accounts/:agent''), (''PATCH'', ''/fmsg/sub-accounts/:agent''),
          (''POST'', ''/fmsg/sub-accounts/:agent/rotate-key''), (''DELETE'', ''/fmsg/sub-accounts/:agent'')] else [])
     @ [(''GET'', ''/fmsg''), (''GET'', ''/fmsg/sent''), (''GET'', ''/fmsg/count''), (''POST'', ''/fmsg''),
        (''GET'', ''/fmsg/:id''), (''PUT'', ''/fmsg/:id''), (''DELETE'', ''/fmsg/:id''), (''POST'', ''/fmsg/:id/send''),
        (''POST'', ''/fmsg/:id/read''), (''POST'', ''/fmsg/:id/restore''), (''POST'', ''/fmsg/:id/add-to''),
        (''POST'', ''/fmsg/:id/react''), (''POST'', ''/fmsg/:id/indicate''), (''GET'', ''/fmsg/:id/data''),
        (''GET'', ''/fmsg/:id/thread''), (''GET'', ''/fmsg/:id/thread/messages''), (''POST'', ''/fmsg/:id/attach''),
        (''GET'', ''/fmsg/:id/attach/:filename''), (''DELETE'', ''/fmsg/:id/attach/:filename'')]
     @ (if push then [(''POST'', ''/fmsg/push/subscribe''), (''DELETE'', ''/fmsg/push/subscribe'')] else [])
     @ [(''GET'', ''/fmsg/ws'')]"

subsection \<open>Serving\<close>

datatype reply = RJson response | RMessage message | RItems "list_item list" | RCount nat | RFile string
  | RText string | RThread threadMessagesResponse | RSocket string "time option" | RNoRoute

definition reading :: "('a \<Rightarrow> reply) \<Rightarrow> (response, 'a) act \<Rightarrow> world \<Rightarrow> reply \<times> world" where
  "reading f m w = (case m w of (Inl e, w1) \<Rightarrow> (RJson e, w1) | (Inr a, w1) \<Rightarrow> (f a, w1))"

definition mutating :: "env \<Rightarrow> string \<Rightarrow> (response, response) act \<Rightarrow> world \<Rightarrow> reply \<times> world" where
  "mutating E param m w = (case atomic E param m w of (resp, w1) \<Rightarrow> (RJson resp, w1))"

text \<open>The handlers behind the middleware, for the identity it left in the request.\<close>

fun handle :: "env \<Rightarrow> ctx \<Rightarrow> call \<Rightarrow> world \<Rightarrow> reply \<times> world" where
  "handle E c CSubList = reading RJson (subaccounts_List E c)"
| "handle E c (CSubCreate b) = reading RJson (subaccounts_Create E c (decode_subaccount b))"
| "handle E c (CSubGet a) = reading RJson (subaccounts_Get E c a)"
| "handle E c (CSubCIDRs a b) = reading RJson (subaccounts_UpdateCIDRs E c a (decode_cidrs b))"
| "handle E c (CSubRotate a b) = reading RJson (subaccounts_RotateKey E c a (decode_rotate b))"
| "handle E c (CSubDelete a) = reading RJson (subaccounts_Delete E c a)"
| "handle E c (CList l f t) = reading RItems (List_messages E (GetIdentity c) l f t)"
| "handle E c (CSent l f t) = reading RItems (Sent E (GetIdentity c) l f t)"
| "handle E c (CCount t) = reading RCount (Count E (GetIdentity c) t)"
| "handle E c (CCreate b) = mutating E [] (Create E (GetIdentity c) (decode_message b))"
| "handle E c (CGet i) = reading RMessage (Get E (GetIdentity c) i)"
| "handle E c (CUpdate i b) = mutating E i (Update E (GetIdentity c) i (decode_message b))"
| "handle E c (CDelete i t p) = mutating E i (Delete E (GetIdentity c) i t p)"
| "handle E c (CSend i) = mutating E i (Send E (GetIdentity c) i)"
| "handle E c (CMarkRead i) = reading RJson (MarkRead E (GetIdentity c) i)"
| "handle E c (CRestore i t) = mutating E i (Restore E (GetIdentity c) i t)"
| "handle E c (CAddRecipients i b) = mutating E i (AddRecipients E (GetIdentity c) i (decode_recipients b))"
| "handle E c (CReact i b) = mutating E i (React E (GetIdentity c) i (decode_reaction b))"
| "handle E c (CIndicate i b) = reading RJson (Indicate E (GetIdentity c) i (decode_indicate b))"
| "handle E c (CData i) = reading RFile (DownloadData E (GetIdentity c) i)"
| "handle E c (CThreadText i) = reading RText (ThreadText E (GetIdentity c) i)"
| "handle E c (CThreadMessages i) = reading RThread (ThreadMessages E (GetIdentity c) i)"
| "handle E c (CUpload i f) = mutating E i (Upload E (GetIdentity c) i f)"
| "handle E c (CDownload i n) = reading RFile (Download E (GetIdentity c) i n)"
| "handle E c (CDeleteAttachment i n) = mutating E i (DeleteAttachment E (GetIdentity c) i n)"
| "handle E c (CSubscribe b) = reading RJson (Subscribe E (GetIdentity c) (decode_subscription b))"
| "handle E c (CUnsubscribe b) = reading RJson (Unsubscribe E (GetIdentity c) (decode_unsubscribe b))"
| "handle E c CExchange = (\<lambda>w. (RNoRoute, w))"
| "handle E c (CWebSocket q) = (\<lambda>w. (RNoRoute, w))"

text \<open>What the server is started with: the verifier, the issuer of first-party tokens with its signature where
  they are enabled, whether Web Push is, the WebSocket handshake and the configured origins.\<close>

record server =
  s_verifier :: verifier
  s_issuer :: "(TokenIssuer \<times> (minted \<Rightarrow> string option)) option"
  s_push :: bool
  s_upgrade :: "bool \<Rightarrow> response option"
  s_origins :: "string list"

record request =
  r_authorization :: string
  r_client_ip :: string
  r_act_as :: string

definition serve_guarded :: "env \<Rightarrow> server \<Rightarrow> request \<Rightarrow> call \<Rightarrow> world \<Rightarrow> reply \<times> world" where
  "serve_guarded E s req call w = (let route = route_of call in
     case auth_middleware E (s_verifier s) (fst route) (snd route) (r_authorization req) (r_client_ip req) (r_act_as req) w of
         (Inl (status, msg), w1) \<Rightarrow> (RJson (err status msg), w1)
       | (Inr res, w1) \<Rightarrow> handle E (ctx_of res) call w1)"

definition serve :: "env \<Rightarrow> server \<Rightarrow> request \<Rightarrow> call \<Rightarrow> world \<Rightarrow> reply \<times> world" where
  "serve E s req call w = (let route = route_of call in
     if route \<notin> set (registerRoutes (s_issuer s \<noteq> None) (s_push s)) then (RNoRoute, w)
     else if call = CExchange then (case s_issuer s of None \<Rightarrow> (RNoRoute, w)
       | Some (issuer, sign) \<Rightarrow> reading RJson (Exchange E issuer sign (r_authorization req) (r_client_ip req)) w)
     else (case call of
       CWebSocket q \<Rightarrow> reading (\<lambda>(a, expires). RSocket a expires) (Connect E (s_verifier s) (s_upgrade s) (s_origins s) q) w
     | _ \<Rightarrow> serve_guarded E s req call w))"

subsection \<open>Authentication comes first\<close>

definition stock_verifier :: "env \<Rightarrow> verifier \<Rightarrow> bool" where
  "stock_verifier E v \<longleftrightarrow> v_actas v \<in> {None, Some (ValidateActAs E)} \<and> (v_api v \<noteq> None \<longrightarrow> v_token v = ValidateToken E)"

lemma stock_verifierI:
  "NewVerifier jwks issuer ac aud oaud api (Some (ValidateToken E, ValidateActAs E)) = Some v \<Longrightarrow> stock_verifier E v"
  using NewVerifier_keys by (auto simp: stock_verifier_def)

lemma keeps_AuthenticateRequest:
  assumes "stock_verifier E v"
  shows "keeps (\<lambda>x. P (db x)) (AuthenticateRequest E v tok ip actAs)"
proof -
  have r: "keeps (\<lambda>x. P (db x)) (require_identity E a)" for a
    unfolding require_identity_def validateIdentity_def by (intro keeps_intros)
  have sc: "keeps (\<lambda>x. P (db x)) (store_check m)" if "keeps (\<lambda>x. P (db x)) m" for m
    using that unfolding store_check_def by (intro keeps_intros)
  have idp: "keeps (\<lambda>x. P (db x)) (authenticateIdP E v parse tok actAs)" for parse
    using assms by (intro keeps_authenticateIdP) (auto simp: stock_verifier_def intro: keeps_intros)
  have api: "keeps (\<lambda>x. P (db x)) (authenticateAPIToken E v parse tok ip actAs)" if "v_api v = Some parse" for parse
    using assms that unfolding authenticateAPIToken_def stock_verifier_def
    by (auto intro!: keeps_intros r sc split: option.splits)
  have tm: "keeps (\<lambda>x. P (db x)) (try_mode m nx)" if "keeps (\<lambda>x. P (db x)) m" "keeps (\<lambda>x. P (db x)) nx" for m nx
    using that unfolding try_mode_def by (intro keeps_intros)
  show ?thesis unfolding AuthenticateRequest_def Let_def
    by (auto intro!: tm idp api keeps_intros split: option.splits)
qed

fun guarded :: "call \<Rightarrow> bool" where
  "guarded CExchange = False"
| "guarded (CWebSocket _) = False"
| "guarded _ = True"

text \<open>How a guarded call may end: no such route, refused before its handler, or handled for the address that
  authenticated.\<close>

lemma serve_cases:
  assumes "serve E s req call w = (rep, w1)" and "guarded call" and "stock_verifier E (s_verifier s)"
  obtains (no_route) "rep = RNoRoute" and "w1 = w"
  | (refused) st msg where "rep = RJson (err st msg)" and "db w1 = db w"
  | (handled) tok res w0 where "extractBearer (r_authorization req) = Some tok"
      and "AuthenticateRequest E (s_verifier s) tok (r_client_ip req) (r_act_as req) w = (Inr res, w0)"
      and "CheckScope res (fst (route_of call)) (snd (route_of call)) = None"
      and "db w0 = db w" and "handle E (ctx_of res) call w0 = (rep, w1)"
proof -
  let ?r = "route_of call"
  let ?m = "auth_middleware E (s_verifier s) (fst ?r) (snd ?r) (r_authorization req) (r_client_ip req) (r_act_as req) w"
  have k: "call \<noteq> CExchange" "\<And>q. call \<noteq> CWebSocket q" using assms(2) by auto
  show ?thesis
  proof (cases "?r \<in> set (registerRoutes (s_issuer s \<noteq> None) (s_push s))")
    case False
    with assms(1) k show ?thesis using no_route by (simp add: serve_def Let_def)
  next
    case True
    with assms(1) k have "serve_guarded E s req call w = (rep, w1)"
      by (cases call) (auto simp: serve_def Let_def)
    then have run: "(case ?m of (Inl (status, msg), w1) \<Rightarrow> (RJson (err status msg), w1)
       | (Inr res, w1) \<Rightarrow> handle E (ctx_of res) call w1) = (rep, w1)"
      by (simp add: serve_guarded_def Let_def)
    obtain x w0 where m: "?m = (x, w0)" by fastforce
    show ?thesis
    proof (cases "extractBearer (r_authorization req)")
      case None
      with m run show ?thesis using refused by (auto simp: auth_middleware_def throw_def)
    next
      case (Some tok)
      obtain y w2 where a: "AuthenticateRequest E (s_verifier s) tok (r_client_ip req) (r_act_as req) w = (y, w2)" by fastforce
      have d: "db w2 = db w" by (rule same_db [OF keeps_AuthenticateRequest [OF assms(3)] a])
      show ?thesis
      proof (cases y)
        case (Inl sm)
        with a Some m run d show ?thesis using refused by (cases sm) (auto simp: auth_middleware_def bind_def)
      next
        case (Inr res)
        show ?thesis
        proof (cases "CheckScope res (fst ?r) (snd ?r)")
          case None
          with a Inr Some m run d show ?thesis using handled [of tok res w2] by (auto simp: auth_middleware_def bind_def ret_def)
        next
          case (Some sm)
          with a Inr \<open>extractBearer _ = Some tok\<close> m run d show ?thesis using refused
            by (cases sm) (auto simp: auth_middleware_def bind_def throw_def)
        qed
      qed
    qed
  qed
qed

text \<open>C1: no handler runs for a request that does not authenticate.  Apart from the exchange of keys and the
  WebSocket, which authenticate themselves, every reply that is not an error comes from the handler run as
  the address that the bearer token and the act-as header authenticate, on tables that authentication has
  not changed, and a delegated token needs the scope of the route.\<close>

theorem serve_authenticated:
  assumes "serve E s req call w = (rep, w1)" and "guarded call" and "rep \<noteq> RNoRoute"
    and "NewVerifier jwks issuer ac aud oaud api (Some (ValidateToken E, ValidateActAs E)) = Some (s_verifier s)"
  shows "(\<exists>st msg. rep = RJson (err st msg) \<and> db w1 = db w)
    \<or> (\<exists>tok res w0. extractBearer (r_authorization req) = Some tok
        \<and> AuthenticateRequest E (s_verifier s) tok (r_client_ip req) (r_act_as req) w = (Inr res, w0) \<and> db w0 = db w
        \<and> (AuthType res = AuthTypeOAuth \<longrightarrow> (\<exists>scope. OAuthRouteScope (fst (route_of call)) (snd (route_of call)) = Some scope
             \<and> scope \<in> set (Scopes res)))
        \<and> handle E (ctx_of res) call w0 = (rep, w1))"
  using assms(1,2) stock_verifierI [OF assms(4)]
proof (cases rule: serve_cases)
  case no_route
  with assms(3) show ?thesis by simp
next
  case (refused st msg)
  then show ?thesis by blast
next
  case (handled tok res w0)
  moreover from handled(3) have "AuthType res = AuthTypeOAuth \<longrightarrow> (\<exists>scope. OAuthRouteScope (fst (route_of call)) (snd (route_of call)) = Some scope
             \<and> scope \<in> set (Scopes res))"
    by (auto simp: CheckScope_def AllowsRoute_def split: if_splits option.splits)
  ultimately show ?thesis by blast
qed

text \<open>End to end, a message read over HTTP was read by someone it belongs to.  The bearer token
  authenticates an address that is the token's owner or one the owner holds a live grant for; the message is
  that address's own, or one sent to it that it has not deleted for good.\<close>

theorem serve_get:
  assumes "serve E s req (CGet param) w = (RMessage msg, w1)"
    and "NewVerifier jwks issuer ac aud oaud api (Some (ValidateToken E, ValidateActAs E)) = Some (s_verifier s)"
  shows "\<exists>tok res w0 i m. extractBearer (r_authorization req) = Some tok
    \<and> AuthenticateRequest E (s_verifier s) tok (r_client_ip req) (r_act_as req) w = (Inr res, w0)
    \<and> (AuthType res = AuthTypeOAuth \<longrightarrow> ScopeRead \<in> set (Scopes res))
    \<and> (Addr res = AuthOwner res \<or> (\<exists>g \<in> set (grants (db w)). live g \<and> owned_by (AuthOwner res) g \<and> sameAddr (g_sub g) (Addr res)))
    \<and> find_msg (db w) i = Some m \<and> From msg = m_from m \<and> Topic msg = m_topic m
    \<and> (sameAddr (m_from m) (Addr res) \<or> m_time m \<noteq> None
        \<and> (isRecipient (map t_addr (to_rows (db w) i)) (Addr res) \<or> addToContains (batches_of (db w) i) (Addr res)))
    \<and> fmsg_api_trash_state (db w) (ToLower (Addr res)) i \<noteq> Some Purged"
proof -
  have g: "guarded (CGet param)" by simp
  from assms(1) g stock_verifierI [OF assms(2)] show ?thesis
  proof (cases rule: serve_cases)
    case (handled tok res w0)
    from handled(5) have get: "Get E (Addr res) param w0 = (Inr msg, w1)"
      by (auto simp: reading_def ctx_of_def split: prod.splits sum.splits)
    have scope: "OAuthRouteScope ''GET'' ''/fmsg/:id'' = Some ScopeRead"
      by (simp add: OAuthRouteScope_def oauthRouteScopes_def)
    have sc: "AuthType res = AuthTypeOAuth \<longrightarrow> ScopeRead \<in> set (Scopes res)"
      using handled(3) scope by (auto simp: CheckScope_def AllowsRoute_def split: if_splits)
    have act: "Addr res = AuthOwner res \<or> (\<exists>g \<in> set (grants (db w)). live g \<and> owned_by (AuthOwner res) g \<and> sameAddr (g_sub g) (Addr res))"
      using store.request_addr [OF handled(2)] NewVerifier_keys [OF assms(2)]
      by (auto simp: has_grant_def act_as_grant_def sameAddr_iff_lower list_ex_iff)
    from Get_Inr [OF get] handled(4) obtain i m where "find_msg (db w) i = Some m" "From msg = m_from m" "Topic msg = m_topic m"
      "sameAddr (m_from m) (Addr res) \<or> m_time m \<noteq> None
        \<and> (isRecipient (map t_addr (to_rows (db w) i)) (Addr res) \<or> addToContains (batches_of (db w) i) (Addr res))"
      "fmsg_api_trash_state (db w) (ToLower (Addr res)) i \<noteq> Some Purged" by auto
    with handled(1,2) sc act show ?thesis by blast
  qed auto
qed

subsection \<open>Mutations\<close>

fun mutation :: "call \<Rightarrow> bool" where
  "mutation (CCreate _) = True"
| "mutation (CUpdate _ _) = True"
| "mutation (CDelete _ _ _) = True"
| "mutation (CSend _) = True"
| "mutation (CRestore _ _) = True"
| "mutation (CAddRecipients _ _) = True"
| "mutation (CReact _ _) = True"
| "mutation (CUpload _ _) = True"
| "mutation (CDeleteAttachment _ _) = True"
| "mutation _ = False"

lemma handle_mutation:
  "mutation call \<Longrightarrow> \<exists>param m. handle E c call = mutating E param m"
  by (cases call) auto

text \<open>C5: every request to one of the nine routes that \<open>Atomic\<close> wraps (create, update, delete, send, restore,
  add recipients, react, upload and delete an attachment) is all or nothing, whatever fails and when.  When
  it is answered with an error, every table is as it was (only the place of the id sequences may have moved,
  as PostgreSQL's do not roll back), with one exception: the commit took effect and its acknowledgement
  was lost.  Then the answer is 500 \<open>failed to commit message mutation\<close>, and the tables are exactly what the
  route's handler, run on the tables as the request found them and itself successful, made of them.\<close>

theorem serve_mutation_atomic:
  assumes "serve E s req call w = (RJson (st, js), w1)" and "mutation call" and "400 \<le> st"
    and "NewVerifier jwks issuer ac aud oaud api (Some (ValidateToken E, ValidateActAs E)) = Some (s_verifier s)"
  shows "(db w1)\<lparr>next_id := 0\<rparr> = (db w)\<lparr>next_id := 0\<rparr>
    \<or> (st, js) = err 500 ''failed to commit message mutation''
      \<and> (\<exists>tok res w0 param m w2 r w3.
            AuthenticateRequest E (s_verifier s) tok (r_client_ip req) (r_act_as req) w = (Inr res, w0)
          \<and> handle E (ctx_of res) call = mutating E param m
          \<and> m w2 = (r, w3) \<and> db w2 = db w \<and> fst (outcome r) < 400
          \<and> e_fail E (tick w3) \<and> e_lost E (tick w3) \<and> db w1 = db w3)"
proof -
  have g: "guarded call" using assms(2) by (cases call) auto
  from assms(1) g stock_verifierI [OF assms(4)] show ?thesis
  proof (cases rule: serve_cases)
    case (handled tok res w0)
    obtain param m where h: "handle E (ctx_of res) call = mutating E param m" using handle_mutation [OF assms(2)] by blast
    with handled(5) have "atomic E param m w0 = ((st, js), w1)" by (auto simp: mutating_def split: prod.splits)
    from atomic_error_outcome [OF this] assms(3) have "(db w1)\<lparr>next_id := 0\<rparr> = (db w0)\<lparr>next_id := 0\<rparr>
      \<or> (st, js) = err 500 ''failed to commit message mutation'' \<and> (\<exists>w2 r w3. m w2 = (r, w3) \<and> db w2 = db w0
        \<and> fst (outcome r) < 400 \<and> e_fail E (tick w3) \<and> e_lost E (tick w3) \<and> db w1 = db w3)"
      by auto
    with handled(2,4) h show ?thesis by metis
  qed auto
qed

subsection \<open>An example server\<close>

definition example_server :: server where
  "example_server = \<lparr>s_verifier = example_verifier, s_issuer = None, s_push = False, s_upgrade = example_upgrade, s_origins = []\<rparr>"

definition del_request :: request where
  "del_request = \<lparr>r_authorization = ''Bearer del'', r_client_ip = ''10.1.1.1'', r_act_as = []\<rparr>"

theorem serve_get_witness:
  "\<exists>msg res w0 w1. fst (serve id_env example_server del_request (CGet ''2'') trash_world) = RMessage msg \<and> From msg = ''@bo@ex.org''
     \<and> AuthenticateRequest id_env example_verifier ''del'' ''10.1.1.1'' [] trash_world = (Inr res, w0)
     \<and> (AuthType res = AuthTypeOAuth \<longrightarrow> ScopeRead \<in> set (Scopes res))"
proof -
  let ?r = "serve id_env example_server del_request (CGet ''2'') trash_world"
  have "case fst ?r of RMessage m \<Rightarrow> From m = ''@bo@ex.org'' | _ \<Rightarrow> False" by code_simp
  then obtain msg where out: "fst ?r = RMessage msg" "From msg = ''@bo@ex.org''" by (cases "fst ?r") auto
  then have run: "?r = (RMessage msg, snd ?r)" by (metis prod.collapse)
  have v: "s_verifier example_server = example_verifier" "extractBearer (r_authorization del_request) = Some ''del''"
    "r_client_ip del_request = ''10.1.1.1''" "r_act_as del_request = []"
    by (simp add: example_server_def, code_simp, simp_all add: del_request_def)
  from serve_get [OF run, unfolded v, OF example_verifier_new] out show ?thesis by auto
qed

theorem serve_authenticated_witness:
  "\<exists>res w0. AuthenticateRequest id_env example_verifier ''del'' ''10.1.1.1'' [] trash_world = (Inr res, w0)
     \<and> handle id_env (ctx_of res) (CGet ''2'') w0 = serve id_env example_server del_request (CGet ''2'') trash_world"
proof -
  let ?r = "serve id_env example_server del_request (CGet ''2'') trash_world"
  have "case fst ?r of RMessage m \<Rightarrow> True | _ \<Rightarrow> False" by code_simp
  then obtain msg where out: "fst ?r = RMessage msg" by (cases "fst ?r") auto
  then have run: "?r = (RMessage msg, snd ?r)" by (metis prod.collapse)
  have v: "s_verifier example_server = example_verifier" "extractBearer (r_authorization del_request) = Some ''del''"
    "r_client_ip del_request = ''10.1.1.1''" "r_act_as del_request = []"
    by (simp add: example_server_def, code_simp, simp_all add: del_request_def)
  from serve_authenticated [OF run _ _ example_verifier_new [folded v(1)], unfolded v] run show ?thesis by auto
qed

theorem serve_mutation_atomic_witness:
  "(db (snd (serve id_env example_server (del_request\<lparr>r_authorization := ''Bearer own''\<rparr>) (CSend ''2'') trash_world)))\<lparr>next_id := 0\<rparr>
    = (db trash_world)\<lparr>next_id := 0\<rparr>"
proof -
  let ?r = "serve id_env example_server (del_request\<lparr>r_authorization := ''Bearer own''\<rparr>) (CSend ''2'') trash_world"
  have "case fst ?r of RJson (st, js) \<Rightarrow> st = 403 | _ \<Rightarrow> False" by code_simp
  then obtain js where out: "fst ?r = RJson (403, js)" by (cases "fst ?r") auto
  then have run: "?r = (RJson (403, js), snd ?r)" by (metis prod.collapse)
  have v: "s_verifier example_server = example_verifier" by (simp add: example_server_def)
  show ?thesis
    using serve_mutation_atomic [OF run _ _ example_verifier_new [folded v]] by (auto simp: id_env_def example_env_def)
qed

end
