(* ===== verification/Tables.thy ===== *)
theory Tables
  imports Attachments
begin

text \<open>
  What the tables keep among themselves: ids are unique and below the sequences, a reply's parent is a sent
  message, every other row belongs to a stored message (and its batch), and the attachments of a message
  have different names.  Every statement of the handlers is shown to keep it, under what its handler
  checked before.
\<close>

subsection \<open>Well-formed tables\<close>

definition stored_msg :: "database \<Rightarrow> int \<Rightarrow> bool" where
  "stored_msg d i \<longleftrightarrow> (\<exists>m \<in> set (msgs d). m_id m = i)"

definition sent_msg :: "database \<Rightarrow> int \<Rightarrow> bool" where
  "sent_msg d i \<longleftrightarrow> (\<exists>m \<in> set (msgs d). m_id m = i \<and> m_time m \<noteq> None)"

definition has_batch :: "database \<Rightarrow> int \<Rightarrow> int \<Rightarrow> bool" where
  "has_batch d b i \<longleftrightarrow> (\<exists>x \<in> set (batches d). b_id x = b \<and> b_msg x = i)"

definition msgs_ok :: "database \<Rightarrow> bool" where
  "msgs_ok d \<longleftrightarrow> distinct (map m_id (msgs d))
     \<and> (\<forall>m \<in> set (msgs d). m_id m < next_id d \<and> (case m_pid m of None \<Rightarrow> True | Some p \<Rightarrow> sent_msg d p))"

lemma msgs_ok_iff: "msgs_ok d \<longleftrightarrow> distinct (map m_id (msgs d))
     \<and> (\<forall>m \<in> set (msgs d). m_id m < next_id d \<and> (\<forall>p. m_pid m = Some p \<longrightarrow> sent_msg d p))"
  by (auto simp: msgs_ok_def split: option.splits)

definition rows_ok :: "database \<Rightarrow> bool" where
  "rows_ok d \<longleftrightarrow> (\<forall>r \<in> set (tos d). stored_msg d (t_msg r)) \<and> (\<forall>b \<in> set (batches d). stored_msg d (b_msg b))
     \<and> (\<forall>r \<in> set (addtos d). has_batch d (a_batch r) (a_msg r)) \<and> (\<forall>n \<in> set (notifies d). n_batch n \<in> b_id ` set (batches d))
     \<and> (\<forall>t \<in> set (trash d). stored_msg d (tr_msg t))"

definition atts_ok :: "database \<Rightarrow> bool" where
  "atts_ok d \<longleftrightarrow> distinct (map (\<lambda>a. (at_msg a, at_filename a)) (atts d))
     \<and> (\<forall>a \<in> set (atts d). stored_msg d (at_msg a) \<and> 0 \<le> at_size a)"

definition tables_ok :: "database \<Rightarrow> bool" where
  "tables_ok d \<longleftrightarrow> msgs_ok d \<and> rows_ok d \<and> atts_ok d"

lemmas ok_defs = tables_ok_def msgs_ok_iff rows_ok_def atts_ok_def

lemma ok_frame [simp]:
  "stored_msg (d\<lparr>tos := a\<rparr>) i = stored_msg d i" "stored_msg (d\<lparr>batches := b\<rparr>) i = stored_msg d i"
  "stored_msg (d\<lparr>addtos := c\<rparr>) i = stored_msg d i" "stored_msg (d\<lparr>notifies := e\<rparr>) i = stored_msg d i"
  "stored_msg (d\<lparr>atts := f\<rparr>) i = stored_msg d i" "stored_msg (d\<lparr>trash := g\<rparr>) i = stored_msg d i"
  "stored_msg (d\<lparr>next_id := n\<rparr>) i = stored_msg d i"
  "sent_msg (d\<lparr>tos := a\<rparr>) i = sent_msg d i" "sent_msg (d\<lparr>batches := b\<rparr>) i = sent_msg d i"
  "sent_msg (d\<lparr>addtos := c\<rparr>) i = sent_msg d i" "sent_msg (d\<lparr>notifies := e\<rparr>) i = sent_msg d i"
  "sent_msg (d\<lparr>atts := f\<rparr>) i = sent_msg d i" "sent_msg (d\<lparr>trash := g\<rparr>) i = sent_msg d i"
  "sent_msg (d\<lparr>next_id := n\<rparr>) i = sent_msg d i"
  "has_batch (d\<lparr>tos := a\<rparr>) j i = has_batch d j i" "has_batch (d\<lparr>addtos := c\<rparr>) j i = has_batch d j i"
  "has_batch (d\<lparr>notifies := e\<rparr>) j i = has_batch d j i" "has_batch (d\<lparr>atts := f\<rparr>) j i = has_batch d j i"
  "has_batch (d\<lparr>trash := g\<rparr>) j i = has_batch d j i" "has_batch (d\<lparr>next_id := n\<rparr>) j i = has_batch d j i"
  "has_batch (d\<lparr>msgs := m\<rparr>) j i = has_batch d j i"
  by (simp_all add: stored_msg_def sent_msg_def has_batch_def)

lemma sent_stored: "sent_msg d i \<Longrightarrow> stored_msg d i"
  by (auto simp: sent_msg_def stored_msg_def)

lemma has_batch_id: "has_batch d b i \<Longrightarrow> b \<in> b_id ` set (batches d)"
  by (auto simp: has_batch_def)

lemma find_msg_stored: "find_msg d i = Some m \<Longrightarrow> stored_msg d i \<and> (m_time m \<noteq> None \<longrightarrow> sent_msg d i)"
  by (auto simp: find_msg_def stored_msg_def sent_msg_def dest!: find_Some_mem)

lemma stored_find_msg: "stored_msg d i \<Longrightarrow> find_msg d i \<noteq> None"
  by (auto simp: find_msg_def stored_msg_def find_None_all)

text \<open>A draft is nobody's parent.\<close>

lemma draft_unsent:
  assumes "tables_ok d" and "find_msg d i = Some m" and "m_time m = None"
  shows "\<not> sent_msg d i"
proof
  assume "sent_msg d i"
  then obtain x where x: "x \<in> set (msgs d)" "m_id x = i" "m_time x \<noteq> None" by (auto simp: sent_msg_def)
  from assms(2) have m: "m \<in> set (msgs d)" "m_id m = i" by (auto simp: find_msg_def dest!: find_Some_mem)
  from assms(1) have "distinct (map m_id (msgs d))" by (simp add: ok_defs)
  from distinct_map_key [OF this x(1) m(1)] x m assms(3) show False by simp
qed

lemma takes_part_stored:
  assumes "tables_ok d" and "takes_part d a i"
  shows "stored_msg d i"
proof -
  have "stored_msg d (a_msg r)" if "r \<in> set (addtos d)" for r
    using assms(1) that by (fastforce simp: ok_defs has_batch_def)
  with assms show ?thesis
    by (auto simp: takes_part_def receives_def list_ex_iff to_rows_def addto_rows_def ok_defs)
      (auto simp: stored_msg_def)
qed

lemma subtree_stored: "i \<in> set (subtree d a j) \<Longrightarrow> stored_msg d i"
  by (auto simp: subtree_def Let_def sent_to_def dest: find_msg_stored split: option.splits)

subsection \<open>Statements that keep the keys\<close>

text \<open>The keys of the rows: what refers to them or by what they refer.\<close>

definition same_keys :: "database \<Rightarrow> database \<Rightarrow> bool" where
  "same_keys d e \<longleftrightarrow> map (\<lambda>m. (m_id m, m_pid m)) (msgs e) = map (\<lambda>m. (m_id m, m_pid m)) (msgs d)
     \<and> (\<forall>i. sent_msg d i \<longrightarrow> sent_msg e i) \<and> next_id d \<le> next_id e
     \<and> map t_msg (tos e) = map t_msg (tos d) \<and> map (\<lambda>b. (b_id b, b_msg b)) (batches e) = map (\<lambda>b. (b_id b, b_msg b)) (batches d)
     \<and> map (\<lambda>r. (a_batch r, a_msg r)) (addtos e) = map (\<lambda>r. (a_batch r, a_msg r)) (addtos d)
     \<and> map n_batch (notifies e) = map n_batch (notifies d) \<and> map tr_msg (trash e) = map tr_msg (trash d)
     \<and> map (\<lambda>a. (at_msg a, at_filename a)) (atts e) = map (\<lambda>a. (at_msg a, at_filename a)) (atts d)
     \<and> ((\<forall>a \<in> set (atts d). 0 \<le> at_size a) \<longrightarrow> (\<forall>a \<in> set (atts e). 0 \<le> at_size a))"

lemma map_eq_ex: "map f xs = map f ys \<Longrightarrow> (\<exists>x \<in> set xs. P (f x)) = (\<exists>y \<in> set ys. P (f y))"
  by (metis (no_types, lifting) imageE imageI list.set_map)

lemma map_eq_all: "map f xs = map f ys \<Longrightarrow> \<forall>y \<in> set ys. P (f y) \<Longrightarrow> \<forall>x \<in> set xs. P (f x)"
  using map_eq_ex [of f xs ys "\<lambda>z. \<not> P z"] by blast

lemma same_keys_stored:
  assumes "same_keys d e"
  shows "stored_msg e i = stored_msg d i"
  using map_eq_ex [of "\<lambda>m. (m_id m, m_pid m)" "msgs e" "msgs d" "\<lambda>z. fst z = i"] assms
  by (simp add: same_keys_def stored_msg_def)

lemma same_keys_batch:
  assumes "same_keys d e"
  shows "has_batch e b i = has_batch d b i"
  using map_eq_ex [of "\<lambda>x. (b_id x, b_msg x)" "batches e" "batches d" "\<lambda>z. fst z = b \<and> snd z = i"] assms
  by (simp add: same_keys_def has_batch_def)

lemma same_keys_batch_ids:
  assumes "same_keys d e"
  shows "b_id ` set (batches e) = b_id ` set (batches d)"
proof -
  have "map (\<lambda>b. (b_id b, b_msg b)) (batches e) = map (\<lambda>b. (b_id b, b_msg b)) (batches d)"
    using assms by (simp add: same_keys_def)
  from arg_cong [OF this, of "map fst"] have "map b_id (batches e) = map b_id (batches d)" by (simp add: o_def)
  from arg_cong [OF this, of set] show ?thesis by simp
qed

lemma same_keys_msgs:
  assumes "msgs_ok d" and k: "same_keys d e"
  shows "msgs_ok e"
proof -
  from k have m: "map (\<lambda>m. (m_id m, m_pid m)) (msgs e) = map (\<lambda>m. (m_id m, m_pid m)) (msgs d)"
    and s: "\<And>i. sent_msg d i \<Longrightarrow> sent_msg e i" and n: "next_id d \<le> next_id e" by (simp_all add: same_keys_def)
  from assms(1) n have "\<forall>m \<in> set (msgs d). fst (m_id m, m_pid m) < next_id e
      \<and> (\<forall>p. snd (m_id m, m_pid m) = Some p \<longrightarrow> sent_msg e p)" by (auto simp: msgs_ok_iff intro: s)
  from map_eq_all [OF m this] arg_cong [OF m, of "map fst"] assms(1) show ?thesis by (simp add: msgs_ok_iff o_def)
qed

lemma same_keys_rows:
  assumes "rows_ok d" and k: "same_keys d e"
  shows "rows_ok e"
proof -
  note st = same_keys_stored [OF k] and ba = same_keys_batch [OF k]
  from k have m: "map t_msg (tos e) = map t_msg (tos d)" "map (\<lambda>b. (b_id b, b_msg b)) (batches e) = map (\<lambda>b. (b_id b, b_msg b)) (batches d)"
    "map (\<lambda>r. (a_batch r, a_msg r)) (addtos e) = map (\<lambda>r. (a_batch r, a_msg r)) (addtos d)"
    "map n_batch (notifies e) = map n_batch (notifies d)" "map tr_msg (trash e) = map tr_msg (trash d)"
    by (simp_all add: same_keys_def)
  from map_eq_all [OF m(1), of "stored_msg d"] map_eq_all [OF m(2), of "\<lambda>z. stored_msg d (snd z)"]
    map_eq_all [OF m(3), of "\<lambda>z. has_batch d (fst z) (snd z)"] map_eq_all [OF m(4), of "\<lambda>n. n \<in> b_id ` set (batches d)"]
    map_eq_all [OF m(5), of "stored_msg d"] assms(1)
  show ?thesis by (simp add: rows_ok_def st ba same_keys_batch_ids [OF k])
qed

lemma same_keys_atts:
  assumes "atts_ok d" and k: "same_keys d e"
  shows "atts_ok e"
proof -
  note st = same_keys_stored [OF k]
  from k have m: "map (\<lambda>a. (at_msg a, at_filename a)) (atts e) = map (\<lambda>a. (at_msg a, at_filename a)) (atts d)"
    and z: "(\<forall>a \<in> set (atts d). 0 \<le> at_size a) \<longrightarrow> (\<forall>a \<in> set (atts e). 0 \<le> at_size a)" by (simp_all add: same_keys_def)
  from map_eq_all [OF m, of "\<lambda>z. stored_msg d (fst z)"] assms(1) m z show ?thesis by (simp add: atts_ok_def st)
qed

lemma same_keys_ok: "tables_ok d \<Longrightarrow> same_keys d e \<Longrightarrow> tables_ok e"
  unfolding tables_ok_def using same_keys_msgs same_keys_rows same_keys_atts by blast

lemma same_keys_next: "same_keys d e \<Longrightarrow> next_id d \<le> next_id e"
  by (simp add: same_keys_def)

lemma update_where_ex:
  assumes "\<And>x. P (f x) = P x"
  shows "(\<exists>x \<in> set (update_where Q f xs). P x) = (\<exists>x \<in> set xs. P x)"
  unfolding update_where_def using assms by (simp del: if_image_distrib)

lemma same_keys_updates:
  "same_keys d (set_path i p d)" "same_keys d (set_read_to i a t d)" "same_keys d (set_read_addto i a t d)"
  "same_keys d (notify ch pl d)" "same_keys d (snd (resolve_row b i a dl c d))"
  "same_keys d (d\<lparr>grants := gs\<rparr>)" "same_keys d (d\<lparr>pushes := ps\<rparr>)"
  by (simp_all add: same_keys_def set_path_def set_read_to_def set_read_addto_def notify_def resolve_row_def
      map_update_where sent_msg_def update_where_ex)

subsection \<open>Statements that add rows\<close>

lemma insert_message_ok:
  assumes "tables_ok d" and "insert_message row d = Inr (i, e)"
    and "m_id (row (next_id d)) = next_id d" and "\<forall>p. m_pid (row (next_id d)) = Some p \<longrightarrow> sent_msg d p"
  shows "tables_ok e \<and> stored_msg e i \<and> next_id d \<le> next_id e"
proof -
  have e: "e = d\<lparr>msgs := msgs d @ [row (next_id d)], next_id := next_id d + 1\<rparr>" and i: "i = next_id d"
    using assms(2) by (auto simp: insert_message_def)
  have st: "stored_msg d j \<Longrightarrow> stored_msg e j" "sent_msg d j \<Longrightarrow> sent_msg e j" for j
    by (auto simp: e stored_msg_def sent_msg_def)
  have ba: "has_batch e b j = has_batch d b j" for b j by (simp add: e has_batch_def)
  have "next_id d \<notin> m_id ` set (msgs d)" using assms(1) by (auto simp: ok_defs)
  then have "msgs_ok e"
    using assms(1,3,4) st(2) by (fastforce simp: ok_defs e)
  moreover have "rows_ok e" using assms(1) st(1) by (simp add: ok_defs ba) (simp add: e)
  moreover have "atts_ok e" using assms(1) st(1) by (simp add: ok_defs) (simp add: e)
  moreover have "stored_msg e i" using assms(3) by (simp add: stored_msg_def e i)
  ultimately show ?thesis by (simp add: tables_ok_def e)
qed

lemma insert_recipient_ok:
  assumes "tables_ok d" and "stored_msg d i"
  shows "tables_ok (insert_recipient E i a d) \<and> stored_msg (insert_recipient E i a d) i
    \<and> next_id d \<le> next_id (insert_recipient E i a d)"
  using assms by (auto simp: insert_recipient_def ok_defs)

lemma insert_batch_ok:
  assumes "tables_ok d" and "stored_msg d i" and "insert_batch i a t d = (b, e)"
  shows "tables_ok e \<and> stored_msg e i \<and> has_batch e b i \<and> next_id d \<le> next_id e"
  using assms by (fastforce simp: insert_batch_def ok_defs has_batch_def)

lemma insert_addto_ok:
  assumes "tables_ok d" and "has_batch d b i"
  shows "tables_ok (insert_addto E i b a d) \<and> has_batch (insert_addto E i b a d) b i
    \<and> next_id d \<le> next_id (insert_addto E i b a d)"
  using assms by (auto simp: insert_addto_def ok_defs)

lemma insert_notifies_ok:
  assumes "tables_ok d" and "has_batch d b i"
  shows "tables_ok (insert_notifies E i b ds d) \<and> next_id d \<le> next_id (insert_notifies E i b ds d)"
  using assms by (auto simp: insert_notifies_def ok_defs has_batch_id)

lemma mark_rows_ok:
  assumes "tables_ok d" and "stored_msg d i"
  shows "tables_ok (mark_row a i thread t d)" and "tables_ok (purge_row a i thread t d)"
  using assms by (auto simp: mark_row_def purge_row_def ok_defs mem_update_where)

lemma put_attachment_ok:
  assumes "tables_ok d" and "stored_msg d i" and "0 \<le> sz"
  shows "tables_ok (put_attachment E i name sz p d) \<and> next_id d \<le> next_id (put_attachment E i name sz p d)"
proof (cases "list_ex (\<lambda>a. at_filename a = name) (att_rows d i)")
  case True
  then have e: "put_attachment E i name sz p d = d\<lparr>atts := update_where (\<lambda>a. at_msg a = i \<and> at_filename a = name)
      (\<lambda>a. a\<lparr>at_size := sz, at_path := p\<rparr>) (atts d)\<rparr>" by (simp add: put_attachment_def)
  have "same_keys d (put_attachment E i name sz p d)"
    using assms(3) by (auto simp: e same_keys_def map_update_where mem_update_where sent_msg_def)
  with assms(1) show ?thesis by (auto simp: e intro: same_keys_ok)
next
  case False
  with assms show ?thesis
    by (auto simp: put_attachment_def ok_defs att_rows_def list_ex_iff split: prod.splits)
qed

lemma set_draft_ok:
  assumes "tables_ok d" and "case parent of None \<Rightarrow> True | Some (p, h) \<Rightarrow> sent_msg d p"
  shows "tables_ok (set_draft i msg parent path d) \<and> stored_msg (set_draft i msg parent path d) j = stored_msg d j"
proof -
  let ?e = "set_draft i msg parent path d"
  have st: "stored_msg ?e j = stored_msg d j" "sent_msg ?e j = sent_msg d j" "has_batch ?e b j = has_batch d b j" for b j
    by (simp_all add: set_draft_def stored_msg_def sent_msg_def has_batch_def update_where_ex)
  have ids: "map m_id (msgs ?e) = map m_id (msgs d)" by (simp add: set_draft_def map_update_where)
  have "m_id m < next_id ?e \<and> (\<forall>p. m_pid m = Some p \<longrightarrow> sent_msg d p)" if "m \<in> set (msgs ?e)" for m
  proof -
    from that obtain x where "x \<in> set (msgs d)" "m_id m = m_id x" "m_pid m = m_pid x \<or> m_pid m = map_option fst parent"
      by (auto simp: set_draft_def mem_update_where split: if_splits)
    with assms show ?thesis by (cases parent) (auto simp: ok_defs set_draft_def)
  qed
  with assms(1) ids have "msgs_ok ?e" by (simp add: ok_defs st)
  moreover have "rows_ok ?e" "atts_ok ?e"
    using assms(1) by (simp_all add: ok_defs st) (simp_all add: set_draft_def)
  ultimately show ?thesis by (simp add: tables_ok_def st)
qed

subsection \<open>Statements that delete rows\<close>

lemma delete_tos_ok: "tables_ok d \<Longrightarrow> tables_ok (d\<lparr>tos := delete_where P (tos d)\<rparr>)"
  and delete_atts_ok: "tables_ok d \<Longrightarrow> tables_ok (d\<lparr>atts := delete_where Q (atts d)\<rparr>)"
  and unmark_rows_ok: "tables_ok d \<Longrightarrow> tables_ok (unmark_rows a js d)"
  by (auto simp: ok_defs unmark_rows_def distinct_map_filter delete_where_def [of Q])

text \<open>Removing a message with everything that belongs to it, once it is nobody's parent.\<close>

lemma remove_all_ok:
  assumes "tables_ok d" and "\<forall>m \<in> set (msgs d). m_pid m \<noteq> Some i"
  shows "tables_ok (d\<lparr>msgs := delete_where (\<lambda>m. m_id m = i) (msgs d), tos := delete_where (\<lambda>r. t_msg r = i) (tos d),
     batches := delete_where (\<lambda>b. b_msg b = i) (batches d), addtos := delete_where (\<lambda>r. a_msg r = i) (addtos d),
     notifies := delete_where (\<lambda>n. in_batches d i (n_batch n)) (notifies d),
     atts := delete_where (\<lambda>r. at_msg r = i) (atts d), trash := delete_where (\<lambda>t. tr_msg t = i) (trash d)\<rparr>)"
proof -
  let ?e = "d\<lparr>msgs := delete_where (\<lambda>m. m_id m = i) (msgs d), tos := delete_where (\<lambda>r. t_msg r = i) (tos d),
     batches := delete_where (\<lambda>b. b_msg b = i) (batches d), addtos := delete_where (\<lambda>r. a_msg r = i) (addtos d),
     notifies := delete_where (\<lambda>n. in_batches d i (n_batch n)) (notifies d),
     atts := delete_where (\<lambda>r. at_msg r = i) (atts d), trash := delete_where (\<lambda>t. tr_msg t = i) (trash d)\<rparr>"
  have st: "stored_msg d j \<Longrightarrow> j \<noteq> i \<Longrightarrow> stored_msg ?e j" "sent_msg d j \<Longrightarrow> j \<noteq> i \<Longrightarrow> sent_msg ?e j" for j
    by (auto simp: stored_msg_def sent_msg_def)
  have ba: "has_batch d b j \<Longrightarrow> j \<noteq> i \<Longrightarrow> has_batch ?e b j" for b j by (auto simp: has_batch_def)
  have nb: "\<not> in_batches d i b \<Longrightarrow> b \<in> b_id ` set (batches d) \<Longrightarrow> b \<in> b_id ` set (batches ?e)" for b
    by (auto simp: in_batches_def list_ex_iff)
  have "m_id m < next_id ?e \<and> (\<forall>p. m_pid m = Some p \<longrightarrow> sent_msg ?e p)" if "m \<in> set (msgs ?e)" for m
  proof -
    from that have m: "m \<in> set (msgs d)" by simp
    with assms(1) have "m_id m < next_id d" "\<And>p. m_pid m = Some p \<Longrightarrow> sent_msg d p" by (auto simp: ok_defs)
    moreover have "sent_msg ?e p" if "m_pid m = Some p" for p
      using st(2) [of p] calculation(2) [OF that] assms(2) m that by blast
    ultimately show ?thesis by simp
  qed
  moreover have "distinct (map m_id (msgs ?e))" using assms(1) by (simp add: ok_defs delete_where_def distinct_map_filter)
  ultimately have "msgs_ok ?e" by (simp add: msgs_ok_iff)
  moreover have "rows_ok ?e"
  proof -
    have "stored_msg ?e (t_msg r)" if "r \<in> set (tos ?e)" for r using that assms(1) by (auto simp: ok_defs simp del: ok_frame intro!: st(1))
    moreover have "stored_msg ?e (b_msg b)" if "b \<in> set (batches ?e)" for b using that assms(1) by (auto simp: ok_defs simp del: ok_frame intro!: st(1))
    moreover have "stored_msg ?e (tr_msg t)" if "t \<in> set (trash ?e)" for t using that assms(1) by (auto simp: ok_defs simp del: ok_frame intro!: st(1))
    moreover have "has_batch ?e (a_batch r) (a_msg r)" if "r \<in> set (addtos ?e)" for r using that assms(1) by (auto simp: ok_defs simp del: ok_frame intro!: ba)
    moreover have "n_batch n \<in> b_id ` set (batches ?e)" if "n \<in> set (notifies ?e)" for n
      using that assms(1) nb [of "n_batch n"] by (auto simp: ok_defs)
    ultimately show ?thesis unfolding rows_ok_def by blast
  qed
  moreover have "atts_ok ?e" using assms(1) by (auto simp: ok_defs delete_where_def distinct_map_filter simp del: ok_frame intro!: st(1) [unfolded delete_where_def])
  ultimately show ?thesis by (simp add: tables_ok_def)
qed

lemma unsent_no_parent: "tables_ok d \<Longrightarrow> \<not> sent_msg d i \<Longrightarrow> \<forall>m \<in> set (msgs d). m_pid m \<noteq> Some i"
  by (auto simp: ok_defs)

lemma orphan_ok:
  assumes "tables_ok d"
  shows "tables_ok (d\<lparr>msgs := update_where (\<lambda>m. m_pid m = Some i) (\<lambda>m. m\<lparr>m_pid := None\<rparr>) (msgs d)\<rparr>)"
proof -
  let ?e = "d\<lparr>msgs := update_where (\<lambda>m. m_pid m = Some i) (\<lambda>m. m\<lparr>m_pid := None\<rparr>) (msgs d)\<rparr>"
  have st: "stored_msg ?e j = stored_msg d j" "sent_msg ?e j = sent_msg d j" "has_batch ?e b j = has_batch d b j" for b j
    by (simp_all add: stored_msg_def sent_msg_def has_batch_def update_where_ex)
  have ids: "map m_id (msgs ?e) = map m_id (msgs d)" by (simp add: map_update_where)
  have "\<forall>m \<in> set (msgs ?e). m_id m < next_id ?e \<and> (\<forall>p. m_pid m = Some p \<longrightarrow> sent_msg d p)"
    using assms by (auto simp: mem_update_where ok_defs split: if_splits)
  with assms ids have "msgs_ok ?e" by (simp add: ok_defs st)
  moreover have "rows_ok ?e" "atts_ok ?e" using assms by (simp_all add: ok_defs st)
  ultimately show ?thesis by (simp add: tables_ok_def)
qed

lemma removal_ok:
  assumes "tables_ok d"
  shows "tables_ok (fold (\<lambda>f d. f d) (removal i) d)"
proof -
  let ?d = "d\<lparr>msgs := update_where (\<lambda>m. m_pid m = Some i) (\<lambda>m. m\<lparr>m_pid := None\<rparr>) (msgs d)\<rparr>"
  have "\<forall>m \<in> set (msgs ?d). m_pid m \<noteq> Some i"
  proof
    fix m assume "m \<in> set (msgs ?d)"
    then obtain x where "m = (if m_pid x = Some i then x\<lparr>m_pid := None\<rparr> else x)" by (auto simp: mem_update_where)
    then show "m_pid m \<noteq> Some i" by (cases "m_pid x = Some i") simp_all
  qed
  from remove_all_ok [OF orphan_ok [OF assms] this] show ?thesis by (simp add: removal_db in_batches_def)
qed

end
