(* ===== verification/Integrity.thy ===== *)
theory Integrity
  imports Server Tables
begin

text \<open>
  The tables stay well formed whatever the server is asked.  A mutation runs in a transaction, so what counts
  are the runs that no failed statement has aborted; the triple \<open>tx_ok P m Q\<close> says so and its rules walk
  through the handlers.  Handlers outside a transaction keep the tables well formed statement by statement.
\<close>

subsection \<open>Triples for handlers inside a transaction\<close>

text \<open>\<open>tx_ok P m Q\<close>: from a transaction that is aborted or whose tables satisfy \<open>P\<close>, \<open>m\<close> answers with an error
  status or goes on in a transaction that is aborted or whose tables satisfy \<open>Q\<close>; no sequence goes back.\<close>

definition tx_ok :: "(database \<Rightarrow> bool) \<Rightarrow> (response, 'a) act \<Rightarrow> ('a \<Rightarrow> database \<Rightarrow> bool) \<Rightarrow> bool" where
  "tx_ok P m Q \<longleftrightarrow> (\<forall>w. intx w \<and> (aborted w \<or> P (db w)) \<longrightarrow> next_id (db w) \<le> next_id (db (snd (m w)))
     \<and> (case m w of (Inl e, w1) \<Rightarrow> 400 \<le> fst e | (Inr a, w1) \<Rightarrow> intx w1 \<and> (aborted w1 \<or> Q a (db w1))))"

named_theorems tx_intros \<open>rules for actions inside a transaction\<close>

lemma tx_conseq:
  assumes "tx_ok P m Q" and "\<And>d. P1 d \<Longrightarrow> P d" and "\<And>a d. Q a d \<Longrightarrow> Q1 a d"
  shows "tx_ok P1 m Q1"
  using assms unfolding tx_ok_def by (fastforce split: prod.splits sum.splits)

lemma tx_post: "tx_ok P m Q \<Longrightarrow> (\<And>a d. Q a d \<Longrightarrow> Q1 a d) \<Longrightarrow> tx_ok P m Q1"
  by (rule tx_conseq)

lemma tx_pre: "tx_ok P m Q \<Longrightarrow> (\<And>d. P1 d \<Longrightarrow> P d) \<Longrightarrow> tx_ok P1 m Q"
  by (rule tx_conseq)

lemma tx_ret: "(\<And>d. P d \<Longrightarrow> Q a d) \<Longrightarrow> tx_ok P (ret a) Q"
  by (auto simp: tx_ok_def ret_def)

lemma tx_throw: "400 \<le> fst e \<Longrightarrow> tx_ok P (throw e) Q"
  by (simp add: tx_ok_def throw_def)

lemma tx_bind:
  assumes "tx_ok P m R" and "\<And>a. tx_ok (R a) (f a) Q"
  shows "tx_ok P (bind m f) Q"
  unfolding tx_ok_def
proof (intro allI impI)
  fix w :: world assume w: "intx w \<and> (aborted w \<or> P (db w))"
  obtain r w1 where m: "m w = (r, w1)" by fastforce
  with w assms(1) have "next_id (db w) \<le> next_id (db w1)"
    and k: "case r of Inl e \<Rightarrow> 400 \<le> fst e | Inr a \<Rightarrow> intx w1 \<and> (aborted w1 \<or> R a (db w1))"
    unfolding tx_ok_def by (force split: sum.splits)+
  with m assms(2) show "next_id (db w) \<le> next_id (db (snd (bind m f w)))
     \<and> (case bind m f w of (Inl e, w1) \<Rightarrow> 400 \<le> fst e | (Inr a, w1) \<Rightarrow> intx w1 \<and> (aborted w1 \<or> Q a (db w1)))"
    by (cases r) (auto simp: bind_def tx_ok_def intro: order_trans)
qed

lemma tx_unless: "400 \<le> fst e \<Longrightarrow> (\<And>d. P d \<Longrightarrow> b \<Longrightarrow> Q () d) \<Longrightarrow> tx_ok P (unless b e) Q"
  by (auto simp: unless_def intro: tx_ret tx_throw)

lemma tx_check: "400 \<le> fst e \<Longrightarrow> tx_ok P (unless b e) (\<lambda>_ d. P d \<and> b)"
  by (rule tx_unless) simp_all

lemma tx_if: "(b \<Longrightarrow> tx_ok P m Q) \<Longrightarrow> (\<not> b \<Longrightarrow> tx_ok P n Q) \<Longrightarrow> tx_ok P (if b then m else n) Q"
  by simp

lemma tx_or_fail: "tx_ok P m (\<lambda>r. case r of Inl _ \<Rightarrow> (\<lambda>_. True) | Inr a \<Rightarrow> Q a) \<Longrightarrow> 400 \<le> fst e \<Longrightarrow> tx_ok P (or_fail m e) Q"
  unfolding or_fail_def by (rule tx_bind, assumption) (auto split: sum.splits intro: tx_ret tx_throw)

text \<open>A statement: what holds of the tables it leaves.  One that fails aborts the transaction.\<close>

lemma tx_stmt:
  assumes "\<And>d a e. P d \<Longrightarrow> f d = Inr (a, e) \<Longrightarrow> next_id d \<le> next_id e \<and> Q (Inr a) e"
  shows "tx_ok P (stmt E f) Q"
  using assms by (auto simp: tx_ok_def stmt_def Let_def split: sum.splits)

lemma tx_exec:
  assumes "\<And>d. P d \<Longrightarrow> next_id d \<le> next_id (f d) \<and> Q (f d)"
  shows "tx_ok P (sql_exec E f) (\<lambda>_. Q)"
  unfolding sql_exec_def by (rule tx_stmt) (use assms in auto)

lemma tx_stmt_or_fail:
  assumes "\<And>d a e. P d \<Longrightarrow> f d = Inr (a, e) \<Longrightarrow> next_id d \<le> next_id e \<and> Q a e" and "400 \<le> fst x"
  shows "tx_ok P (or_fail (stmt E f) x) Q"
  by (rule tx_or_fail [OF tx_stmt assms(2)]) (use assms(1) in auto)

lemma tx_exec_or_fail:
  assumes "\<And>d. P d \<Longrightarrow> next_id d \<le> next_id (f d) \<and> Q (f d)" and "400 \<le> fst e"
  shows "tx_ok P (or_fail (sql_exec E f) e) (\<lambda>_. Q)"
  by (rule tx_or_fail [OF tx_post [OF tx_exec [OF assms(1)]] assms(2)]) (auto split: sum.splits)

lemma tx_query: "tx_ok P (sql_query E f) (\<lambda>r d. P d \<and> r = Inr (f d))"
  unfolding sql_query_def by (rule tx_stmt) auto

lemma tx_query_or_fail: "400 \<le> fst e \<Longrightarrow> tx_ok P (or_fail (sql_query E f) e) (\<lambda>a d. P d \<and> a = f d)"
  by (rule tx_or_fail [OF tx_post [OF tx_query]]) (auto split: sum.splits)

lemma tx_each: "(\<And>x. x \<in> set xs \<Longrightarrow> tx_ok P (f x) (\<lambda>_. P)) \<Longrightarrow> tx_ok P (each f xs) (\<lambda>_. P)"
  by (induction xs) (auto intro: tx_ret tx_bind)

subsection \<open>Actions that leave the tables\<close>

definition reads :: "(response, 'a) act \<Rightarrow> bool" where
  "reads m \<longleftrightarrow> (\<forall>w. db (snd (m w)) = db w \<and> intx (snd (m w)) = intx w \<and> (intx w \<and> aborted w \<longrightarrow> aborted (snd (m w)))
     \<and> (case fst (m w) of Inl e \<Rightarrow> 400 \<le> fst e | Inr _ \<Rightarrow> True))"

named_theorems reads_intros \<open>rules for actions that leave the tables\<close>

lemma reads_cases:
  assumes "reads m" and "m w = (r, w1)"
  shows "db w1 = db w \<and> intx w1 = intx w \<and> (intx w \<and> aborted w \<longrightarrow> aborted w1)
    \<and> (case r of Inl e \<Rightarrow> 400 \<le> fst e | Inr _ \<Rightarrow> True)"
  using assms unfolding reads_def by (metis fst_conv snd_conv)

text \<open>What a run that only read found, as a fact about the tables.\<close>

lemma tx_found:
  assumes "reads m" and "\<And>w a w1. m w = (Inr a, w1) \<Longrightarrow> F a (db w)"
  shows "tx_ok P m (\<lambda>a d. P d \<and> F a d)"
  unfolding tx_ok_def
proof (intro allI impI)
  fix w :: world assume w: "intx w \<and> (aborted w \<or> P (db w))"
  obtain r w1 where m: "m w = (r, w1)" by fastforce
  with w reads_cases [OF assms(1) m] assms(2) [of w _ w1]
  show "next_id (db w) \<le> next_id (db (snd (m w))) \<and> (case m w of (Inl e, w1) \<Rightarrow> 400 \<le> fst e
     | (Inr a, w1) \<Rightarrow> intx w1 \<and> (aborted w1 \<or> P (db w1) \<and> F a (db w1)))"
    by (cases r) auto
qed

lemma tx_reads: "reads m \<Longrightarrow> tx_ok P m (\<lambda>_. P)"
  by (rule tx_post [OF tx_found [where F = "\<lambda>_ _. True"]]) simp_all

lemma reads_ret [reads_intros]: "reads (ret a)"
  and reads_throw [reads_intros]: "400 \<le> fst e \<Longrightarrow> reads (throw e)"
  and reads_get_world [reads_intros]: "reads get_world"
  and reads_clock [reads_intros]: "reads (clock E)"
  and reads_ask [reads_intros]: "reads (ask_fmsgid E q)"
  and reads_query [reads_intros]: "reads (sql_query E f)"
  and reads_add_rollback [reads_intros]: "reads (add_rollback ps)"
  and reads_add_commit [reads_intros]: "reads (add_commit ds)"
  and reads_create_file [reads_intros]: "reads (create_file E p c)"
  and reads_remove_file [reads_intros]: "reads (remove_file E p)"
  and reads_io_step [reads_intros]: "reads (io_step E)"
  and reads_cache_store [reads_intros]: "reads (cache_store k e1)"
  and reads_cache_delete [reads_intros]: "reads (cache_delete k)"
  and reads_cache_load [reads_intros]: "reads (cache_load k)"
  by (simp_all add: reads_def act_defs cache_store_def cache_delete_def cache_load_def Let_def)

lemma reads_bind [reads_intros]:
  assumes "reads m" and "\<And>a. reads (f a)"
  shows "reads (bind m f)"
  unfolding reads_def
proof
  fix w :: world
  obtain r w1 where m: "m w = (r, w1)" by fastforce
  with assms(1) have "db w1 = db w" "intx w1 = intx w" "intx w \<and> aborted w \<longrightarrow> aborted w1"
    "case r of Inl e \<Rightarrow> 400 \<le> fst e | Inr _ \<Rightarrow> True" unfolding reads_def by (metis fst_conv snd_conv)+
  with m assms(2) show "db (snd (bind m f w)) = db w \<and> intx (snd (bind m f w)) = intx w
     \<and> (intx w \<and> aborted w \<longrightarrow> aborted (snd (bind m f w)))
     \<and> (case fst (bind m f w) of Inl e \<Rightarrow> 400 \<le> fst e | Inr _ \<Rightarrow> True)"
    by (cases r) (auto simp: bind_def reads_def)
qed

lemma reads_unless [reads_intros]: "400 \<le> fst e \<Longrightarrow> reads (unless b e)"
  by (simp add: unless_def reads_ret reads_throw)

lemma reads_or_fail [reads_intros]: "reads m \<Longrightarrow> 400 \<le> fst e \<Longrightarrow> reads (or_fail m e)"
  unfolding or_fail_def by (rule reads_bind) (auto intro: reads_ret reads_throw split: sum.splits)

lemma reads_if [reads_intros]: "reads m \<Longrightarrow> reads n \<Longrightarrow> reads (if b then m else n)"
  by simp

lemma reads_case_option [reads_intros]:
  "reads m \<Longrightarrow> (\<And>a. reads (f a)) \<Longrightarrow> reads (case x of None \<Rightarrow> m | Some a \<Rightarrow> f a)"
  by (simp split: option.splits)

lemma reads_case_sum [reads_intros]:
  "(\<And>a. reads (f a)) \<Longrightarrow> (\<And>b. reads (g b)) \<Longrightarrow> reads (case x of Inl a \<Rightarrow> f a | Inr b \<Rightarrow> g b)"
  by (simp split: sum.splits)

lemma reads_case_prod [reads_intros]: "(\<And>a b. reads (f a b)) \<Longrightarrow> reads (case x of (a, b) \<Rightarrow> f a b)"
  by (simp split: prod.splits)

lemma reads_case_list [reads_intros]:
  "reads m \<Longrightarrow> (\<And>a b. reads (f a b)) \<Longrightarrow> reads (case x of [] \<Rightarrow> m | a # b \<Rightarrow> f a b)"
  by (simp split: list.splits)

lemma reads_id_reply [reads_intros]:
  "reads m \<Longrightarrow> (\<And>c b. reads (f c b)) \<Longrightarrow> reads (case r of IdDown \<Rightarrow> m | IdReply c b \<Rightarrow> f c b)"
  by (cases r) simp_all

lemma error_status [simp]: "fst (err c msg) = c" "fst not_found = 404" "400 \<le> fst (send_refusal d sz l)"
  by (simp_all add: err_def not_found_def send_refusal_def split: send_limit.splits)

lemma reads_require [reads_intros]: "reads m \<Longrightarrow> reads (require_row msg m)"
  unfolding require_row_def by (intro reads_intros; simp)

lemma reads_fetch [reads_intros]: "reads (require_message E i)"
  unfolding require_message_def fetchMessage_def loadRecipients_def loadAddToBatches_def loadAttachments_def
  by (intro reads_intros; simp)

lemma reads_resolveID [reads_intros]: "reads (resolveID E s)"
  unfolding resolveID_def parseID_def by (intro reads_intros; simp)

lemma reads_fmsgid [reads_intros]: "reads (FetchFmsgIDDetail E a)" "reads (checkSendQuota E a sz)"
  unfolding checkSendQuota_def FetchFmsgIDDetail_def Let_def by (intro reads_intros; simp)+

lemma reads_sizes [reads_intros]: "reads (messageStoredSize E i)" "reads (recordedSize E i a)" "reads (usageOf E a i)"
  unfolding usageOf_def recordedSize_def messageStoredSize_def Let_def by (intro reads_intros; simp)+

lemma reads_trash [reads_intros]: "reads (trashStateQ E a i)" "reads (purgedFor E a i)" "reads (participates E a i)"
  "reads (trashSubtree E a i)"
  unfolding purgedFor_def trashStateQ_def participates_def trashSubtree_def by (intro reads_intros; simp)+

lemma reads_unshared [reads_intros]: "reads (unshared E ps)"
  by (induction ps) (auto intro!: reads_intros split: option.splits)

lemma reads_delivery [reads_intros]:
  "(\<And>why. 400 \<le> fst (f why)) \<Longrightarrow> reads (check_reply_domains E ds p f)" "reads (parentDeliveryByDomain E p)"
  unfolding check_reply_domains_def parentDeliveryByDomain_def by (intro reads_intros; simp)+

lemma reads_parent [reads_intros]: "reads (resolveParent E a p)" "reads (validatePidRelations pid t)" "reads (validateParent E pid)"
  unfolding resolveParent_def validatePidRelations_def validateParent_def Let_def by (intro reads_intros; simp)+

lemma reads_check_input [reads_intros]: "reads (check_input E a msg)"
  unfolding check_input_def by (intro reads_intros; simp)

lemma reads_save [reads_intros]: "reads (saveMessageData E a i ext c)"
  by (simp add: reads_def saveMessageData_def act_defs Let_def)

lemma reads_reaction [reads_intros]: "reads (loadReactionRows E is a)" "reads (react_subject E a i)"
  unfolding loadReactionRows_def react_subject_def by (intro reads_intros; simp)+

subsection \<open>Steps shared by the handlers\<close>

lemma tx_skip: "reads m \<Longrightarrow> (\<And>a. tx_ok P (f a) Q) \<Longrightarrow> tx_ok P (bind m f) Q"
  by (rule tx_bind [OF tx_reads])

lemma found_row:
  "tx_ok P (require_row msg (sql_query E (\<lambda>d. find_msg d i))) (\<lambda>m d. P d \<and> find_msg d i = Some m)"
  by (rule tx_found) (auto intro!: reads_intros simp: require_row_Inr sql_query_Inr)

lemma found_message:
  "tx_ok P (require_message E i) (\<lambda>mp d. P d \<and> (\<exists>r. find_msg d i = Some r \<and> Time (fst mp) = m_time r))"
proof (rule tx_found)
  fix w w1 :: world and mp assume run: "require_message E i w = (Inr mp, w1)"
  obtain m p where mp: "mp = (m, p)" by fastforce
  from require_message_Inr [OF run [unfolded mp]] show "\<exists>r. find_msg (db w) i = Some r \<and> Time (fst mp) = m_time r"
    by (auto simp: mp row_message_def)
qed (rule reads_fetch)

lemma resolveParent_sent:
  assumes "resolveParent E a p w = (Inr (Some (i, h)), w1)"
  shows "sent_msg (db w) i"
proof -
  from assms obtain k where k: "parent_key p = Some k" and run: "p \<noteq> NoParent"
    by (cases "parent_key p") (auto simp: resolveParent_def ret_eq throw_eq split: if_splits)
  let ?f = "\<lambda>d. case k of ByHash h \<Rightarrow> first_of (parent_rows d h) | ByID i \<Rightarrow> map_option (\<lambda>m. (m, None)) (find_msg d i)"
  from assms k run obtain m b where row: "?f (db w) = Some (m, b)" and i: "m_id m = i" and sent: "m_time m \<noteq> None"
    by (auto simp: resolveParent_def Let_def bind_Inr or_fail_Inr sql_query_Inr unless_Inr ret_eq throw_eq split: option.splits prod.splits)
  have "m \<in> set (msgs (db w))"
  proof (cases k)
    case (ByHash h)
    with row have "(m, b) \<in> set (parent_rows (db w) h)" by (auto simp: first_of_def split: list.splits)
    then show ?thesis by (auto simp: parent_rows_def Let_def list.case_eq_if split: if_splits)
  next
    case (ByID j)
    with row show ?thesis by (auto simp: find_msg_def dest: find_Some_mem)
  qed
  with i sent show ?thesis by (auto simp: sent_msg_def)
qed

lemma found_parent:
  "tx_ok P (check_input E a msg) (\<lambda>p d. P d \<and> (case p of None \<Rightarrow> True | Some (q, h) \<Rightarrow> sent_msg d q))"
proof (rule tx_found)
  fix w w1 :: world and q assume "check_input E a msg w = (Inr q, w1)"
  then have "\<exists>w2 w3. resolveParent E a (InParent msg) w = (Inr q, w3)"
    by (auto simp: check_input_def bind_Inr ret_eq throw_eq split: option.splits)
  then show "case q of None \<Rightarrow> True | Some (q, h) \<Rightarrow> sent_msg (db w) q"
    by (auto dest: resolveParent_sent split: option.splits)
qed (rule reads_check_input)

lemma tx_insert:
  assumes "\<And>n. m_id (row n) = n \<and> m_pid (row n) = pid"
    and "\<And>d. P d \<Longrightarrow> tables_ok d \<and> (\<forall>p. pid = Some p \<longrightarrow> sent_msg d p)" and "400 \<le> fst e"
  shows "tx_ok P (or_fail (stmt E (insert_message row)) e) (\<lambda>i d. tables_ok d \<and> stored_msg d i)"
  by (rule tx_stmt_or_fail [OF _ assms(3)]) (use assms(1,2) insert_message_ok in fastforce)

lemma tx_same_keys:
  assumes "\<And>d. same_keys d (f d)" and "400 \<le> fst e"
  shows "tx_ok (\<lambda>d. tables_ok d \<and> stored_msg d i) (or_fail (sql_exec E f) e) (\<lambda>_ d. tables_ok d \<and> stored_msg d i)"
  by (rule tx_exec_or_fail [OF _ assms(2)])
    (use assms(1) same_keys_ok same_keys_stored same_keys_next in blast)

lemma tx_recipients:
  "400 \<le> fst e \<Longrightarrow> tx_ok (\<lambda>d. tables_ok d \<and> stored_msg d i) (insert_recipients E i as e) (\<lambda>_ d. tables_ok d \<and> stored_msg d i)"
  unfolding insert_recipients_def by (rule tx_each) (use insert_recipient_ok in \<open>auto intro!: tx_exec_or_fail\<close>)

lemma tx_notifyTrash: "tx_ok tables_ok (notifyTrash E a is) (\<lambda>_. tables_ok)"
  unfolding notifyTrash_def
  by (rule tx_each, rule tx_bind, rule tx_exec [where Q = tables_ok])
    (use same_keys_updates(4) same_keys_ok same_keys_next in \<open>blast intro: tx_ret\<close>)+

lemma tx_prod: "(\<And>x y. p = (x, y) \<Longrightarrow> tx_ok P (f x y) Q) \<Longrightarrow> tx_ok P (case p of (x, y) \<Rightarrow> f x y) Q"
  by (simp split: prod.splits)

lemma tx_option:
  "(x = None \<Longrightarrow> tx_ok P m Q) \<Longrightarrow> (\<And>a. x = Some a \<Longrightarrow> tx_ok P (f a) Q) \<Longrightarrow> tx_ok P (case x of None \<Rightarrow> m | Some a \<Rightarrow> f a) Q"
  by (simp split: option.splits)

lemma tx_exec_sp:
  "(\<And>d. next_id d \<le> next_id (f d)) \<Longrightarrow> tx_ok P (sql_exec E f) (\<lambda>_ e. \<exists>d. P d \<and> e = f d)"
  by (rule tx_exec) blast

lemma tx_exec_or_fail_sp:
  "(\<And>d. next_id d \<le> next_id (f d)) \<Longrightarrow> 400 \<le> fst err1 \<Longrightarrow> tx_ok P (or_fail (sql_exec E f) err1) (\<lambda>_ e. \<exists>d. P d \<and> e = f d)"
  by (rule tx_exec_or_fail) blast+

subsection \<open>Drafts\<close>

lemma tx_Create: "tx_ok tables_ok (Create E a body) (\<lambda>_. tables_ok)"
proof (cases body)
  case None
  show ?thesis unfolding Create_def None option.case by (rule tx_throw) simp
next
  case (Some msg)
  show ?thesis unfolding Create_def Some option.case
    apply (rule tx_skip, (intro reads_intros; simp))
    apply (rule tx_skip, (intro reads_intros; simp))
    apply (rule tx_bind, rule found_parent)
    apply (rule tx_skip, (intro reads_intros; simp))
    apply (rule tx_skip, (intro reads_intros; simp))
    apply (rule tx_bind, rule tx_insert [where pid = "map_option fst _"])
       apply (simp add: new_message_def)
      apply (fastforce split: option.splits)
     apply simp
    apply (rule tx_skip, (intro reads_intros; simp))
    apply (rule tx_option)
     apply (rule tx_bind, rule tx_exec_sp, simp, rule tx_throw, simp)
    apply (rule tx_skip, (intro reads_intros; simp))
    apply (rule tx_bind, rule tx_same_keys, rule same_keys_updates, simp)
    apply (rule tx_bind, rule tx_recipients, simp)
    apply (rule tx_ret, simp)
    done
qed

lemma tx_Update: "tx_ok tables_ok (Update E a p body) (\<lambda>_. tables_ok)"
  unfolding Update_def
  apply (rule tx_skip, (intro reads_intros; simp))
  apply (rule tx_bind, rule found_message, rule tx_prod)
  apply (rule tx_skip, (intro reads_intros; simp))
  apply (rule tx_skip, (intro reads_intros; simp))
  apply (rule tx_option)
   apply (rule tx_throw, simp)
  apply (rule tx_skip, (intro reads_intros; simp))
  apply (rule tx_bind, rule found_parent)
  apply (rule tx_skip, (intro reads_intros; simp))
  apply (rule tx_skip, (intro reads_intros; simp))
  apply (rule tx_skip, (intro reads_intros; simp))
  apply (rule tx_skip, (intro reads_intros; simp))
  apply (rule tx_skip, (intro reads_intros; simp))
  apply (rule tx_option)
   apply (rule tx_throw, simp)
  apply (rule tx_skip, (intro reads_intros; simp))
  subgoal for i mp existing path msg parent
    apply (rule tx_bind, rule tx_exec_or_fail [where Q = "\<lambda>d. tables_ok d \<and> stored_msg d i"])
      apply (use set_draft_ok find_msg_stored in \<open>fastforce simp: set_draft_def\<close>)
     apply simp
    apply (rule tx_bind, rule tx_exec_or_fail [where Q = "\<lambda>d. tables_ok d \<and> stored_msg d i"])
      apply (simp add: delete_tos_ok)
     apply simp
    apply (rule tx_bind, rule tx_recipients, simp)
    apply (rule tx_skip, (intro reads_intros; simp))
    apply (rule tx_ret, simp)
    done
  done

lemma tx_delete_draft: "tx_ok (\<lambda>d. tables_ok d \<and> \<not> sent_msg d i) (delete_draft E i) (\<lambda>_. tables_ok)"
  unfolding delete_draft_def
  apply (rule tx_skip, (intro reads_intros; simp))
  apply (rule tx_skip, (intro reads_intros; simp))
  apply (rule tx_bind, rule tx_exec_sp, simp)+
  apply (rule tx_bind, rule tx_exec_or_fail_sp, simp, simp)+
  apply (rule tx_skip, (intro reads_intros; simp))
  apply (rule tx_bind, rule tx_exec_or_fail_sp, simp add: remove_row_def, simp)
  apply (rule tx_skip, (intro reads_intros; simp))
  apply (rule tx_ret)
  apply (elim exE conjE, hypsubst)
  apply (rule back_subst [where P = tables_ok], rule remove_all_ok, assumption, erule (1) unsent_no_parent)
  apply (simp add: remove_row_def in_batches_def)
  done

subsection \<open>Trash\<close>

lemma tx_execs:
  assumes "\<And>f d. f \<in> set fs \<Longrightarrow> next_id d \<le> next_id (f d)" and "400 \<le> fst e"
  shows "tx_ok P (each (\<lambda>f. or_fail (sql_exec E f) e) fs) (\<lambda>_ e. \<exists>d. P d \<and> e = fold (\<lambda>f d. f d) fs d)"
  using assms(1)
proof (induction fs arbitrary: P)
  case Nil
  show ?case by (simp add: tx_ret)
next
  case (Cons f fs)
  show ?case unfolding each.simps
    by (rule tx_bind [OF tx_exec_or_fail_sp [OF Cons.prems assms(2)]], simp)
      (rule tx_post [OF Cons.IH], use Cons.prems in auto)
qed

lemma tx_removeIfUnheld: "tx_ok tables_ok (removeIfUnheld E i) (\<lambda>_. tables_ok)"
  unfolding removeIfUnheld_def
  apply (rule tx_skip, (intro reads_intros; simp))
  apply (rule tx_skip, (intro reads_intros; simp))
  apply (rule tx_if, rule tx_ret, simp)
  apply (rule tx_skip, (intro reads_intros; simp))
  apply (rule tx_option, rule tx_throw, simp)
  apply (rule tx_skip, (intro reads_intros; simp))
  apply (rule tx_bind, rule tx_execs [where P = tables_ok])
    apply (auto simp: removal_def remove_row_def)[1]
   apply simp
  apply (rule tx_skip, (intro reads_intros; simp))
  apply (rule tx_ret, use removal_ok in blast)
  done

lemma tx_removeUnheld: "tx_ok tables_ok (removeUnheld E n fl is) (\<lambda>_. tables_ok)"
proof (induction "is" arbitrary: n fl)
  case Nil
  show ?case by (simp add: tx_ret)
next
  case (Cons i "is")
  show ?case unfolding removeUnheld.simps
    by (rule tx_bind [OF tx_removeIfUnheld], rule tx_option) (rule Cons.IH)+
qed

lemma tx_markPurged:
  "set is \<subseteq> set js \<Longrightarrow> tx_ok (\<lambda>d. tables_ok d \<and> (\<forall>j \<in> set js. stored_msg d j)) (markPurged E a tt now n rel is) (\<lambda>_. tables_ok)"
proof (induction "is" arbitrary: n rel)
  case Nil
  show ?case unfolding markPurged.simps by (rule tx_ret) simp
next
  case (Cons i "is")
  then have i: "i \<in> set js" and js: "set is \<subseteq> set js" by simp_all
  let ?P = "\<lambda>d. tables_ok d \<and> (\<forall>j \<in> set js. stored_msg d j)"
  have step: "next_id d \<le> next_id (purge_row a i b now d) \<and> ?P (purge_row a i b now d)" if "?P d" for b d
    using that i mark_rows_ok(2) [of d i a b now] by (auto simp: purge_row_def)
  show ?case unfolding markPurged.simps
    apply (rule tx_skip, (intro reads_intros; simp))
    apply (rule tx_if, rule Cons.IH [OF js])
    apply (rule tx_bind, rule tx_exec_or_fail [where Q = ?P], erule step, simp)
    apply (rule tx_skip, (intro reads_intros; simp))
    apply (rule tx_option, rule tx_throw, simp, rule Cons.IH [OF js])
    done
qed

lemma tx_subtree:
  "400 \<le> fst e \<Longrightarrow> tx_ok P (or_fail (trashSubtree E a i) e) (\<lambda>js d. P d \<and> (\<forall>j \<in> set js. stored_msg d j))"
  unfolding trashSubtree_def by (rule tx_post [OF tx_query_or_fail]) (auto intro: subtree_stored)

lemma tx_purge: "tx_ok tables_ok (purge E a i thread) (\<lambda>_. tables_ok)"
  unfolding purge_def
  apply (rule tx_bind, rule tx_subtree, simp)
  apply (rule tx_skip, (intro reads_intros; simp))
  apply (rule tx_bind, rule tx_markPurged, simp, rule tx_prod)
  apply (rule tx_bind, rule tx_removeUnheld, rule tx_prod)
  apply (rule tx_bind, rule tx_notifyTrash)
  apply (rule tx_skip, (intro reads_intros; simp))+
  apply (rule tx_ret, simp)
  done

lemma tx_participates:
  "400 \<le> fst e \<Longrightarrow> tx_ok tables_ok (or_fail (participates E a i) e) (\<lambda>ok d. tables_ok d \<and> (ok \<longrightarrow> stored_msg d i))"
  unfolding participates_def by (rule tx_post [OF tx_query_or_fail]) (auto intro: takes_part_stored)

lemma tx_trashSent: "tx_ok tables_ok (trashSent E a i tq pq) (\<lambda>_. tables_ok)"
  unfolding trashSent_def Let_def
  apply (rule tx_bind, rule tx_participates, simp)
  apply (rule tx_skip, (intro reads_intros; simp))
  apply (rule tx_if, rule tx_throw, simp)
  apply (rule tx_if, rule tx_pre [OF tx_purge], simp)
  apply (rule tx_skip, (intro reads_intros; simp))
  apply (rule tx_bind, rule tx_exec_or_fail [where Q = tables_ok])
    apply (use mark_rows_ok(1) in \<open>auto simp: mark_row_def\<close>)[1]
   apply simp
  apply (rule tx_skip, (intro reads_intros; simp))
  apply (rule tx_bind, rule tx_notifyTrash)
  apply (rule tx_skip, (intro reads_intros; simp))
  apply (rule tx_ret, simp)
  done

lemma tx_Delete: "tx_ok tables_ok (Delete E a p tq pq) (\<lambda>_. tables_ok)"
  unfolding Delete_def
  apply (rule tx_skip, (intro reads_intros; simp))
  apply (rule tx_bind, rule found_message, rule tx_prod)
  apply (rule tx_if, rule tx_pre [OF tx_trashSent], simp)
  apply (rule tx_skip, (intro reads_intros; simp))
  apply (rule tx_pre [OF tx_delete_draft], use draft_unsent in auto)
  done

lemma tx_Restore: "tx_ok tables_ok (Restore E a p tq) (\<lambda>_. tables_ok)"
  unfolding Restore_def Let_def
  apply (rule tx_skip, (intro reads_intros; simp))+
  apply (rule tx_if, rule tx_throw, simp)
  apply (rule tx_skip, (intro reads_intros; simp))
  apply (rule tx_bind, rule tx_exec_or_fail [where Q = tables_ok])
    apply (simp add: unmark_rows_ok, simp add: unmark_rows_def)
   apply simp
  apply (rule tx_bind, rule tx_notifyTrash)
  apply (rule tx_skip, (intro reads_intros; simp))
  apply (rule tx_ret, simp)
  done

subsection \<open>Sending, adding recipients, reacting\<close>

text \<open>fmsgd's \<open>Finalize\<close> and \<open>FinalizeBatch\<close> complete the rows of a message or a batch (time, hash, sizes); they
  add and remove none and leave the keys.\<close>

definition finalizer_ok :: "env \<Rightarrow> bool" where
  "finalizer_ok E \<longleftrightarrow> (\<forall>d i t hash e created. e_finalize E d i t = (Some (hash, e), created) \<longrightarrow> same_keys d e)
     \<and> (\<forall>d i b hash e. e_finalize_batch E d i b = Some (hash, e) \<longrightarrow> same_keys d e)"

lemma tx_finalize:
  assumes "finalizer_ok E" and "400 \<le> fst e"
  shows "tx_ok tables_ok (finalize E i t e) (\<lambda>_. tables_ok)"
proof -
  have "tables_ok d1 \<and> next_id d \<le> next_id d1" if "tables_ok d" "e_finalize E d i t = (Some (hash, d1), created)" for d d1 hash created
    using that assms(1) same_keys_ok same_keys_next unfolding finalizer_ok_def by metis
  with assms(2) show ?thesis by (auto simp: tx_ok_def finalize_def Let_def split: option.splits prod.splits)
qed

lemma tx_finalize_batch:
  assumes "finalizer_ok E"
  shows "tx_ok tables_ok (finalize_batch E i b) (\<lambda>_. tables_ok)"
proof -
  have "tables_ok d1 \<and> next_id d \<le> next_id d1" if "tables_ok d" "e_finalize_batch E d i b = Some (hash, d1)" for d d1 hash
    using that assms same_keys_ok same_keys_next unfolding finalizer_ok_def by metis
  then show ?thesis by (auto simp: tx_ok_def finalize_batch_def split: option.splits prod.splits)
qed

lemma tx_Send:
  assumes "finalizer_ok E"
  shows "tx_ok tables_ok (Send E a p) (\<lambda>_. tables_ok)"
  unfolding Send_def
  apply (rule tx_skip, (intro reads_intros; simp))
  apply (rule tx_skip, (intro reads_intros; simp), rule tx_prod)
  apply (rule tx_skip, (intro reads_intros; simp))+
  apply (rule tx_option, rule tx_throw, simp)
  apply (rule tx_skip, (intro reads_intros; simp))
  apply (rule tx_skip, (intro reads_intros; simp))
  apply (rule tx_skip, (intro reads_intros; simp))
  apply (rule tx_skip, (intro reads_intros; simp))
  apply (rule tx_bind, rule tx_finalize [OF assms], simp)
  apply (rule tx_skip, (intro reads_intros; simp))
  apply (rule tx_ret, simp)
  done

lemma found_add_guard: "tx_ok P (add_guard E a i addrs) (\<lambda>m d. P d \<and> find_msg d i = Some m)"
  unfolding add_guard_def
  apply (rule tx_skip, (intro reads_intros; simp))
  apply (rule tx_skip, (intro reads_intros; simp))
  apply (rule tx_bind, rule found_row)
  apply (rule tx_skip, (intro reads_intros; simp))+
  apply (rule tx_ret, simp)
  done

lemma tx_add_batch:
  assumes "finalizer_ok E"
  shows "tx_ok (\<lambda>d. tables_ok d \<and> stored_msg d i) (add_batch E a i addrs) (\<lambda>_. tables_ok)"
  unfolding add_batch_def Let_def
  apply (rule tx_skip, (intro reads_intros; simp))
  apply (rule tx_skip, (intro reads_intros; simp))
  apply (rule tx_bind, rule tx_stmt_or_fail [where Q = "\<lambda>b d. tables_ok d \<and> has_batch d b i"])
    apply (metis insert_batch_ok sum.inject(2))
   apply simp
  subgoal for _ _ b
    apply (rule tx_bind [where R = "\<lambda>_ d. tables_ok d \<and> has_batch d b i"], rule tx_each, rule tx_exec_or_fail)
      apply (use insert_addto_ok in blast)
     apply simp
    apply (rule tx_bind, rule tx_exec_or_fail [where Q = tables_ok])
      apply (use insert_notifies_ok in blast)
     apply simp
    apply (rule tx_bind, rule tx_finalize_batch [OF assms])
    apply (rule tx_skip, (intro reads_intros; simp))
    apply (rule tx_ret, simp)
    done
  done

lemma tx_AddRecipients:
  assumes "finalizer_ok E"
  shows "tx_ok tables_ok (AddRecipients E a p body) (\<lambda>_. tables_ok)"
  unfolding AddRecipients_def
  apply (rule tx_skip, (intro reads_intros; simp))
  apply (rule tx_option, rule tx_throw, simp)
  apply (rule tx_bind, rule found_add_guard)
  apply (rule tx_bind, rule tx_pre [OF tx_add_batch [OF assms]], use find_msg_stored in blast, rule tx_prod)
  apply (rule tx_skip, (intro reads_intros; simp))
  apply (rule tx_ret, simp)
  done

lemma tx_send_reaction:
  assumes "finalizer_ok E"
  shows "tx_ok (\<lambda>d. tables_ok d \<and> sent_msg d i) (send_reaction E a i want h rs) (\<lambda>_. tables_ok)"
  unfolding send_reaction_def
  apply (rule tx_skip, (intro reads_intros; simp))
  apply (rule tx_skip, (intro reads_intros; simp))
  apply (rule tx_skip, (intro reads_intros; simp))
  apply (rule tx_bind, rule tx_insert [where pid = "Some i"], simp add: new_message_def, simp, simp)
  apply (rule tx_skip, (intro reads_intros; simp))
  apply (rule tx_option, rule tx_throw, simp)
  apply (rule tx_skip, (intro reads_intros; simp))
  apply (rule tx_bind, rule tx_same_keys, rule same_keys_updates, simp)
  subgoal for _ _ _ rid
    apply (rule tx_bind [where R = "\<lambda>_ d. tables_ok d \<and> stored_msg d rid"], rule tx_each, rule tx_stmt_or_fail)
      apply (use insert_recipient_ok in \<open>fastforce split: if_splits\<close>)
     apply simp
    apply (rule tx_bind, rule tx_pre [OF tx_finalize [OF assms]], simp, simp)
    apply (rule tx_skip, (intro reads_intros; simp))
    apply (rule tx_skip, (intro reads_intros; simp))
    apply (rule tx_ret, simp)
    done
  done

lemma found_subject: "tx_ok P (react_subject E a i) (\<lambda>_ d. P d \<and> sent_msg d i)"
  unfolding react_subject_def
  apply (rule tx_bind, rule found_message, rule tx_prod)
  apply (rule tx_skip, (intro reads_intros; simp))
  apply (rule tx_skip, (intro reads_intros; simp))
  apply (rule tx_skip, (intro reads_intros; simp))
  apply (rule tx_bind, rule tx_check, simp)
  apply (rule tx_skip, (intro reads_intros; simp))
  apply (rule tx_ret, use find_msg_stored in fastforce)
  done

lemma tx_React:
  assumes "finalizer_ok E"
  shows "tx_ok tables_ok (React E a p body) (\<lambda>_. tables_ok)"
  unfolding React_def react_decide_def Let_def
  apply (rule tx_skip, (intro reads_intros; simp))
  apply (rule tx_option, rule tx_throw, simp)
  apply (rule tx_skip, (intro reads_intros; simp))
  apply (rule tx_bind, rule found_subject)
  apply (rule tx_skip, (intro reads_intros; simp))
  apply (rule tx_skip, (intro reads_intros; simp))
  apply (rule tx_if, rule tx_ret, simp)
  apply (rule tx_skip, (intro reads_intros; simp))
  apply (rule tx_option, rule tx_throw, simp, rule tx_send_reaction [OF assms])
  done

subsection \<open>Attachments\<close>

lemma tx_write_upload: "tx_ok P (write_upload E path content) (\<lambda>n d. P d \<and> 0 \<le> n)"
  unfolding write_upload_def Let_def
  apply (rule tx_skip, (intro reads_intros; simp))
  apply (rule tx_skip, (intro reads_intros; simp))
  apply (rule tx_skip, (intro reads_intros; simp))
  apply (rule tx_if, rule tx_skip, (intro reads_intros; simp), rule tx_throw, simp)
  apply (rule tx_if, rule tx_skip, (intro reads_intros; simp), rule tx_throw, simp)
  apply (rule tx_ret, simp)
  done

lemma tx_or_remove:
  assumes "tx_ok P m Q"
  shows "tx_ok P (or_remove E path m) Q"
  unfolding tx_ok_def
proof (intro allI impI)
  fix w :: world assume w: "intx w \<and> (aborted w \<or> P (db w))"
  obtain r w1 where m: "m w = (r, w1)" by fastforce
  with w assms have "next_id (db w) \<le> next_id (db w1)"
    and k: "case r of Inl e \<Rightarrow> 400 \<le> fst e | Inr a \<Rightarrow> intx w1 \<and> (aborted w1 \<or> Q a (db w1))"
    unfolding tx_ok_def by (force split: sum.splits)+
  with m show "next_id (db w) \<le> next_id (db (snd (or_remove E path m w)))
     \<and> (case or_remove E path m w of (Inl e, w1) \<Rightarrow> 400 \<le> fst e | (Inr a, w1) \<Rightarrow> intx w1 \<and> (aborted w1 \<or> Q a (db w1)))"
    by (cases r) (auto simp: or_remove_def bind_def attempt_def remove_file_def throw_def ret_def)
qed

lemma tx_Upload: "tx_ok tables_ok (Upload E a p file) (\<lambda>_. tables_ok)"
  unfolding Upload_def save_upload_def unanswered_def record_upload_def Let_def
  apply (rule tx_skip, (intro reads_intros; simp))
  apply (rule tx_bind, rule found_row)
  apply (rule tx_skip, (intro reads_intros; simp))
  apply (rule tx_skip, (intro reads_intros; simp))
  apply (rule tx_option, rule tx_throw, simp, rule tx_prod)
  apply (rule tx_skip, (intro reads_intros; simp))
  apply (rule tx_skip, (intro reads_intros; simp))
  apply (rule tx_skip, (intro reads_intros; simp))
  apply (rule tx_skip, (intro reads_intros; simp))
  apply (rule tx_option, rule tx_throw, simp)
  apply (rule tx_bind, rule tx_write_upload)
  apply (rule tx_skip, (intro reads_intros; simp))
  apply (rule tx_bind [where R = "\<lambda>_. tables_ok"], rule tx_or_remove)
   apply (rule tx_skip, (intro reads_intros; simp))
   apply (rule tx_skip, (intro reads_intros; simp))
   apply (rule tx_option, rule tx_throw, simp)
   apply (rule tx_skip, (intro reads_intros; simp))
   apply (rule tx_bind, rule tx_exec_or_fail [where Q = tables_ok])
     apply (use put_attachment_ok find_msg_stored in blast)
    apply simp
   apply (rule tx_reads, intro reads_intros, simp)
  apply (rule tx_ret, simp)
  done

lemma tx_DeleteAttachment: "tx_ok tables_ok (DeleteAttachment E a p f) (\<lambda>_. tables_ok)"
  unfolding DeleteAttachment_def require_att_def Let_def
  apply (rule tx_skip, (intro reads_intros; simp))
  apply (rule tx_skip, (intro reads_intros; simp))
  apply (rule tx_skip, (intro reads_intros; simp))
  apply (rule tx_skip, (intro reads_intros; simp))
  apply (rule tx_skip, (intro reads_intros; simp))
  apply (rule tx_skip, (intro reads_intros; simp))
  apply (rule tx_bind, rule tx_exec_or_fail [where Q = tables_ok])
    apply (simp add: delete_atts_ok)
   apply simp
  apply (rule tx_skip, (intro reads_intros; simp))
  apply (rule tx_ret, simp)
  done

subsection \<open>The transaction around them\<close>

text \<open>What was put off to the commit keeps the tables well formed, too.\<close>

lemma keeps_same_keys:
  assumes "\<And>d. same_keys d (f d)"
  shows "keeps (\<lambda>w. tables_ok (db w)) (sql_exec E f)"
  by (rule keeps_sql_exec) (use assms same_keys_ok in blast)

lemma keeps_ok_resolve_one: "keeps (\<lambda>w. tables_ok (db w)) (resolve_one E b i now a st dt sz)"
proof -
  have "keeps (\<lambda>w. tables_ok (db w)) (stmt E (\<lambda>d. Inr (resolve_row b i a dl c d)))" for dl c
    by (rule keeps_stmt) (metis same_keys_updates(5) same_keys_ok snd_conv sum.inject(2))
  then show ?thesis unfolding resolve_one_def by (intro keeps_intros)
qed

lemma keeps_ok_resolve: "keeps (\<lambda>w. tables_ok (db w)) (resolve_loop E b i ld now sz as)"
  by (induction as arbitrary: sz) (auto intro!: keeps_intros keeps_ok_resolve_one split: option.splits)

lemma keeps_ok_deferred: "keeps (\<lambda>w. tables_ok (db w)) (run_deferred E x)"
  by (cases x) (auto intro!: keeps_intros keeps_ok_resolve simp: recordSend_def resolveLocalDelivery_def)

lemma reads_lock [reads_intros]: "reads (lock_message E param)"
  unfolding lock_message_def by (intro reads_intros; simp)

lemma rollback_ok: "tables_ok d \<Longrightarrow> next_id d \<le> n \<Longrightarrow> tables_ok (d\<lparr>next_id := n\<rparr>)"
  by (fastforce simp: ok_defs)

lemma commit_ok:
  assumes "aborted w \<or> tables_ok (db w)" and "tables_ok d0" and "next_id d0 \<le> next_id (db w)"
  shows "tables_ok (db (snd (commit_tx E d0 resp w)))"
proof -
  have "keeps (\<lambda>w. tables_ok (db w)) (each (run_deferred E) ds)" for ds
    by (intro keeps_each keeps_ok_deferred)
  from keepsD [OF this] have "tables_ok (db v) \<Longrightarrow> tables_ok (db (run_all E ds v))" for ds v
    by (simp add: run_all_def)
  with assms rollback_ok show ?thesis by (auto simp: commit_tx_def Let_def)
qed

lemma atomic_ok:
  assumes h: "tx_ok tables_ok handler (\<lambda>_. tables_ok)" and ok: "tables_ok (db w)"
  shows "tables_ok (db (snd (atomic E param handler w)))"
proof -
  let ?b = "or_fail (sql_query E (\<lambda>_. ())) (err 500 ''failed to begin message transaction'') :: (response, unit) act"
  obtain b w1 where b: "?b w = (b, w1)" by fastforce
  obtain l w2 where l: "lock_message E param (begin_tx w1) = (l, w2)" by fastforce
  obtain r w3 where r: "handler w2 = (r, w3)" by fastforce
  have d1: "db w1 = db w" by (rule begin_same_db [OF b])
  have d2: "db w2 = db w" "intx w2" using reads_cases [OF reads_lock l] d1 by (simp_all add: begin_tx_def)
  with h ok r have n: "next_id (db w) \<le> next_id (db w3)"
    and k: "case r of Inl e \<Rightarrow> 400 \<le> fst e | Inr a \<Rightarrow> aborted w3 \<or> tables_ok (db w3)"
    unfolding tx_ok_def by (force split: sum.splits)+
  have "fst (outcome r) < 400 \<Longrightarrow> aborted w3 \<or> tables_ok (db w3)" using k by (cases r) (simp_all add: outcome_def)
  from commit_ok [OF this ok n] have c: "fst (outcome r) < 400 \<Longrightarrow> tables_ok (db (snd (commit_tx E (db w) (outcome r) w3)))" .
  from rollback_ok [OF ok n] rollback_ok [OF ok order_refl] c b l r d1 d2 ok show ?thesis
    by (cases b; cases l; cases "fst (outcome r) < 400") (simp_all add: atomic_def)
qed

subsection \<open>Handlers outside a transaction\<close>

text \<open>The reads change no table.\<close>

lemma keeps_case_list [keeps_intros]:
  "keeps P m \<Longrightarrow> (\<And>a b. keeps P (f a b)) \<Longrightarrow> keeps P (case x of [] \<Rightarrow> m | a # b \<Rightarrow> f a b)"
  by (simp split: list.splits)

lemma keeps_stmt_read [keeps_intros]: "keeps (\<lambda>w. P (db w)) (stmt E (\<lambda>d. map_sum id (\<lambda>r. (r, d)) (f d)))"
proof (rule keeps_stmt)
  fix d a e show "P d \<Longrightarrow> map_sum id (\<lambda>r. (r, d)) (f d) = Inr (a, e) \<Longrightarrow> P e" by (cases "f d") auto
qed

lemma keeps_page [keeps_intros]: "keeps (\<lambda>w. P (db w)) (load_page E rows)" "keeps (\<lambda>w. P (db w)) (parseLimitOffset l o1)"
  unfolding load_page_def populateListReactions_def parseLimitOffset_def by (intro keeps_intros)+

lemma keeps_lists [keeps_intros]:
  "keeps (\<lambda>w. P (db w)) (List_messages E a l o1 t)" "keeps (\<lambda>w. P (db w)) (Sent E a l o1 t)" "keeps (\<lambda>w. P (db w)) (Count E a t)"
  unfolding List_messages_def Sent_def Count_def Let_def by (intro keeps_intros)+

lemma keeps_gets [keeps_intros]:
  "keeps (\<lambda>w. P (db w)) (Get E a p)" "keeps (\<lambda>w. P (db w)) (DownloadData E a p)" "keeps (\<lambda>w. P (db w)) (Download E a p f)"
  unfolding Get_def DownloadData_def Download_def require_att_def Let_def by (intro keeps_intros)+

lemma keeps_threads [keeps_intros]: "keeps (\<lambda>w. P (db w)) (ThreadText E a p)" "keeps (\<lambda>w. P (db w)) (ThreadMessages E a p)"
  unfolding ThreadText_def ThreadMessages_def thread_state_def loadThreadRelations_def Let_def by (intro keeps_intros)+

text \<open>The others keep the keys, or change only tables without any.\<close>

lemma keeps_ok_stmt:
  assumes "\<And>d a e. f d = Inr (a, e) \<Longrightarrow> same_keys d e"
  shows "keeps (\<lambda>w. tables_ok (db w)) (stmt E f)"
  by (rule keeps_stmt) (use assms same_keys_ok in blast)

lemma set_grants_keys: "set_grants d gs a = Inr (b, e) \<Longrightarrow> same_keys d e"
  by (auto simp: set_grants_def same_keys_updates split: if_splits)

lemma keeps_ok_grants:
  "keeps (\<lambda>w. tables_ok (db w)) (createGrant E ow ag su ty dn ki kh cs ex)" "keeps (\<lambda>w. tables_ok (db w)) (RotateKey E ow ag ki kh ex)"
  "keeps (\<lambda>w. tables_ok (db w)) (UpdateCIDRs E ow ag cs)" "keeps (\<lambda>w. tables_ok (db w)) (Store_Delete E ow ag)"
  unfolding createGrant_def RotateKey_def UpdateCIDRs_def Store_Delete_def maxSubAccountsTx_def
  by (intro keeps_intros keeps_ok_stmt; auto simp: insert_grant_def update_grants_def same_keys_updates
      dest: set_grants_keys split: option.splits)+

lemma keeps_case_id_error [keeps_intros]:
  "keeps P l \<Longrightarrow> keeps P m \<Longrightarrow> keeps P n \<Longrightarrow> keeps P (case x of LinkedAddressTaken \<Rightarrow> l | NoAcceptingNew \<Rightarrow> m | IdFailed \<Rightarrow> n)"
  by (cases x) simp_all

lemma keeps_owner [keeps_intros]: "keeps P (requireIdPOwner c)" "keeps P (require_agent E a)"
  unfolding requireIdPOwner_def require_agent_def by (intro keeps_intros)+

lemma keeps_ok_subaccounts:
  "keeps (\<lambda>w. tables_ok (db w)) (subaccounts_List E c)" "keeps (\<lambda>w. tables_ok (db w)) (subaccounts_Get E c a)"
  "keeps (\<lambda>w. tables_ok (db w)) (subaccounts_Create E c i)" "keeps (\<lambda>w. tables_ok (db w)) (subaccounts_RotateKey E c a r)"
  "keeps (\<lambda>w. tables_ok (db w)) (subaccounts_UpdateCIDRs E c a cs)" "keeps (\<lambda>w. tables_ok (db w)) (subaccounts_Delete E c a)"
  unfolding subaccounts_List_def subaccounts_Get_def subaccounts_Create_def subaccounts_RotateKey_def subaccounts_UpdateCIDRs_def
    subaccounts_Delete_def register_and_grant_def create_grant_def undo_unless_granted_def Store_Create_def
  by (intro keeps_intros keeps_ok_grants keeps_Store_List)+

lemma keeps_ok_MarkRead: "keeps (\<lambda>w. tables_ok (db w)) (MarkRead E a p)"
proof -
  have l: "keeps (\<lambda>w. tables_ok (db w)) (mark_lookup E i ad)" for i ad
    unfolding mark_lookup_def by (rule keeps_stmt) (auto split: sum.splits)
  show ?thesis unfolding MarkRead_def mark_write_def Let_def
    by (intro keeps_intros l keeps_same_keys same_keys_updates)
qed

lemma keeps_ok_Indicate: "keeps (\<lambda>w. tables_ok (db w)) (Indicate E a p b)"
proof -
  have t: "keeps (\<lambda>w. tables_ok (db w)) (throttle_allow E k)" for k
    by (auto simp: keeps_def throttle_allow_def bind_def clock_def split: prod.splits)
  show ?thesis unfolding Indicate_def indicator_of_def indicate_guard_def Let_def
    by (intro keeps_intros t keeps_same_keys same_keys_updates)
qed

lemma keeps_ok_push: "keeps (\<lambda>w. tables_ok (db w)) (Subscribe E a b)" "keeps (\<lambda>w. tables_ok (db w)) (Unsubscribe E a u)"
  unfolding Subscribe_def Unsubscribe_def
  by (intro keeps_intros keeps_same_keys; simp add: upsert_push_def delete_push_def same_keys_updates)+

lemma keeps_Exchange: "keeps (\<lambda>w. P (db w)) (Exchange E issuer sign h ip)"
  unfolding Exchange_def by (intro keeps_intros)

lemma keeps_Connect:
  "stock_verifier E v \<Longrightarrow> keeps (\<lambda>w. P (db w)) (Connect E v upgrade allowed q)"
  unfolding Connect_def Let_def by (intro keeps_intros keeps_AuthenticateRequest)

subsection \<open>The server\<close>

lemma reading_db: "keeps (\<lambda>w. P (db w)) m \<Longrightarrow> P (db w) \<Longrightarrow> P (db (snd (reading f m w)))"
  using keepsD [of "\<lambda>w. P (db w)" m w] by (auto simp: reading_def split: prod.splits sum.splits)

lemma mutating_ok:
  "tx_ok tables_ok m (\<lambda>_. tables_ok) \<Longrightarrow> tables_ok (db w) \<Longrightarrow> tables_ok (db (snd (mutating E p m w)))"
  using atomic_ok [of m w E p] by (auto simp: mutating_def split: prod.splits)

lemma handle_tables_ok:
  assumes "finalizer_ok E" and "tables_ok (db w)"
  shows "tables_ok (db (snd (handle E c call w)))"
  using assms(2)
  by (cases call) (auto intro!: mutating_ok reading_db [where P = tables_ok] keeps_ok_subaccounts keeps_lists keeps_gets keeps_threads
      keeps_ok_MarkRead keeps_ok_Indicate keeps_ok_push tx_Create tx_Update tx_Delete tx_Send [OF assms(1)] tx_Restore
      tx_AddRecipients [OF assms(1)] tx_React [OF assms(1)] tx_Upload tx_DeleteAttachment)

lemma serve_ok:
  assumes "finalizer_ok E" and "stock_verifier E (s_verifier s)" and "tables_ok (db w)"
  shows "tables_ok (db (snd (serve E s req call w)))"
proof (cases "guarded call")
  case True
  obtain rep w1 where run: "serve E s req call w = (rep, w1)" by fastforce
  from run True assms(2) show ?thesis
  proof (cases rule: serve_cases)
    case (handled tok res w0)
    with assms(3) handle_tables_ok [OF assms(1), of w0 "ctx_of res" call] run show ?thesis by simp
  qed (use assms(3) run in simp_all)
next
  case False
  then show ?thesis using assms(2,3)
    by (cases call) (auto simp: serve_def Let_def keeps_Exchange keeps_Connect split: option.splits intro!: reading_db [where P = tables_ok])
qed

primrec serve_all :: "env \<Rightarrow> server \<Rightarrow> (request \<times> call) list \<Rightarrow> world \<Rightarrow> world" where
  "serve_all E s [] w = w"
| "serve_all E s (rc # rcs) w = serve_all E s rcs (snd (serve E s (fst rc) (snd rc) w))"

text \<open>The tables stay well formed, whatever requests the server answers and whatever fails while it does:
  ids stay unique, a reply's parent is a sent message that is stored, every recipient, batch, notification,
  attachment and trash row belongs to a stored message, and a message's attachments differ in name.  fmsgd's
  \<open>Finalize\<close>, which is not part of this program, is only assumed to complete rows without adding, removing
  or re-keying any.\<close>

theorem tables_integrity:
  assumes "tables_ok (db w)" and "finalizer_ok E"
    and "NewVerifier jwks issuer ac aud oaud api (Some (ValidateToken E, ValidateActAs E)) = Some (s_verifier s)"
  shows "tables_ok (db (serve_all E s rcs w))"
  using assms(1)
proof (induction rcs arbitrary: w)
  case (Cons rc rcs)
  from serve_ok [OF assms(2) stock_verifierI [OF assms(3)] Cons.prems] show ?case by (simp add: Cons.IH)
qed simp

text \<open>C35: a GET changes nothing: whatever a read is asked for and whatever fails on the way, every table is as it
  was, also when the answer is an error.\<close>

theorem gets_change_nothing:
  assumes "serve E s req call w = (rep, w1)" and "fst (route_of call) = ''GET''"
    and "NewVerifier jwks issuer ac aud oaud api (Some (ValidateToken E, ValidateActAs E)) = Some (s_verifier s)"
  shows "db w1 = db w"
proof (cases "guarded call")
  case True
  from assms(1) True stock_verifierI [OF assms(3)] show ?thesis
  proof (cases rule: serve_cases)
    case (handled tok res w0)
    have "db (snd (handle E (ctx_of res) call w0)) = db w0"
      using True assms(2) by (cases call) (auto intro!: reading_db [where P = "\<lambda>d. d = db w0"] keeps_lists keeps_gets keeps_threads
          keeps_intros keeps_Store_List simp: subaccounts_List_def subaccounts_Get_def)
    with handled(4,5) show ?thesis by simp
  qed simp_all
next
  case False
  then show ?thesis using assms(1,2) reading_db [OF keeps_Connect [OF stock_verifierI [OF assms(3)]], of "\<lambda>d. d = db w"]
    by (cases call) (auto simp: serve_def Let_def split: if_splits, metis snd_conv)
qed

subsection \<open>An example run\<close>

definition send_env :: env where
  "send_env = id_env\<lparr>e_finalize := (\<lambda>d i t. (Some (replicate 32 CHR ''h'', d\<lparr>msgs := update_where (\<lambda>m. m_id m = i)
     (\<lambda>m. m\<lparr>m_time := Some t, m_sha256 := Some (replicate 32 CHR ''h'')\<rparr>) (msgs d)\<rparr>), []))\<rparr>"

lemma sent_update:
  assumes "sent_msg d i"
  shows "sent_msg (d\<lparr>msgs := update_where P (\<lambda>m. m\<lparr>m_time := Some t, m_sha256 := h\<rparr>) (msgs d)\<rparr>) i"
proof -
  let ?f = "\<lambda>m. if P m then m\<lparr>m_time := Some t, m_sha256 := h\<rparr> else m"
  from assms obtain m where "m \<in> set (msgs d)" "m_id m = i" "m_time m \<noteq> None" by (auto simp: sent_msg_def)
  then have "?f m \<in> set (map ?f (msgs d)) \<and> m_id (?f m) = i \<and> m_time (?f m) \<noteq> None" by simp
  then show ?thesis unfolding sent_msg_def update_where_def by auto
qed

definition send_server :: server where
  "send_server = example_server\<lparr>s_verifier := example_verifier\<lparr>v_token := ValidateToken send_env, v_actas := Some (ValidateActAs send_env)\<rparr>\<rparr>"

definition send_run :: "(request \<times> call) list" where
  "send_run = (let own = del_request\<lparr>r_authorization := ''Bearer own''\<rparr> in
     [(own, CCreate ''{\"from\":\"@al@ex.org\",\"to\":[\"@bo@ex.org\"],\"version\":1,\"topic\":\"hi\",\"type\":\"text/plain\",\"data\":\"hello\"}''),
      (own, CDelete ''1'' ''true'' [])])"

theorem tables_integrity_witness:
  "tables_ok (db (serve_all send_env send_server send_run trash_world))
   \<and> length (msgs (db (serve_all send_env send_server send_run trash_world))) = 3"
proof -
  let ?w = "serve_all send_env send_server send_run trash_world"
  have f: "finalizer_ok send_env"
    by (simp add: finalizer_ok_def send_env_def id_env_def example_env_def same_keys_def map_update_where sent_update)
  have v: "NewVerifier (Some (\<lambda>_. example_claims)) ''iss'' ''addr'' ''api'' ''oauth'' (Some (\<lambda>_ _. None))
    (Some (ValidateToken send_env, ValidateActAs send_env)) = Some (s_verifier send_server)"
    by (simp add: NewVerifier_def example_verifier_def send_server_def)
  have ok: "tables_ok (db trash_world)" by code_simp
  have "length (msgs (db ?w)) = 3" by code_simp
  with tables_integrity [OF ok f v, of send_run] show ?thesis by blast
qed

theorem gets_change_nothing_witness:
  "db (snd (serve id_env example_server del_request (CGet ''2'') trash_world)) = thread_db"
proof -
  let ?r = "serve id_env example_server del_request (CGet ''2'') trash_world"
  have run: "?r = (fst ?r, snd ?r)" by simp
  have v: "s_verifier example_server = example_verifier" by (simp add: example_server_def)
  from gets_change_nothing [OF run _ example_verifier_new [folded v]] show ?thesis by (simp add: trash_world_def)
qed

end
