(* ===== verification/Refusals.thy ===== *)
theory Refusals
  imports Integrity
begin

text \<open>
  Requests whose JSON body cannot be bound: a text that is not JSON, or a value that does not fit the
  handler's struct.  Whatever else holds, such a request is refused and changes nothing.
\<close>

subsection \<open>Which bodies bind\<close>

fun binds :: "call \<Rightarrow> bool" where
  "binds (CSubCreate b) = (decode_subaccount b \<noteq> None)"
| "binds (CSubCIDRs _ b) = (decode_cidrs b \<noteq> None)"
| "binds (CSubRotate _ b) = (decode_rotate b \<noteq> None)"
| "binds (CCreate b) = (decode_message b \<noteq> None)"
| "binds (CUpdate _ b) = (decode_message b \<noteq> None)"
| "binds (CAddRecipients _ b) = (decode_recipients b \<noteq> None)"
| "binds (CReact _ b) = (decode_reaction b \<noteq> None)"
| "binds (CIndicate _ b) = (decode_indicate b \<noteq> Inl bind_error)"
| "binds (CSubscribe b) = (decode_subscription b \<noteq> Inl bind_error)"
| "binds (CUnsubscribe b) = (decode_unsubscribe b \<noteq> Inl bind_error)"
| "binds _ = True"

fun json_text :: "call \<Rightarrow> string option" where
  "json_text (CSubCreate b) = Some b"
| "json_text (CSubCIDRs _ b) = Some b"
| "json_text (CSubRotate _ b) = Some b"
| "json_text (CCreate b) = Some b"
| "json_text (CUpdate _ b) = Some b"
| "json_text (CAddRecipients _ b) = Some b"
| "json_text (CReact _ b) = Some b"
| "json_text (CIndicate _ b) = Some b"
| "json_text (CSubscribe b) = Some b"
| "json_text (CUnsubscribe b) = Some b"
| "json_text _ = None"

lemmas decoders = decode_subaccount_def decode_cidrs_def decode_rotate_def decode_message_def decode_recipients_def
  decode_reaction_def decode_indicate_def decode_subscription_def decode_unsubscribe_def

text \<open>Where the first value of the body is no JSON, or not an object and not \<open>null\<close>, it does not bind.\<close>

definition bindable :: "jval \<Rightarrow> bool" where
  "bindable v \<longleftrightarrow> v = VNull \<or> (\<exists>ms. v = VObj ms)"

lemma bind_struct: "decode_into (GoStruct fs) old v \<noteq> None \<Longrightarrow> bindable v"
  by (cases v) (simp_all add: bindable_def)

lemma bind_struct_text: "ShouldBindJSON (GoStruct fs) b \<noteq> None \<Longrightarrow> \<exists>v r. parse_first b = Some (v, r) \<and> bindable v"
  using bind_struct by (fastforce simp: ShouldBindJSON_def decodeJSON_def split: option.splits)

lemma binds_object:
  assumes "binds call" and "json_text call = Some b"
  shows "\<exists>v r. parse_first b = Some (v, r) \<and> bindable v"
proof -
  have "\<exists>fs. ShouldBindJSON (GoStruct fs) b \<noteq> None"
    using assms by (cases call) (auto simp: decoders or_error_def message_type_def split: option.splits)
  then show ?thesis using bind_struct_text by blast
qed

subsection \<open>Handlers that refuse\<close>

definition refuses :: "(response, 'a) act \<Rightarrow> bool" where
  "refuses m \<longleftrightarrow> reads m \<and> (\<forall>w. \<exists>e w1. m w = (Inl e, w1))"

named_theorems refuses_intros

lemma refuses_throw [refuses_intros]: "400 \<le> fst e \<Longrightarrow> refuses (throw e)"
  by (simp add: refuses_def reads_throw) (simp add: throw_def)

lemma refuses_bind [refuses_intros]:
  assumes "reads m" and "\<And>a. refuses (f a)"
  shows "refuses (bind m f)"
  unfolding refuses_def
proof
  show "reads (bind m f)" using assms by (intro reads_intros) (auto simp: refuses_def)
  show "\<forall>w. \<exists>e w1. bind m f w = (Inl e, w1)"
  proof
    fix w
    obtain r w1 where "m w = (r, w1)" by fastforce
    then show "\<exists>e w1. bind m f w = (Inl e, w1)"
      using assms(2) by (cases r) (auto simp: bind_def refuses_def)
  qed
qed

lemma refuses_case_prod [refuses_intros]: "(\<And>a b. refuses (f a b)) \<Longrightarrow> refuses (case x of (a, b) \<Rightarrow> f a b)"
  by (simp split: prod.splits)

lemma refuses_run:
  assumes "refuses m" and "m w = (r, w1)"
  obtains e where "r = Inl e" and "400 \<le> fst e" and "db w1 = db w"
proof -
  from assms obtain e where e: "r = Inl e" unfolding refuses_def by (metis prod.inject)
  from assms(1) have "reads m" by (simp add: refuses_def)
  with assms(2) e have "400 \<le> fst e \<and> db w1 = db w" unfolding reads_def by (metis fst_conv snd_conv sum.case(1))
  with e that show ?thesis by blast
qed

lemma reads_owner [reads_intros]: "reads (requireIdPOwner c)" "reads (require_agent E agent)"
  unfolding requireIdPOwner_def require_agent_def by (intro reads_intros; simp)+


lemma reads_cache [reads_intros]: "reads (cache_load k)" "reads (cache_store k c)" "reads (cache_delete k)"
  by (simp_all add: reads_def cache_load_def cache_store_def cache_delete_def)

lemma reads_store_get [reads_intros]: "(\<And>e. 400 \<le> fst (h e)) \<Longrightarrow> reads (on_store_error (Store_Get E owner agent) h)"
  by (auto simp: reads_def on_store_error_def Store_Get_def or_fail_def bind_def attempt_def sql_query_def stmt_def Let_def
      throw_def ret_def split: option.splits)

lemma reads_CheckFmsgID [reads_intros]: "reads (CheckFmsgID E a)"
proof -
  have f: "reads (fetchFmsgID E u)" for u
    unfolding fetchFmsgID_def by (intro reads_intros)
  then have "reads (fetch_once E u)" for u
    unfolding fetch_once_def by (intro reads_intros f)
  then show ?thesis unfolding CheckFmsgID_def Let_def by (intro reads_intros)
qed

lemma reads_checkAccepting [reads_intros]: "reads (checkAcceptingFmsgID E a)"
  unfolding checkAcceptingFmsgID_def by (intro reads_intros; simp)

lemma store_error_status: "400 \<le> fst (respondSubAccountStoreError e)"
  by (cases e) (simp_all add: respondSubAccountStoreError_def)

lemma refusing_handlers:
  "refuses (subaccounts_Create E c None)" "refuses (subaccounts_UpdateCIDRs E c agent None)"
  "refuses (subaccounts_RotateKey E c agent None)" "refuses (Create E a None)" "refuses (Update E a param None)"
  "refuses (AddRecipients E a param None)" "refuses (React E a param None)" "refuses (Subscribe E a (Inl why))"
  "refuses (Unsubscribe E a (Inl why))"
  unfolding subaccounts_Create_def subaccounts_UpdateCIDRs_def subaccounts_RotateKey_def Create_def Update_def
    AddRecipients_def React_def Subscribe_def Unsubscribe_def option.case sum.case
  by ((intro refuses_intros reads_intros; simp add: store_error_status); fail)+

lemma refusing_indicate: "refuses (Indicate E a param (Inl why))"
proof -
  have "refuses (bind (throw (err 400 why)) f)" for f :: "Indicator \<Rightarrow> (response, response) act"
    using refuses_throw [of "err 400 why"] by (simp add: refuses_def reads_def bind_def throw_def)
  then show ?thesis unfolding Indicate_def indicator_of_def sum.case
    by (rule refuses_bind [OF reads_resolveID])
qed

subsection \<open>Refusals of the middleware\<close>

text \<open>Every error an action ends early with satisfies \<open>P\<close>.\<close>

definition raises :: "('e \<Rightarrow> bool) \<Rightarrow> ('e, 'a) act \<Rightarrow> bool" where
  "raises P m \<longleftrightarrow> (\<forall>w e w1. m w = (Inl e, w1) \<longrightarrow> P e)"

lemma raises_intros:
  "raises P (ret a)"
  "P e \<Longrightarrow> raises P (throw e)"
  "raises P m \<Longrightarrow> (\<And>a. raises P (f a)) \<Longrightarrow> raises P (bind m f)"
  "raises P (clock E)" "raises P (ask_fmsgid E q)"
  "raises P (cache_load k)" "raises P (cache_store k c)" "raises P (cache_delete k)"
  by (auto simp: raises_def ret_def throw_def bind_def clock_def ask_fmsgid_def cache_load_def cache_store_def cache_delete_def
      split: prod.splits sum.splits)

lemma raises_CheckFmsgID: "raises P (CheckFmsgID E a)"
proof -
  have f: "raises P (fetchFmsgID E u)" for u
    unfolding fetchFmsgID_def by (intro raises_intros) (auto intro!: raises_intros split: id_reply.split option.split)
  have "raises P (fetch_once E u)" for u
    unfolding fetch_once_def by (intro raises_intros) (auto intro!: raises_intros f split: option.split)
  then show ?thesis
    unfolding CheckFmsgID_def Let_def by (intro raises_intros) (auto intro!: raises_intros split: option.split)
qed

definition refusal_status :: "auth_error \<Rightarrow> bool" where
  "refusal_status e \<longleftrightarrow> (case authFailureFromError e of None \<Rightarrow> True | Some sm \<Rightarrow> 400 \<le> fst sm)"

lemma refusal_status_simps [simp]: "refusal_status (AuthError st msg) \<longleftrightarrow> 400 \<le> st" "refusal_status TokenInvalid"
  "refusal_status (StoreError e)"
  by (simp_all add: refusal_status_def authFailureFromError_def split: store_error.splits)

lemma raises_identity: "raises refusal_status (require_identity E a)"
  unfolding raises_def
proof (intro allI impI)
  fix w w1 :: world and e
  assume run: "require_identity E a w = (Inl e, w1)"
  obtain r w2 where v: "validateIdentity E a w = (r :: auth_error + _, w2)" by fastforce
  have "raises (\<lambda>_. False) (validateIdentity E a :: (auth_error, nat \<times> string) act)"
    unfolding validateIdentity_def by (auto intro!: raises_intros raises_CheckFmsgID)
  with v have "\<forall>x. r \<noteq> Inl x" unfolding raises_def by blast
  then obtain sm where r: "r = Inr sm" by (cases r) auto
  have st: "fst sm = 200 \<or> 400 \<le> fst sm"
  proof (cases "IsValidAddr a")
    case False
    with v r show ?thesis by (auto simp: validateIdentity_def ret_def)
  next
    case True
    obtain x w3 where "CheckFmsgID E a w = (x :: auth_error + _, w3)" by fastforce
    with v r True show ?thesis
      by (cases x) (auto simp: validateIdentity_def bind_def ret_def split: option.splits if_splits)
  qed
  with run v r st show "refusal_status e"
    by (auto simp: require_identity_def bind_def throw_def ret_def split: if_splits)
qed

lemma raises_store_check: "raises refusal_status (store_check m)"
  by (auto simp: raises_def store_check_def bind_def attempt_def throw_def ret_def split: prod.splits sum.splits)

lemma raises_splits:
  "(b \<Longrightarrow> raises P m) \<Longrightarrow> (\<not> b \<Longrightarrow> raises P n) \<Longrightarrow> raises P (if b then m else n)"
  "raises P m \<Longrightarrow> (\<And>a. raises P (f a)) \<Longrightarrow> raises P (case x of None \<Rightarrow> m | Some a \<Rightarrow> f a)"
  "(\<And>a. y = Inl a \<Longrightarrow> raises P (g a)) \<Longrightarrow> (\<And>b. raises P (h b)) \<Longrightarrow> raises P (case y of Inl a \<Rightarrow> g a | Inr b \<Rightarrow> h b)"
  "(\<And>a b. raises P (k a b)) \<Longrightarrow> raises P (case z of (a, b) \<Rightarrow> k a b)"
  by (auto split: option.splits sum.splits prod.splits)

lemma raises_try:
  assumes "raises refusal_status m" and "raises (\<lambda>e. 400 \<le> fst e) m2"
  shows "raises (\<lambda>e. 400 \<le> fst e) (try_mode m m2)"
  unfolding raises_def
proof (intro allI impI)
  fix w e w1
  assume run: "try_mode m m2 w = (Inl e, w1)"
  obtain r w2 where r: "m w = (r, w2)" by fastforce
  show "400 \<le> fst e"
  proof (cases r)
    case (Inl x)
    with assms(1) r have "refusal_status x" unfolding raises_def by blast
    with run r Inl assms(2) [unfolded raises_def, rule_format, of w2 e w1] show ?thesis
      by (cases "authFailureFromError x") (auto simp: try_mode_def bind_def attempt_def throw_def refusal_status_def)
  next
    case (Inr x)
    with run r show ?thesis by (simp add: try_mode_def bind_def attempt_def ret_def)
  qed
qed

lemma raises_middleware: "raises (\<lambda>e. 400 \<le> fst e) (auth_middleware E v meth pattern header ip actAs)"
proof -
  have idp: "raises refusal_status (authenticateIdP E v parse tok actAs)" for parse tok
    unfolding authenticateIdP_def idp_session_def ParseWithClaims_def Let_def
    by (intro raises_intros raises_splits raises_identity raises_store_check)
      (auto simp: classifyAudience_def idp_result_def Let_def split: option.splits if_splits)
  have api: "raises refusal_status (authenticateAPIToken E v parse tok ip actAs)" for parse tok
    unfolding authenticateAPIToken_def ParseWithClaims_def
    by (auto intro!: raises_intros raises_identity raises_store_check split: option.splits)
  have "raises (\<lambda>e. 400 \<le> fst e) (AuthenticateRequest E v tok ip actAs)" for tok
    unfolding AuthenticateRequest_def Let_def
    by (auto intro!: raises_intros raises_try idp api split: option.splits)
  then show ?thesis unfolding auth_middleware_def
    by (auto intro!: raises_intros simp: CheckScope_def split: option.splits bool.splits prod.splits)
qed

subsection \<open>Unbound bodies\<close>

lemma atomic_refuses:
  assumes "refuses m"
  shows "400 \<le> fst (fst (atomic E param m w))"
proof -
  obtain resp w1 where a: "atomic E param m w = (resp, w1)" by fastforce
  then show ?thesis
  proof (cases rule: atomic_cases)
    case (ran w2 r w3)
    with refuses_run [OF assms ran(1)] show ?thesis by (metis outcome_def sum.case(1) leD)
  qed (use a in simp_all)
qed

lemma reading_side: "refuses m \<Longrightarrow> (\<exists>n. reading RJson m = reading RJson n \<and> refuses n) \<or> Q"
  and mutating_side: "refuses m \<Longrightarrow> Q \<or> (\<exists>param n. mutating E q m = mutating E param n \<and> refuses n)"
  by blast+

lemma keeps_auth_middleware:
  "stock_verifier E v \<Longrightarrow> keeps (\<lambda>x. P (db x)) (auth_middleware E v meth pattern header ip actAs)"
  unfolding auth_middleware_def by (intro keeps_intros keeps_AuthenticateRequest)

lemma handle_unbound:
  assumes "\<not> binds call"
  shows "(\<exists>m. handle E c call = reading RJson m \<and> refuses m) \<or> (\<exists>param m. handle E c call = mutating E param m \<and> refuses m)"
  using assms by (cases call) (auto intro!: reading_side mutating_side refusing_handlers refusing_indicate)

text \<open>C6: a request whose JSON body does not bind is refused, whatever it asks for and whatever fails: the answer
  is an error and no table changes.\<close>

theorem unbound_refused:
  assumes "serve E s req call w = (rep, w1)" and "\<not> binds call" and "\<forall>n. \<not> e_lost E n"
    and "NewVerifier jwks issuer ac aud oaud api (Some (ValidateToken E, ValidateActAs E)) = Some (s_verifier s)"
  shows "rep = RNoRoute \<or> (\<exists>st js. rep = RJson (st, js) \<and> 400 \<le> st \<and> (db w1)\<lparr>next_id := 0\<rparr> = (db w)\<lparr>next_id := 0\<rparr>)"
proof -
  have g: "guarded call" and k: "call \<noteq> CExchange" "\<And>q. call \<noteq> CWebSocket q" using assms(2) by (cases call; auto)+
  let ?r = "route_of call"
  let ?m = "auth_middleware E (s_verifier s) (fst ?r) (snd ?r) (r_authorization req) (r_client_ip req) (r_act_as req) w"
  show ?thesis
  proof (cases "?r \<in> set (registerRoutes (s_issuer s \<noteq> None) (s_push s))")
    case False
    with assms(1) k show ?thesis by (simp add: serve_def Let_def)
  next
    case True
    with assms(1) k have run: "serve_guarded E s req call w = (rep, w1)"
      by (cases call) (auto simp: serve_def Let_def)
    obtain x w0 where m: "?m = (x, w0)" by fastforce
    have d: "db w0 = db w"
      by (rule same_db [OF keeps_auth_middleware [OF stock_verifierI [OF assms(4)]] m])
    show ?thesis
    proof (cases x)
      case (Inl e)
      with raises_middleware m have "400 \<le> fst e" unfolding raises_def by metis
      with run m Inl d show ?thesis by (cases e) (auto simp: serve_guarded_def Let_def err_def)
    next
      case (Inr res)
      with run m have h: "handle E (ctx_of res) call w0 = (rep, w1)" by (simp add: serve_guarded_def Let_def)
      from handle_unbound [OF assms(2), of E "ctx_of res"] show ?thesis
      proof (elim disjE exE conjE)
        fix m assume r: "handle E (ctx_of res) call = reading RJson m" "refuses m"
        obtain r w2 where m: "m w0 = (r, w2)" by fastforce
        from refuses_run [OF r(2) m] obtain e where "r = Inl e" "400 \<le> fst e" "db w2 = db w0" .
        with r(1) m d h show ?thesis by (cases e) (auto simp: reading_def)
      next
        fix param m assume r: "handle E (ctx_of res) call = mutating E param m" "refuses m"
        obtain resp w2 where a: "atomic E param m w0 = (resp, w2)" by fastforce
        have "400 \<le> fst resp" using atomic_refuses [OF r(2)] a by (metis fst_conv)
        with atomic_error_tables [OF a _ assms(3)] a r(1) d h show ?thesis
          by (cases resp) (auto simp: mutating_def)
      qed
    qed
  qed
qed


theorem unbound_refused_witness:
  "\<exists>st js. fst (serve id_env example_server (del_request\<lparr>r_authorization := ''Bearer own''\<rparr>) (CCreate ''[1}'') trash_world) = RJson (st, js)
     \<and> 400 \<le> st"
proof -
  let ?r = "serve id_env example_server (del_request\<lparr>r_authorization := ''Bearer own''\<rparr>) (CCreate ''[1}'') trash_world"
  have "parse_first ''[1}'' = None" by code_simp
  with binds_object [OF _ json_text.simps(4), of "''[1}''"] have b: "\<not> binds (CCreate ''[1}'')" by fastforce
  have n: "fst ?r \<noteq> RNoRoute" by code_simp
  have e: "\<forall>n. \<not> e_lost id_env n" by (simp add: id_env_def example_env_def)
  have v: "s_verifier example_server = example_verifier" by (simp add: example_server_def)
  have run: "?r = (fst ?r, snd ?r)" by simp
  from unbound_refused [OF run b e example_verifier_new [folded v]] n show ?thesis by blast
qed

end
