(* ===== verification/Startup.thy ===== *)
theory Startup
  imports Refusals
begin

text \<open>
  Start-up (\<open>main\<close> of \<open>src/cmd/fmsg-webapi/main.go\<close>): from the environment variables to the running server or
  the error that ends the process, the signing key of API tokens (\<open>ParseEd25519PrivateKey\<close> of
  \<open>src/internal/apiauth/token.go\<close>), and what stands in front of the handlers: response headers, CORS and the
  health check.

  \<open>start\<close> builds the \<open>server\<close> of \<open>Server\<close> and the settings of its handlers, so the theorems on
  \<open>serve\<close> hold of every server that starts (\<open>start_spec\<close>, \<open>started_integrity\<close>), and a token that
  the exchange gives out works on the same server (\<open>exchanged_token_works\<close>).
\<close>

subsection \<open>The private key\<close>

text \<open>\<open>encoding/base64\<close>: the value of a character in the standard and in the URL alphabet, and decoding with or
  without padding.  Line ends are skipped.\<close>

definition b64_std :: "char \<Rightarrow> nat option" where
  "b64_std c = (let b = byte c in
     if 65 \<le> b \<and> b \<le> 90 then Some (b - 65)
     else if 97 \<le> b \<and> b \<le> 122 then Some (b - 71)
     else if 48 \<le> b \<and> b \<le> 57 then Some (b + 4)
     else if c = CHR ''+'' then Some 62 else if c = CHR ''/'' then Some 63 else None)"

definition b64_url :: "char \<Rightarrow> nat option" where
  "b64_url c = (if c = CHR ''-'' then Some 62 else if c = CHR ''_'' then Some 63
     else if c = CHR ''+'' \<or> c = CHR ''/'' then None else b64_std c)"

definition two_bytes :: "nat \<Rightarrow> nat \<Rightarrow> char" where
  "two_bytes x y = char_of (4 * x + y div 16)"

fun b64_decode :: "(char \<Rightarrow> nat option) \<Rightarrow> bool \<Rightarrow> string \<Rightarrow> string option" where
  "b64_decode val padded [] = Some []"
| "b64_decode val padded [a] = None"
| "b64_decode val padded [a, b] = (if padded then None else (case (val a, val b) of
     (Some x, Some y) \<Rightarrow> Some [two_bytes x y] | _ \<Rightarrow> None))"
| "b64_decode val padded [a, b, c] = (if padded then None else (case (val a, val b, val c) of
     (Some x, Some y, Some z) \<Rightarrow> Some [two_bytes x y, char_of (16 * (y mod 16) + z div 4)] | _ \<Rightarrow> None))"
| "b64_decode val padded (a # b # c # d # s) = (case (val a, val b) of
     (Some x, Some y) \<Rightarrow>
       if padded \<and> c = CHR ''='' then (if d = CHR ''='' \<and> s = [] then Some [two_bytes x y] else None)
       else (case val c of None \<Rightarrow> None
         | Some z \<Rightarrow>
           if padded \<and> d = CHR ''='' then (if s = [] then Some [two_bytes x y, char_of (16 * (y mod 16) + z div 4)] else None)
           else (case (val d, b64_decode val padded s) of
               (Some t, Some r) \<Rightarrow> Some (two_bytes x y # char_of (16 * (y mod 16) + z div 4) # char_of (64 * (z mod 4) + t) # r)
             | _ \<Rightarrow> None))
   | _ \<Rightarrow> None)"

definition DecodeString :: "(char \<Rightarrow> nat option) \<Rightarrow> bool \<Rightarrow> string \<Rightarrow> string option" where
  "DecodeString val padded s = b64_decode val padded (filter (\<lambda>c. c \<noteq> CHR 0x0A \<and> c \<noteq> CHR 0x0D) s)"

text \<open>A key is its 64 bytes: the seed and the public key.  \<open>from_seed\<close> is \<open>ed25519.NewKeyFromSeed\<close>.\<close>

definition ParseEd25519PrivateKey :: "(string \<Rightarrow> string) \<Rightarrow> string \<Rightarrow> string option" where
  "ParseEd25519PrivateKey from_seed s =
     (case (case DecodeString b64_std True s of Some raw \<Rightarrow> Some raw
        | None \<Rightarrow> (case DecodeString b64_std False s of Some raw \<Rightarrow> Some raw
           | None \<Rightarrow> DecodeString b64_url False s)) of
        None \<Rightarrow> None
      | Some raw \<Rightarrow> if length raw = 64 then Some raw else if length raw = 32 then Some (from_seed raw) else None)"

definition PublicKey :: "string \<Rightarrow> string" where
  "PublicKey privateKey = drop 32 privateKey"

subsection \<open>Starting\<close>

text \<open>What start-up takes from outside: reading a duration, the parser of an identity provider's tokens for its
  key set and issuer, Ed25519 and JWT signing and verification of first-party tokens (at a time), the framework's
  check of proxy addresses, whether PostgreSQL answers, and the WebSocket handshake.\<close>

record libraries =
  lib_duration :: "string \<Rightarrow> time option"
  lib_provider :: "string \<Rightarrow> string \<Rightarrow> claims jwt_parser option"
  lib_seed :: "string \<Rightarrow> string"
  lib_sign :: "string \<Rightarrow> minted \<Rightarrow> string option"
  lib_verify :: "string \<Rightarrow> string \<Rightarrow> string \<Rightarrow> token_claims jwt_parser"
  lib_proxies :: "string list \<Rightarrow> bool"
  lib_database :: bool
  lib_upgrade :: "bool \<Rightarrow> response option"

datatype startup_error =
    NoVariable string
  | BadDuration
  | BadTLS
  | BadLimits
  | NoDatabase
  | BadPrivateKey
  | BadAuth
  | NoVerifier
  | BadProxies

record settings =
  set_env :: env
  set_server :: server
  set_cors :: "CORSConfig option"
  set_tls :: bool
  set_addr :: string

text \<open>The issuer of API tokens with its private key, where a key is configured; \<open>None\<close> for a key that cannot be read.\<close>

definition read_token_issuer :: "libraries \<Rightarrow> environ \<Rightarrow> time \<Rightarrow> (string \<times> TokenIssuer) option option" where
  "read_token_issuer L env ttl = (let private = env ''FMSG_API_TOKEN_ED25519_PRIVATE_KEY'' in
     if private = [] then Some None
     else (case ParseEd25519PrivateKey (lib_seed L) private of None \<Rightarrow> None
       | Some key \<Rightarrow> Some (Some (key, NewTokenIssuer (envOrDefault env ''FMSG_API_TOKEN_ISSUER'' ''fmsg-webapi'')
           (envOrDefault env ''FMSG_API_TOKEN_AUDIENCE'' ''fmsg-webapi'') ttl))))"

definition api_parser :: "libraries \<Rightarrow> (string \<times> TokenIssuer) option \<Rightarrow> token_claims jwt_parser option" where
  "api_parser L tokens = map_option (\<lambda>(key, i). lib_verify L (PublicKey key) (ti_issuer i) (ti_audience i)) tokens"

definition handler_env :: "env \<Rightarrow> environ \<Rightarrow> string \<Rightarrow> string \<Rightarrow> limits \<Rightarrow> env" where
  "handler_env E env dataDir localDomain lim = E\<lparr>DataDir := dataDir, LocalDomain := localDomain,
     IDURL := envOrDefault env ''FMSG_ID_URL'' ''http://127.0.0.1:8080'',
     MaxDataSize := lim_data lim, MaxAttachSize := lim_attach lim, MaxMsgSize := lim_msg lim,
     ShortTextSize := lim_short lim, RetryMaxAge := lim_retry lim * 1000000\<rparr>"

definition listen_addr :: "environ \<Rightarrow> bool \<Rightarrow> string" where
  "listen_addr env tls = CHR '':'' # envOrDefault env ''FMSG_API_PORT'' (if tls then ''443'' else ''8000'')"

definition start_auth :: "libraries \<Rightarrow> env \<Rightarrow> environ \<Rightarrow> (string \<times> TokenIssuer) option \<Rightarrow> startup_error + verifier" where
  "start_auth L E env tokens =
     (let issuer = env ''FMSG_JWT_ISSUER''; audience = env ''FMSG_JWT_AUDIENCE''; oauth = env ''FMSG_JWT_OAUTH_AUDIENCE'';
          addressClaim = env ''FMSG_JWT_ADDRESS_CLAIM''; api = api_parser L tokens in
      case buildJWTConfig (\<lambda>url. lib_provider L url issuer) (env ''FMSG_JWT_JWKS_URL'') issuer audience oauth addressClaim api of
        None \<Rightarrow> Inl BadAuth
      | Some idp \<Rightarrow>
        (case NewVerifier idp issuer addressClaim audience oauth api
           (if api = None then None else Some (ValidateToken E, ValidateActAs E)) of
           None \<Rightarrow> Inl NoVerifier | Some v \<Rightarrow> Inr v))"

definition start :: "libraries \<Rightarrow> env \<Rightarrow> environ \<Rightarrow> startup_error + settings" where
  "start L E0 env = (case mustEnv env ''FMSG_DATA_DIR'' of None \<Rightarrow> Inl (NoVariable ''FMSG_DATA_DIR'') | Some dataDir \<Rightarrow>
     (case mustEnv env ''FMSG_DOMAIN'' of None \<Rightarrow> Inl (NoVariable ''FMSG_DOMAIN'') | Some localDomain \<Rightarrow>
     (case envOrDefaultDuration (lib_duration L) env ''FMSG_API_TOKEN_TTL'' (12 * 3600 * 1000000) of None \<Rightarrow> Inl BadDuration | Some ttl \<Rightarrow>
     (case tls_enabled env of None \<Rightarrow> Inl BadTLS | Some tls \<Rightarrow>
     (case read_limits env of None \<Rightarrow> Inl BadLimits | Some lim \<Rightarrow>
     if \<not> lib_database L then Inl NoDatabase else
     (case read_token_issuer L env ttl of None \<Rightarrow> Inl BadPrivateKey | Some tokens \<Rightarrow>
     (let E = handler_env E0 env dataDir localDomain lim; origins = parseCSV (env ''FMSG_CORS_ORIGINS'') in
      case start_auth L E env tokens of Inl e \<Rightarrow> Inl e | Inr v \<Rightarrow>
      if \<not> lib_proxies L (parseCSV (env ''FMSG_TRUSTED_PROXIES'')) then Inl BadProxies
      else Inr \<lparr>set_env = E,
        set_server = \<lparr>s_verifier = v, s_issuer = map_option (\<lambda>(key, i). (i, lib_sign L key)) tokens,
          s_push = push_enabled env, s_upgrade = lib_upgrade L, s_origins = origins\<rparr>,
        set_cors = (if origins \<noteq> [] then Some (DefaultCORSConfig\<lparr>AllowedOrigins := origins\<rparr>) else None),
        set_tls = tls, set_addr = listen_addr env tls\<rparr>)))))))"

subsection \<open>In front of the handlers\<close>

text \<open>What a request reaches: the health check, a route, or nothing (another method or path).\<close>

datatype target = THealth | TCall call | TNone string

fun method_of :: "target \<Rightarrow> string" where
  "method_of THealth = ''GET''"
| "method_of (TCall call) = fst (route_of call)"
| "method_of (TNone meth) = meth"

definition http_serve :: "settings \<Rightarrow> string \<Rightarrow> request \<Rightarrow> target \<Rightarrow> world \<Rightarrow> ((string \<times> string) list \<times> reply) \<times> world" where
  "http_serve st origin req target w =
     (let (cors, status) = (case set_cors st of None \<Rightarrow> ([], None) | Some cfg \<Rightarrow> NewCORS cfg (method_of target) origin);
          headers = SecurityHeaders @ cors in
      case status of Some s \<Rightarrow> ((headers, RJson (s, JNull)), w)
      | None \<Rightarrow> (case target of
          THealth \<Rightarrow> (case reading (\<lambda>(s, text). RJson (s, JStr text)) (Healthz (set_env st)) w of
            (r, w1) \<Rightarrow> ((headers @ [(''Cache-Control'', ''no-store'')], r), w1))
        | TCall call \<Rightarrow> (case serve (set_env st) (set_server st) req call w of (r, w1) \<Rightarrow> ((headers, r), w1))
        | TNone meth \<Rightarrow> ((headers, RNoRoute), w)))"

subsection \<open>What start-up guarantees\<close>

lemma start_Inr:
  assumes "start L E0 env = Inr st"
  obtains tokens tls lim dataDir localDomain ttl v where "mustEnv env ''FMSG_DATA_DIR'' = Some dataDir" and "mustEnv env ''FMSG_DOMAIN'' = Some localDomain"
    and "tls_enabled env = Some tls" and "read_limits env = Some lim"
    and "read_token_issuer L env ttl = Some tokens"
    and "start_auth L (handler_env E0 env dataDir localDomain lim) env tokens = Inr v"
    and "st = \<lparr>set_env = handler_env E0 env dataDir localDomain lim,
        set_server = \<lparr>s_verifier = v, s_issuer = map_option (\<lambda>(key, i). (i, lib_sign L key)) tokens,
          s_push = push_enabled env, s_upgrade = lib_upgrade L, s_origins = parseCSV (env ''FMSG_CORS_ORIGINS'')\<rparr>,
        set_cors = (if parseCSV (env ''FMSG_CORS_ORIGINS'') \<noteq> []
          then Some (DefaultCORSConfig\<lparr>AllowedOrigins := parseCSV (env ''FMSG_CORS_ORIGINS'')\<rparr>) else None),
        set_tls = tls, set_addr = listen_addr env tls\<rparr>"
proof -
  note run = assms [unfolded start_def]
  from run obtain dataDir where 1: "mustEnv env ''FMSG_DATA_DIR'' = Some dataDir" by (cases "mustEnv env ''FMSG_DATA_DIR''") simp_all
  note run = run [unfolded 1 option.case]
  from run obtain localDomain where 2: "mustEnv env ''FMSG_DOMAIN'' = Some localDomain" by (cases "mustEnv env ''FMSG_DOMAIN''") simp_all
  note run = run [unfolded 2 option.case]
  let ?ttl = "envOrDefaultDuration (lib_duration L) env ''FMSG_API_TOKEN_TTL'' (12 * 3600 * 1000000)"
  from run obtain ttl where 3: "?ttl = Some ttl" by (cases ?ttl) simp_all
  note run = run [unfolded 3 option.case]
  from run obtain tls where 4: "tls_enabled env = Some tls" by (cases "tls_enabled env") simp_all
  note run = run [unfolded 4 option.case]
  from run obtain lim where 5: "read_limits env = Some lim" by (cases "read_limits env") simp_all
  note run = run [unfolded 5 option.case]
  from run obtain tokens where 6: "read_token_issuer L env ttl = Some tokens" by (cases "lib_database L"; cases "read_token_issuer L env ttl") simp_all
  note run = run [unfolded 6 option.case Let_def]
  let ?E = "handler_env E0 env dataDir localDomain lim"
  from run obtain v where 7: "start_auth L ?E env tokens = Inr v" by (cases "lib_database L"; cases "start_auth L ?E env tokens") simp_all
  note run = run [unfolded 7 sum.case]
  show thesis
    by (rule that [OF 1 2 4 5 6 7]) (use run in \<open>simp split: if_splits\<close>)
qed

lemma configured_verifier:
  assumes "buildJWTConfig fetch url iss aud oa ac api = Some idp"
    and "NewVerifier idp iss ac aud oa api (if api = None then None else Some (t, a)) = Some v"
  shows "NewVerifier idp iss ac aud oa api (Some (t, a)) = Some v \<and> (if url = [] then idp = None \<and> api \<noteq> None else idp = fetch url \<and> idp \<noteq> None)"
  using assms by (cases api) (auto simp: buildJWTConfig_def NewVerifier_def split: option.splits if_splits)

lemma start_auth_verifier:
  assumes "start_auth L E env tokens = Inr v"
  shows "\<exists>idp. NewVerifier idp (env ''FMSG_JWT_ISSUER'') (env ''FMSG_JWT_ADDRESS_CLAIM'') (env ''FMSG_JWT_AUDIENCE'')
      (env ''FMSG_JWT_OAUTH_AUDIENCE'') (api_parser L tokens) (Some (ValidateToken E, ValidateActAs E)) = Some v
    \<and> (if env ''FMSG_JWT_JWKS_URL'' = [] then idp = None \<and> tokens \<noteq> None
       else idp = lib_provider L (env ''FMSG_JWT_JWKS_URL'') (env ''FMSG_JWT_ISSUER'') \<and> idp \<noteq> None)"
proof -
  let ?api = "api_parser L tokens"
  let ?b = "buildJWTConfig (\<lambda>url. lib_provider L url (env ''FMSG_JWT_ISSUER'')) (env ''FMSG_JWT_JWKS_URL'') (env ''FMSG_JWT_ISSUER'')
    (env ''FMSG_JWT_AUDIENCE'') (env ''FMSG_JWT_OAUTH_AUDIENCE'') (env ''FMSG_JWT_ADDRESS_CLAIM'') ?api"
  note run = assms [unfolded start_auth_def Let_def]
  from run obtain idp where b: "?b = Some idp" by (cases ?b) simp_all
  let ?n = "NewVerifier idp (env ''FMSG_JWT_ISSUER'') (env ''FMSG_JWT_ADDRESS_CLAIM'') (env ''FMSG_JWT_AUDIENCE'')
      (env ''FMSG_JWT_OAUTH_AUDIENCE'') ?api (if ?api = None then None else Some (ValidateToken E, ValidateActAs E))"
  from run [unfolded b option.case] have n: "?n = Some v" by (cases ?n) simp_all
  have "?api \<noteq> None \<longleftrightarrow> tokens \<noteq> None" by (simp add: api_parser_def)
  with configured_verifier [OF b n] show ?thesis by metis
qed

lemma start_stock:
  assumes "start L E0 env = Inr st"
  shows "stock_verifier (set_env st) (s_verifier (set_server st))"
  using assms
proof (rule start_Inr)
  fix tokens tls lim dataDir localDomain v
  assume v: "start_auth L (handler_env E0 env dataDir localDomain lim) env tokens = Inr v"
    and st: "st = \<lparr>set_env = handler_env E0 env dataDir localDomain lim,
        set_server = \<lparr>s_verifier = v, s_issuer = map_option (\<lambda>(key, i). (i, lib_sign L key)) tokens,
          s_push = push_enabled env, s_upgrade = lib_upgrade L, s_origins = parseCSV (env ''FMSG_CORS_ORIGINS'')\<rparr>,
        set_cors = (if parseCSV (env ''FMSG_CORS_ORIGINS'') \<noteq> []
          then Some (DefaultCORSConfig\<lparr>AllowedOrigins := parseCSV (env ''FMSG_CORS_ORIGINS'')\<rparr>) else None),
        set_tls = tls, set_addr = listen_addr env tls\<rparr>"
  from start_auth_verifier [OF v] show ?thesis unfolding st settings.simps server.simps using stock_verifierI by blast
qed

lemma read_token_issuer_Some:
  assumes "read_token_issuer L env ttl = Some tokens"
  shows "tokens \<noteq> None \<longleftrightarrow> env ''FMSG_API_TOKEN_ED25519_PRIVATE_KEY'' \<noteq> []"
  using assms by (auto simp: read_token_issuer_def Let_def split: if_splits option.splits)

text \<open>C9: every server \<open>main\<close> starts authenticates against the grant store, with at least one kind of token; it knows
  provider tokens exactly if a key set is configured, exchanges keys exactly if a signing key is, and a delegated
  audience never equals the owners'.  So the theorems on \<open>serve\<close> apply to it.\<close>

theorem start_spec:
  assumes "start L E0 env = Inr st"
  shows "\<exists>idp api. NewVerifier idp (env ''FMSG_JWT_ISSUER'') (env ''FMSG_JWT_ADDRESS_CLAIM'') (env ''FMSG_JWT_AUDIENCE'')
      (env ''FMSG_JWT_OAUTH_AUDIENCE'') api (Some (ValidateToken (set_env st), ValidateActAs (set_env st))) = Some (s_verifier (set_server st))
    \<and> (idp \<noteq> None \<longleftrightarrow> env ''FMSG_JWT_JWKS_URL'' \<noteq> [])
    \<and> (api \<noteq> None \<longleftrightarrow> env ''FMSG_API_TOKEN_ED25519_PRIVATE_KEY'' \<noteq> [])
    \<and> (s_issuer (set_server st) \<noteq> None \<longleftrightarrow> env ''FMSG_API_TOKEN_ED25519_PRIVATE_KEY'' \<noteq> [])
    \<and> (env ''FMSG_JWT_JWKS_URL'' \<noteq> [] \<or> env ''FMSG_API_TOKEN_ED25519_PRIVATE_KEY'' \<noteq> [])
    \<and> (env ''FMSG_JWT_JWKS_URL'' \<noteq> [] \<and> env ''FMSG_JWT_OAUTH_AUDIENCE'' \<noteq> [] \<longrightarrow> env ''FMSG_JWT_AUDIENCE'' \<notin> {[], env ''FMSG_JWT_OAUTH_AUDIENCE''})
    \<and> DataDir (set_env st) \<noteq> [] \<and> LocalDomain (set_env st) \<noteq> [] \<and> 0 < RetryMaxAge (set_env st)"
  using assms
proof (rule start_Inr)
  fix tokens tls lim dataDir localDomain ttl v
  let ?E = "handler_env E0 env dataDir localDomain lim"
  assume m: "mustEnv env ''FMSG_DATA_DIR'' = Some dataDir" "mustEnv env ''FMSG_DOMAIN'' = Some localDomain"
    and lim: "read_limits env = Some lim" and t: "read_token_issuer L env ttl = Some tokens"
    and v: "start_auth L ?E env tokens = Inr v"
    and st: "st = \<lparr>set_env = ?E, set_server = \<lparr>s_verifier = v, s_issuer = map_option (\<lambda>(key, i). (i, lib_sign L key)) tokens,
          s_push = push_enabled env, s_upgrade = lib_upgrade L, s_origins = parseCSV (env ''FMSG_CORS_ORIGINS'')\<rparr>,
        set_cors = (if parseCSV (env ''FMSG_CORS_ORIGINS'') \<noteq> []
          then Some (DefaultCORSConfig\<lparr>AllowedOrigins := parseCSV (env ''FMSG_CORS_ORIGINS'')\<rparr>) else None),
        set_tls = tls, set_addr = listen_addr env tls\<rparr>"
  note tok = read_token_issuer_Some [OF t]
  from start_auth_verifier [OF v] obtain idp where n: "NewVerifier idp (env ''FMSG_JWT_ISSUER'') (env ''FMSG_JWT_ADDRESS_CLAIM'') (env ''FMSG_JWT_AUDIENCE'')
      (env ''FMSG_JWT_OAUTH_AUDIENCE'') (api_parser L tokens) (Some (ValidateToken ?E, ValidateActAs ?E)) = Some v"
    and idp: "if env ''FMSG_JWT_JWKS_URL'' = [] then idp = None \<and> tokens \<noteq> None
       else idp = lib_provider L (env ''FMSG_JWT_JWKS_URL'') (env ''FMSG_JWT_ISSUER'') \<and> idp \<noteq> None" by blast
  have aud: "oa \<noteq> [] \<longrightarrow> au \<notin> {[], oa}" if "NewVerifier (Some p) iss ac au oa api k = Some v" for p iss ac au oa api k
    using that by (auto simp: NewVerifier_def split: if_splits)
  have a: "env ''FMSG_JWT_JWKS_URL'' \<noteq> [] \<and> env ''FMSG_JWT_OAUTH_AUDIENCE'' \<noteq> [] \<longrightarrow> env ''FMSG_JWT_AUDIENCE'' \<notin> {[], env ''FMSG_JWT_OAUTH_AUDIENCE''}"
    using n idp aud by (cases idp) (metis option.distinct(1), metis)
  have "dataDir \<noteq> []" "localDomain \<noteq> []" using m by (auto simp: mustEnv_def split: if_splits)
  moreover have "0 < lim_retry lim" using lim by (auto simp: read_limits_def split: option.splits if_splits)
  moreover have "api_parser L tokens \<noteq> None \<longleftrightarrow> tokens \<noteq> None" by (simp add: api_parser_def)
  moreover have "idp \<noteq> None \<longleftrightarrow> env ''FMSG_JWT_JWKS_URL'' \<noteq> []" "env ''FMSG_JWT_JWKS_URL'' \<noteq> [] \<or> tokens \<noteq> None"
    using idp by metis+
  ultimately show ?thesis unfolding st settings.simps server.simps
    using n a tok by (intro exI [of _ idp] exI [of _ "api_parser L tokens"]) (simp add: handler_env_def)
qed

subsection \<open>Requests over HTTP\<close>

text \<open>Every response carries the fixed header.  A preflight from an allowed origin is answered without
  authentication and changes nothing; CORS answers no other request, so each call is served as \<open>serve\<close> says,
  whatever its origin.\<close>

lemma http_call:
  "\<exists>cors. http_serve st origin req (TCall call) w
    = ((SecurityHeaders @ cors, fst (serve (set_env st) (set_server st) req call w)), snd (serve (set_env st) (set_server st) req call w))"
proof -
  have "fst (route_of call) \<noteq> ''OPTIONS''" by (cases call) simp_all
  then have "\<And>cfg. snd (NewCORS cfg (fst (route_of call)) origin) = None" by (simp add: CORS_status)
  then show ?thesis
    by (cases "set_cors st") (auto simp: http_serve_def Let_def split: prod.splits option.splits, (metis option.distinct(1) snd_conv)+)
qed

theorem http_spec:
  "(''X-Content-Type-Options'', ''nosniff'') \<in> set (fst (fst (http_serve st origin req target w)))
   \<and> snd (fst (http_serve st origin req (TCall call) w)) = fst (serve (set_env st) (set_server st) req call w)
   \<and> snd (http_serve st origin req (TCall call) w) = snd (serve (set_env st) (set_server st) req call w)
   \<and> (\<forall>cfg. set_cors st = Some cfg \<and> origin \<noteq> [] \<and> (trimmedOrigins cfg = [''*''] \<or> origin \<in> set (trimmedOrigins cfg))
        \<longrightarrow> (\<exists>hs. http_serve st origin req (TNone ''OPTIONS'') w = ((hs, RJson (204, JNull)), w)))"
proof -
  have "(''X-Content-Type-Options'', ''nosniff'') \<in> set (fst (fst (http_serve st origin req target w)))"
    by (auto simp: http_serve_def SecurityHeaders_def Let_def split: prod.splits option.splits target.splits)
  moreover have "\<exists>hs. http_serve st origin req (TNone ''OPTIONS'') w = ((hs, RJson (204, JNull)), w)"
    if "set_cors st = Some cfg" "origin \<noteq> []" "trimmedOrigins cfg = [''*''] \<or> origin \<in> set (trimmedOrigins cfg)" for cfg
  proof -
    have "snd (NewCORS cfg ''OPTIONS'' origin) = Some 204" using that by (simp add: CORS_status)
    then show ?thesis using that(1) by (cases "NewCORS cfg ''OPTIONS'' origin") (simp add: http_serve_def Let_def)
  qed
  moreover obtain cors where "http_serve st origin req (TCall call) w
    = ((SecurityHeaders @ cors, fst (serve (set_env st) (set_server st) req call w)), snd (serve (set_env st) (set_server st) req call w))"
    using http_call by blast
  ultimately show ?thesis by (simp only: fst_conv snd_conv) blast
qed

lemma http_tables_ok:
  assumes "finalizer_ok (set_env st)" and "stock_verifier (set_env st) (s_verifier (set_server st))" and "tables_ok (db w)"
  shows "tables_ok (db (snd (http_serve st origin req target w)))"
proof (cases target)
  case (TCall call)
  from http_call [of st origin req call w] serve_ok [OF assms] TCall show ?thesis by (metis snd_conv)
next
  case THealth
  have h: "tables_ok (db (snd (reading f (Healthz E) w)))" for f E
    by (rule reading_db) (auto simp: Healthz_def assms(3) intro!: keeps_intros)
  have "tables_ok (db w1)" if "reading f (Healthz E) w = (r, w1)" for f E r w1 using h [of f E] that by simp
  with THealth assms(3) show ?thesis by (auto simp: http_serve_def Let_def split: prod.splits option.splits)
qed (use assms(3) in \<open>auto simp: http_serve_def Let_def split: prod.splits option.splits\<close>)

primrec http_all :: "settings \<Rightarrow> (string \<times> request \<times> target) list \<Rightarrow> world \<Rightarrow> world" where
  "http_all st [] w = w"
| "http_all st (q # qs) w = http_all st qs (snd (http_serve st (fst q) (fst (snd q)) (snd (snd q)) w))"

text \<open>C7: from the environment variables to the tables: whatever configuration the server starts with and whatever it is
  sent, the tables stay well formed.\<close>

theorem started_integrity:
  assumes "start L E0 env = Inr st" and "finalizer_ok E0" and "tables_ok (db w)"
  shows "tables_ok (db (http_all st qs w))"
proof -
  have f: "finalizer_ok (set_env st)" using assms(1)
    by (rule start_Inr) (use assms(2) in \<open>simp add: finalizer_ok_def handler_env_def\<close>)
  show ?thesis using assms(3)
    by (induction qs arbitrary: w) (simp_all add: http_tables_ok [OF f start_stock [OF assms(1)]])
qed

subsection \<open>Exchanged tokens\<close>

text \<open>What the JWT library promises of an Ed25519 key whose public half belongs to its seed: a token signed with it
  is read back as the claims that were signed, by the parser for the matching public key, issuer and
  audience, from the moment it was issued until it expires, with the configured leeway on both sides; and
  it is refused at every other time.  (The options \<open>WithLeeway\<close>, \<open>WithExpirationRequired\<close> and \<open>WithIssuedAt\<close>
  that \<open>NewVerifier\<close> gives the parser.)\<close>

definition in_validity :: "time \<Rightarrow> time \<Rightarrow> time \<Rightarrow> bool" where
  "in_validity iat exp now \<longleftrightarrow> iat - DefaultClockSkew \<le> now \<and> now < exp + DefaultClockSkew"

definition jwt_law :: "libraries \<Rightarrow> bool" where
  "jwt_law L \<longleftrightarrow> (\<forall>key m tok now. lib_seed L (take 32 key) = key \<and> lib_sign L key m = Some tok \<longrightarrow>
     lib_verify L (PublicKey key) (mc_issuer m) (mc_aud m) now tok =
       (if in_validity (mc_iat m) (mc_exp m) now then Some \<lparr>tc_sub = mc_sub m, tc_owner = mc_owner m, tc_key = mc_key m\<rparr> else None))"

text \<open>The configured private key is one \<open>ed25519\<close> could have made.  Start-up takes a 64-byte key as it is, so it
  does not see to this itself.\<close>

definition key_halves_match :: "libraries \<Rightarrow> environ \<Rightarrow> bool" where
  "key_halves_match L env \<longleftrightarrow> (\<forall>key. ParseEd25519PrivateKey (lib_seed L) (env ''FMSG_API_TOKEN_ED25519_PRIVATE_KEY'') = Some key
     \<longrightarrow> lib_seed L (take 32 key) = key)"

lemma Exchange_Inr:
  assumes "Exchange E i sign header ip w = (Inr (code, js), w1)"
  shows "\<exists>k ident w2 n now tok. bearerTokenStrict header = Some k \<and> ValidateAPIKey E k ip w = (Inr ident, w2)
    \<and> sign \<lparr>mc_owner = ident_OwnerAddr ident, mc_key = ident_KeyID ident, mc_issuer = ti_issuer i, mc_sub = ident_SubAddr ident,
        mc_aud = ti_audience i, mc_iat = NewNumericDate now, mc_exp = NewNumericDate (now + ti_ttl i)\<rparr> = Some tok
    \<and> now = e_now E n \<and> tick w1 = Suc n \<and> code = 200 \<and> js = JObj [(''access_token'', JStr tok), (''token_type'', JStr ''Bearer''),
         (''expires_in'', JInt (ti_ttl i div 1000000)), (''expires_at'', JTime (now + ti_ttl i))]"
  using assms by (auto simp: Exchange_def run_Inr clock_Inr on_store_error_Inr Mint_def Let_def throw_eq ret_eq split: option.splits)

text \<open>The grant behind a validated key passes the check of the token minted for it.\<close>

lemma validated_key_grant:
  assumes "ValidateAPIKey E k ip w = (Inr ident, w1)" and "grants_ok (db w)"
  shows "\<exists>g \<in> set (grants (db w)). ident = \<lparr>ident_OwnerAddr = g_owner g, ident_SubAddr = g_sub g, ident_KeyID = g_key_id g\<rparr>
    \<and> g_key_id g \<noteq> [] \<and> find (token_grant (g_key_id g) (g_owner g) (g_sub g)) (grants (db w)) = Some g"
proof -
  from assms(1) obtain p g where p: "ParseAPIKey k = Some p" and f: "find (\<lambda>g. g_key_id g = ID p \<and> live g) (grants (db w)) = Some g"
    and i: "ident = \<lparr>ident_OwnerAddr = g_owner g, ident_SubAddr = g_sub g, ident_KeyID = g_key_id g\<rparr>"
    by (auto simp: ValidateAPIKey_def act_Inr split: option.splits if_splits)
  from find_Some_mem [OF f] have g: "g \<in> set (grants (db w))" "g_key_id g = ID p" "live g" by simp_all
  have "ID p \<noteq> []" using p by (auto simp: ParseAPIKey_def split: list.splits if_splits)
  moreover have "find (token_grant (g_key_id g) (g_owner g) (g_sub g)) (grants (db w)) = Some g"
  proof (rule find_unique [OF g(1)])
    show "token_grant (g_key_id g) (g_owner g) (g_sub g) g" using g(3) by (simp add: token_grant_def owned_by_def)
    fix y assume "y \<in> set (grants (db w))" "token_grant (g_key_id g) (g_owner g) (g_sub g) y"
    then show "y = g" using g assms(2) distinct_map_key [of g_key_id "filter live (grants (db w))" y g]
      by (simp add: grants_ok_def grant_unique_def token_grant_def)
  qed
  ultimately show ?thesis using g i by auto
qed

lemma ValidateToken_passes:
  assumes "find (token_grant kid owner sub) (grants (db w)) = Some g" and "\<not> e_fail E (tick w)" and "\<not> aborted w"
    and "e_now E (Suc (tick w)) \<le> g_expires g" and "remoteAllowed E ip (g_cidrs g) = None"
  shows "ValidateToken E kid owner sub ip w = (Inr (), w\<lparr>tick := Suc (Suc (tick w))\<rparr>)"
  using assms by (simp add: ValidateToken_def act_defs Let_def)

lemma raises_store: "(\<And>e. P (h e)) \<Longrightarrow> raises P (on_store_error m h)"
  unfolding raises_def on_store_error_def bind_def attempt_def ret_def throw_def
  by (auto split: prod.splits sum.splits) (metis old.prod.exhaust)

lemma Exchange_raises: "raises (\<lambda>e. fst e \<noteq> 200) (Exchange E i sign header ip)"
proof -
  have "raises (\<lambda>e. fst e \<noteq> 200) (checkAcceptingFmsgID E a)" for a
    unfolding checkAcceptingFmsgID_def
    by (intro raises_intros raises_CheckFmsgID) (auto intro!: raises_intros simp: err_def split: option.splits)
  then show ?thesis unfolding Exchange_def
    by (auto intro!: raises_intros raises_store simp: err_def respondTokenError_def split: option.splits store_error.splits)
qed

text \<open>The tick at which the parser of API tokens reads the clock: the parser of provider tokens, where there is
  one, looks at the token first.\<close>

definition api_tick :: "verifier \<Rightarrow> world \<Rightarrow> nat" where
  "api_tick v w = (if v_idp v = None then tick w else Suc (tick w))"

definition provider_refuses :: "env \<Rightarrow> verifier \<Rightarrow> string \<Rightarrow> world \<Rightarrow> bool" where
  "provider_refuses E v tok w \<longleftrightarrow> (\<forall>parse. v_idp v = Some parse \<longrightarrow> parse (e_now E (tick w)) tok = None)"

lemma api_token_request:
  assumes "v_api v = Some parse" and "provider_refuses E v tok w"
  shows "AuthenticateRequest E v tok ip [] w
    = try_mode (authenticateAPIToken E v parse tok ip []) (throw (401, ''invalid token'')) (w\<lparr>tick := api_tick v w\<rparr>)"
proof (cases "v_idp v")
  case None
  then show ?thesis by (simp add: AuthenticateRequest_def assms(1) api_tick_def)
next
  case (Some p)
  with assms(2) have "authenticateIdP E v p tok [] w = (Inl TokenInvalid, w\<lparr>tick := api_tick v w\<rparr>)"
    by (simp add: authenticateIdP_def bind_def ParseWithClaims_eq provider_refuses_def api_tick_def)
  then have "try_mode (authenticateIdP E v p tok []) m w = m (w\<lparr>tick := api_tick v w\<rparr>)" for m
    by (simp add: try_mode_def bind_def attempt_def authFailureFromError_def)
  then show ?thesis by (simp add: AuthenticateRequest_def Let_def assms(1) Some)
qed

lemma minted_token_authenticates:
  assumes "v_api v = Some parse" and "v_token v = ValidateToken E" and "provider_refuses E v t w2"
    and "parse (e_now E (api_tick v w2)) t = Some \<lparr>tc_sub = g_sub g, tc_owner = g_owner g, tc_key = g_key_id g\<rparr>"
    and "find (token_grant (g_key_id g) (g_owner g) (g_sub g)) (grants d) = Some g" and "g_key_id g \<noteq> []"
    and "db w2 = d \<and> \<not> aborted w2 \<and> \<not> e_fail E (api_tick v w2 + 1) \<and> e_now E (api_tick v w2 + 2) \<le> g_expires g
      \<and> remoteAllowed E ip (g_cidrs g) = None \<and> IsValidAddr (g_sub g) \<and> IsValidAddr (g_owner g)
      \<and> require_identity E (g_sub g) (w2\<lparr>tick := api_tick v w2 + 3\<rparr>) = (Inr (), w3)"
  shows "AuthenticateRequest E v t ip [] w2
    = (Inr \<lparr>Addr = g_sub g, AuthOwner = g_owner g, AuthType = AuthTypeAPI, Scopes = [], Expires = None\<rparr>, w3)"
proof -
  let ?n = "api_tick v w2"
  from ValidateToken_passes [of "g_key_id g" "g_owner g" "g_sub g" "w2\<lparr>tick := Suc ?n\<rparr>" g E ip] assms(5,7)
  have "ValidateToken E (g_key_id g) (g_owner g) (g_sub g) ip (w2\<lparr>tick := Suc ?n\<rparr>) = (Inr (), w2\<lparr>tick := ?n + 3\<rparr>)"
    by (simp add: numeral_3_eq_3)
  then have "authenticateAPIToken E v parse t ip [] (w2\<lparr>tick := ?n\<rparr>)
      = (Inr \<lparr>Addr = g_sub g, AuthOwner = g_owner g, AuthType = AuthTypeAPI, Scopes = [], Expires = None\<rparr>, w3)"
    using assms(6,7)
    by (simp add: authenticateAPIToken_def ParseWithClaims_eq assms(2,4) store_check_def bind_def attempt_def ret_def TrimSpace_def)
  then show ?thesis unfolding api_token_request [OF assms(1,3)] by (simp add: try_mode_def bind_def attempt_def ret_def)
qed

lemma lapsed_token_refused:
  assumes "v_api v = Some parse" and "provider_refuses E v t w2" and "parse (e_now E (api_tick v w2)) t = None"
  shows "fst (AuthenticateRequest E v t ip [] w2) = Inl (401, ''invalid token'')"
  unfolding api_token_request [OF assms(1,2)] using assms(3)
  by (simp add: authenticateAPIToken_def ParseWithClaims_eq try_mode_def bind_def attempt_def throw_def authFailureFromError_def TrimSpace_def)

text \<open>C8: the token that the exchange of an API key gives out works on the same server, for the address of the key's
  grant and for its own time.  It is issued at the time of the exchange for the configured duration, both cut
  to the second, and the leeway of ten seconds applies at both ends.  Within that time, and as long as the grant
  stays and has not expired, it authenticates as that address whenever the caller's address is allowed and
  fmsgid still accepts the granted address.  Once that time is over it is refused with 401, whatever the
  tables hold.  This needs a key pair whose halves belong together (\<open>key_halves_match\<close>), and that the provider's
  parser, where there is one, does not take the token for its own.\<close>

theorem exchanged_token_works:
  assumes "start L E0 env = Inr st" and "jwt_law L" and "key_halves_match L env" and "grants_ok (db w)"
    and "serve (set_env st) (set_server st) req CExchange w = (RJson (200, js), w1)"
  shows "\<exists>tok rest issuer sign issued n. \<exists>g \<in> set (grants (db w)). js = JObj ((''access_token'', JStr tok) # rest)
    \<and> s_issuer (set_server st) = Some (issuer, sign) \<and> issued = e_now (set_env st) n \<and> tick w1 = Suc n
    \<and> (''expires_at'', JTime (issued + ti_ttl issuer)) \<in> set rest
    \<and> (\<forall>w2 w3 ip. db w2 = db w \<and> \<not> aborted w2 \<and> \<not> e_fail (set_env st) (api_tick (s_verifier (set_server st)) w2 + 1)
        \<and> in_validity (NewNumericDate issued) (NewNumericDate (issued + ti_ttl issuer))
            (e_now (set_env st) (api_tick (s_verifier (set_server st)) w2))
        \<and> e_now (set_env st) (api_tick (s_verifier (set_server st)) w2 + 2) \<le> g_expires g
        \<and> remoteAllowed (set_env st) ip (g_cidrs g) = None \<and> IsValidAddr (g_sub g) \<and> IsValidAddr (g_owner g)
        \<and> require_identity (set_env st) (g_sub g) (w2\<lparr>tick := api_tick (s_verifier (set_server st)) w2 + 3\<rparr>) = (Inr (), w3)
        \<and> provider_refuses (set_env st) (s_verifier (set_server st)) tok w2
      \<longrightarrow> AuthenticateRequest (set_env st) (s_verifier (set_server st)) tok ip [] w2
          = (Inr \<lparr>Addr = g_sub g, AuthOwner = g_owner g, AuthType = AuthTypeAPI, Scopes = [], Expires = None\<rparr>, w3))
    \<and> (\<forall>w2 ip. \<not> in_validity (NewNumericDate issued) (NewNumericDate (issued + ti_ttl issuer))
            (e_now (set_env st) (api_tick (s_verifier (set_server st)) w2))
        \<and> provider_refuses (set_env st) (s_verifier (set_server st)) tok w2
      \<longrightarrow> fst (AuthenticateRequest (set_env st) (s_verifier (set_server st)) tok ip [] w2) = Inl (401, ''invalid token''))"
  using assms(1)
proof (rule start_Inr)
  fix tokens tls lim dataDir localDomain ttl v
  let ?E = "handler_env E0 env dataDir localDomain lim"
  assume v: "start_auth L ?E env tokens = Inr v" and ri: "read_token_issuer L env ttl = Some tokens"
    and st: "st = \<lparr>set_env = ?E, set_server = \<lparr>s_verifier = v, s_issuer = map_option (\<lambda>(key, i). (i, lib_sign L key)) tokens,
          s_push = push_enabled env, s_upgrade = lib_upgrade L, s_origins = parseCSV (env ''FMSG_CORS_ORIGINS'')\<rparr>,
        set_cors = (if parseCSV (env ''FMSG_CORS_ORIGINS'') \<noteq> []
          then Some (DefaultCORSConfig\<lparr>AllowedOrigins := parseCSV (env ''FMSG_CORS_ORIGINS'')\<rparr>) else None),
        set_tls = tls, set_addr = listen_addr env tls\<rparr>"
  define E where "E = ?E"
  have se: "set_env st = E" "s_verifier (set_server st) = v" "s_issuer (set_server st) = map_option (\<lambda>(key, i). (i, lib_sign L key)) tokens"
    by (simp_all add: st E_def)
  from assms(5) [unfolded se(1)] se(3) obtain key i where tok: "tokens = Some (key, i)"
    and "reading RJson (Exchange E i (lib_sign L key) (r_authorization req) (r_client_ip req)) w = (RJson (200, js), w1)"
    by (cases tokens) (auto simp: serve_def Let_def split: if_splits)
  then have "Exchange E i (lib_sign L key) (r_authorization req) (r_client_ip req) w = (Inr (200, js), w1)"
    using Exchange_raises [of E i "lib_sign L key" "r_authorization req" "r_client_ip req"]
    by (auto simp: reading_def raises_def split: prod.splits sum.splits)
  from Exchange_Inr [OF this] obtain k ident w2 n now t where val: "ValidateAPIKey E k (r_client_ip req) w = (Inr ident, w2)"
    and sg: "lib_sign L key \<lparr>mc_owner = ident_OwnerAddr ident, mc_key = ident_KeyID ident, mc_issuer = ti_issuer i, mc_sub = ident_SubAddr ident,
        mc_aud = ti_audience i, mc_iat = NewNumericDate now, mc_exp = NewNumericDate (now + ti_ttl i)\<rparr> = Some t"
    and n: "now = e_now E n" "tick w1 = Suc n"
    and js: "\<exists>rest. js = JObj ((''access_token'', JStr t) # rest) \<and> (''expires_at'', JTime (now + ti_ttl i)) \<in> set rest"
    by fastforce
  from validated_key_grant [OF val assms(4)] obtain g where g: "g \<in> set (grants (db w))" "g_key_id g \<noteq> []"
    "ident = \<lparr>ident_OwnerAddr = g_owner g, ident_SubAddr = g_sub g, ident_KeyID = g_key_id g\<rparr>"
    "find (token_grant (g_key_id g) (g_owner g) (g_sub g)) (grants (db w)) = Some g" by blast
  let ?parse = "lib_verify L (PublicKey key) (ti_issuer i) (ti_audience i)"
  let ?valid = "in_validity (NewNumericDate now) (NewNumericDate (now + ti_ttl i))"
  from start_auth_verifier [OF v] have vv: "v_api v = Some ?parse" "v_token v = ValidateToken E"
    unfolding tok api_parser_def E_def by (auto simp: NewVerifier_def split: if_splits)
  from ri tok have "ParseEd25519PrivateKey (lib_seed L) (env ''FMSG_API_TOKEN_ED25519_PRIVATE_KEY'') = Some key"
    by (auto simp: read_token_issuer_def Let_def split: if_splits option.splits)
  with assms(3) have "lib_seed L (take 32 key) = key" by (simp add: key_halves_match_def)
  with assms(2) sg g(3) have parse: "?parse time t = (if ?valid time
      then Some \<lparr>tc_sub = g_sub g, tc_owner = g_owner g, tc_key = g_key_id g\<rparr> else None)" for time
    unfolding jwt_law_def by fastforce
  have auth: "AuthenticateRequest E v t ip [] w2
      = (Inr \<lparr>Addr = g_sub g, AuthOwner = g_owner g, AuthType = AuthTypeAPI, Scopes = [], Expires = None\<rparr>, w3)"
    if "db w2 = db w \<and> \<not> aborted w2 \<and> \<not> e_fail E (api_tick v w2 + 1) \<and> ?valid (e_now E (api_tick v w2))
        \<and> e_now E (api_tick v w2 + 2) \<le> g_expires g
        \<and> remoteAllowed E ip (g_cidrs g) = None \<and> IsValidAddr (g_sub g) \<and> IsValidAddr (g_owner g)
        \<and> require_identity E (g_sub g) (w2\<lparr>tick := api_tick v w2 + 3\<rparr>) = (Inr (), w3) \<and> provider_refuses E v t w2" for w2 w3 ip
    by (rule minted_token_authenticates [OF vv, where d = "db w"]) (use that g(2,4) parse in \<open>simp_all\<close>)
  have late: "fst (AuthenticateRequest E v t ip [] w2) = Inl (401, ''invalid token'')"
    if "\<not> ?valid (e_now E (api_tick v w2)) \<and> provider_refuses E v t w2" for w2 ip
    by (rule lapsed_token_refused [OF vv(1)]) (use that parse in \<open>simp_all\<close>)
  have "s_issuer (set_server st) = Some (i, lib_sign L key)" by (simp add: se(3) tok)
  with js n g(1) auth late show ?thesis unfolding se(1,2) by blast
qed

subsection \<open>An example configuration\<close>

definition example_libraries :: libraries where
  "example_libraries = \<lparr>lib_duration = (\<lambda>_. None), lib_provider = (\<lambda>_ _. Some (\<lambda>_. example_claims)),
     lib_seed = (\<lambda>seed. seed @ replicate 32 CHR ''p''),
     lib_sign = (\<lambda>key m. if mc_sub m = ''@al_bot@ex.org'' \<and> mc_owner m = ''@al@ex.org'' \<and> mc_key m = ''k''
       \<and> mc_iat m = 0 \<and> mc_exp m = 43200000000 then Some ''tok'' else None),
     lib_verify = (\<lambda>key issuer audience now tok. if tok = ''tok'' \<and> in_validity 0 43200000000 now
       then Some \<lparr>tc_sub = ''@al_bot@ex.org'', tc_owner = ''@al@ex.org'', tc_key = ''k''\<rparr> else None),
     lib_proxies = (\<lambda>_. True), lib_database = True, lib_upgrade = example_upgrade\<rparr>"

definition example_environ :: environ where
  "example_environ k = (case map_of [(''FMSG_DATA_DIR'', ''/d''), (''FMSG_DOMAIN'', ''ex.org''), (''FMSG_JWT_JWKS_URL'', ''https://idp/jwks''),
     (''FMSG_JWT_ISSUER'', ''https://idp''), (''FMSG_JWT_AUDIENCE'', ''api''), (''FMSG_JWT_OAUTH_AUDIENCE'', ''oauth''),
     (''FMSG_JWT_ADDRESS_CLAIM'', ''addr''), (''FMSG_API_TOKEN_ED25519_PRIVATE_KEY'', replicate 43 CHR ''A'' @ ''=''),
     (''FMSG_CORS_ORIGINS'', ''https://a, https://b'')] k of None \<Rightarrow> [] | Some v \<Rightarrow> v)"

lemma example_start: "\<exists>st. start example_libraries E example_environ = Inr st"
proof -
  have "case start example_libraries E example_environ of Inr _ \<Rightarrow> True | Inl _ \<Rightarrow> False" by code_simp
  then show ?thesis by (cases "start example_libraries E example_environ") auto
qed

theorem start_spec_witness:
  "\<exists>st. start example_libraries id_env example_environ = Inr st \<and> s_issuer (set_server st) \<noteq> None"
proof -
  obtain st where st: "start example_libraries id_env example_environ = Inr st" using example_start by blast
  moreover have "example_environ ''FMSG_API_TOKEN_ED25519_PRIVATE_KEY'' \<noteq> []" by code_simp
  ultimately show ?thesis using start_spec [OF st] by blast
qed

theorem http_spec_witness:
  "\<exists>st hs. start example_libraries id_env example_environ = Inr st
     \<and> http_serve st ''https://b'' del_request (TNone ''OPTIONS'') trash_world = ((hs, RJson (204, JNull)), trash_world)"
proof -
  obtain st where st: "start example_libraries id_env example_environ = Inr st" using example_start by blast
  have o: "parseCSV (example_environ ''FMSG_CORS_ORIGINS'') = [''https://a'', ''https://b'']" by code_simp
  have "set_cors st = Some (DefaultCORSConfig\<lparr>AllowedOrigins := [''https://a'', ''https://b'']\<rparr>)"
    by (rule start_Inr [OF st]) (simp add: o)
  moreover have "''https://b'' \<in> set (trimmedOrigins (DefaultCORSConfig\<lparr>AllowedOrigins := [''https://a'', ''https://b'']\<rparr>))"
    by code_simp
  ultimately show ?thesis using st http_spec [of st "''https://b''" del_request THealth trash_world] by blast
qed

theorem started_integrity_witness:
  "\<exists>st. start example_libraries send_env example_environ = Inr st
     \<and> tables_ok (db (http_all st [(''https://a'', del_request\<lparr>r_authorization := ''Bearer own''\<rparr>, TCall (CDelete ''1'' ''true'' []))] trash_world))"
proof -
  obtain st where st: "start example_libraries send_env example_environ = Inr st" using example_start by blast
  have "finalizer_ok send_env"
    by (simp add: finalizer_ok_def send_env_def id_env_def example_env_def same_keys_def map_update_where sent_update)
  moreover have "tables_ok (db trash_world)" by code_simp
  ultimately show ?thesis using st started_integrity [OF st] by blast
qed

definition key_request :: request where
  "key_request = \<lparr>r_authorization = ''Bearer fmsgk_k_s'', r_client_ip = ''10.1.1.1'', r_act_as = []\<rparr>"

theorem exchanged_token_works_witness:
  "\<exists>st js tok rest. start example_libraries id_env example_environ = Inr st
     \<and> fst (serve (set_env st) (set_server st) key_request CExchange grant_world) = RJson (200, js)
     \<and> js = JObj ((''access_token'', JStr tok) # rest)"
proof -
  obtain st where st: "start example_libraries id_env example_environ = Inr st" using example_start by blast
  let ?r = "\<lambda>st. serve (set_env st) (set_server st) key_request CExchange grant_world"
  have "case start example_libraries id_env example_environ of Inl _ \<Rightarrow> False
     | Inr st \<Rightarrow> (case fst (?r st) of RJson (code, js) \<Rightarrow> code = 200 | _ \<Rightarrow> False)" by code_simp
  with st have "case fst (?r st) of RJson (code, js) \<Rightarrow> code = 200 | _ \<Rightarrow> False" by simp
  then obtain js where js: "fst (?r st) = RJson (200, js)" by (cases "fst (?r st)") auto
  then have run: "?r st = (RJson (200, js), snd (?r st))" by (metis prod.collapse)
  have law: "jwt_law example_libraries" by (auto simp: jwt_law_def example_libraries_def)
  have "ParseEd25519PrivateKey (lib_seed example_libraries) (example_environ ''FMSG_API_TOKEN_ED25519_PRIVATE_KEY'')
      = Some (replicate 32 CHR 0x00 @ replicate 32 CHR ''p'')" by code_simp
  then have halves: "key_halves_match example_libraries example_environ"
    by (simp add: key_halves_match_def example_libraries_def)
  have "grants_ok (db grant_world)" using grant_world_inv by (simp add: grant_inv_def)
  from exchanged_token_works [OF st law halves this run] st js show ?thesis by blast
qed

end
