(* ===== verification/Events.thy ===== *)
theory Events
  imports Startup
begin

text \<open>
  From a handler to the clients: what a request publishes on a NOTIFY channel is what the hub, of this
  instance or another, turns into frames.  The payload is the text on the channel, so what one end writes
  and the other reads is covered, and the hub may run at any later state of the database.
\<close>

subsection \<open>Indicators\<close>

text \<open>Message ids are positive \<open>bigint\<close> values.\<close>

definition row_ids_ok :: "database \<Rightarrow> bool" where
  "row_ids_ok d \<longleftrightarrow> (\<forall>m \<in> set (msgs d). 0 < m_id m \<and> m_id m < 2 ^ 63)"

definition indicator_clients :: "database \<Rightarrow> registry \<Rightarrow> int \<Rightarrow> string \<Rightarrow> nat set" where
  "indicator_clients d r i addr = {n. \<exists>a \<in> set (audience_addrs d i). ToLower a \<noteq> ToLower addr \<and> n \<in> set (clientsOf r a)}"

lemma audience_clients_set:
  "set (audience_clients r seen as) = {n. \<exists>a \<in> set as. ToLower a \<notin> set seen \<and> n \<in> set (clientsOf r a)}"
proof (induction r seen as rule: audience_clients.induct)
  case (2 r seen a as)
  show ?case
  proof (cases "ToLower a \<in> set seen")
    case True
    with 2(1) show ?thesis by auto
  next
    case False
    have c: "n \<in> set (clientsOf r a)" if "ToLower x = ToLower a" and "n \<in> set (clientsOf r x)" for x n
      using that by (simp add: clientsOf_def)
    have "n \<in> set (audience_clients r seen (a # as)) \<longleftrightarrow> n \<in> set (clientsOf r a)
        \<or> (\<exists>x \<in> set as. ToLower x \<noteq> ToLower a \<and> ToLower x \<notin> set seen \<and> n \<in> set (clientsOf r x))" for n
      using False 2(2) by simp
    then have "n \<in> set (audience_clients r seen (a # as)) \<longleftrightarrow> (\<exists>x \<in> set (a # as). ToLower x \<notin> set seen \<and> n \<in> set (clientsOf r x))" for n
      using False c by (metis list.set_intros(1) list.set_intros(2) set_ConsD)
    then show ?thesis by blast
  qed
qed simp

text \<open>The generated table of emoji is UTF-8.\<close>

lemma IsSingle_utf8: "IsSingle t s \<Longrightarrow> list_all utf8_valid t \<Longrightarrow> utf8_valid s"
  by (auto simp: IsSingle_def IsRGI_def IsPossible_def utf8_valid_def list_all_iff split: if_splits option.splits)

lemma indicatorAudience_runs:
  assumes "\<forall>n. \<not> e_fail E n" and "\<not> aborted w"
  shows "\<exists>w1. indicatorAudience E i w = (Inr (Some (audience_addrs (db w) i, if thread_root (db w) i = 0 then i else thread_root (db w) i)) :: 'e + _, w1)
    \<and> db w1 = db w"
  using assms by (simp add: indicatorAudience_def act_defs Let_def)

definition indicator_frame :: "database \<Rightarrow> Indicator \<Rightarrow> wsEnvelope" where
  "indicator_frame d ind = \<lparr>EvType = eventIndicator, EvData = DataIndicator
     (ind\<lparr>RootID := (if thread_root d (IndID ind) = 0 then IndID ind else thread_root d (IndID ind))\<rparr>)\<rparr>"

lemma indicator_routed:
  assumes "unmarshal_indicator payload = Some ind" and "0 < IndID ind" and "IndFrom ind \<noteq> []"
    and "\<forall>n. \<not> e_fail E n" and "\<not> aborted w"
  shows "\<exists>out w1. handle_notification E r IndicatorChannel payload w = (Inr (None, out), w1) \<and> db w1 = db w
    \<and> (case out of None \<Rightarrow> indicator_clients (db w) r (IndID ind) (IndFrom ind) = {}
       | Some (ns, f) \<Rightarrow> set ns = indicator_clients (db w) r (IndID ind) (IndFrom ind) \<and> f = indicator_frame (db w) ind)"
proof -
  obtain w1 where a: "indicatorAudience E (IndID ind) w = (Inr (Some (audience_addrs (db w) (IndID ind),
      if thread_root (db w) (IndID ind) = 0 then IndID ind else thread_root (db w) (IndID ind))) :: response + _, w1)"
    and d: "db w1 = db w" using indicatorAudience_runs [OF assms(4,5)] by blast
  let ?ns = "audience_clients r [ToLower (IndFrom ind)] (audience_addrs (db w) (IndID ind))"
  have ns: "set ?ns = indicator_clients (db w) r (IndID ind) (IndFrom ind)"
    by (simp add: audience_clients_set indicator_clients_def)
  have "handle_notification E r IndicatorChannel payload w
      = (Inr (None, if ?ns = [] then None else Some (?ns, indicator_frame (db w) ind)), w1)"
    using assms(1-3) a by (simp add: handle_notification_def routeIndicator_def bind_def ret_def Let_def indicator_frame_def)
  with d ns show ?thesis by (cases "?ns = []") (force, fastforce)
qed

text \<open>C14: an indicator reaches exactly those it is for.  Whatever is published for a request, the hub reads back
  as the very indicator that the request's body sets (its message, its caller, its emoji and its time), and
  sends it, with the id of the thread's first message and unchanged otherwise, to every connected participant of
  the message other than the caller, and to nobody else.  Participants are read from the message alone: one
  who deleted the message for good is sent the indicator as well.\<close>

theorem indicator_reaches:
  assumes "Indicate E identity param body w = (Inr resp, w1)" and "noted (db w1) = noted (db w) @ [(ch, payload)]"
    and "utf8_valid identity" and "identity \<noteq> []" and "row_ids_ok (db w)"
    and "list_all utf8_valid (e_rgi E)" and "\<forall>n. \<not> e_fail E n" and "\<not> aborted w2"
  shows "\<exists>inp ind w0 out w3. body = Inr inp \<and> resolveID E param w = (Inr (IndID ind), w0)
    \<and> sets_indicator E identity (IndID ind) inp ind
    \<and> handle_notification E r ch payload w2 = (Inr (None, out), w3) \<and> db w3 = db w2
    \<and> (case out of None \<Rightarrow> indicator_clients (db w2) r (IndID ind) identity = {}
       | Some (ns, f) \<Rightarrow> set ns = indicator_clients (db w2) r (IndID ind) identity
           \<and> f = \<lparr>EvType = eventIndicator, EvData = DataIndicator (ind\<lparr>RootID :=
               if thread_root (db w2) (IndID ind) = 0 then IndID ind else thread_root (db w2) (IndID ind)\<rparr>)\<rparr>)"
proof -
  from Indicate_Inr [OF assms(1)] obtain i w0 m inp ind n where i: "resolveID E param w = (Inr i, w0)" "find_msg (db w) i = Some m"
    and body: "body = Inr inp" "sets_indicator E identity i inp ind"
    and d: "indicator_outcome E (ToLower identity @ ''|'' @ Itoa i) ind w n w1" by blast
  from d assms(2) have p: "ch = IndicatorChannel" "payload = marshal_indicator ind"
    by (auto simp: indicator_outcome_def notify_def split: if_splits)
  have ind: "IndID ind = i" "RootID ind = 0" "IndFrom ind = identity" using body(2) by (simp_all add: sets_indicator_def)
  note bounds = sets_indicator_bounds [OF body(2)]
  have "m \<in> set (msgs (db w)) \<and> m_id m = i" using i(2) by (auto simp: find_msg_def dest: find_Some_mem)
  with assms(5) have pos: "0 < i" "i < 2 ^ 63" by (auto simp: row_ids_ok_def)
  have "utf8_valid (IndEmoji ind)" using bounds IsSingle_utf8 [OF _ assms(6)] by auto
  moreover have "in_int64 (TTL ind)" using bounds by (auto simp: in_int64_def)
  ultimately have "unmarshal_indicator payload = Some ind"
    using indicator_roundtrip [of ind] assms(3) ind pos p(2) by (simp add: in_int64_def)
  from indicator_routed [OF this _ _ assms(7,8), of r] pos(1) assms(4) ind obtain out w3 where
    "handle_notification E r IndicatorChannel payload w2 = (Inr (None, out), w3)" "db w3 = db w2"
    "case out of None \<Rightarrow> indicator_clients (db w2) r i identity = {}
       | Some (ns, f) \<Rightarrow> set ns = indicator_clients (db w2) r i identity \<and> f = indicator_frame (db w2) ind" by auto
  with body i(1) p(1) ind show ?thesis
    by (intro exI [of _ inp] exI [of _ ind] exI [of _ w0] exI [of _ out] exI [of _ w3])
      (auto simp: indicator_frame_def split: option.splits)
qed

text \<open>A body without an emoji clears the caller's indicator, and that is what the hub sends.\<close>

definition cleared :: Indicator where
  "cleared = \<lparr>IndID = 1, RootID = 0, IndFrom = ''@Al@ex.org'', IndEmoji = [], TTL = 0\<rparr>"

theorem indicator_reaches_witness:
  "\<exists>payload out w3. noted (db (snd (Indicate example_env ''@Al@ex.org'' ''1'' thinking_body trash_world)))
       = noted (db trash_world) @ [(IndicatorChannel, payload)]
     \<and> handle_notification example_env [''@bo@ex.org'' \<mapsto> [3]] IndicatorChannel payload trash_world = (Inr (None, out), w3)
     \<and> (case out of None \<Rightarrow> indicator_clients (db trash_world) [''@bo@ex.org'' \<mapsto> [3]] 1 ''@Al@ex.org'' = {}
       | Some (ns, f) \<Rightarrow> set ns = indicator_clients (db trash_world) [''@bo@ex.org'' \<mapsto> [3]] 1 ''@Al@ex.org''
           \<and> (\<exists>root. EvData f = DataIndicator (cleared\<lparr>RootID := root\<rparr>)))"
proof -
  let ?r = "Indicate example_env ''@Al@ex.org'' ''1'' thinking_body trash_world"
  have run: "?r = (Inr (202, JNull), snd ?r)" using example_indicate by (metis prod.collapse)
  from Indicate_Inr [OF run] have "\<exists>payload. noted (db (snd ?r)) = noted (db trash_world) @ [(IndicatorChannel, payload)]"
    by (auto simp: thinking_body_def sets_indicator_def indicator_outcome_def notify_def)
  then obtain payload where pub: "noted (db (snd ?r)) = noted (db trash_world) @ [(IndicatorChannel, payload)]" by blast
  have u: "utf8_valid ''@Al@ex.org''" by (rule utf8_valid_plain) (simp add: plain_name_def)
  have ids: "row_ids_ok (db trash_world)" unfolding row_ids_ok_def by code_simp
  have a: "\<not> aborted trash_world" by code_simp
  have e: "list_all utf8_valid (e_rgi example_env)" by (simp add: example_env_def)
  have f: "\<forall>n. \<not> e_fail example_env n" by (simp add: example_env_runs)
  have one: "fst (resolveID example_env ''1'' trash_world) = Inr 1" by code_simp
  obtain inp ind w0 out w3 where i: "thinking_body = Inr inp" "resolveID example_env ''1'' trash_world = (Inr (IndID ind), w0)"
    "sets_indicator example_env ''@Al@ex.org'' (IndID ind) inp ind"
    "handle_notification example_env [''@bo@ex.org'' \<mapsto> [3]] IndicatorChannel payload trash_world = (Inr (None, out), w3)"
    "case out of None \<Rightarrow> indicator_clients (db trash_world) [''@bo@ex.org'' \<mapsto> [3]] (IndID ind) ''@Al@ex.org'' = {}
       | Some (ns, f) \<Rightarrow> set ns = indicator_clients (db trash_world) [''@bo@ex.org'' \<mapsto> [3]] (IndID ind) ''@Al@ex.org''
         \<and> f = \<lparr>EvType = eventIndicator, EvData = DataIndicator (ind\<lparr>RootID :=
               if thread_root (db trash_world) (IndID ind) = 0 then IndID ind else thread_root (db trash_world) (IndID ind)\<rparr>)\<rparr>"
    using indicator_reaches [OF run pub u _ ids e f a, of "[''@bo@ex.org'' \<mapsto> [3]]"] by blast
  from i(1) have inp: "inp = \<lparr>InEmoji = None, InTTL = Some 500\<rparr>" by (simp add: thinking_body_def)
  from i(2,3) one have "ind = cleared" unfolding inp by (simp add: sets_indicator_def cleared_def)
  with i(5) have "case out of None \<Rightarrow> indicator_clients (db trash_world) [''@bo@ex.org'' \<mapsto> [3]] 1 ''@Al@ex.org'' = {}
       | Some (ns, f) \<Rightarrow> set ns = indicator_clients (db trash_world) [''@bo@ex.org'' \<mapsto> [3]] 1 ''@Al@ex.org''
           \<and> (\<exists>root. EvData f = DataIndicator (cleared\<lparr>RootID := root\<rparr>))"
    by (cases out) (auto simp: cleared_def)
  with pub i(4) show ?thesis by (intro exI [of _ payload] exI [of _ out] exI [of _ w3] conjI)
qed

subsection \<open>Changes of a mailbox\<close>

text \<open>The notifications \<open>d\<close> has more than \<open>n\<close> are mailbox events of \<open>a\<close>.\<close>

definition own_note :: "string \<Rightarrow> string \<times> string \<Rightarrow> bool" where
  "own_note a p \<longleftrightarrow> fst p = ''msg_trash'' \<and> (\<exists>i. snd p = Itoa i @ '','' @ a)"

definition own_notes :: "string \<Rightarrow> (string \<times> string) list \<Rightarrow> database \<Rightarrow> bool" where
  "own_notes a n d \<longleftrightarrow> (\<exists>ps. noted d = n @ ps \<and> list_all (own_note a) ps)"

lemma own_notes_refl: "own_notes a (noted d) d"
  by (simp add: own_notes_def)

lemma own_notes_same: "own_notes a n d \<Longrightarrow> noted d1 = noted d \<Longrightarrow> own_notes a n d1"
  by (simp add: own_notes_def)

lemma own_notes_notify: "own_notes a n d \<Longrightarrow> own_notes a n (notify ''msg_trash'' (Itoa i @ '','' @ a) d)"
  by (auto simp: own_notes_def notify_def own_note_def)

lemma keeps_own_notify: "keeps (\<lambda>w. own_notes a n (db w)) (notifyTrash E a is)"
  unfolding notifyTrash_def by (intro keeps_intros keeps_sql_exec own_notes_notify)

lemma keeps_same_noted: "(\<And>d. noted (f d) = noted d) \<Longrightarrow> keeps (\<lambda>w. own_notes a n (db w)) (sql_exec E f)"
  by (rule keeps_sql_exec) (rule own_notes_same)

lemma noted_rows [simp]: "noted (mark_row a i t now d) = noted d" "noted (purge_row a i t now d) = noted d"
  "noted (unmark_rows a is d) = noted d" "noted (remove_row i d) = noted d"
  by (simp_all add: mark_row_def purge_row_def unmark_rows_def remove_row_def)

lemma noted_removal: "f \<in> set (removal i) \<Longrightarrow> noted (f d) = noted d"
  by (auto simp: removal_def)

lemma keeps_own_markPurged: "keeps (\<lambda>w. own_notes a n (db w)) (markPurged E b tt now k rel is)"
proof (induction "is" arbitrary: k rel)
  case Nil
  show ?case by (simp add: keeps_ret)
next
  case (Cons i "is")
  show ?case unfolding markPurged.simps by (intro keeps_intros keeps_same_noted Cons.IH) simp
qed

lemma keeps_own_removeIfUnheld: "keeps (\<lambda>w. own_notes a n (db w)) (removeIfUnheld E i)"
proof -
  have r: "keeps (\<lambda>w. own_notes a n (db w)) (each (\<lambda>f. or_fail (sql_exec E f) e) (removal i))" for e :: response
    by (intro keeps_each_set keeps_or_fail keeps_same_noted noted_removal)
  show ?thesis unfolding removeIfUnheld_def by (rule r | rule keeps_intros)+
qed

lemma keeps_own_removeUnheld: "keeps (\<lambda>w. own_notes a n (db w)) (removeUnheld E k fl is)"
  by (induction "is" arbitrary: k fl) (auto intro!: keeps_intros keeps_own_removeIfUnheld)

lemma keeps_own_Delete: "keeps (\<lambda>w. own_notes (ToLower caller) n (db w)) (Delete E caller param tq pq)"
proof -
  have p: "keeps (\<lambda>w. own_notes a n (db w)) (purge E a i thread)" for a i thread
    unfolding purge_def by (intro keeps_intros keeps_own_markPurged keeps_own_removeUnheld keeps_own_notify)
  have t: "keeps (\<lambda>w. own_notes (ToLower caller) n (db w)) (trashSent E caller i tq pq)" for i
    unfolding trashSent_def Let_def by (intro keeps_intros p keeps_own_notify keeps_same_noted) simp
  have d: "keeps (\<lambda>w. own_notes (ToLower caller) n (db w)) (delete_draft E i)" for i
    unfolding delete_draft_def by (intro keeps_intros keeps_same_noted; simp)
  show ?thesis unfolding Delete_def by (intro keeps_intros t d)
qed

lemma keeps_own_Restore: "keeps (\<lambda>w. own_notes (ToLower caller) n (db w)) (Restore E caller param tq)"
  unfolding Restore_def Let_def by (intro keeps_intros keeps_own_notify keeps_same_noted) simp

text \<open>What is put off to the commit publishes nothing, and a transaction that is undone leaves nothing.\<close>

lemma keeps_own_deferred: "keeps (\<lambda>w. own_notes a n (db w)) (run_deferred E x)"
proof -
  have "keeps (\<lambda>w. own_notes a n (db w)) (resolve_one E b i now addr st dt sz)" for b i now addr st dt sz
  proof -
    have "keeps (\<lambda>w. own_notes a n (db w)) (stmt E (\<lambda>d. Inr (resolve_row b i addr dl c d)))" for dl c
      by (rule keeps_stmt) (auto simp: resolve_row_def own_notes_def split: if_splits)
    then show ?thesis unfolding resolve_one_def by (intro keeps_intros)
  qed
  then have "keeps (\<lambda>w. own_notes a n (db w)) (resolve_loop E b i ld now sz as)" for b i ld now sz as
    by (induction as arbitrary: sz) (auto intro!: keeps_intros split: option.splits)
  then show ?thesis
    by (cases x) (auto intro!: keeps_intros simp: recordSend_def resolveLocalDelivery_def)
qed

lemma atomic_own_notes:
  assumes "keeps (\<lambda>w. own_notes a (noted (db w0)) (db w)) m"
  shows "own_notes a (noted (db w0)) (db (snd (atomic E param m w0)))"
proof -
  let ?P = "own_notes a (noted (db w0))"
  have "keeps (\<lambda>w. ?P (db w)) (each (run_deferred E) ds)" for ds
    by (intro keeps_each keeps_own_deferred)
  from keepsD [OF this] have r: "?P (db v) \<Longrightarrow> ?P (db (run_all E ds v))" for ds v by (simp add: run_all_def)
  have b: "?P ((db w0)\<lparr>next_id := k\<rparr>)" for k using own_notes_same [OF own_notes_refl [of a "db w0"]] by simp
  obtain resp w1 where at: "atomic E param m w0 = (resp, w1)" by fastforce
  then show ?thesis
  proof (cases rule: atomic_cases)
    case early
    with at own_notes_refl show ?thesis by simp
  next
    case (ran w2 x w3)
    then have "?P (db w3)" using keepsD [OF assms, of w2] own_notes_refl by simp
    with ran(7) r b at show ?thesis by (auto simp: commit_tx_def Let_def split: if_splits)
  next
    case (failed w2 x w3)
    have "db (remove_created E ps v) = db v" for ps v by (simp add: remove_created_db)
    with failed b at show ?thesis by simp
  qed
qed

lemma own_note_routed:
  assumes "own_note a (ch, p)" and "handle_notification E r ch p w = (Inr (push, out), w1)"
  shows "push = None \<and> (\<forall>ns f. out = Some (ns, f) \<longrightarrow> ns = clientsOf r a \<and> EvType f = eventTrash)"
proof -
  from assms(1) obtain i where p: "ch = ''msg_trash''" "p = Itoa i @ CHR '','' # a" by (auto simp: own_note_def)
  have c: "parseNotifyPayload p = None \<or> (\<exists>j. parseNotifyPayload p = Some (j, a))"
    unfolding p(2) parseNotifyPayload_def Cut_append_sep [OF Itoa_no_comma] by (auto split: option.splits)
  show ?thesis
  proof (cases "parseNotifyPayload p")
    case None
    with assms(2) p(1) show ?thesis by (simp add: handle_notification_def IndicatorChannel_def ret_def)
  next
    case (Some q)
    with c obtain j where q: "parseNotifyPayload p = Some (j, a)" by auto
    from assms(2) have "bind (dispatchTrash E r j a) (\<lambda>out. ret (None, out)) w = (Inr (push, out), w1)"
      unfolding p(1) by (simp add: handle_notification_def IndicatorChannel_def q route_def Let_def)
    then show ?thesis
      by (fastforce simp: dispatchTrash_def Let_def bind_Inr ret_eq split: option.splits if_splits)
  qed
qed


text \<open>C13: moving messages to the trash, deleting them for good and restoring them is announced to the caller
  alone: whatever such a request publishes, the hub sends to the clients of the address the request was
  authenticated as and to no other, as trash events and without a Web Push.\<close>

theorem mailbox_events_private:
  assumes "serve E s req call w = (rep, w1)" and "(\<exists>i t p. call = CDelete i t p) \<or> (\<exists>i t. call = CRestore i t)"
    and "NewVerifier jwks issuer ac aud oaud api (Some (ValidateToken E, ValidateActAs E)) = Some (s_verifier s)"
  shows "\<exists>ps. noted (db w1) = noted (db w) @ ps \<and> (ps \<noteq> [] \<longrightarrow>
    (\<exists>tok res w0. extractBearer (r_authorization req) = Some tok
      \<and> AuthenticateRequest E (s_verifier s) tok (r_client_ip req) (r_act_as req) w = (Inr res, w0)
      \<and> (\<forall>(ch, p) \<in> set ps. \<forall>E2 r w2 push out w3. handle_notification E2 r ch p w2 = (Inr (push, out), w3)
           \<longrightarrow> push = None \<and> (\<forall>ns f. out = Some (ns, f) \<longrightarrow> ns = clientsOf r (Addr res) \<and> EvType f = eventTrash))))"
proof -
  have g: "guarded call" using assms(2) by auto
  from assms(1) g stock_verifierI [OF assms(3)] show ?thesis
  proof (cases rule: serve_cases)
    case (handled tok res w0)
    let ?a = "ToLower (Addr res)"
    have "\<exists>param m. handle E (ctx_of res) call = mutating E param m \<and> keeps (\<lambda>x. own_notes ?a (noted (db w0)) (db x)) m"
    proof -
      have c: "GetIdentity (ctx_of res) = Addr res" by (simp add: ctx_of_def)
      from assms(2) show ?thesis
      proof
        assume "\<exists>i t p. call = CDelete i t p"
        then obtain i t p where "call = CDelete i t p" by blast
        then have "handle E (ctx_of res) call = mutating E i (Delete E (Addr res) i t p)" by (simp add: c)
        with keeps_own_Delete [of "Addr res"] show ?thesis by metis
      next
        assume "\<exists>i t. call = CRestore i t"
        then obtain i t where "call = CRestore i t" by blast
        then have "handle E (ctx_of res) call = mutating E i (Restore E (Addr res) i t)" by (simp add: c)
        with keeps_own_Restore [of "Addr res"] show ?thesis by metis
      qed
    qed
    then obtain param m where "handle E (ctx_of res) call = mutating E param m" "keeps (\<lambda>x. own_notes ?a (noted (db w0)) (db x)) m" by blast
    with atomic_own_notes [of ?a w0 m E param] handled(5) have "own_notes ?a (noted (db w0)) (db w1)"
      by (auto simp: mutating_def split: prod.splits)
    with handled(4) obtain ps where ps: "noted (db w1) = noted (db w) @ ps" "list_all (own_note ?a) ps"
      by (auto simp: own_notes_def)
    have "push = None \<and> (\<forall>ns f. out = Some (ns, f) \<longrightarrow> ns = clientsOf r (Addr res) \<and> EvType f = eventTrash)"
      if "(ch, p) \<in> set ps" "handle_notification E2 r ch p w2 = (Inr (push, out), w3)" for ch p E2 r w2 push out w3
      using own_note_routed [OF _ that(2), of ?a] ps(2) that(1) by (auto simp: list_all_iff clientsOf_def)
    with ps(1) handled(1,2) show ?thesis by blast
  qed simp_all
qed

theorem mailbox_events_private_witness:
  "\<exists>ps. noted (db (snd (serve id_env example_server (del_request\<lparr>r_authorization := ''Bearer own''\<rparr>) (CDelete ''2'' [] []) trash_world))) = ps
     \<and> ps \<noteq> [] \<and> (\<forall>(ch, p) \<in> set ps. \<forall>E2 r w2 push out w3. handle_notification E2 r ch p w2 = (Inr (push, out), w3)
           \<longrightarrow> push = None)"
proof -
  let ?q = "del_request\<lparr>r_authorization := ''Bearer own''\<rparr>"
  let ?r = "serve id_env example_server ?q (CDelete ''2'' [] []) trash_world"
  have n: "noted (db (snd ?r)) \<noteq> []" by code_simp
  have z: "noted (db trash_world) = []" by code_simp
  have v: "s_verifier example_server = example_verifier" by (simp add: example_server_def)
  have run: "?r = (fst ?r, snd ?r)" by simp
  from mailbox_events_private [OF run _ example_verifier_new [folded v]] n z show ?thesis by fastforce
qed

end
