(* ===== verification/GrantRaces.thy ===== *)
theory GrantRaces
  imports SubAccounts
begin

text \<open>
  Concurrent creations of grants (\<open>createGrant\<close> of \<open>src/internal/apiauth/store.go\<close>).  Each runs in a transaction
  of its own under PostgreSQL's default isolation, where a statement sees what is committed when it starts: the
  limit is read, the grants are counted, the row is inserted and committed, and other creations may come between.
  An insert waits for the uncommitted rows it could collide with, so that its uniqueness check is one against the
  committed rows at its commit, and the two are one step.

  The constraints hold in every interleaving, because the database checks them.  The limit of sub-accounts is
  checked by the count alone: creations that overlap may pass it together, by less than their number.
\<close>

datatype phase =
    Begun grant_row
  | HasMax grant_row int
  | Passed grant_row int
  | Finished

inductive race_step :: "env \<Rightarrow> database \<times> phase list \<Rightarrow> database \<times> phase list \<Rightarrow> bool" for E where
  read_max: "k < length ps \<Longrightarrow> ps ! k = Begun g \<Longrightarrow> race_step E (d, ps) (d, ps[k := HasMax g (max_of d (g_owner g))])"
| count: "k < length ps \<Longrightarrow> ps ! k = HasMax g mx \<Longrightarrow>
    race_step E (d, ps) (d, ps[k := if mx \<le> int (grant_count d (g_owner g)) then Finished else Passed g mx])"
| insert: "k < length ps \<Longrightarrow> ps ! k = Passed g mx \<Longrightarrow> insert_grant E (g\<lparr>g_max := mx\<rparr>) d = Inr (u, d1) \<Longrightarrow>
    race_step E (d, ps) (d1, ps[k := Finished])"
| fail: "k < length ps \<Longrightarrow> race_step E (d, ps) (d, ps[k := Finished])"

abbreviation race_run :: "env \<Rightarrow> database \<times> phase list \<Rightarrow> database \<times> phase list \<Rightarrow> bool" where
  "race_run E \<equiv> (race_step E)\<^sup>*\<^sup>*"

text \<open>Undisturbed, the steps of a session are a run of \<open>createGrant\<close>.\<close>

lemma createGrant_alone:
  assumes "createGrant E owner agent sub gt dn kid h cidrs ex w = (Inr u, w2)"
  shows "race_run E (db w, [Begun \<lparr>g_owner = owner, g_agent = agent, g_sub = sub, g_type = grant_type_text gt, g_display = dn,
    g_key_id = kid, g_key_hash = h, g_cidrs = cidrs, g_expires = ex, g_max = mx\<rparr>]) (db w2, [Finished])"
proof -
  let ?g = "\<lparr>g_owner = owner, g_agent = agent, g_sub = sub, g_type = grant_type_text gt, g_display = dn,
    g_key_id = kid, g_key_hash = h, g_cidrs = cidrs, g_expires = ex, g_max = mx\<rparr>"
  from pool_tx_Inr [OF assms [unfolded createGrant_def]] obtain w1 w3 where d: "db w1 = db w" "db w2 = db w3"
    and run: "bind (maxSubAccountsTx E owner) (\<lambda>mx.
        bind (or_fail (sql_query E (\<lambda>d. grant_count d owner)) ErrOther) (\<lambda>n.
        if mx \<le> int n then throw ErrLimitExceeded
        else bind (stmt E (insert_grant E \<lparr>g_owner = owner, g_agent = agent, g_sub = sub,
               g_type = grant_type_text gt, g_display = dn, g_key_id = kid,
               g_key_hash = h, g_cidrs = cidrs, g_expires = ex, g_max = mx\<rparr>))
          (\<lambda>r. case r of Inl e \<Rightarrow> throw (store_fail e) | Inr _ \<Rightarrow> ret ()))) w1 = (Inr u, w3)"
    by blast
  from run have lim: "\<not> max_of (db w) owner \<le> int (grant_count (db w) owner)"
    and ins: "\<exists>v. insert_grant E (?g\<lparr>g_max := max_of (db w) owner\<rparr>) (db w) = Inr (v, db w2)"
    using d by (auto simp: act_Inr maxSubAccountsTx_def stmt_Inr)
  from ins obtain v where i: "insert_grant E (?g\<lparr>g_max := max_of (db w) owner\<rparr>) (db w) = Inr (v, db w2)" by blast
  have s1: "race_step E (db w, [Begun ?g]) (db w, [HasMax ?g (max_of (db w) owner)])"
    using race_step.read_max [of 0 "[Begun ?g]" ?g E "db w"] by simp
  have s2: "race_step E (db w, [HasMax ?g (max_of (db w) owner)]) (db w, [Passed ?g (max_of (db w) owner)])"
    using race_step.count [of 0 "[HasMax ?g (max_of (db w) owner)]" ?g "max_of (db w) owner" E "db w"] lim by simp
  have s3: "race_step E (db w, [Passed ?g (max_of (db w) owner)]) (db w2, [Finished])"
    using race_step.insert [of 0 "[Passed ?g (max_of (db w) owner)]" ?g "max_of (db w) owner" E "db w" v "db w2"] i by simp
  note step = converse_rtranclp_into_rtranclp [of "race_step E"]
  show ?thesis by (rule step [OF s1 step [OF s2 r_into_rtranclp [of "race_step E", OF s3]]])
qed

subsection \<open>The invariant of all interleavings\<close>

fun passed :: "string \<Rightarrow> phase \<Rightarrow> bool" where
  "passed owner (Passed g mx) = owned_by owner g"
| "passed owner _ = False"

definition of_owner :: "string \<Rightarrow> grant_row list \<Rightarrow> nat" where
  "of_owner owner gs = length (filter (owned_by owner) gs)"

text \<open>A session works on its grant, with the limit that held at the start.\<close>

fun session_ok :: "(string \<Rightarrow> int) \<Rightarrow> phase \<Rightarrow> grant_row \<Rightarrow> bool" where
  "session_ok lim (Begun g) h = (g = h)"
| "session_ok lim (HasMax g mx) h = (g = h \<and> mx = lim (g_owner g))"
| "session_ok lim (Passed g mx) h = (g = h \<and> mx = lim (g_owner g))"
| "session_ok lim Finished h = True"

definition race_inv :: "(string \<Rightarrow> int) \<Rightarrow> grant_row list \<Rightarrow> database \<times> phase list \<Rightarrow> bool" where
  "race_inv lim gs s \<longleftrightarrow> (case s of (d, ps) \<Rightarrow> list_all2 (session_ok lim) ps gs \<and> grants_ok d \<and> max_of d = lim
     \<and> (\<forall>owner. int (grant_count d owner) + int (length (filter (passed owner) ps)) \<le> lim owner + int (of_owner owner gs - 1)))"

lemma filter_update_length:
  "k < length xs \<Longrightarrow> length (filter P (xs[k := x])) + (if P (xs ! k) then 1 else 0) = length (filter P xs) + (if P x then 1 else 0)"
proof (induction xs arbitrary: k)
  case (Cons y ys)
  then show ?case
  proof (cases k)
    case (Suc j)
    with Cons.IH [of j] Cons.prems show ?thesis by simp
  qed simp
qed simp

lemma list_all2_filter_length:
  "list_all2 R xs ys \<Longrightarrow> (\<And>x y. R x y \<Longrightarrow> P x \<Longrightarrow> Q y) \<Longrightarrow> length (filter P xs) \<le> length (filter Q ys)"
  by (induction rule: list_all2_induct) (auto simp: le_SucI)

lemma passed_le:
  assumes "list_all2 (session_ok lim) ps gs"
  shows "length (filter (passed owner) ps) \<le> of_owner owner gs"
  unfolding of_owner_def using assms
proof (rule list_all2_filter_length)
  show "session_ok lim p g \<Longrightarrow> passed owner p \<Longrightarrow> owned_by owner g" for p g by (cases p) auto
qed

lemma owned_by_same: "owned_by owner g \<Longrightarrow> grant_count d owner = grant_count d (g_owner g) \<and> max_of d owner = max_of d (g_owner g)"
  by (simp add: owned_by_def grant_count_def max_of_def)

lemma list_all2_session:
  assumes "list_all2 (session_ok lim) ps gs" and "k < length ps" and "session_ok lim p (gs ! k)"
  shows "list_all2 (session_ok lim) (ps[k := p]) gs"
  using assms list_all2_update_cong [of "session_ok lim" ps gs p "gs ! k" k] list_all2_lengthD [OF assms(1)] by simp

lemma insert_grant_effect:
  assumes "insert_grant E g d = Inr (u, d1)" and "live g"
  shows "grants_ok d1" and "max_of d1 = max_of d"
    and "grant_count d1 owner = grant_count d owner + (if owned_by owner g then 1 else 0)"
proof -
  from assms(1) obtain cs where d1: "d1 = d\<lparr>grants := grants d @ [g\<lparr>g_cidrs := cs\<rparr>]\<rparr>" and ok: "grants_ok d1"
    by (auto simp: insert_grant_def set_grants_Inr grants_ok_def split: option.splits)
  have lg: "live (g\<lparr>g_cidrs := cs\<rparr>)" using assms(2) by (simp add: live_def)
  show "grants_ok d1" by (rule ok)
  show "max_of d1 = max_of d" unfolding d1 using max_of_append_live [OF lg] by (simp add: fun_eq_iff)
  show "grant_count d1 owner = grant_count d owner + (if owned_by owner g then 1 else 0)"
    unfolding d1 using lg by (simp add: grant_count_def owned_by_def)
qed

lemma race_inv_step:
  assumes "race_step E s s1" and "race_inv lim gs s" and "\<forall>g \<in> set gs. live g"
  shows "race_inv lim gs s1"
  using assms(1,2)
proof (induction rule: race_step.induct)
  case (read_max k ps g d)
  then have l: "list_all2 (session_ok lim) ps gs" and m: "max_of d = lim" by (simp_all add: race_inv_def)
  from list_all2_nthD [OF l read_max(1)] read_max(2) have "gs ! k = g" by simp
  with m have "list_all2 (session_ok lim) (ps[k := HasMax g (max_of d (g_owner g))]) gs"
    by (intro list_all2_session [OF l read_max(1)]) simp
  moreover have "length (filter (passed owner) (ps[k := HasMax g (max_of d (g_owner g))])) = length (filter (passed owner) ps)" for owner
    using filter_update_length [OF read_max(1), of "passed owner" "HasMax g (max_of d (g_owner g))"] read_max(2) by simp
  ultimately show ?case using read_max(3) by (simp add: race_inv_def)
next
  case (count k ps g mx d)
  then have l: "list_all2 (session_ok lim) ps gs" and m: "max_of d = lim" by (simp_all add: race_inv_def)
  let ?p = "if mx \<le> int (grant_count d (g_owner g)) then Finished else Passed g mx"
  from list_all2_nthD [OF l count(1)] count(2) have g: "gs ! k = g" "mx = lim (g_owner g)" by simp_all
  then have l1: "list_all2 (session_ok lim) (ps[k := ?p]) gs" by (intro list_all2_session [OF l count(1)]) simp
  have "int (grant_count d owner) + int (length (filter (passed owner) (ps[k := ?p]))) \<le> lim owner + int (of_owner owner gs - 1)" for owner
  proof (cases "passed owner ?p")
    case True
    then have o: "owned_by owner g" and c: "int (grant_count d (g_owner g)) < mx" by (auto split: if_splits)
    from owned_by_same [OF o] have "int (grant_count d owner) < lim owner" using c g(2) m by metis
    moreover have "0 < length (filter (passed owner) (ps[k := ?p]))"
      using True count(1) by (simp add: length_greater_0_conv filter_empty_conv) (metis set_update_memI)
    ultimately show ?thesis using passed_le [OF l1, of owner] by linarith
  next
    case False
    then have "length (filter (passed owner) (ps[k := ?p])) = length (filter (passed owner) ps)"
      using filter_update_length [OF count(1), of "passed owner" ?p] count(2) by simp
    with count(3) show ?thesis by (simp add: race_inv_def)
  qed
  with l1 count(3) show ?case by (simp add: race_inv_def)
next
  case (insert k ps g mx d u d1)
  then have l: "list_all2 (session_ok lim) ps gs" and m: "max_of d = lim" by (simp_all add: race_inv_def)
  from list_all2_nthD [OF l insert(1)] insert(2) have "gs ! k = g" by simp
  then have "live (g\<lparr>g_max := mx\<rparr>)" using assms(3) insert(1) list_all2_lengthD [OF l] by (force simp: live_def)
  note e = insert_grant_effect [OF insert(3) this]
  have "int (grant_count d1 owner) + int (length (filter (passed owner) (ps[k := Finished]))) \<le> lim owner + int (of_owner owner gs - 1)" for owner
    using filter_update_length [OF insert(1), of "passed owner" Finished] insert(2,4) e(3) [of owner]
    by (auto simp: race_inv_def owned_by_def split: if_splits dest!: spec [of _ owner])
  with list_all2_session [OF l insert(1), of Finished] e(1,2) m show ?case by (simp add: race_inv_def)
next
  case (fail k ps d)
  then have l: "list_all2 (session_ok lim) ps gs" by (simp add: race_inv_def)
  have "length (filter (passed owner) (ps[k := Finished])) \<le> length (filter (passed owner) ps)" for owner
    using filter_update_length [OF fail(1), of "passed owner" Finished] by (simp split: if_splits)
  then have "int (grant_count d owner) + int (length (filter (passed owner) (ps[k := Finished]))) \<le> lim owner + int (of_owner owner gs - 1)" for owner
    using fail(2) by (auto simp: race_inv_def dest!: spec [of _ owner] intro: order_trans [rotated])
  with list_all2_session [OF l fail(1), of Finished] fail(2) show ?case by (simp add: race_inv_def)
qed

text \<open>C38: however creations interleave and fail, every constraint holds at every moment, and an owner within the limit
  exceeds it by less than the number of creations of theirs that run at the same time; one at a time never does.\<close>

theorem concurrent_creations:
  assumes "grant_inv d" and "\<forall>g \<in> set gs. live g" and "race_run E (d, map Begun gs) (d1, ps)"
  shows "grants_ok d1 \<and> int (grant_count d1 owner) \<le> max_of d owner + int (of_owner owner gs - 1)"
proof -
  have "length (filter (passed owner) (map Begun gs)) = 0" for owner by (induction gs) auto
  moreover have "list_all2 (session_ok lim) (map Begun gs) gs" for lim by (simp add: list_all2_map1 list.rel_refl)
  ultimately have "race_inv (max_of d) gs (d, map Begun gs)"
    using assms(1) by (simp add: race_inv_def grant_inv_def within_limits_def add_increasing2)
  from assms(3) this have "race_inv (max_of d) gs (d1, ps)"
    by (induction rule: rtranclp_induct) (auto intro: race_inv_step [OF _ _ assms(2)])
  then show ?thesis by (fastforce simp: race_inv_def dest: spec [of _ owner])
qed

subsection \<open>Two creations that pass the limit\<close>

definition racing :: "string \<Rightarrow> grant_row" where
  "racing agent = example_grant\<lparr>g_agent := agent, g_sub := ''@al_'' @ agent @ ''@ex.org'', g_key_id := agent\<rparr>"

definition limited_db :: database where
  "limited_db = empty_db\<lparr>grants := [example_grant\<lparr>g_agent := [], g_max := 1\<rparr>]\<rparr>"

definition added :: "string \<Rightarrow> database \<Rightarrow> database" where
  "added agent d = d\<lparr>grants := grants d @ [racing agent\<lparr>g_max := 1\<rparr>]\<rparr>"

lemma racing_inserts:
  "insert_grant example_env (racing ''a''\<lparr>g_max := 1\<rparr>) limited_db = Inr ((), added ''a'' limited_db)"
  "insert_grant example_env (racing ''b''\<lparr>g_max := 1\<rparr>) (added ''a'' limited_db) = Inr ((), added ''b'' (added ''a'' limited_db))"
  by (simp_all add: insert_grant_def set_grants_def added_def limited_db_def racing_def example_grant_def example_env_def empty_db_def
      cast_cidrs_def grant_check_def grant_unique_def live_def ToLower_Cons lower_char_def)

lemma racing_numbers:
  "max_of limited_db ''@al@ex.org'' = 1" "grant_count limited_db ''@al@ex.org'' = 0"
  "grant_count (added ''b'' (added ''a'' limited_db)) ''@al@ex.org'' = 2" "grant_inv limited_db" "g_owner (racing x) = ''@al@ex.org''" "x \<noteq> [] \<Longrightarrow> live (racing x)"
proof -
  show "max_of limited_db ''@al@ex.org'' = 1" "grant_count limited_db ''@al@ex.org'' = 0"
    "grant_count (added ''b'' (added ''a'' limited_db)) ''@al@ex.org'' = 2" by code_simp+
  show "grant_inv limited_db"
    by (auto simp: grant_inv_def grants_ok_def grant_unique_def within_limits_def grant_count_def max_of_def limited_db_def
        empty_db_def live_def grant_check_def DefaultMaxSubAccounts_def)
  show "g_owner (racing x) = ''@al@ex.org''" by (simp add: racing_def example_grant_def)
  show "x \<noteq> [] \<Longrightarrow> live (racing x)" by (simp add: racing_def live_def)
qed

lemma racing_run:
  "race_run example_env (limited_db, [Begun (racing ''a''), Begun (racing ''b'')]) (added ''b'' (added ''a'' limited_db), [Finished, Finished])"
proof -
  let ?a = "racing ''a''" and ?b = "racing ''b''" and ?E = example_env and ?d = limited_db
  note n = racing_numbers
  have s1: "race_step ?E (?d, [Begun ?a, Begun ?b]) (?d, [HasMax ?a 1, Begun ?b])"
    using race_step.read_max [of 0 "[Begun ?a, Begun ?b]" ?a ?E ?d] n by simp
  have s2: "race_step ?E (?d, [HasMax ?a 1, Begun ?b]) (?d, [HasMax ?a 1, HasMax ?b 1])"
    using race_step.read_max [of 1 "[HasMax ?a 1, Begun ?b]" ?b ?E ?d] n by simp
  have s3: "race_step ?E (?d, [HasMax ?a 1, HasMax ?b 1]) (?d, [Passed ?a 1, HasMax ?b 1])"
    using race_step.count [of 0 "[HasMax ?a 1, HasMax ?b 1]" ?a 1 ?E ?d] n by simp
  have s4: "race_step ?E (?d, [Passed ?a 1, HasMax ?b 1]) (?d, [Passed ?a 1, Passed ?b 1])"
    using race_step.count [of 1 "[Passed ?a 1, HasMax ?b 1]" ?b 1 ?E ?d] n by simp
  have s5: "race_step ?E (?d, [Passed ?a 1, Passed ?b 1]) (added ''a'' ?d, [Finished, Passed ?b 1])"
    using race_step.insert [of 0 "[Passed ?a 1, Passed ?b 1]" ?a 1 ?E ?d] racing_inserts by simp
  have s6: "race_step ?E (added ''a'' ?d, [Finished, Passed ?b 1]) (added ''b'' (added ''a'' ?d), [Finished, Finished])"
    using race_step.insert [of 1 "[Finished, Passed ?b 1]" ?b 1 ?E "added ''a'' ?d"] racing_inserts by simp
  note step = converse_rtranclp_into_rtranclp [of "race_step ?E"]
  show ?thesis by (rule step [OF s1 step [OF s2 step [OF s3 step [OF s4 step [OF s5 r_into_rtranclp [of "race_step ?E", OF s6]]]]]])
qed

text \<open>The owner may have one sub-account, and has two after both creations succeed.\<close>

theorem concurrent_creations_witness:
  "\<exists>d1. race_run example_env (limited_db, map Begun [racing ''a'', racing ''b'']) (d1, [Finished, Finished])
    \<and> grant_inv limited_db \<and> max_of limited_db ''@al@ex.org'' = 1 \<and> grant_count d1 ''@al@ex.org'' = 2 \<and> grants_ok d1"
proof -
  have run: "race_run example_env (limited_db, map Begun [racing ''a'', racing ''b'']) (added ''b'' (added ''a'' limited_db), [Finished, Finished])"
    using racing_run by simp
  have "\<forall>g \<in> set [racing ''a'', racing ''b'']. live g" using racing_numbers(6) by simp
  from concurrent_creations [OF racing_numbers(4) this run] run racing_numbers show ?thesis by blast
qed

end
