(* ===== verification/EmojiGen.thy ===== *)
theory EmojiGen
  imports Emoji "HOL-Library.List_Lexorder" "HOL-Library.Char_ord" "HOL-Library.Multiset"
begin

text \<open>
  The generator of the emoji tables (\<open>src/internal/emoji/gen/main.go\<close>): it reads the Unicode data files
  \<open>emoji-test.txt\<close> and \<open>emoji-data.txt\<close> and writes \<open>tables.go\<close>.  A run the program gives up
  (a bad code point, a slice out of range) is \<open>None\<close>.  Downloading the files, \<open>strconv.Quote\<close>
  (the argument \<open>quote\<close>) and \<open>go/format\<close> are not modelled.

  \<open>read_table\<close> reads a range table back from the source text that was written, by the rules of Go's
  composite literals and integer constants, so that \<open>emoji_tables\<close> connects the data file, over the text of
  \<open>tables.go\<close>, with \<open>unicode_Is\<close>, as the scanner of \<open>Emoji\<close> uses it.
\<close>

subsection \<open>Reading and writing numbers, runes and lines\<close>

definition wrap32 :: "int \<Rightarrow> int" where
  "wrap32 x = (x + 2 ^ 31) mod 2 ^ 32 - 2 ^ 31"

fun hex_acc :: "nat \<Rightarrow> string \<Rightarrow> nat option" where
  "hex_acc acc [] = Some acc"
| "hex_acc acc (c # s) = (case hex_value c of None \<Rightarrow> None | Some d \<Rightarrow> hex_acc (16 * acc + d) s)"

text \<open>\<open>strconv.ParseUint(s, 16, 32)\<close>.\<close>

definition ParseUint16 :: "string \<Rightarrow> nat option" where
  "ParseUint16 s = (if s = [] then None else
     (case hex_acc 0 s of None \<Rightarrow> None | Some n \<Rightarrow> if n < 2 ^ 32 then Some n else None))"

text \<open>A digit and a number as \<open>%X\<close> writes it, and with a least width and leading zeros.\<close>

definition upper_digit :: "nat \<Rightarrow> char" where
  "upper_digit d = (if d < 10 then char_of (48 + d) else char_of (55 + d))"

fun hex_digits :: "nat \<Rightarrow> string" where
  "hex_digits n = (if n < 16 then [upper_digit n] else hex_digits (n div 16) @ [upper_digit (n mod 16)])"

declare hex_digits.simps [simp del]

definition pad_zeros :: "nat \<Rightarrow> string \<Rightarrow> string" where
  "pad_zeros w s = replicate (w - length s) CHR ''0'' @ s"

definition fmt_X :: "nat \<Rightarrow> int \<Rightarrow> string" where
  "fmt_X w i = (if i < 0 then CHR ''-'' # pad_zeros (w - 1) (hex_digits (nat (- i))) else pad_zeros w (hex_digits (nat i)))"

text \<open>\<open>Builder.WriteRune\<close>: a value that is no code point is written as \<open>U+FFFD\<close>.\<close>

definition WriteRune :: "int \<Rightarrow> string" where
  "WriteRune r = map char_of (let n = nat r in
     if r < 0 \<or> 0x10FFFF < r \<or> (0xD800 \<le> r \<and> r \<le> 0xDFFF) then [0xEF, 0xBF, 0xBD :: nat]
     else if n < 0x80 then [n]
     else if n < 0x800 then [192 + n div 64, 128 + n mod 64]
     else if n < 0x10000 then [224 + n div 4096, 128 + n div 64 mod 64, 128 + n mod 64]
     else [240 + n div 262144, 128 + n div 4096 mod 64, 128 + n div 64 mod 64, 128 + n mod 64])"

text \<open>The lines \<open>bufio.Scanner\<close> gives: without the line end, and none from the first line on that does not fit
  its buffer of 64 KiB.  The program does not ask the scanner why it stopped.\<close>

definition drop_cr :: "string \<Rightarrow> string" where
  "drop_cr l = (if l \<noteq> [] \<and> last l = CHR 0x0D then butlast l else l)"

definition scan_lines :: "string \<Rightarrow> string list" where
  "scan_lines s = (let ls = Split (CHR 0x0A) s in
     map drop_cr (takeWhile (\<lambda>l. length l < 65536) (if last ls = [] then butlast ls else ls)))"

fun fold_opt :: "('s \<Rightarrow> 'a \<Rightarrow> 's option) \<Rightarrow> 's \<Rightarrow> 'a list \<Rightarrow> 's option" where
  "fold_opt f s [] = Some s"
| "fold_opt f s (x # xs) = (case f s x of None \<Rightarrow> None | Some s1 \<Rightarrow> fold_opt f s1 xs)"

text \<open>\<open>strings.Cut\<close> at a string.\<close>

fun cut_at :: "string \<Rightarrow> string \<Rightarrow> (string \<times> string) option" where
  "cut_at sep [] = (if sep = [] then Some ([], []) else None)"
| "cut_at sep (c # s) = (if HasPrefix (c # s) sep then Some ([], drop (length sep) (c # s))
     else map_option (\<lambda>(a, b). (c # a, b)) (cut_at sep s))"

definition IndexByte :: "string \<Rightarrow> char \<Rightarrow> nat option" where
  "IndexByte s c = (if c \<in> set s then Some (length (takeWhile (\<lambda>x. x \<noteq> c) s)) else None)"

subsection \<open>emoji-test.txt\<close>

fun runes_of :: "string list \<Rightarrow> string option" where
  "runes_of [] = Some []"
| "runes_of (cp # cps) = (case ParseUint16 cp of None \<Rightarrow> None
     | Some n \<Rightarrow> map_option ((@) (WriteRune (wrap32 (int n)))) (runes_of cps))"

definition test_line :: "string list \<times> string \<Rightarrow> string \<Rightarrow> (string list \<times> string) option" where
  "test_line st line = (let (seqs, version) = st in
     if HasPrefix line ''# Version:'' then Some (seqs, TrimSpace (drop (length ''# Version:'') line))
     else if line = [] \<or> HasPrefix line ''#'' then Some st
     else (case (IndexByte line (CHR '';''), IndexByte line (CHR ''#'')) of
       (Some semi, Some hash) \<Rightarrow>
         if hash < semi + 1 then None
         else if TrimSpace (take (hash - (semi + 1)) (drop (semi + 1) line)) \<noteq> ''fully-qualified'' then Some st
         else map_option (\<lambda>s. (seqs @ [s], version)) (runes_of (Fields (take semi line)))
     | _ \<Rightarrow> Some st))"

definition parseTest :: "string \<Rightarrow> (string list \<times> string) option" where
  "parseTest r = map_option (\<lambda>(seqs, version). (sort seqs, version))
     (fold_opt test_line ([], ''unknown'') (scan_lines r))"

subsection \<open>emoji-data.txt\<close>

record span =
  sp_lo :: int
  sp_hi :: int

definition data_line :: "(string \<Rightarrow> span list) \<Rightarrow> string \<Rightarrow> (string \<Rightarrow> span list) option" where
  "data_line props line0 = (let line = TrimSpace (takeWhile (\<lambda>x. x \<noteq> CHR ''#'') line0) in
     if line = [] then Some props
     else (case Split (CHR '';'') line of
       [p0, p1] \<Rightarrow>
         (let rng = TrimSpace p0; pn = TrimSpace p1;
              (lo, hi) = (case cut_at ''..'' rng of Some ab \<Rightarrow> ab | None \<Rightarrow> (rng, rng)) in
          case (ParseUint16 lo, ParseUint16 hi) of
            (Some l, Some h) \<Rightarrow> Some (props(pn := props pn @ [\<lparr>sp_lo = wrap32 (int l), sp_hi = wrap32 (int h)\<rparr>]))
          | _ \<Rightarrow> None)
     | _ \<Rightarrow> Some props))"

text \<open>The merged spans are kept newest first.\<close>

definition merge_step :: "span \<Rightarrow> span list \<Rightarrow> span list" where
  "merge_step sp merged = (case merged of
     [] \<Rightarrow> [sp]
   | l # before \<Rightarrow>
       if sp_lo sp \<le> wrap32 (sp_hi l + 1) then
         (if sp_hi l < sp_hi sp then l\<lparr>sp_hi := sp_hi sp\<rparr> # before else merged)
       else sp # merged)"

definition merge_sorted :: "span list \<Rightarrow> span list" where
  "merge_sorted s = rev (fold merge_step s [])"

definition parseData :: "string \<Rightarrow> (string \<Rightarrow> span list) option" where
  "parseData r = map_option (\<lambda>props name. merge_sorted (sort_key sp_lo (props name)))
     (fold_opt data_line (\<lambda>_. []) (scan_lines r))"

subsection \<open>tables.go\<close>

definition split16 :: "span \<Rightarrow> span list" where
  "split16 sp = (if sp_hi sp < 0x10000 then [sp] else if 0x10000 \<le> sp_lo sp then [] else [\<lparr>sp_lo = sp_lo sp, sp_hi = 0xFFFF\<rparr>])"

definition split32 :: "span \<Rightarrow> span list" where
  "split32 sp = (if sp_hi sp < 0x10000 then [] else if 0x10000 \<le> sp_lo sp then [sp] else [\<lparr>sp_lo = 0x10000, sp_hi = sp_hi sp\<rparr>])"

definition range_line :: "nat \<Rightarrow> span \<Rightarrow> string" where
  "range_line w sp = [CHR 0x09, CHR 0x09] @ ''{0x'' @ fmt_X w (sp_lo sp) @ '', 0x'' @ fmt_X w (sp_hi sp) @ '', 1},''"

definition writeTable :: "string \<Rightarrow> span list \<Rightarrow> string list" where
  "writeTable name spans = (let goName = ''prop'' @ RemoveChar (CHR ''_'') name; tab = CHR 0x09 in
     [[], ''// '' @ goName @ '' is the '' @ name @ '' property.'', ''var '' @ goName @ '' = &unicode.RangeTable{'',
      tab # ''R16: []unicode.Range16{''] @ map (range_line 4) (concat (map split16 spans)) @ [tab # ''},'',
      tab # ''R32: []unicode.Range32{''] @ map (range_line 0) (concat (map split32 spans)) @ [tab # ''},'', ''}''])"

definition propNames :: "string list" where
  "propNames = [''Emoji'', ''Emoji_Presentation'', ''Emoji_Modifier'', ''Emoji_Modifier_Base'', ''Emoji_Component'']"

definition gen_source :: "(string \<Rightarrow> string) \<Rightarrow> string \<Rightarrow> string \<Rightarrow> string list option" where
  "gen_source quote test data = (case parseTest test of None \<Rightarrow> None | Some (rgi, version) \<Rightarrow>
     (case parseData data of None \<Rightarrow> None | Some props \<Rightarrow> Some
       ([''// Code generated by internal/emoji/gen from Unicode Emoji '' @ version @ ''; DO NOT EDIT.'', [],
         ''package emoji'', [], ''import '' @ [CHR 0x22] @ ''unicode'' @ [CHR 0x22], [],
         ''// Version is the Unicode Emoji version the tables were generated from.'',
         ''const Version = '' @ quote version, [],
         ''// rgi is the RGI_Emoji set (UTS #51): every fully-qualified emoji sequence.'',
         ''var rgi = map[string]struct{}{'']
        @ map (\<lambda>s. CHR 0x09 # quote s @ '': {},'') rgi @ [''}'']
        @ concat (map (\<lambda>name. writeTable name (props name)) propNames))))"

subsection \<open>Reading a table back\<close>

text \<open>A line \<open>{0x<lo>, 0x<hi>, 1},\<close> of a table, after its tabs: the two hexadecimal constants; any other stride is not
  read.\<close>

definition read_range_line :: "string \<Rightarrow> (nat \<times> nat) option" where
  "read_range_line l = (let t = dropWhile (\<lambda>c. c = CHR 0x09) l in
     if \<not> HasPrefix t ''{0x'' then None
     else (case cut_at '', 0x'' (drop 3 t) of None \<Rightarrow> None
       | Some (lo, rest) \<Rightarrow> (case cut_at '', '' rest of None \<Rightarrow> None
         | Some (hi, stride) \<Rightarrow> if stride \<noteq> ''1},'' then None
             else (case (ParseUint16 lo, ParseUint16 hi) of (Some a, Some b) \<Rightarrow> Some (a, b) | _ \<Rightarrow> None))))"

text \<open>The ranges up to the line that closes the slice, and the lines after it.\<close>

fun read_ranges :: "string list \<Rightarrow> ((nat \<times> nat) list \<times> string list) option" where
  "read_ranges [] = None"
| "read_ranges (l # ls) = (if l = CHR 0x09 # ''},'' then Some ([], ls)
     else (case read_range_line l of None \<Rightarrow> None
       | Some a \<Rightarrow> map_option (\<lambda>(as, r). (a # as, r)) (read_ranges ls)))"

text \<open>The table that a source text declares under a name: the first declaration of that variable.  The constants of
  a \<open>Range16\<close> are 16-bit; a source where they are not does not compile.\<close>

definition read_table :: "string \<Rightarrow> string list \<Rightarrow> range_table option" where
  "read_table name src = (case dropWhile (\<lambda>l. l \<noteq> ''var '' @ name @ '' = &unicode.RangeTable{'') src of
     _ # r16 # ls1 \<Rightarrow> if r16 \<noteq> CHR 0x09 # ''R16: []unicode.Range16{'' then None
       else (case read_ranges ls1 of
         Some (as, r32 # ls2) \<Rightarrow>
           if r32 \<noteq> CHR 0x09 # ''R32: []unicode.Range32{'' \<or> \<not> list_all (\<lambda>(lo, hi). lo < 0x10000 \<and> hi < 0x10000) as then None
           else (case read_ranges ls2 of
             Some (bs, l # ls3) \<Rightarrow> if l = ''}'' then Some \<lparr>R16 = as, R32 = bs\<rparr> else None
           | _ \<Rightarrow> None)
       | _ \<Rightarrow> None)
   | _ \<Rightarrow> None)"

text \<open>The table the spans of a property come to.\<close>

definition ranges :: "span list \<Rightarrow> (nat \<times> nat) list" where
  "ranges sps = map (\<lambda>sp. (nat (sp_lo sp), nat (sp_hi sp))) sps"

definition table_of :: "span list \<Rightarrow> range_table" where
  "table_of spans = \<lparr>R16 = ranges (concat (map split16 spans)), R32 = ranges (concat (map split32 spans))\<rparr>"

subsection \<open>Numbers\<close>

lemma wrap32_id: "- (2 ^ 31) \<le> x \<Longrightarrow> x < 2 ^ 31 \<Longrightarrow> wrap32 x = x"
  by (simp add: wrap32_def)

lemma hex_value_upper: "d < 16 \<Longrightarrow> hex_value (upper_digit d) = Some d"
  by (auto simp: hex_value_def upper_digit_def Let_def)

lemma hex_acc_append: "hex_acc acc (a @ b) = (case hex_acc acc a of None \<Rightarrow> None | Some n \<Rightarrow> hex_acc n b)"
  by (induction a arbitrary: acc) (simp_all split: option.splits)

lemma hex_acc_digits: "hex_acc 0 (hex_digits n) = Some n"
proof (induction n rule: hex_digits.induct)
  case (1 n)
  then show ?case
    by (cases "n < 16") (simp_all add: hex_digits.simps [of n] hex_value_upper hex_acc_append)
qed

lemma hex_value_zero: "hex_value (CHR ''0'') = Some 0"
  by (simp add: hex_value_def)

lemma hex_acc_zeros: "hex_acc 0 (replicate k (CHR ''0'') @ s) = hex_acc 0 s"
  by (induction k) (simp_all add: hex_value_zero)

lemma hex_digits_nonempty: "hex_digits n \<noteq> []"
  by (subst hex_digits.simps) simp

text \<open>A number the generator writes is read back by Go's own rules.\<close>

lemma ParseUint16_fmt_X: "0 \<le> i \<Longrightarrow> i < 2 ^ 32 \<Longrightarrow> ParseUint16 (fmt_X w i) = Some (nat i)"
  using hex_digits_nonempty [of "nat i"]
  by (simp add: ParseUint16_def fmt_X_def pad_zeros_def hex_acc_zeros hex_acc_digits)

subsection \<open>Merging\<close>

definition valid_span :: "span \<Rightarrow> bool" where
  "valid_span sp \<longleftrightarrow> 0 \<le> sp_lo sp \<and> sp_lo sp \<le> sp_hi sp \<and> sp_hi sp \<le> 0x10FFFF"

definition covered :: "span list \<Rightarrow> int \<Rightarrow> bool" where
  "covered sps r \<longleftrightarrow> (\<exists>sp \<in> set sps. sp_lo sp \<le> r \<and> r \<le> sp_hi sp)"

definition apart :: "span \<Rightarrow> span \<Rightarrow> bool" where
  "apart a b \<longleftrightarrow> sp_hi a + 1 < sp_lo b"

definition canonical :: "span list \<Rightarrow> bool" where
  "canonical sps \<longleftrightarrow> (\<forall>sp \<in> set sps. valid_span sp) \<and> sorted_wrt apart sps"

lemma covered_simps [simp]:
  "covered [] r = False"
  "covered (sp # sps) r = (sp_lo sp \<le> r \<and> r \<le> sp_hi sp \<or> covered sps r)"
  "covered (rev sps) r = covered sps r"
  "covered (sps @ sqs) r = (covered sps r \<or> covered sqs r)"
  by (auto simp: covered_def)

lemma merge_step_canonical:
  assumes "canonical (rev m)" and "valid_span sp" and "\<forall>x \<in> set m. sp_lo x \<le> sp_lo sp"
  shows "canonical (rev (merge_step sp m)) \<and> (\<forall>r. covered (merge_step sp m) r \<longleftrightarrow> sp_lo sp \<le> r \<and> r \<le> sp_hi sp \<or> covered m r)
    \<and> (\<forall>x \<in> set (merge_step sp m). sp_lo x \<le> sp_lo sp)"
proof (cases m)
  case Nil
  with assms(2) show ?thesis by (simp add: merge_step_def canonical_def)
next
  case (Cons l b)
  with assms have l: "valid_span l" "sp_lo l \<le> sp_lo sp" and w: "wrap32 (sp_hi l + 1) = sp_hi l + 1"
    by (auto simp: canonical_def valid_span_def intro: wrap32_id)
  from assms Cons l show ?thesis
    by (auto simp: merge_step_def w canonical_def sorted_wrt_append apart_def valid_span_def)
qed

lemma fold_merge_canonical:
  assumes "canonical (rev m)" and "\<forall>sp \<in> set s. valid_span sp" and "sorted (map sp_lo s)"
    and "\<forall>x \<in> set m. \<forall>sp \<in> set s. sp_lo x \<le> sp_lo sp"
  shows "canonical (rev (fold merge_step s m)) \<and> (\<forall>r. covered (fold merge_step s m) r \<longleftrightarrow> covered s r \<or> covered m r)"
  using assms
proof (induction s arbitrary: m)
  case Nil
  then show ?case by simp
next
  case (Cons sp s)
  from Cons.prems have st: "canonical (rev (merge_step sp m))" 
    "\<forall>r. covered (merge_step sp m) r \<longleftrightarrow> sp_lo sp \<le> r \<and> r \<le> sp_hi sp \<or> covered m r"
    "\<forall>x \<in> set (merge_step sp m). sp_lo x \<le> sp_lo sp"
    using merge_step_canonical [of m sp] by auto
  have "\<forall>x \<in> set (merge_step sp m). \<forall>y \<in> set s. sp_lo x \<le> sp_lo y"
    using st(3) Cons.prems(3) by fastforce
  with Cons.IH [OF st(1)] Cons.prems st(2) show ?case by auto
qed

lemma merge_sorted_canonical:
  assumes "\<forall>sp \<in> set s. valid_span sp" and "sorted (map sp_lo s)"
  shows "canonical (merge_sorted s)" and "covered (merge_sorted s) = covered s"
  using fold_merge_canonical [of "[]" s] assms by (auto simp: merge_sorted_def canonical_def)

text \<open>A set of code points has one canonical list of spans, so the order in which the unstable \<open>sort.Slice\<close>
  leaves spans with the same start cannot matter.\<close>

lemma canonical_covered_first:
  assumes "canonical (a # s)" and "covered (a # s) r"
  shows "sp_lo a \<le> r"
  using assms by (auto simp: canonical_def apart_def covered_def valid_span_def)

lemma canonical_head:
  assumes "canonical (a # s)" and "canonical (b # t)" and "covered (a # s) = covered (b # t)"
  shows "a = b"
proof -
  have lo: "sp_lo x \<le> sp_lo y" if "canonical (x # u)" "canonical (y # v)" "covered (x # u) = covered (y # v)" for x y u v
  proof -
    have "covered (y # v) (sp_lo y)" using that(2) by (simp add: canonical_def valid_span_def)
    with that show ?thesis using canonical_covered_first by metis
  qed
  have hi: "sp_hi x \<le> sp_hi y" if "canonical (x # u)" "canonical (y # v)" "covered (x # u) = covered (y # v)" "sp_lo x = sp_lo y" for x y u v
  proof (rule ccontr)
    assume "\<not> sp_hi x \<le> sp_hi y"
    moreover have "sp_lo y \<le> sp_hi y" using that(2) by (simp add: canonical_def valid_span_def)
    ultimately have "covered (x # u) (sp_hi y + 1)" using that(4) by simp
    then have "covered (y # v) (sp_hi y + 1)" using that(3) by simp
    with that(2) show False by (auto simp: canonical_def apart_def covered_def valid_span_def)
  qed
  have "sp_lo a = sp_lo b" using lo assms by (metis order_antisym)
  moreover have "sp_hi a = sp_hi b" using hi assms calculation by (metis order_antisym)
  ultimately show ?thesis by simp
qed

lemma canonical_tail: "canonical (a # s) \<Longrightarrow> covered s r \<longleftrightarrow> covered (a # s) r \<and> sp_hi a < r"
  by (auto simp: canonical_def apart_def covered_def valid_span_def)

lemma canonical_unique: "canonical s \<Longrightarrow> canonical t \<Longrightarrow> covered s = covered t \<Longrightarrow> s = t"
proof (induction s arbitrary: t)
  case Nil
  show ?case
  proof (cases t)
    case (Cons b u)
    with Nil have "covered t (sp_lo b)" by (simp add: canonical_def valid_span_def)
    moreover have "covered t (sp_lo b) = False" using Nil.prems(3) by (metis covered_simps(1))
    ultimately show ?thesis by simp
  qed simp
next
  case (Cons a s)
  show ?case
  proof (cases t)
    case Nil
    from Cons.prems have "covered (a # s) (sp_lo a)" by (simp add: canonical_def valid_span_def)
    moreover have "covered (a # s) (sp_lo a) = False" using Cons.prems(3) Nil by (metis covered_simps(1))
    ultimately show ?thesis by blast
  next
    case c: (Cons b u)
    from canonical_head Cons.prems c have ab: "a = b" by blast
    have "covered s r = covered u r" for r
      using canonical_tail [OF Cons.prems(1), of r] canonical_tail [OF Cons.prems(2) [unfolded c], of r]
        Cons.prems(3) c ab by metis
    then have "s = u" using Cons.IH [of u] Cons.prems(1,2) c by (auto simp: canonical_def)
    with ab c show ?thesis by simp
  qed
qed

theorem sort_order_irrelevant:
  assumes "\<forall>sp \<in> set s. valid_span sp" and "mset s1 = mset s" and "sorted (map sp_lo s1)"
  shows "merge_sorted s1 = merge_sorted (sort_key sp_lo s)"
proof -
  have set: "set s1 = set s" using assms(2) by (metis set_mset_mset)
  have "covered s1 = covered (sort_key sp_lo s)" by (auto simp: covered_def set)
  then show ?thesis
    using merge_sorted_canonical [of s1] merge_sorted_canonical [of "sort_key sp_lo s"] assms(1,3) set
    by (intro canonical_unique) auto
qed

subsection \<open>The range tables\<close>

lemma unicode_Is_table:
  assumes "\<forall>sp \<in> set s. valid_span sp"
  shows "unicode_Is (table_of s) r \<longleftrightarrow> covered s (int r)"
proof -
  have one: "(\<exists>x \<in> set (split16 sp @ split32 sp). nat (sp_lo x) \<le> r \<and> r \<le> nat (sp_hi x)) \<longleftrightarrow> sp_lo sp \<le> int r \<and> int r \<le> sp_hi sp"
    if "valid_span sp" for sp using that by (auto simp: split16_def split32_def valid_span_def)
  have mem: "list_ex (\<lambda>(lo, hi). lo \<le> r \<and> r \<le> hi) (ranges (concat (map f s)))
      \<longleftrightarrow> (\<exists>sp \<in> set s. \<exists>x \<in> set (f sp). nat (sp_lo x) \<le> r \<and> r \<le> nat (sp_hi x))" for f
    by (auto simp: ranges_def list_ex_iff)
  have "unicode_Is (table_of s) r \<longleftrightarrow> (\<exists>sp \<in> set s. \<exists>x \<in> set (split16 sp @ split32 sp). nat (sp_lo x) \<le> r \<and> r \<le> nat (sp_hi x))"
    by (simp add: unicode_Is_def table_of_def mem bex_Un) blast
  also have "\<dots> \<longleftrightarrow> covered s (int r)" unfolding covered_def using assms one by (intro bex_cong) auto
  finally show ?thesis .
qed

text \<open>What \<open>unicode.Is\<close> needs of a table for its binary search: ranges in order without overlap, in the 16-bit half
  and then in the 32-bit half.\<close>

fun ordered :: "(nat \<times> nat) list \<Rightarrow> bool" where
  "ordered [] = True"
| "ordered [a] = (fst a \<le> snd a)"
| "ordered (a # b # r) = (fst a \<le> snd a \<and> snd a < fst b \<and> ordered (b # r))"

definition searchable :: "range_table \<Rightarrow> bool" where
  "searchable t \<longleftrightarrow> ordered (R16 t) \<and> list_all (\<lambda>a. snd a < 0x10000) (R16 t)
     \<and> ordered (R32 t) \<and> list_all (\<lambda>a. 0x10000 \<le> fst a) (R32 t)"

lemma orderedI: "sorted_wrt (\<lambda>a b. snd a < fst b) xs \<Longrightarrow> (\<And>a. a \<in> set xs \<Longrightarrow> fst a \<le> snd a) \<Longrightarrow> ordered xs"
  by (induction xs rule: ordered.induct) auto

lemma sorted_wrt_concat:
  assumes "sorted_wrt R xs" and "\<And>x. x \<in> set xs \<Longrightarrow> sorted_wrt Q (f x)"
    and "\<And>x y a b. R x y \<Longrightarrow> a \<in> set (f x) \<Longrightarrow> b \<in> set (f y) \<Longrightarrow> x \<in> set xs \<Longrightarrow> y \<in> set xs \<Longrightarrow> Q a b"
  shows "sorted_wrt Q (concat (map f xs))"
  using assms by (induction xs) (auto simp: sorted_wrt_append)

lemma ordered_ranges:
  assumes "canonical s"
    and "\<And>sp. valid_span sp \<Longrightarrow> sorted_wrt (\<lambda>a b. sp_hi a < sp_lo b) (f sp)"
    and "\<And>sp x. valid_span sp \<Longrightarrow> x \<in> set (f sp) \<Longrightarrow> 0 \<le> sp_lo x \<and> sp_lo x \<le> sp_hi x \<and> sp_lo sp \<le> sp_lo x \<and> sp_hi x \<le> sp_hi sp"
  shows "ordered (ranges (concat (map f s)))"
proof -
  have v: "\<And>sp. sp \<in> set s \<Longrightarrow> valid_span sp" and so: "sorted_wrt apart s" using assms(1) by (auto simp: canonical_def)
  have x: "0 \<le> sp_lo x \<and> sp_lo x \<le> sp_hi x" if "x \<in> set (concat (map f s))" for x
  proof -
    from that obtain sp where "sp \<in> set s" "x \<in> set (f sp)" by auto
    with v assms(3) show ?thesis by blast
  qed
  have "sp_hi a < sp_lo b" if "apart sp sq" "a \<in> set (f sp)" "b \<in> set (f sq)" "sp \<in> set s" "sq \<in> set s" for sp sq a b
    using assms(3) [OF v that(2)] assms(3) [OF v that(3)] that by (simp add: apart_def)
  then have "sorted_wrt (\<lambda>a b. sp_hi a < sp_lo b) (concat (map f s))"
    using v assms(2) by (intro sorted_wrt_concat [OF so]) auto
  then have "sorted_wrt (\<lambda>a b. nat (sp_hi a) < nat (sp_lo b)) (concat (map f s))"
    by (rule sorted_wrt_mono_rel [rotated]) (use x in force)
  then have "sorted_wrt (\<lambda>a b. snd a < fst b) (ranges (concat (map f s)))" by (simp add: ranges_def sorted_wrt_map)
  moreover have "fst a \<le> snd a" if "a \<in> set (ranges (concat (map f s)))" for a
  proof -
    from that obtain x where "x \<in> set (concat (map f s))" "a = (nat (sp_lo x), nat (sp_hi x))" by (auto simp: ranges_def)
    with x [of x] show ?thesis by (simp add: nat_mono)
  qed
  ultimately show ?thesis by (rule orderedI)
qed

lemma searchable_table_of:
  assumes "canonical s"
  shows "searchable (table_of s)"
proof -
  have "ordered (ranges (concat (map split16 s)))"
    by (rule ordered_ranges [OF assms]) (auto simp: split16_def valid_span_def split: if_splits)
  moreover have "ordered (ranges (concat (map split32 s)))"
    by (rule ordered_ranges [OF assms]) (auto simp: split32_def valid_span_def split: if_splits)
  moreover have "list_all (\<lambda>a. snd a < 0x10000) (R16 (table_of s))" "list_all (\<lambda>a. 0x10000 \<le> fst a) (R32 (table_of s))"
    by (auto simp: table_of_def ranges_def list_all_iff split16_def split32_def split: if_splits)
  ultimately show ?thesis by (simp add: searchable_def table_of_def)
qed

text \<open>The tables of \<open>tables.go\<close> are searchable.\<close>

lemma shipped_tables_searchable:
  "list_all searchable [propEmoji, propEmojiPresentation, propEmojiModifier, propEmojiModifierBase]"
  by (simp add: searchable_def propEmoji_def propEmojiPresentation_def propEmojiModifier_def propEmojiModifierBase_def)

subsection \<open>The data file\<close>

definition range_text :: "nat \<Rightarrow> nat \<Rightarrow> string" where
  "range_text l h = fmt_X 4 (int l) @ (if l = h then [] else ''..'' @ fmt_X 4 (int h))"

text \<open>A line of \<open>emoji-data.txt\<close>.  It lists nothing (a blank line, or a comment as in the header of the file and
  before each property), or it lists a code point or a range for a property, with spaces and tabs as the
  file has them for its columns, and often a comment.\<close>

datatype file_line =
    Remark string "string option"
  | Listing string nat nat string string string string "string option"

definition comment_text :: "string option \<Rightarrow> string" where
  "comment_text c = (case c of None \<Rightarrow> [] | Some t \<Rightarrow> CHR ''#'' # t)"

fun line_text :: "file_line \<Rightarrow> string" where
  "line_text (Remark sp c) = sp @ comment_text c"
| "line_text (Listing sp0 l h sp1 sp2 pn sp3 c) = sp0 @ range_text l h @ sp1 @ '';'' @ sp2 @ pn @ sp3 @ comment_text c"

definition gap :: "string \<Rightarrow> bool" where
  "gap s \<longleftrightarrow> list_all (\<lambda>c. c = CHR '' '' \<or> c = CHR 0x09) s"

definition name_char :: "char \<Rightarrow> bool" where
  "name_char c \<longleftrightarrow> \<not> is_space c \<and> c \<notin> set ''#;''"

definition text_line :: "string \<Rightarrow> bool" where
  "text_line l \<longleftrightarrow> CHR 0x0A \<notin> set l \<and> drop_cr l = l \<and> length l < 65536"

fun line_ok :: "file_line \<Rightarrow> bool" where
  "line_ok (Remark sp c) \<longleftrightarrow> gap sp \<and> text_line (line_text (Remark sp c))"
| "line_ok (Listing sp0 l h sp1 sp2 pn sp3 c) \<longleftrightarrow> gap sp0 \<and> gap sp1 \<and> gap sp2 \<and> gap sp3
     \<and> l \<le> h \<and> h \<le> 0x10FFFF \<and> pn \<noteq> [] \<and> list_all name_char pn
     \<and> text_line (line_text (Listing sp0 l h sp1 sp2 pn sp3 c))"

text \<open>Does the line list the code point for the property?\<close>

fun lists :: "string \<Rightarrow> nat \<Rightarrow> file_line \<Rightarrow> bool" where
  "lists name r (Remark sp c) \<longleftrightarrow> False"
| "lists name r (Listing sp0 l h sp1 sp2 pn sp3 c) \<longleftrightarrow> pn = name \<and> l \<le> r \<and> r \<le> h"

definition upper_hex :: "char \<Rightarrow> bool" where
  "upper_hex c \<longleftrightarrow> 48 \<le> byte c \<and> byte c \<le> 57 \<or> 65 \<le> byte c \<and> byte c \<le> 70"

lemma upper_hex_digits: "list_all upper_hex (hex_digits n)"
proof (induction n rule: hex_digits.induct)
  case (1 n)
  have d: "upper_hex (upper_digit d)" if "d < 16" for d :: nat
    using that by (auto simp: upper_hex_def upper_digit_def)
  with 1 show ?case by (cases "n < 16") (simp_all add: hex_digits.simps [of n])
qed

lemma upper_hex_fmt_X: "list_all upper_hex (fmt_X w (int n))"
  using upper_hex_digits [of n] by (auto simp: fmt_X_def pad_zeros_def list_all_iff upper_hex_def)

lemma fmt_X_nonempty: "fmt_X w (int n) \<noteq> []"
  using hex_digits_nonempty [of n] by (simp add: fmt_X_def pad_zeros_def)

lemma fmt_X_no_dot: "CHR ''.'' \<notin> set (fmt_X w (int n))"
  using upper_hex_fmt_X [of w n] by (auto simp: list_all_iff upper_hex_def)

lemma name_char_hex: "list_all name_char (fmt_X w (int n))"
  using upper_hex_fmt_X [of w n] by (auto simp: list_all_iff upper_hex_def name_char_def is_space_def)

lemma name_char_range: "list_all name_char (range_text l h)"
  using name_char_hex by (simp add: range_text_def name_char_def is_space_def)

lemma char_space: "is_space (CHR '' '')"
  by (simp add: is_space_def)

lemma name_char_no: "list_all name_char s \<Longrightarrow> CHR ''#'' \<notin> set s \<and> CHR '';'' \<notin> set s \<and> CHR '' '' \<notin> set s"
  unfolding list_all_iff
  by (rule conjI, metis list.set_intros(1) name_char_def, rule conjI,
      metis list.set_intros name_char_def, metis char_space name_char_def)

lemma TrimSpace_id: "s \<noteq> [] \<Longrightarrow> \<not> is_space (hd s) \<Longrightarrow> \<not> is_space (last s) \<Longrightarrow> TrimSpace s = s"
proof -
  assume a: "s \<noteq> []" "\<not> is_space (hd s)" "\<not> is_space (last s)"
  then have "dropWhile is_space s = s" by (cases s) auto
  moreover have "dropWhile is_space (rev s) = rev s" using a by (cases s rule: rev_cases) auto
  ultimately show ?thesis by (simp add: TrimSpace_def)
qed

lemma TrimSpace_spaces: "TrimSpace (CHR '' '' # s) = TrimSpace s" "s \<noteq> [] \<Longrightarrow> \<not> is_space (hd s) \<Longrightarrow> TrimSpace (s @ '' '') = TrimSpace s"
proof -
  show "TrimSpace (CHR '' '' # s) = TrimSpace s" by (simp add: TrimSpace_def is_space_def)
  assume "s \<noteq> []" "\<not> is_space (hd s)"
  then show "TrimSpace (s @ '' '') = TrimSpace s"
    by (cases s) (simp_all add: TrimSpace_def is_space_def)
qed

lemma cut_at_none: "c \<notin> set s \<Longrightarrow> cut_at (c # sep) s = None"
  by (induction s) (auto simp: HasPrefix_def)

lemma cut_at_found: "c \<notin> set s \<Longrightarrow> cut_at (c # sep) (s @ (c # sep) @ t) = Some (s, t)"
  by (induction s) (auto simp: HasPrefix_def)

lemma wrap32_point: "n \<le> 0x10FFFF \<Longrightarrow> wrap32 (int n) = int n"
  by (rule wrap32_id) simp_all

lemma TrimSpace_name: "list_all name_char s \<Longrightarrow> TrimSpace s = s"
proof (cases "s = []")
  case True
  then show ?thesis by (simp add: TrimSpace_def)
next
  case False
  assume "list_all name_char s"
  with False have "name_char (hd s)" "name_char (last s)" by (simp_all add: list_all_iff)
  with False show ?thesis by (intro TrimSpace_id) (simp_all add: name_char_def)
qed

lemma read_range:
  assumes "l \<le> h" and "h \<le> 0x10FFFF"
  shows "(case (case cut_at ''..'' (range_text l h) of Some ab \<Rightarrow> ab | None \<Rightarrow> (range_text l h, range_text l h)) of
    (lo, hi) \<Rightarrow> (ParseUint16 lo, ParseUint16 hi)) = (Some l, Some h)"
  using assms fmt_X_no_dot [of 4 l] cut_at_found [of "CHR ''.''" "fmt_X 4 (int l)" "''.''" "fmt_X 4 (int h)"]
  by (cases "l = h") (simp_all add: range_text_def cut_at_none ParseUint16_fmt_X)

lemma gap_chars: "gap s \<Longrightarrow> list_all is_space s \<and> CHR ''#'' \<notin> set s \<and> CHR '';'' \<notin> set s"
  by (induction s) (auto simp: gap_def is_space_def)

lemma dropWhile_gap: "gap s \<Longrightarrow> dropWhile is_space (s @ t) = dropWhile is_space t"
  by (induction s) (auto simp: gap_def is_space_def)

lemma TrimSpace_gaps:
  assumes "gap a" and "gap b" and "s \<noteq> []" and "\<not> is_space (hd s)" and "\<not> is_space (last s)"
  shows "TrimSpace (a @ s @ b) = s"
proof -
  have "gap (rev b)" using assms(2) by (simp add: gap_def)
  then have "dropWhile is_space (rev b @ rev s) = rev s"
    using assms(3,5) dropWhile_gap [of "rev b" "rev s"] by (cases s rule: rev_cases) auto
  moreover have "dropWhile is_space (a @ s @ b) = s @ b"
    using assms(3,4) dropWhile_gap [OF assms(1), of "s @ b"] by (cases s) auto
  ultimately show ?thesis by (simp add: TrimSpace_def)
qed

lemma TrimSpace_gap: "gap s \<Longrightarrow> TrimSpace s = []"
  using gap_chars [of s] by (auto simp: TrimSpace_def list_all_iff dest: set_dropWhileD)

lemma takeWhile_comment: "CHR ''#'' \<notin> set s \<Longrightarrow> takeWhile (\<lambda>x. x \<noteq> CHR ''#'') (s @ comment_text c) = s"
  by (cases c) (auto simp: comment_text_def takeWhile_append_found intro: takeWhile_eq_all_conv [THEN iffD2])

text \<open>A line that lists nothing is passed over, and one that lists something adds it.\<close>

lemma data_line_remark: "gap sp \<Longrightarrow> data_line props (line_text (Remark sp c)) = Some props"
  by (simp add: data_line_def takeWhile_comment gap_chars TrimSpace_gap)

lemma data_line_listing:
  assumes "line_ok (Listing sp0 l h sp1 sp2 pn sp3 c)"
  shows "data_line props (line_text (Listing sp0 l h sp1 sp2 pn sp3 c))
    = Some (props(pn := props pn @ [\<lparr>sp_lo = int l, sp_hi = int h\<rparr>]))"
proof -
  let ?r = "range_text l h"
  from assms have g: "gap sp0" "gap sp1" "gap sp2" "gap sp3" and p: "pn \<noteq> []" "list_all name_char pn" "l \<le> h" "h \<le> 0x10FFFF"
    by simp_all
  have r: "list_all name_char ?r" "?r \<noteq> []" using name_char_range fmt_X_nonempty by (simp_all add: range_text_def)
  have ends: "\<not> is_space (hd ?r)" "\<not> is_space (last ?r)" "\<not> is_space (hd pn)" "\<not> is_space (last pn)"
    using r p by (auto simp: list_all_iff name_char_def)
  have "takeWhile (\<lambda>x. x \<noteq> CHR ''#'') (line_text (Listing sp0 l h sp1 sp2 pn sp3 c)) = sp0 @ (?r @ sp1 @ '';'' @ sp2 @ pn) @ sp3"
    using takeWhile_comment [of "sp0 @ (?r @ sp1 @ '';'' @ sp2 @ pn) @ sp3" c] name_char_no [OF r(1)] name_char_no [OF p(2)]
      g [THEN gap_chars] by simp
  moreover have "TrimSpace (sp0 @ (?r @ sp1 @ '';'' @ sp2 @ pn) @ sp3) = ?r @ sp1 @ '';'' @ sp2 @ pn"
    using TrimSpace_gaps [OF g(1,4), of "?r @ sp1 @ '';'' @ sp2 @ pn"] r(2) p(1) ends by simp
  moreover have "Split (CHR '';'') (?r @ sp1 @ '';'' @ sp2 @ pn) = [?r @ sp1, sp2 @ pn]"
    using Split_append_sep [of "CHR '';''" "?r @ sp1" "sp2 @ pn"] name_char_no [OF r(1)] name_char_no [OF p(2)] g [THEN gap_chars]
    by (simp add: Split_no_sep)
  moreover have "TrimSpace (?r @ sp1) = ?r" "TrimSpace (sp2 @ pn) = pn"
    using TrimSpace_gaps [of "[]" sp1 ?r] TrimSpace_gaps [of sp2 "[]" pn] g r(2) p(1) ends by (simp_all add: gap_def)
  ultimately show ?thesis using read_range [OF p(3,4)] r(2) p(3,4)
    by (auto simp: data_line_def Let_def wrap32_point split: prod.splits)
qed

lemma Split_lines:
  "(\<And>l. l \<in> set ls \<Longrightarrow> c \<notin> set l) \<Longrightarrow> Split c (concat (map (\<lambda>l. l @ [c]) ls)) = ls @ [[]]"
  by (induction ls) (simp_all add: Split_append_sep)

definition file_of :: "string list \<Rightarrow> string" where
  "file_of ls = concat (map (\<lambda>l. l @ [CHR 0x0A]) ls)"

lemma scan_lines_file: "list_all text_line ls \<Longrightarrow> scan_lines (file_of ls) = ls"
proof -
  assume a: "list_all text_line ls"
  then have "Split (CHR 0x0A) (file_of ls) = ls @ [[]]"
    unfolding file_of_def by (intro Split_lines) (auto simp: text_line_def list_all_iff)
  moreover have "takeWhile (\<lambda>l. length l < 65536) ls = ls"
    using a by (auto simp: text_line_def list_all_iff takeWhile_eq_all_conv)
  moreover have "map drop_cr ls = ls" using a by (auto simp: text_line_def list_all_iff intro: map_idI)
  ultimately show ?thesis by (simp add: scan_lines_def Let_def del: takeWhile_eq_all_conv)
qed

lemma char_newline: "is_space (CHR 0x0A)"
  by (simp add: is_space_def)

lemma name_char_newline: "list_all name_char s \<Longrightarrow> CHR 0x0A \<notin> set s"
  by (metis char_newline list_all_iff name_char_def)

lemma drop_cr_append: "drop_cr t = t \<Longrightarrow> t \<noteq> [] \<Longrightarrow> drop_cr (s @ t) = s @ t"
  by (auto simp: drop_cr_def split: if_splits) (metis append_butlast_last_id append_self_conv list.discI)

lemma drop_cr_comment: "drop_cr c = c \<Longrightarrow> drop_cr (s @ '' # '' @ c) = s @ '' # '' @ c"
  using drop_cr_append [of "if c = [] then '' '' else c" "s @ '' #'' @ (if c = [] then [] else '' '')"]
  by (cases "c = []") (simp_all add: drop_cr_def)

definition listed :: "file_line list \<Rightarrow> string \<Rightarrow> span list" where
  "listed ls name = concat (map (\<lambda>x. case x of Remark sp c \<Rightarrow> []
     | Listing sp0 l h sp1 sp2 pn sp3 c \<Rightarrow> if pn = name then [\<lparr>sp_lo = int l, sp_hi = int h\<rparr>] else []) ls)"

lemma fold_data_lines:
  "list_all line_ok ls \<Longrightarrow> fold_opt data_line props (map line_text ls) = Some (\<lambda>name. props name @ listed ls name)"
proof (induction ls arbitrary: props)
  case Nil
  then show ?case by (simp add: listed_def)
next
  case (Cons x ls)
  show ?case
  proof (cases x)
    case (Remark sp c)
    with Cons show ?thesis using data_line_remark [of sp props c] by (simp add: listed_def)
  next
    case (Listing sp0 l h sp1 sp2 pn sp3 c)
    with Cons show ?thesis using data_line_listing [of sp0 l h sp1 sp2 pn sp3 c props]
      by (auto simp: listed_def simp del: line_text.simps line_ok.simps)
  qed
qed

lemma line_ok_text: "line_ok x \<Longrightarrow> text_line (line_text x)"
  by (cases x) simp_all

lemma parseData_file:
  assumes "list_all line_ok ls"
  shows "parseData (file_of (map line_text ls)) = Some (\<lambda>name. merge_sorted (sort_key sp_lo (listed ls name)))"
proof -
  have "list_all text_line (map line_text ls)"
    using assms line_ok_text by (auto simp: list_all_iff)
  from scan_lines_file [OF this] show ?thesis by (simp add: parseData_def fold_data_lines [OF assms])
qed

lemma listed_valid:
  assumes "list_all line_ok ls"
  shows "\<forall>sp \<in> set (listed ls name). valid_span sp"
  using assms by (induction ls) (auto simp: listed_def valid_span_def split: file_line.splits if_splits)

lemma listed_covered:
  "covered (listed ls name) (int r) \<longleftrightarrow> list_ex (lists name r) ls"
  by (induction ls) (auto simp: listed_def split: file_line.split)

subsection \<open>The source text\<close>

text \<open>A range that is written is read back as it was.\<close>

lemma cut_at_head: "c \<notin> set s \<Longrightarrow> cut_at (c # sep) (s @ c # (sep @ t)) = Some (s, t)"
  using cut_at_found [of c s sep t] by simp

lemma read_range_line_text:
  assumes "0 \<le> sp_lo sp" and "sp_lo sp < 2 ^ 32" and "0 \<le> sp_hi sp" and "sp_hi sp < 2 ^ 32"
  shows "read_range_line (range_line w sp) = Some (nat (sp_lo sp), nat (sp_hi sp))"
proof -
  have comma: "CHR '','' \<notin> set (fmt_X w i)" if "0 \<le> i" for i
    using upper_hex_fmt_X [of w "nat i"] that by (auto simp: list_all_iff upper_hex_def)
  have lo: "cut_at '', 0x'' (fmt_X w (sp_lo sp) @ '', 0x'' @ fmt_X w (sp_hi sp) @ '', 1},'') = Some (fmt_X w (sp_lo sp), fmt_X w (sp_hi sp) @ '', 1},'')"
    using cut_at_head [OF comma [OF assms(1)], of "'' 0x''" "fmt_X w (sp_hi sp) @ '', 1},''"] by simp
  have hi: "cut_at '', '' (fmt_X w (sp_hi sp) @ '', 1},'') = Some (fmt_X w (sp_hi sp), ''1},'')"
    using cut_at_head [OF comma [OF assms(3)], of "'' ''" "''1},''"] by simp
  have "dropWhile (\<lambda>c. c = CHR 0x09) (range_line w sp)
      = ''{0x'' @ fmt_X w (sp_lo sp) @ '', 0x'' @ fmt_X w (sp_hi sp) @ '', 1},''"
    by (simp add: range_line_def)
  then show ?thesis using lo hi assms by (simp add: read_range_line_def HasPrefix_def ParseUint16_fmt_X)
qed

lemma range_line_open: "range_line w sp \<noteq> CHR 0x09 # ''},''"
  by (simp add: range_line_def)

lemma read_ranges_text:
  assumes "\<forall>sp \<in> set sps. valid_span sp"
  shows "read_ranges (map (range_line w) sps @ (CHR 0x09 # ''},'') # ls) = Some (ranges sps, ls)"
  using assms
proof (induction sps)
  case Nil
  show ?case by (simp add: ranges_def)
next
  case (Cons sp sps)
  then have "read_range_line (range_line w sp) = Some (nat (sp_lo sp), nat (sp_hi sp))"
    by (intro read_range_line_text) (auto simp: valid_span_def)
  with Cons show ?case by (simp add: range_line_open ranges_def)
qed

abbreviation goName :: "string \<Rightarrow> string" where
  "goName name \<equiv> ''prop'' @ RemoveChar (CHR ''_'') name"

lemma split_valid:
  assumes "\<forall>sp \<in> set s. valid_span sp"
  shows "\<forall>sp \<in> set (concat (map split16 s)). valid_span sp \<and> sp_hi sp < 0x10000" "\<forall>sp \<in> set (concat (map split32 s)). valid_span sp"
  using assms by (auto simp: split16_def split32_def valid_span_def split: if_splits)

lemma read_writeTable:
  assumes "\<forall>sp \<in> set s. valid_span sp"
  shows "read_table (goName name) (writeTable name s @ src) = Some (table_of s)"
proof -
  let ?decl = "''var '' @ goName name @ '' = &unicode.RangeTable{''"
  have d: "dropWhile (\<lambda>l. l \<noteq> ?decl) (writeTable name s @ src)
      = ?decl # (CHR 0x09 # ''R16: []unicode.Range16{'') # map (range_line 4) (concat (map split16 s)) @ (CHR 0x09 # ''},'')
        # (CHR 0x09 # ''R32: []unicode.Range32{'') # map (range_line 0) (concat (map split32 s)) @ (CHR 0x09 # ''},'') # ''}'' # src"
    by (simp add: writeTable_def Let_def)
  have small: "list_all (\<lambda>(lo, hi). lo < 0x10000 \<and> hi < 0x10000) (ranges (concat (map split16 s)))"
  proof -
    have "nat (sp_lo sp) < 0x10000 \<and> nat (sp_hi sp) < 0x10000" if "sp \<in> set (concat (map split16 s))" for sp
    proof -
      from split_valid(1) [OF assms] that have "sp_lo sp \<le> sp_hi sp \<and> sp_hi sp < 0x10000" by (auto simp: valid_span_def)
      then show ?thesis by linarith
    qed
    then show ?thesis by (simp add: ranges_def list_all_iff del: set_concat)
  qed
  have r: "read_ranges (map (range_line 4) (concat (map split16 s)) @ (CHR 0x09 # ''},'') # ls) = Some (ranges (concat (map split16 s)), ls)"
    "read_ranges (map (range_line 0) (concat (map split32 s)) @ (CHR 0x09 # ''},'') # ls) = Some (ranges (concat (map split32 s)), ls)" for ls
    using split_valid [OF assms] read_ranges_text by (simp_all del: set_concat map_concat)
  show ?thesis unfolding read_table_def d list.case r by (simp add: small table_of_def r del: map_concat)
qed

text \<open>A table is found behind other declarations.\<close>

lemma read_table_skip:
  "''var '' @ name @ '' = &unicode.RangeTable{'' \<notin> set ls \<Longrightarrow> read_table name (ls @ src) = read_table name src"
proof -
  assume "''var '' @ name @ '' = &unicode.RangeTable{'' \<notin> set ls"
  then have "dropWhile (\<lambda>l. l \<noteq> ''var '' @ name @ '' = &unicode.RangeTable{'') (ls @ src)
      = dropWhile (\<lambda>l. l \<noteq> ''var '' @ name @ '' = &unicode.RangeTable{'') src"
    by (intro dropWhile_append2) blast
  then show ?thesis by (simp only: read_table_def)
qed

lemma writeTable_decl:
  assumes "''var '' @ goName other @ '' = &unicode.RangeTable{'' \<in> set (writeTable name s)"
  shows "RemoveChar (CHR ''_'') other = RemoveChar (CHR ''_'') name"
  using assms by (auto simp: writeTable_def Let_def range_line_def)

lemma read_tables:
  assumes "\<forall>name. \<forall>sp \<in> set (props name). valid_span sp" and "distinct (map (RemoveChar (CHR ''_'')) names)" and "n \<in> set names"
  shows "read_table (goName n) (concat (map (\<lambda>name. writeTable name (props name)) names)) = Some (table_of (props n))"
  using assms(2,3)
proof (induction names)
  case (Cons name names)
  show ?case
  proof (cases "n = name")
    case True
    with read_writeTable [of "props name" name] assms(1) show ?thesis by simp
  next
    case False
    with Cons.prems have n: "n \<in> set names" by simp
    then have "RemoveChar (CHR ''_'') n \<in> set (map (RemoveChar (CHR ''_'')) names)" unfolding set_map by (rule imageI)
    with Cons.prems(1) have "RemoveChar (CHR ''_'') n \<noteq> RemoveChar (CHR ''_'') name" by auto
    then have "read_table (goName n) (writeTable name (props name) @ src) = read_table (goName n) src" for src
      using writeTable_decl [of n name "props name"] by (intro read_table_skip) blast
    with n Cons.IH Cons.prems(1) show ?thesis by (simp del: append_assoc)
  qed
qed simp

lemma read_gen_source:
  assumes "parseTest test = Some (rgi, version)" and "parseData data = Some props"
    and "\<forall>name. \<forall>sp \<in> set (props name). valid_span sp" and "name \<in> set propNames"
  shows "\<exists>src. gen_source quote test data = Some src \<and> read_table (goName name) src = Some (table_of (props name))"
proof -
  define tables where "tables = concat (map (\<lambda>name. writeTable name (props name)) propNames)"
  obtain hdr where src: "gen_source quote test data = Some (hdr @ tables)"
    and "\<forall>l \<in> set hdr. \<not> HasPrefix l ''var prop''"
  proof
    show "gen_source quote test data = Some (([''// Code generated by internal/emoji/gen from Unicode Emoji '' @ version @ ''; DO NOT EDIT.'', [],
         ''package emoji'', [], ''import '' @ [CHR 0x22] @ ''unicode'' @ [CHR 0x22], [],
         ''// Version is the Unicode Emoji version the tables were generated from.'',
         ''const Version = '' @ quote version, [],
         ''// rgi is the RGI_Emoji set (UTS #51): every fully-qualified emoji sequence.'',
         ''var rgi = map[string]struct{}{'']
        @ map (\<lambda>s. CHR 0x09 # quote s @ '': {},'') rgi @ [''}'']) @ tables)"
      by (simp add: gen_source_def assms(1,2) tables_def)
  qed (auto simp: HasPrefix_def)
  then have "''var '' @ goName name @ '' = &unicode.RangeTable{'' \<notin> set hdr" by (force simp: HasPrefix_def)
  then have "read_table (goName name) (hdr @ tables) = read_table (goName name) tables" by (rule read_table_skip)
  moreover have "distinct (map (RemoveChar (CHR ''_'')) propNames)" by code_simp
  with read_tables [OF assms(3) _ assms(4)] have "read_table (goName name) tables = Some (table_of (props name))"
    by (simp add: tables_def)
  ultimately show ?thesis using src by simp
qed

text \<open>C34: from the data file, over the text of \<open>tables.go\<close>, to the scanner.  For every \<open>emoji-data.txt\<close> made of comments,
  blank lines and listings, in whatever order and overlap and with whatever spacing, and every test file that
  can be read, the generator succeeds.  The table that the source it writes declares for a property, read by
  Go's rules, holds exactly the code points the file lists for that property, and its ranges are in
  the order the search of \<open>unicode.Is\<close> needs.\<close>

theorem emoji_tables:
  assumes "list_all line_ok ls" and "parseTest test \<noteq> None"
  shows "\<exists>src. gen_source quote test (file_of (map line_text ls)) = Some src
    \<and> (\<forall>name \<in> set propNames. \<exists>t. read_table (''prop'' @ RemoveChar (CHR ''_'') name) src = Some t
        \<and> (\<forall>r. unicode_Is t r \<longleftrightarrow> list_ex (lists name r) ls) \<and> searchable t)"
proof -
  obtain rgi version where test: "parseTest test = Some (rgi, version)" using assms(2) by auto
  let ?props = "\<lambda>name. merge_sorted (sort_key sp_lo (listed ls name))"
  have m: "canonical (?props name)" "covered (?props name) = covered (listed ls name)" for name
    using merge_sorted_canonical [of "sort_key sp_lo (listed ls name)"] listed_valid [OF assms(1)]
    by (simp_all add: covered_def fun_eq_iff)
  then have v: "\<forall>name. \<forall>sp \<in> set (?props name). valid_span sp" by (simp add: canonical_def)
  have look: "unicode_Is (table_of (?props name)) r \<longleftrightarrow> list_ex (lists name r) ls" for name r
    using m [of name] v by (subst unicode_Is_table) (auto simp: listed_covered)
  note read = read_gen_source [OF test parseData_file [OF assms(1)] v, of _ quote]
  have "''Emoji'' \<in> set propNames" by (simp add: propNames_def)
  from read [OF this] obtain src where src: "gen_source quote test (file_of (map line_text ls)) = Some src" by blast
  with read look searchable_table_of [OF m(1)] show ?thesis by fastforce
qed

text \<open>The beginning of the real file's layout, and entries out of order, one across the boundary of 16 bits.\<close>

definition example_lines :: "file_line list" where
  "example_lines = [Remark [] (Some '' emoji-data.txt''), Remark [] (Some []), Remark [] None,
     Listing [] 0xFFF0 0x1F600 ''    '' '' '' ''Emoji'' ''                '' (Some '' E0.0   [1]       hash sign''),
     Listing '' '' 0x23 0x23 ''          '' '' '' ''Emoji'' [CHR 0x09] None, Remark '' '' None,
     Listing [] 0x24 0x2A [] [] ''Emoji'' [] (Some []), Remark [] (Some ''EOF'')]"

theorem emoji_tables_witness:
  "\<exists>src t. gen_source (\<lambda>s. s) [] (file_of (map line_text example_lines)) = Some src
     \<and> read_table ''propEmoji'' src = Some t \<and> unicode_Is t 0x10000 \<and> \<not> unicode_Is t 0x2B"
proof -
  have digit: "CHR 0x0A \<noteq> upper_digit d" if "d < 16" for d
    using name_char_newline [OF name_char_hex [of 0 d]] that by (simp add: fmt_X_def pad_zeros_def hex_digits.simps [of d])
  have "list_all line_ok example_lines"
    by (simp add: example_lines_def gap_def name_char_def is_space_def drop_cr_def text_line_def comment_text_def range_text_def
        fmt_X_def pad_zeros_def hex_digits.simps digit)
  moreover have "parseTest [] \<noteq> None" by (simp add: parseTest_def scan_lines_def)
  moreover have "''Emoji'' \<in> set propNames" "''prop'' @ RemoveChar (CHR ''_'') ''Emoji'' = ''propEmoji''"
    by (simp_all add: propNames_def RemoveChar_def)
  ultimately obtain src t where "gen_source (\<lambda>s. s) [] (file_of (map line_text example_lines)) = Some src"
    "read_table ''propEmoji'' src = Some t" "\<forall>r. unicode_Is t r \<longleftrightarrow> list_ex (lists ''Emoji'' r) example_lines"
    using emoji_tables [of example_lines "[]" "\<lambda>s. s"] by metis
  then show ?thesis by (auto simp: example_lines_def)
qed

subsection \<open>The test file\<close>

text \<open>A line of \<open>emoji-test.txt\<close>: the code points of a sequence, its status and a comment.\<close>

definition test_text :: "nat list \<times> string \<times> string \<Rightarrow> string" where
  "test_text e = (case e of (cps, status, comment) \<Rightarrow>
     concat (map (\<lambda>cp. fmt_X 4 (int cp) @ '' '') cps) @ ''; '' @ status @ '' # '' @ comment)"

definition scalar :: "nat \<Rightarrow> bool" where
  "scalar n \<longleftrightarrow> n < 0xD800 \<or> 0xDFFF < n \<and> n \<le> 0x10FFFF"

definition test_entry :: "nat list \<times> string \<times> string \<Rightarrow> bool" where
  "test_entry e = (case e of (cps, status, comment) \<Rightarrow> list_all scalar cps \<and> list_all name_char status
     \<and> CHR 0x0A \<notin> set comment \<and> drop_cr comment = comment \<and> length (test_text e) < 65536)"

lemma byte_char_of: "n < 256 \<Longrightarrow> byte (char_of n) = n"
  by simp

lemma utf8_step_two:
  assumes "0x80 \<le> n" and "n < 0x800"
  shows "utf8_step ((192 + n div 64) # (128 + n mod 64) # t) = Some (n, t)"
proof -
  have "n div 64 < 32" "2 \<le> n div 64" using assms by auto
  then show ?thesis by (simp add: cont_byte_def)
qed

lemma utf8_step_three:
  assumes "0x800 \<le> n" and "n < 0x10000" and "scalar n"
  shows "utf8_step ((224 + n div 4096) # (128 + n div 64 mod 64) # (128 + n mod 64) # t) = Some (n, t)"
proof -
  define q p where "q = n div 64" and "p = q div 64"
  have d: "n div 4096 = p" by (simp add: q_def p_def flip: div_mult2_eq)
  have n: "n = 64 * q + n mod 64" "q = 64 * p + q mod 64" "n mod 64 < 64" "q mod 64 < 64" by (simp_all add: q_def p_def)
  have "p < 16" "32 \<le> q" "p = 13 \<longrightarrow> q mod 64 < 32" "p = 0 \<longrightarrow> 32 \<le> q mod 64" using assms n by (auto simp: scalar_def)
  then show ?thesis using n unfolding d q_def [symmetric] by (auto simp: cont_byte_def)
qed

lemma utf8_step_four:
  assumes "0x10000 \<le> n" and "n \<le> 0x10FFFF"
  shows "utf8_step ((240 + n div 262144) # (128 + n div 4096 mod 64) # (128 + n div 64 mod 64) # (128 + n mod 64) # t) = Some (n, t)"
proof -
  define q p u where "q = n div 64" and "p = q div 64" and "u = p div 64"
  have d: "n div 4096 = p" "n div 262144 = u" by (simp_all add: q_def p_def u_def flip: div_mult2_eq)
  have n: "n = 64 * q + n mod 64" "q = 64 * p + q mod 64" "p = 64 * u + p mod 64" "n mod 64 < 64" "q mod 64 < 64" "p mod 64 < 64"
    by (simp_all add: q_def p_def u_def)
  have "u < 5" "u = 0 \<longrightarrow> 16 \<le> p mod 64" "u = 4 \<longrightarrow> p mod 64 < 16" using assms n by auto
  then show ?thesis using n unfolding d q_def [symmetric] by (auto simp: cont_byte_def)
qed

lemma utf8_WriteRune:
  assumes "scalar n"
  shows "utf8_step (bytes_of (WriteRune (int n)) @ t) = Some (n, t)"
proof -
  have b: "n div 64 < 64 * 272" "n \<le> 0x10FFFF" using assms by (auto simp: scalar_def)
  have b4: "n div 262144 < 5" using b(2) by simp
  consider "n < 0x80" | "0x80 \<le> n" "n < 0x800" | "0x800 \<le> n" "n < 0x10000" | "0x10000 \<le> n" by linarith
  then show ?thesis
  proof cases
    case 1
    then show ?thesis by (simp add: WriteRune_def bytes_of_def)
  next
    case 2
    then have "n div 64 < 32" by simp
    with 2 utf8_step_two [OF 2] show ?thesis by (simp add: WriteRune_def bytes_of_def byte_char_of del: utf8_step.simps)
  next
    case 3
    then have "n div 4096 < 16" by simp
    from assms have "n < 0xD800 \<or> 0xDFFF < n" by (auto simp: scalar_def)
    with \<open>n div 4096 < 16\<close> 3 utf8_step_three [OF 3 assms] show ?thesis
      by (elim disjE) (simp_all add: WriteRune_def bytes_of_def byte_char_of del: utf8_step.simps)
  next
    case 4
    with b4 b(2) utf8_step_four [OF 4 b(2)] show ?thesis
      by (simp add: WriteRune_def bytes_of_def byte_char_of del: utf8_step.simps)
  qed
qed

definition sequence_of :: "nat list \<Rightarrow> string" where
  "sequence_of cps = concat (map (\<lambda>cp. WriteRune (int cp)) cps)"

text \<open>A sequence written rune by rune is read back as its code points.\<close>

lemma utf8_sequence: "list_all scalar cps \<Longrightarrow> utf8_runes (sequence_of cps) = Some cps"
proof (induction cps)
  case Nil
  then show ?case by (simp add: sequence_of_def utf8_runes_def bytes_of_def)
next
  case (Cons n cps)
  then have "utf8_step (bytes_of (sequence_of (n # cps))) = Some (n, bytes_of (sequence_of cps))"
    using utf8_WriteRune [of n "bytes_of (sequence_of cps)"] by (simp add: sequence_of_def bytes_of_def)
  moreover from this have "bytes_of (sequence_of (n # cps)) \<noteq> []" by auto
  ultimately show ?case using Cons by (simp add: utf8_runes_def utf8_decode.simps [of "bytes_of (sequence_of (n # cps))"])
qed

lemma fields_word:
  "w \<noteq> [] \<or> acc \<noteq> [] \<Longrightarrow> \<forall>c \<in> set w. \<not> is_space c \<Longrightarrow> fields_acc acc (w @ CHR '' '' # s) = (rev acc @ w) # fields_acc [] s"
  by (induction w arbitrary: acc) (simp_all add: char_space)

abbreviation code_points :: "nat list \<Rightarrow> string" where
  "code_points cps \<equiv> concat (map (\<lambda>cp. fmt_X 4 (int cp) @ '' '') cps)"

lemma Fields_code_points: "Fields (code_points cps) = map (\<lambda>cp. fmt_X 4 (int cp)) cps"
proof (induction cps)
  case (Cons n cps)
  have "\<forall>c \<in> set (fmt_X 4 (int n)). \<not> is_space c" using name_char_hex [of 4 n] by (simp add: list_all_iff name_char_def)
  with Cons fields_word [of "fmt_X 4 (int n)" "[]" "code_points cps"] show ?case
    by (simp add: Fields_def fmt_X_nonempty)
qed (simp add: Fields_def)

lemma runes_of_hex: "list_all scalar cps \<Longrightarrow> runes_of (map (\<lambda>cp. fmt_X 4 (int cp)) cps) = Some (sequence_of cps)"
  by (induction cps) (auto simp: sequence_of_def ParseUint16_fmt_X wrap32_point scalar_def)

lemma code_points_chars: "c \<in> set (code_points cps) \<Longrightarrow> c \<noteq> CHR '';'' \<and> c \<noteq> CHR ''#'' \<and> c \<noteq> CHR 0x0A"
  using name_char_no [OF name_char_hex] name_char_newline [OF name_char_hex] by (induction cps) auto

lemma IndexByte_append: "c \<notin> set a \<Longrightarrow> IndexByte (a @ c # b) c = Some (length a)"
  by (simp add: IndexByte_def takeWhile_append_found)

lemma test_line_text:
  assumes "test_entry (cps, status, comment)"
  shows "test_line (seqs, v) (test_text (cps, status, comment))
    = Some (if status = ''fully-qualified'' then seqs @ [sequence_of cps] else seqs, v)"
proof -
  let ?p = "code_points cps"
  from assms have e: "list_all scalar cps" "list_all name_char status" by (auto simp: test_entry_def)
  have t: "test_text (cps, status, comment) = ?p @ CHR '';'' # '' '' @ status @ '' # '' @ comment" by (simp add: test_text_def)
  have hd: "\<not> HasPrefix (test_text (cps, status, comment)) (CHR ''#'' # x)" for x
    unfolding t using code_points_chars [of "CHR ''#''" cps] by (cases ?p) (auto simp: HasPrefix_def)
  have semi: "IndexByte (test_text (cps, status, comment)) (CHR '';'') = Some (length ?p)"
    unfolding t by (rule IndexByte_append) (use code_points_chars in blast)
  have hash: "IndexByte (test_text (cps, status, comment)) (CHR ''#'') = Some (length ?p + 3 + length status)"
  proof -
    define P where "P = ?p"
    have "CHR ''#'' \<notin> set P" using code_points_chars P_def by blast
    then show ?thesis using IndexByte_append [of "CHR ''#''" "P @ ''; '' @ status @ '' ''" "CHR '' '' # comment"] name_char_no [OF e(2)]
      unfolding t P_def [symmetric] by (simp add: add.assoc)
  qed
  have "TrimSpace (CHR '' '' # status @ '' '') = status"
    using TrimSpace_name [OF e(2)] e(2) TrimSpace_spaces
    by (cases "status = []") (auto simp: list_all_iff name_char_def TrimSpace_def char_space)
  then show ?thesis
    using hd [of "[]"] hd [of "'' Version:''"] semi hash runes_of_hex [OF e(1)] Fields_code_points [of cps]
    by (simp add: test_line_def Let_def t)
qed

lemma test_entry_line:
  assumes "test_entry (cps, status, comment)"
  shows "text_line (test_text (cps, status, comment))"
proof -
  from assms have st: "CHR 0x0A \<notin> set status" "CHR 0x0A \<notin> set comment" "drop_cr comment = comment"
    "length (test_text (cps, status, comment)) < 65536" by (simp_all add: test_entry_def name_char_newline)
  define P where "P = code_points cps"
  have "CHR 0x0A \<notin> set P" using code_points_chars P_def by blast
  with st have "CHR 0x0A \<notin> set (P @ ''; '' @ status @ '' # '' @ comment)" by simp
  moreover have "drop_cr (P @ ''; '' @ status @ '' # '' @ comment) = P @ ''; '' @ status @ '' # '' @ comment"
    using drop_cr_comment [OF st(3), of "P @ ''; '' @ status"] by simp
  ultimately show ?thesis using st(4) unfolding test_text_def text_line_def prod.case P_def by blast
qed

lemma fold_test_lines:
  "list_all test_entry es \<Longrightarrow> fold_opt test_line (seqs, v) (map test_text es)
     = Some (seqs @ map (\<lambda>(cps, status, comment). sequence_of cps) (filter (\<lambda>(cps, status, comment). status = ''fully-qualified'') es), v)"
proof (induction es arbitrary: seqs)
  case (Cons e es)
  obtain cps st c where e: "e = (cps, st, c)" by (cases e)
  with Cons show ?case by (simp add: test_line_text)
qed simp

text \<open>The RGI set: the generator keeps exactly the fully-qualified sequences of the file, each as the UTF-8 text
  that decodes to the code points listed, in order of their bytes.\<close>

theorem emoji_sequences:
  assumes "list_all test_entry es"
  shows "\<exists>seqs. parseTest (file_of (map test_text es)) = Some (seqs, ''unknown'') \<and> sorted seqs
    \<and> mset (map utf8_runes seqs) = mset (map (\<lambda>(cps, status, comment). Some cps)
        (filter (\<lambda>(cps, status, comment). status = ''fully-qualified'') es))"
proof -
  let ?fq = "filter (\<lambda>(cps, status, comment). status = ''fully-qualified'') es"
  let ?s = "map (\<lambda>(cps, status, comment). sequence_of cps) ?fq"
  have "list_all text_line (map test_text es)" using assms test_entry_line by (auto simp: list_all_iff)
  from scan_lines_file [OF this] have run: "parseTest (file_of (map test_text es)) = Some (sort ?s, ''unknown'')"
    by (simp add: parseTest_def fold_test_lines [OF assms])
  have "map utf8_runes (map (\<lambda>(cps, status, comment). sequence_of cps) fq) = map (\<lambda>(cps, status, comment). Some cps) fq"
    if "set fq \<subseteq> set es" for fq
    using assms that by (fastforce simp: list_all_iff test_entry_def utf8_sequence)
  from this [of ?fq] have "map utf8_runes ?s = map (\<lambda>(cps, status, comment). Some cps) ?fq" by simp
  moreover have "mset (map utf8_runes (sort ?s)) = mset (map utf8_runes ?s)" by (simp only: mset_map mset_sort)
  ultimately have "mset (map utf8_runes (sort ?s)) = mset (map (\<lambda>(cps, status, comment). Some cps) ?fq)" by (simp only:)
  with run show ?thesis by (intro exI [of _ "sort ?s"]) simp
qed

definition example_sequences :: "(nat list \<times> string \<times> string) list" where
  "example_sequences = [([0x263A, 0xFE0F], ''fully-qualified'', ''E0.6''), ([0x263A], ''unqualified'', []), ([0x1F600], ''fully-qualified'', [])]"

theorem emoji_sequences_witness:
  "\<exists>seqs. parseTest (file_of (map test_text example_sequences)) = Some (seqs, ''unknown'')
     \<and> mset (map utf8_runes seqs) = {#Some [0x263A, 0xFE0F], Some [0x1F600]#}"
proof -
  have "list_all test_entry example_sequences"
    by (simp add: example_sequences_def test_entry_def scalar_def name_char_def is_space_def drop_cr_def test_text_def
        fmt_X_def pad_zeros_def hex_digits.simps)
  from emoji_sequences [OF this] show ?thesis by (auto simp: example_sequences_def)
qed

end
