(* ===== verification/Spec2Isabelle.thy ===== *)
theory Spec2Isabelle
  imports Events GrantRaces EmojiGen
begin

text \<open>
  A verification development for fmsg-webapi, the HTTP API in front of an fmsg host: messages, mailboxes,
  attachments, reactions and presence for people and their agents, over the PostgreSQL database that the host
  program fmsgd also uses, with the identity service fmsgid beside it.  Paths below are under \<open>src/\<close>;
  definitions keep the names of the Go functions, and a clash with a library name is resolved by a suffix or by
  the package in front.

  \<^bold>\<open>How the program is put together.\<close>  \<open>main\<close> reads the environment, connects the database, and registers the routes.  A
  request passes the fixed headers, CORS and the authentication middleware, which turns a bearer token and the
  act-as header into the address the request runs as.  Handlers read and write the tables, the data directory and
  fmsgid; every mutation of messages runs in one transaction (\<open>Atomic\<close>).  Commits notify PostgreSQL channels; the
  WebSocket hub listens on them and passes what each connected address may see to its clients, and to Web Push.
  The \<open>api-key\<close> command creates and rotates keys from the host.

  \<^bold>\<open>State and actions.\<close>  \<open>World\<close> has the state all components share: the record \<open>database\<close>, a table per field and
  a list of rows per table, inside the record \<open>world\<close> with the files of the data directory, the cache of fmsgid
  lookups, the requests sent to fmsgid, the throttle of indicators, and the transaction in progress.  A piece of Go code that
  may end the request is an action \<open>('e, 'a) act = world \<Rightarrow> ('e + 'a) \<times> world\<close>: \<open>Inl\<close> is the response or error that ends
  it.  The record \<open>env\<close> is what the code is run with: the configuration, and as oracles indexed by a tick that every statement,
  file operation and reading of the clock advances, which statement or file operation fails, on which paths \<open>os.Stat\<close> fails, which commit
  acknowledgement is lost, the time, and the random bytes.  So a theorem about a run covers every pattern of failures.  SQL statements are functions on the
  tables; the constraints of \<open>dd.sql\<close> that the code relies on are part of them.

  \<^bold>\<open>Theories.\<close>
  \<^item> \<open>Prelude\<close>, \<open>GoStrings\<close>, \<open>GoText\<close>: shared rule collections and list lemmas; the Go string, number, hexadecimal and
    UTF-8 functions the program calls, with their round trips.
  \<^item> \<open>Json\<close>, \<open>Bodies\<close> (\<open>middleware/util.go\<close> and the structs of \<open>handlers/\<close> and \<open>models/models.go\<close> that bodies are bound
    to): what \<open>encoding/json\<close> does with a text: the scanner with its limit of nesting, strings with escapes and invalid UTF-8,
    and decoding into a typed variable that already holds a value.  What is printed is read back (\<open>parse_print\<close>), and so is a draft
    (\<open>draft_roundtrip\<close>).  \<open>ShouldBindJSON\<close> and \<open>Decode\<close> read the first value of a body, \<open>Unmarshal\<close> all of the text.
  \<^item> \<open>Emoji\<close> (\<open>internal/emoji/emoji.go\<close>, \<open>tables.go\<close>): \<open>IsPossible\<close> accepts exactly the sentences of the documented grammar.
    \<open>EmojiGen\<close> (\<open>internal/emoji/gen/main.go\<close>): the Go source that the generator writes, read by a reader of its table declarations
    (\<open>read_table\<close>), holds exactly the code points that the data file lists, comments and blank lines included.
  \<^item> \<open>ApiKey\<close>, \<open>GrantStore\<close> (\<open>internal/apiauth\<close>): keys, derived addresses, and the store of grants, its constraints and
    limits as an invariant of every operation, the exact condition under which a key validates, and revocation.
    \<open>GrantRaces\<close>: creations of grants that overlap, as an inductive relation of their statements.
  \<^item> \<open>FmsgID\<close> (\<open>middleware/jwt.go\<close>, \<open>fmsgid_usage.go\<close>): the cached client of fmsgid.
  \<^item> \<open>Auth\<close> (\<open>middleware/jwt.go\<close>, \<open>oauth.go\<close>): who a request runs as.  The interface \<open>APIKeyChecker\<close> is the locale
    \<open>key_checker\<close>, interpreted by the grant store.  A parser of tokens is a function of the time at which it is asked and the text.
  \<^item> \<open>SubAccounts\<close> (\<open>handlers/subaccounts.go\<close>, \<open>token.go\<close>, \<open>apiauth/token.go\<close>): administration of sub-accounts, and tokens.
  \<^item> \<open>Address\<close>, \<open>Models\<close>, \<open>Delivery\<close>, \<open>Compose\<close>, \<open>Messages\<close> (\<open>handlers/messages.go\<close>, \<open>quota.go\<close>, \<open>references.go\<close>,
    \<open>count.go\<close>, \<open>models/models.go\<close>): addresses and paths, rows as messages, quotas and local delivery, drafts, and all routes
    of messages.
  \<^item> \<open>Transaction\<close> (\<open>handlers/transaction.go\<close>): \<open>atomic\<close> refines one step: on success the handler's effect and its deferred work, on
    an error the tables as before.
  \<^item> \<open>Trash\<close> (\<open>handlers/trash.go\<close>, \<open>dd.sql\<close>): the trash state of a message in a mailbox with its inheritance along threads,
    equal to a recursive specification; isolation between mailboxes; restoring; removal of messages nobody holds.
  \<^item> \<open>Reactions\<close>, \<open>Attachments\<close>, \<open>Thread\<close>, \<open>Indicators\<close> (\<open>handlers/\<close> files of those names): the locale \<open>latest_wins\<close>
    gives the reactions in effect; limits and access of attachments, and when the search for a free name ends; what a thread shows and
    hides; the throttle against one that remembers everything, and what exactly is published for an indicator.
  \<^item> \<open>Hub\<close>, \<open>HubRuns\<close>, \<open>Push\<close> (\<open>handlers/hub.go\<close>, \<open>ws.go\<close>, \<open>push.go\<close>): the registry implements a set of pairs (locale
    \<open>keyed_sets\<close>); \<open>hub_step\<close> is the interleaving of connections, the listener and the writers, an inductive relation.  Its state
    records the notifications handled with the tables each found (\<open>h_log\<close>), and every frame of a reachable state answers one of them with
    what it lets the address see (\<open>frame_for\<close>); frames arrive in order, and all of them can.  Whom a push goes to.
  \<^item> \<open>Config\<close>, \<open>CommandLine\<close>, \<open>Server\<close>, \<open>Startup\<close> (\<open>cmd/fmsg-webapi\<close>, \<open>middleware/cors.go\<close>, \<open>headers.go\<close>, \<open>health.go\<close>): \<open>serve\<close> is
    routes, middleware and handlers in one function; \<open>start\<close> goes from the environment variables to the error that stops the
    process or the running server; \<open>http_serve\<close> adds headers, CORS and the health check.  \<open>db_New\<close> is \<open>internal/db\<close>.
  \<^item> \<open>Tables\<close>, \<open>Integrity\<close>: \<open>tables_ok\<close> is the well-formedness of all tables together; every statement and every handler
    keeps it, walked through with the triple \<open>tx_ok\<close>, and a GET changes nothing.
  \<^item> \<open>Refusals\<close>, \<open>Events\<close>: a body that is not the JSON its handler binds is refused without effect; what a handler publishes on
    a channel is followed, as the text on it, through the hub to the clients it reaches.

  \<^bold>\<open>Across components.\<close>  \<open>serve_authenticated\<close>: no handler runs for a request that does not authenticate.
  \<open>serve_mutation_atomic\<close>: an error answer to one of the nine routes that \<open>Atomic\<close> wraps leaves all tables as they were, except where a
  commit took effect and its acknowledgement was lost.  \<open>started_integrity\<close>: from any configuration
  that starts and through any requests the tables stay well formed.  \<open>exchanged_token_works\<close>, \<open>created_key_works\<close> and
  \<open>cli_create_works\<close>: a key made by a handler or by the command validates, and the token it is exchanged for authenticates until
  it expires, and not after.
  \<open>indicator_reaches\<close> and \<open>mailbox_events_private\<close>: an indicator reaches exactly the other participants, as it was set, and changes of a mailbox
  are announced to its owner alone.

  \<^bold>\<open>Bounds.\<close>  Integers read from requests and sums that can leave 64 bits are wrapped (\<open>wrap64\<close>), the code points of the
  generator's files 32 bits (\<open>wrap32\<close>); row ids are \<open>int\<close>.  Times are microseconds.  Walks up a thread have the bounds of the code: 1000 steps in
  \<open>fmsg_api_trash_state\<close> (\<open>max_depth\<close>), 100 messages of a lineage (\<open>threadMaxHops\<close>), 10000 for an indicator's
  thread.  Loops without a bound in the code (\<open>first_free\<close>, \<open>root_walk\<close>) are \<open>partial_function\<close>s; \<open>resolveFilePath_returns\<close> says
  exactly when the first ends: always with finitely many files and paths that \<open>os.Stat\<close> fails on, and never for a name over the file system's limit.

  \<^bold>\<open>Where the code fails open.\<close>  \<open>purgedFor\<close> takes a failed lookup for \<open>not purged\<close>; \<open>Download_access\<close> and \<open>Indicate_spec\<close> name the
  failed statement that this takes.  \<open>push_plan\<close> takes a query that breaks off for one without rows, where the code goes on with the rows it had read.

  \<^bold>\<open>Parameters.\<close>  SHA-256 and the random source; parsing, verifying and signing a JWT and Ed25519 (\<open>jwt_law\<close> states what
  is relied on: a token signed with a key is accepted with that key's public half, while its times allow it with the leeway of
  \<open>DefaultClockSkew\<close>, and refused otherwise; \<open>key_halves_match\<close> that the configured key is a pair); fmsgid's answers (a status and the text of a body); fmsgd's \<open>Finalize\<close> and \<open>FinalizeBatch\<close> (\<open>finalizer_ok\<close>); the netip, cidr, RFC 3339,
  duration and MIME parsers; Unicode letters beyond ASCII; the set of RGI emoji sequences (generated data); the Web Push transport; the WebSocket
  handshake; \<open>strconv.Quote\<close>.

  \<^bold>\<open>Not modelled.\<close>  The wording of JSON decoding errors; the router's matching of URLs and the multipart form of an upload
  (a handler takes what they give it); the pooling of connections, listening, TLS, logging, WebSocket pings and time-outs; downloading the
  Unicode files and formatting Go source.  Apart from \<open>GrantRaces\<close> and the hub, requests are served one after the other: two transactions do
  not interleave, and the row lock of \<open>atomic\<close> is a statement without effect.  Upper and lower case and white space beyond ASCII are left as they are,
  also where the names of JSON members are compared.
\<close>

end
